(* ===== verification/Prelude.thy ===== *)
theory Prelude
  imports Main "HOL-Library.Multiset" "HOL-Library.List_Lexorder" "HOL-Library.Char_ord"
    "HOL-Library.Product_Lexorder"
begin

text \<open>
  What every component theory shares: Go strings and the fragment of \<open>fmt\<close>, \<open>strings\<close>,
  \<open>sort\<close> and \<open>slices\<close> that the sources call, 64-bit signed durations, the diagnostic record
  that the pure packages all declare, and Go maps as association lists sorted by key.

  Strings are byte strings.  Go compares strings bytewise and lexicographically, which is the
  order \<open>HOL-Library.List_Lexorder\<close> gives lists of characters ordered by
  \<open>HOL-Library.Char_ord\<close>; tuples of sort keys are compared lexicographically by
  \<open>HOL-Library.Product_Lexorder\<close>.  \<open>sort.Strings\<close> is \<open>sort\<close>, and
  \<open>sort.SliceStable\<close> with a key comparison is the stable \<open>sort_key\<close>.  \<open>sort.Slice\<close>
  leaves the order of elements with equal keys open; \<open>sort_key\<close> is one of the orders it allows.
\<close>

named_theorems diag_simps \<open>which diagnostics a validation pass can emit\<close>
named_theorems gm_simps \<open>lookup and key laws of the map operations\<close>

section \<open>Strings\<close>

fun show_nat :: "nat \<Rightarrow> string" where
  "show_nat n =
     (if n < 10 then [char_of (48 + n)] else show_nat (n div 10) @ [char_of (48 + n mod 10)])"

declare show_nat.simps [simp del]

definition show_int :: "int \<Rightarrow> string" where
  "show_int i = (if i < 0 then CHR ''-'' # show_nat (nat (- i)) else show_nat (nat i))"

text \<open>The escapes of \<open>strconv.Quote\<close> (the verb \<open>%q\<close>) on ASCII; bytes of multi-byte
  printable runes pass through.\<close>

definition hex_digit :: "nat \<Rightarrow> char" where
  "hex_digit d = (if d < 10 then char_of (48 + d) else char_of (87 + d))"

definition quote_char :: "char \<Rightarrow> string" where
  "quote_char c =
     (if c = CHR 0x22 then [CHR 0x5C, CHR 0x22]
      else if c = CHR 0x5C then [CHR 0x5C, CHR 0x5C]
      else if c = CHR 0x07 then [CHR 0x5C, CHR ''a'']
      else if c = CHR 0x08 then [CHR 0x5C, CHR ''b'']
      else if c = CHR 0x0C then [CHR 0x5C, CHR ''f'']
      else if c = CHR 0x0A then [CHR 0x5C, CHR ''n'']
      else if c = CHR 0x0D then [CHR 0x5C, CHR ''r'']
      else if c = CHR 0x09 then [CHR 0x5C, CHR ''t'']
      else if c = CHR 0x0B then [CHR 0x5C, CHR ''v'']
      else if (of_char c :: nat) < 32 \<or> (of_char c :: nat) = 127
        then [CHR 0x5C, CHR ''x'', hex_digit (of_char c div 16), hex_digit (of_char c mod 16)]
      else [c])"

definition quote :: "string \<Rightarrow> string" where
  "quote s = CHR 0x22 # concat (map quote_char s) @ [CHR 0x22]"

fun join :: "string \<Rightarrow> string list \<Rightarrow> string" where
  "join sep [] = ''''"
| "join sep [s] = s"
| "join sep (s # t # ss) = s @ sep @ join sep (t # ss)"

text \<open>Case mapping of ASCII letters; the bytes of other runes pass through.\<close>

definition lower_char :: "char \<Rightarrow> char" where
  "lower_char c =
     (if 65 \<le> (of_char c :: nat) \<and> (of_char c :: nat) \<le> 90 then char_of ((of_char c :: nat) + 32) else c)"

definition toLower :: "string \<Rightarrow> string" where
  "toLower s = map lower_char s"

definition upper_char :: "char \<Rightarrow> char" where
  "upper_char c =
     (if 97 \<le> (of_char c :: nat) \<and> (of_char c :: nat) \<le> 122 then char_of ((of_char c :: nat) - 32) else c)"

definition toUpper :: "string \<Rightarrow> string" where
  "toUpper s = map upper_char s"

section \<open>Sorting and sets of strings\<close>

definition sortedUnique :: "'a::linorder list \<Rightarrow> 'a list" where
  "sortedUnique xs = remdups_adj (sort xs)"

definition sortedSetKeys :: "'a::linorder set \<Rightarrow> 'a list" where
  "sortedSetKeys S = sorted_list_of_set S"

lemma set_sortedUnique [simp]: "set (sortedUnique xs) = set xs"
  by (simp add: sortedUnique_def)

lemma sorted_sortedUnique [simp]: "sorted (sortedUnique xs)"
  by (simp add: sortedUnique_def sorted_remdups_adj)

lemma distinct_remdups_adj_sorted: "sorted xs \<Longrightarrow> distinct (remdups_adj xs)"
proof (induction xs rule: remdups_adj.induct)
  case (3 x y xs)
  show ?case
  proof (cases "x = y")
    case True
    with 3 show ?thesis by simp
  next
    case False
    with "3.prems" have lt: "\<forall>z \<in> set (y # xs). x < z" by auto
    have "distinct (remdups_adj (y # xs))" using 3 False by simp
    moreover have "x \<notin> set (remdups_adj (y # xs))" using lt by auto
    ultimately show ?thesis using False by simp
  qed
qed simp_all

lemma distinct_sortedUnique [simp]: "distinct (sortedUnique xs)"
  by (simp add: sortedUnique_def distinct_remdups_adj_sorted)

lemma sortedUnique_eq_sorted_list_of_set: "sortedUnique xs = sorted_list_of_set (set xs)"
  by (rule sorted_distinct_set_unique) simp_all

lemma sortedUnique_cong: "set xs = set ys \<Longrightarrow> sortedUnique xs = sortedUnique ys"
  by (simp add: sortedUnique_eq_sorted_list_of_set)

lemma set_sortedSetKeys [simp]: "finite S \<Longrightarrow> set (sortedSetKeys S) = S"
  by (simp add: sortedSetKeys_def)

lemma sort_Nil_iff [simp]: "sort xs = [] \<longleftrightarrow> xs = []"
  by (metis length_0_conv length_sort)

lemma map_sort_key: "map f (sort_key f xs) = sort (map f xs)"
  by (rule sym, rule properties_for_sort) simp_all

lemma distinct_map_mset: "mset xs = mset ys \<Longrightarrow> distinct (map f xs) \<longleftrightarrow> distinct (map f ys)"
  by (metis mset_eq_imp_distinct_iff mset_map)

text \<open>A stable sort by a key that is injective on the elements is determined by their multiset.\<close>

lemma sort_key_mset_eq:
  assumes "mset xs = mset ys" and "inj_on f (set xs)"
  shows "sort_key f xs = sort_key f ys"
proof (rule properties_for_sort_key)
  show "mset (sort_key f ys) = mset xs" using assms(1) by simp
  show "sorted (map f (sort_key f ys))" by simp
  show "filter (\<lambda>x. f k = f x) (sort_key f ys) = filter (\<lambda>x. f k = f x) xs"
    if "k \<in> set (sort_key f ys)" for k
  proof -
    have sets: "set xs = set ys" using assms(1) by (metis set_mset_mset)
    have rep: "filter (\<lambda>z. f k = f z) zs = replicate (count_list zs k) k"
      if "set zs \<subseteq> set xs" for zs
      using that
    proof (induction zs)
      case (Cons z zs)
      have "f k = f z \<longleftrightarrow> k = z"
        using Cons.prems \<open>k \<in> set (sort_key f ys)\<close> assms(2) sets by (auto dest: inj_onD)
      with Cons show ?case by auto
    qed simp
    have "count_list (sort_key f ys) k = count_list xs k"
      using assms(1) by (metis count_mset mset_sort)
    then show ?thesis using rep [of "sort_key f ys"] rep [of xs] sets by simp
  qed
qed

section \<open>Lists of uniquely named elements\<close>

lemma find_unique: "distinct (map f xs) \<Longrightarrow> x \<in> set xs \<Longrightarrow> find (\<lambda>y. f y = f x) xs = Some x"
  by (induction xs) (auto simp: image_iff)

lemma filter_unique: "distinct (map f xs) \<Longrightarrow> x \<in> set xs \<Longrightarrow> filter (\<lambda>y. f y = f x) xs = [x]"
  by (induction xs) (auto simp: filter_empty_conv image_iff)

lemma find_name_None: "find (\<lambda>y. f y = k) xs = None \<longleftrightarrow> k \<notin> f ` set xs"
  by (auto simp: find_None_iff)

lemma set_map_filter: "set (List.map_filter f xs) = {y. \<exists>x \<in> set xs. f x = Some y}"
  by (induction xs) (auto simp: List.map_filter_simps split: option.splits)

section \<open>Signed 64-bit arithmetic\<close>

text \<open>\<open>time.Duration\<close> and \<open>int64\<close> values are integers in the signed 64-bit range; additions
  wrap around.\<close>

type_synonym duration = int

definition wrap64 :: "int \<Rightarrow> int" where
  "wrap64 x = (x + 2 ^ 63) mod 2 ^ 64 - 2 ^ 63"

definition int64 :: "int \<Rightarrow> bool" where
  "int64 x \<longleftrightarrow> - (2 ^ 63) \<le> x \<and> x < 2 ^ 63"

definition add64 :: "int \<Rightarrow> int \<Rightarrow> int" where
  "add64 a b = wrap64 (a + b)"

lemma wrap64_id [simp]: "int64 x \<Longrightarrow> wrap64 x = x"
  by (simp add: wrap64_def int64_def)

lemma int64_wrap64 [simp]: "int64 (wrap64 x)"
proof -
  have "0 \<le> (x + 2 ^ 63) mod 2 ^ 64" and "(x + 2 ^ 63) mod 2 ^ 64 < 2 ^ 64" by simp_all
  then show ?thesis unfolding wrap64_def int64_def by (simp only: power_numeral) simp
qed

lemma wrap64_add_left: "wrap64 (wrap64 a + b) = wrap64 (a + b)"
proof -
  have "(((a + 2 ^ 63) mod 2 ^ 64 - 2 ^ 63) + b + 2 ^ 63) mod 2 ^ 64
      = ((a + 2 ^ 63) mod 2 ^ 64 + b) mod (2 ^ 64 :: int)" by simp
  also have "\<dots> = (a + 2 ^ 63 + b) mod 2 ^ 64" by (rule mod_add_left_eq)
  also have "\<dots> = (a + b + 2 ^ 63) mod 2 ^ 64" by (simp add: ac_simps)
  finally show ?thesis by (simp add: wrap64_def)
qed

lemma add64_exact: "int64 (a + b) \<Longrightarrow> add64 a b = a + b"
  by (simp add: add64_def)

text \<open>\<open>int32\<close> values likewise.\<close>

definition wrap32 :: "int \<Rightarrow> int" where
  "wrap32 x = (x + 2 ^ 31) mod 2 ^ 32 - 2 ^ 31"

definition int32 :: "int \<Rightarrow> bool" where
  "int32 x \<longleftrightarrow> - (2 ^ 31) \<le> x \<and> x < 2 ^ 31"

lemma wrap32_id [simp]: "int32 x \<Longrightarrow> wrap32 x = x"
  by (simp add: wrap32_def int32_def)

section \<open>Diagnostics\<close>

text \<open>\<open>Diagnostic\<close> of the packages planner, trigger, inventory, capability, adaptive and
  telemetry: four strings.\<close>

record Diagnostic =
  Severity :: string
  Reason :: string
  Subject :: string
  Message :: string

abbreviation "DiagnosticError \<equiv> ''Error''"
abbreviation "DiagnosticWarning \<equiv> ''Warning''"
abbreviation "DiagnosticInfo \<equiv> ''Info''"

definition diag :: "string \<Rightarrow> string \<Rightarrow> string \<Rightarrow> string \<Rightarrow> Diagnostic" where
  "diag sev reason subject msg =
     \<lparr>Severity = sev, Reason = reason, Subject = subject, Message = msg\<rparr>"

definition hasError :: "Diagnostic list \<Rightarrow> bool" where
  "hasError ds = list_ex (\<lambda>d. Severity d = DiagnosticError) ds"

lemma hasError_Nil [simp]: "\<not> hasError []"
  by (simp add: hasError_def)

lemma hasError_Cons [simp]: "hasError (d # ds) \<longleftrightarrow> Severity d = DiagnosticError \<or> hasError ds"
  by (simp add: hasError_def)

lemma hasError_append [simp]: "hasError (xs @ ys) \<longleftrightarrow> hasError xs \<or> hasError ys"
  by (simp add: hasError_def)

lemma hasError_iff: "hasError ds \<longleftrightarrow> (\<exists>d \<in> set ds. Severity d = DiagnosticError)"
  by (auto simp: hasError_def list_ex_iff)

lemma diag_sel [simp]:
  "Severity (diag a b c d) = a" "Reason (diag a b c d) = b"
  "Subject (diag a b c d) = c" "Message (diag a b c d) = d"
  by (simp_all add: diag_def)

lemma hasError_concat: "hasError (concat dss) \<longleftrightarrow> (\<exists>ds \<in> set dss. hasError ds)"
  by (auto simp: hasError_iff)

lemma hasError_map: "hasError (map f xs) \<longleftrightarrow> (\<exists>x \<in> set xs. Severity (f x) = DiagnosticError)"
  by (simp add: hasError_iff)

end
