(* ===== verification/GoMap.thy ===== *)
theory GoMap
  imports Prelude
begin

text \<open>
  Go maps that the sources range over are association lists kept sorted by key, so that ranging
  visits the keys in ascending order (one of the orders Go may choose; every loop modelled here
  sorts what it collected, or folds with an order-independent result).  The interface the
  components rely on is the locale \<open>keyed_map\<close>: what a lookup returns after a store or a
  delete, and that the key list enumerates the domain once.  Its lemmas on folds cover the three
  loop shapes of the sources: last writer wins, delete a batch of keys, and append to the slice
  stored under a key.
\<close>

type_synonym ('k, 'v) gmap = "('k \<times> 'v) list"

fun gm_put :: "'k::linorder \<Rightarrow> 'v \<Rightarrow> ('k, 'v) gmap \<Rightarrow> ('k, 'v) gmap" where
  "gm_put k v [] = [(k, v)]"
| "gm_put k v ((k', v') # m) =
     (if k < k' then (k, v) # (k', v') # m
      else if k = k' then (k, v) # m
      else (k', v') # gm_put k v m)"

definition gm_del :: "'k \<Rightarrow> ('k, 'v) gmap \<Rightarrow> ('k, 'v) gmap" where
  "gm_del k m = filter (\<lambda>e. fst e \<noteq> k) m"

definition gm_keys :: "('k, 'v) gmap \<Rightarrow> 'k list" where
  "gm_keys m = map fst m"

definition gm_wf :: "('k::linorder, 'v) gmap \<Rightarrow> bool" where
  "gm_wf m = sorted_wrt (<) (map fst m)"

text \<open>A missing key yields the zero value of the value type.\<close>

definition gm_list :: "('k, 'v list) gmap \<Rightarrow> 'k \<Rightarrow> 'v list" where
  "gm_list m k = (case map_of m k of None \<Rightarrow> [] | Some l \<Rightarrow> l)"

definition gm_string :: "('k, string) gmap \<Rightarrow> 'k \<Rightarrow> string" where
  "gm_string m k = (case map_of m k of None \<Rightarrow> [] | Some s \<Rightarrow> s)"

definition gm_int :: "('k, int) gmap \<Rightarrow> 'k \<Rightarrow> int" where
  "gm_int m k = (case map_of m k of None \<Rightarrow> 0 | Some i \<Rightarrow> i)"

definition gm_append :: "'k::linorder \<Rightarrow> 'v \<Rightarrow> ('k, 'v list) gmap \<Rightarrow> ('k, 'v list) gmap" where
  "gm_append k v m = gm_put k (gm_list m k @ [v]) m"

section \<open>The interface\<close>

locale keyed_map =
  fixes get :: "'m \<Rightarrow> 'k::linorder \<Rightarrow> 'v option"
    and put :: "'k \<Rightarrow> 'v \<Rightarrow> 'm \<Rightarrow> 'm"
    and del :: "'k \<Rightarrow> 'm \<Rightarrow> 'm"
    and keys :: "'m \<Rightarrow> 'k list"
    and nothing :: 'm
    and inv :: "'m \<Rightarrow> bool"
  assumes get_nothing: "get nothing k = None"
    and get_put: "inv m \<Longrightarrow> get (put k v m) = (get m)(k \<mapsto> v)"
    and get_del: "inv m \<Longrightarrow> get (del k m) = (get m)(k := None)"
    and set_keys: "inv m \<Longrightarrow> set (keys m) = dom (get m)"
    and keys_sorted: "inv m \<Longrightarrow> sorted_wrt (<) (keys m)"
    and inv_nothing: "inv nothing"
    and inv_put: "inv m \<Longrightarrow> inv (put k v m)"
    and inv_del: "inv m \<Longrightarrow> inv (del k m)"
begin

lemma keys_eq: "inv m \<Longrightarrow> keys m = sorted_list_of_set (dom (get m))"
  using keys_sorted [of m] set_keys [of m]
  by (metis sorted_list_of_set.idem_if_sorted_distinct strict_sorted_iff)

lemma keys_determined:
  "\<lbrakk>inv m; inv m'; dom (get m) = dom (get m')\<rbrakk> \<Longrightarrow> keys m = keys m'"
  by (simp add: keys_eq)

lemma inv_fold_put: "inv m \<Longrightarrow> inv (fold (\<lambda>x. put (f x) (g x)) xs m)"
  by (induction xs arbitrary: m) (auto intro: inv_put)

lemma get_fold_put:
  "inv m \<Longrightarrow> get (fold (\<lambda>x. put (f x) (g x)) xs m) k =
     (if k \<in> f ` set xs then Some (g (last (filter (\<lambda>x. f x = k) xs))) else get m k)"
proof (induction xs arbitrary: m)
  case (Cons x xs)
  have none: "filter (\<lambda>y. f y = k) xs = []" if "k \<notin> f ` set xs"
    using that by (auto simp: filter_empty_conv)
  have some: "filter (\<lambda>y. f y = k) xs \<noteq> []" if "k \<in> f ` set xs"
    using that by (auto simp: filter_empty_conv)
  show ?case
    using Cons.IH [of "put (f x) (g x) m"] Cons.prems none some
    by (auto simp: get_put inv_put)
qed simp

lemma dom_fold_put:
  "inv m \<Longrightarrow> dom (get (fold (\<lambda>x. put (f x) (g x)) xs m)) = dom (get m) \<union> f ` set xs"
  by (auto simp: get_fold_put dom_def)

lemma inv_fold_del: "inv m \<Longrightarrow> inv (fold del ks m)"
  by (induction ks arbitrary: m) (auto intro: inv_del)

lemma get_fold_del: "inv m \<Longrightarrow> get (fold del ks m) k = (if k \<in> set ks then None else get m k)"
  by (induction ks arbitrary: m) (auto simp: get_del inv_del)

end

text \<open>Maps whose values are slices, with Go's append-in-place idiom.\<close>

locale keyed_list_map = keyed_map get put del keys nothing inv
  for get :: "'m \<Rightarrow> 'k::linorder \<Rightarrow> 'w list option" and put del keys nothing inv +
  fixes app :: "'k \<Rightarrow> 'w \<Rightarrow> 'm \<Rightarrow> 'm"
  assumes app_put:
    "inv m \<Longrightarrow> app k w m = put k ((case get m k of None \<Rightarrow> [] | Some l \<Rightarrow> l) @ [w]) m"
begin

lemma inv_app: "inv m \<Longrightarrow> inv (app k w m)"
  by (simp add: app_put inv_put)

lemma inv_fold_app: "inv m \<Longrightarrow> inv (fold (\<lambda>x. app (f x) (g x)) xs m)"
  by (induction xs arbitrary: m) (auto intro: inv_app)

lemma get_fold_app:
  "inv m \<Longrightarrow> get (fold (\<lambda>x. app (f x) (g x)) xs m) k =
     (if k \<in> f ` set xs
      then Some ((case get m k of None \<Rightarrow> [] | Some l \<Rightarrow> l) @ map g (filter (\<lambda>x. f x = k) xs))
      else get m k)"
proof (induction xs arbitrary: m)
  case (Cons x xs)
  have none: "filter (\<lambda>y. f y = k) xs = []" if "k \<notin> f ` set xs"
    using that by (auto simp: filter_empty_conv)
  show ?case
    using Cons.IH [of "app (f x) (g x) m"] Cons.prems none
    by (auto simp: app_put get_put inv_put split: option.splits)
qed simp

lemma get_group_by:
  "get (fold (\<lambda>x. app (f x) (g x)) xs nothing) k =
     (if k \<in> f ` set xs then Some (map g (filter (\<lambda>x. f x = k) xs)) else None)"
  by (simp add: get_fold_app inv_nothing get_nothing)

lemma dom_group_by: "dom (get (fold (\<lambda>x. app (f x) (g x)) xs nothing)) = f ` set xs"
  by (auto simp: get_group_by dom_def)

end

section \<open>Sorted association lists provide it\<close>

lemma map_of_gm_put [simp, gm_simps]: "map_of (gm_put k v m) = (map_of m)(k \<mapsto> v)"
  by (induction k v m rule: gm_put.induct) auto

lemma map_of_gm_del [simp, gm_simps]: "map_of (gm_del k m) = (map_of m)(k := None)"
  by (induction m) (auto simp: gm_del_def)

lemma set_keys_gm_put: "fst ` set (gm_put k v m) = insert k (fst ` set m)"
  by (induction k v m rule: gm_put.induct) auto

lemma gm_wf_Nil [simp]: "gm_wf []"
  by (simp add: gm_wf_def)

lemma gm_wf_put [simp, intro]: "gm_wf m \<Longrightarrow> gm_wf (gm_put k v m)"
  by (induction k v m rule: gm_put.induct) (auto simp: gm_wf_def set_keys_gm_put)

lemma gm_wf_del [simp, intro]: "gm_wf m \<Longrightarrow> gm_wf (gm_del k m)"
  by (induction m) (auto simp: gm_wf_def gm_del_def)

interpretation gm: keyed_map map_of gm_put gm_del gm_keys "[]" gm_wf
  by unfold_locales (auto simp: gm_keys_def dom_map_of_conv_image_fst, simp add: gm_wf_def)

interpretation gml: keyed_list_map map_of gm_put gm_del gm_keys "[]" gm_wf gm_append
  by unfold_locales (simp add: gm_append_def gm_list_def)

lemma gm_list_append [simp, gm_simps]:
  "gm_list (gm_append k v m) k' = (if k' = k then gm_list m k @ [v] else gm_list m k')"
  by (simp add: gm_list_def gm_append_def)

lemma gm_list_group_by [gm_simps]:
  "gm_list (fold (\<lambda>x. gm_append (f x) (g x)) xs []) k = map g (filter (\<lambda>x. f x = k) xs)"
  by (auto simp: gm_list_def gml.get_group_by filter_empty_conv split: option.splits)

lemma gm_keys_put [simp]: "gm_wf m \<Longrightarrow> set (gm_keys (gm_put k v m)) = insert k (set (gm_keys m))"
  by (simp add: gm.set_keys gm_wf_put)

lemma gm_wf_distinct: "gm_wf m \<Longrightarrow> distinct (gm_keys m)"
  by (simp add: gm_keys_def gm_wf_def strict_sorted_iff)

lemma gm_lookup_entry: "gm_wf m \<Longrightarrow> (k, v) \<in> set m \<Longrightarrow> map_of m k = Some v"
  using gm_wf_distinct [of m] by (simp add: gm_keys_def)

lemma gm_values: "gm_wf m \<Longrightarrow> snd ` set m = ran (map_of m)"
  using gm_wf_distinct [of m] by (simp add: gm_keys_def ran_distinct)

text \<open>A well-formed map is determined by its lookups.\<close>

lemma gm_entries: "gm_wf m \<Longrightarrow> m = map (\<lambda>k. (k, the (map_of m k))) (gm_keys m)"
proof -
  assume "gm_wf m"
  then have "distinct (map fst m)" using gm_wf_distinct by (auto simp: gm_keys_def)
  then have "\<forall>e \<in> set m. (fst e, the (map_of m (fst e))) = e" by auto
  then show ?thesis by (simp add: gm_keys_def map_idI comp_def)
qed

lemma gm_eqI:
  assumes "gm_wf m" and "gm_wf m'" and "map_of m = map_of m'"
  shows "m = m'"
  using gm_entries [OF assms(1)] gm_entries [OF assms(2)] gm.keys_determined [OF assms(1,2)] assms(3)
  by metis

end
