(* ===== verification/Digraph.thy ===== *)
theory Digraph
  imports Prelude
begin

text \<open>
  Finite directed graphs given by a successor function, as the sources walk them: the inventory
  follows feeds edges, the planner follows carries edges and the ordering edges of a plan.  The
  locale \<open>succ_graph\<close> is the interface of a graph whose edges stay inside a finite vertex set;
  it gives the facts on reachability and on cycles that the correctness proofs of the walks share.
\<close>

definition succ_rel :: "('a \<Rightarrow> 'a list) \<Rightarrow> ('a \<times> 'a) set" where
  "succ_rel succ = {(u, v). v \<in> set (succ u)}"

definition closed_under :: "('a \<Rightarrow> 'a list) \<Rightarrow> 'a set \<Rightarrow> bool" where
  "closed_under succ S \<longleftrightarrow> (\<forall>x \<in> S. set (succ x) \<subseteq> S)"

definition cycle_free_on :: "('a \<Rightarrow> 'a list) \<Rightarrow> 'a set \<Rightarrow> bool" where
  "cycle_free_on succ S \<longleftrightarrow> acyclic (succ_rel succ \<inter> S \<times> S)"

lemma succ_rel_iff [simp]: "(u, v) \<in> succ_rel succ \<longleftrightarrow> v \<in> set (succ u)"
  by (simp add: succ_rel_def)

lemma closed_under_reach:
  assumes "closed_under succ S" and "u \<in> S" and "(u, v) \<in> (succ_rel succ)\<^sup>*"
  shows "v \<in> S"
  using assms(3,2) by (induction rule: rtrancl_induct) (use assms(1) in \<open>auto simp: closed_under_def\<close>)

lemma closed_under_empty [simp]: "closed_under succ {}"
  by (simp add: closed_under_def)

lemma cycle_free_on_empty [simp]: "cycle_free_on succ {}"
  by (simp add: cycle_free_on_def acyclic_def)

lemma closed_under_insert:
  "closed_under succ S \<Longrightarrow> set (succ x) \<subseteq> S \<Longrightarrow> closed_under succ (insert x S)"
  by (auto simp: closed_under_def)

text \<open>When every edge ends in \<open>S\<close>, a cycle lies in \<open>S\<close>.\<close>

lemma acyclic_extend:
  assumes acyc: "acyclic Q"
    and into: "\<And>u v. (u, v) \<in> R \<Longrightarrow> v \<in> S"
    and inside: "\<And>u v. (u, v) \<in> R \<Longrightarrow> u \<in> S \<Longrightarrow> (u, v) \<in> Q"
  shows "acyclic R"
proof (rule acyclicI, intro allI notI)
  have lift: "v \<in> S \<and> (u \<in> S \<longrightarrow> (u, v) \<in> Q\<^sup>+)" if "(u, v) \<in> R\<^sup>+" for u v
    using that
  proof (induction rule: trancl_induct)
    case (base v)
    then show ?case using into [of u v] inside [of u v] by (blast intro: r_into_trancl)
  next
    case (step v w)
    then have "(v, w) \<in> Q" using inside by blast
    with step show ?case using into [of v w] by (blast intro: trancl_into_trancl)
  qed
  fix u
  assume "(u, u) \<in> R\<^sup>+"
  with lift [of u u] have "(u, u) \<in> Q\<^sup>+" by blast
  with acyc show False by (simp add: acyclic_def)
qed

text \<open>A vertex whose successors are all finished joins the finished set without closing a cycle.\<close>

lemma cycle_free_on_insert:
  assumes closed: "closed_under succ S" and free: "cycle_free_on succ S"
    and fin: "set (succ x) \<subseteq> S" and fresh: "x \<notin> S"
  shows "cycle_free_on succ (insert x S)"
  unfolding cycle_free_on_def
proof (rule acyclic_extend [OF free [unfolded cycle_free_on_def], where S = S])
  fix u v
  assume e: "(u, v) \<in> succ_rel succ \<inter> insert x S \<times> insert x S"
  then show v: "v \<in> S" using closed fin by (auto simp: closed_under_def)
  assume "u \<in> S"
  with e v show "(u, v) \<in> succ_rel succ \<inter> S \<times> S" by simp
qed

text \<open>A set of vertices in which each has a predecessor inside the set contains a cycle.\<close>

lemma no_source_cyclic:
  assumes "finite S" and "S \<noteq> {}" and "\<forall>v \<in> S. \<exists>u \<in> S. v \<in> set (succ u)"
  shows "\<not> cycle_free_on succ S"
proof
  assume "cycle_free_on succ S"
  then have "wf (succ_rel succ \<inter> S \<times> S)"
    using assms(1) by (simp add: cycle_free_on_def finite_acyclic_wf)
  then obtain v where "v \<in> S" and least: "\<And>u. (u, v) \<in> succ_rel succ \<inter> S \<times> S \<Longrightarrow> u \<notin> S"
    using assms(2) by (metis wfE_min ex_in_conv)
  from assms(3) \<open>v \<in> S\<close> obtain u where "u \<in> S" and "v \<in> set (succ u)" by blast
  with least [of u] \<open>v \<in> S\<close> show False by simp
qed

lemma cycle_free_on_subset: "cycle_free_on succ S \<Longrightarrow> T \<subseteq> S \<Longrightarrow> cycle_free_on succ T"
  unfolding cycle_free_on_def by (erule acyclic_subset) auto

lemma cycle_free_on_UNIV: "cycle_free_on succ UNIV \<longleftrightarrow> acyclic (succ_rel succ)"
  by (simp add: cycle_free_on_def)

section \<open>Graphs inside a finite vertex set\<close>

locale succ_graph =
  fixes V :: "'a set" and succ :: "'a \<Rightarrow> 'a list"
  assumes finite_V: "finite V"
    and succ_in_V: "set (succ v) \<subseteq> V"
begin

lemma reach_in_V:
  assumes "(u, v) \<in> (succ_rel succ)\<^sup>*"
  shows "v = u \<or> v \<in> V"
  using assms by (cases rule: rtrancl.cases) (use succ_in_V in auto)

lemma finite_reach: "finite {v. (u, v) \<in> (succ_rel succ)\<^sup>*}"
  by (rule finite_subset [of _ "insert u V"]) (use reach_in_V finite_V in auto)

text \<open>The depth of a walk is bounded by the vertices it has not entered yet.\<close>

lemma fresh_decreases:
  "x \<notin> M \<Longrightarrow> card (insert x V - insert x M) < card (insert x V - M)"
  using finite_V by (intro psubset_card_mono) auto

lemma fresh_succ:
  assumes "y \<in> set (succ x)"
  shows "insert y V - insert x M \<subseteq> insert x V - insert x M"
  using assms succ_in_V by auto

text \<open>Every cycle lies inside the vertex set, so a finished walk over it decides acyclicity.\<close>

lemma acyclic_iff_on_V: "acyclic (succ_rel succ) \<longleftrightarrow> cycle_free_on succ V"
proof
  assume "acyclic (succ_rel succ)"
  then show "cycle_free_on succ V" by (auto simp: cycle_free_on_def intro: acyclic_subset)
next
  assume free: "cycle_free_on succ V"
  show "acyclic (succ_rel succ)"
  proof (rule acyclic_extend [OF free [unfolded cycle_free_on_def], where S = V])
    show "v \<in> V" if "(u, v) \<in> succ_rel succ" for u v
      using that succ_in_V [of u] by auto
    then show "(u, v) \<in> succ_rel succ \<inter> V \<times> V" if "(u, v) \<in> succ_rel succ" "u \<in> V" for u v
      using that by auto
  qed
qed

end

end
