(* ===== verification/Inventory.thy ===== *)
theory Inventory
  imports GoMap Digraph "HOL-Library.Sublist"
begin

text \<open>
  The inventory compiler, \<open>src/internal/inventory/compiler.go\<close> and \<open>types.go\<close>: a snapshot
  of entities (UPS roots, nodes, power infrastructure) and edges (\<open>feeds\<close> for power,
  \<open>carries\<close> for communication) is normalized, validated and turned into a topology of power
  domains and communication orders.

  SHA-256 over JSON (\<open>stableHash\<close>) is a parameter: the record \<open>inventory_hash\<close> holds one
  function per hashed type, \<open>None\<close> being an encoding failure.  The recursive closures of
  \<open>feedsClosure\<close> and \<open>feedCycleDiagnostics\<close> are functions with fuel; the fuel used, two more
  than the number of feeds edges, is shown to be enough by the lemmas \<open>closure_walk_total\<close> and
  \<open>cycle_walk_total\<close>.
\<close>

section \<open>Data\<close>

type_synonym EntityKind = string

abbreviation "EntityKindUPSDevice \<equiv> ''UPSDevice''"
abbreviation "EntityKindNode \<equiv> ''Node''"
abbreviation "EntityKindPowerInfrastructure \<equiv> ''PowerInfrastructure''"

record Entity =
  en_ID :: string
  en_Kind :: EntityKind
  en_PowerDomains :: "string list"
  en_PowerPlanningExempt :: bool
  en_CommunicationPathExempt :: bool
  en_Model :: string
  en_Firmware :: string
  en_DriverFamily :: string
  en_ShutdownTier :: "int option"
  en_LastDitchRole :: string
  en_ControlPlane :: bool
  en_ControlPlaneQuorumMember :: bool

abbreviation "EdgeRelationFeeds \<equiv> ''feeds''"
abbreviation "EdgeRelationCarries \<equiv> ''carries''"

record Edge =
  ed_From :: string
  ed_To :: string
  ed_Relation :: string
  ed_Input :: string
  ed_SourceID :: string

record Snapshot =
  sn_SourceID :: string
  sn_Version :: string
  sn_ObservedAt :: string
  sn_Entities :: "Entity list"
  sn_Edges :: "Edge list"

record PowerDomain =
  pd_Name :: string
  pd_UPSDevices :: "string list"
  pd_Members :: "string list"
  pd_Nodes :: "string list"
  pd_Infrastructure :: "string list"

record DerivedEdge =
  de_From :: string
  de_To :: string
  de_Reason :: string
  de_Source :: string

record Topology =
  to_Hash :: string
  to_Domains :: "PowerDomain list"
  to_CommunicationOrders :: "DerivedEdge list"
  to_Entities :: "Entity list"
  to_Edges :: "Edge list"

datatype inventory_error = InventoryRejected | InventoryHashFailed string

record inventory_hash =
  hash_snapshot :: "Snapshot \<Rightarrow> string option"
  hash_order :: "DerivedEdge \<Rightarrow> string option"

section \<open>Normalization\<close>

definition normalizeEntity :: "Entity \<Rightarrow> Entity" where
  "normalizeEntity e = e\<lparr>en_PowerDomains := sort (en_PowerDomains e)\<rparr>"

definition normalizeSnapshot :: "Snapshot \<Rightarrow> Snapshot" where
  "normalizeSnapshot s =
     \<lparr>sn_SourceID = sn_SourceID s, sn_Version = sn_Version s, sn_ObservedAt = sn_ObservedAt s,
      sn_Entities = sort_key (\<lambda>e. (en_ID e, en_Kind e)) (map normalizeEntity (sn_Entities s)),
      sn_Edges = sort_key (\<lambda>e. (ed_Relation e, ed_From e, ed_To e, ed_Input e, ed_SourceID e)) (sn_Edges s)\<rparr>"

definition validEntityKind :: "EntityKind \<Rightarrow> bool" where
  "validEntityKind k = (k \<in> {EntityKindUPSDevice, EntityKindNode, EntityKindPowerInfrastructure})"

definition validEdgeRelation :: "string \<Rightarrow> bool" where
  "validEdgeRelation r = (r \<in> {EdgeRelationFeeds, EdgeRelationCarries})"

definition entitiesByID :: "Entity list \<Rightarrow> (string, Entity) gmap" where
  "entitiesByID es = fold (\<lambda>e. gm_put (en_ID e) e) es []"

definition edgesByFrom :: "Edge list \<Rightarrow> string \<Rightarrow> (string, Edge list) gmap" where
  "edgesByFrom es rel =
     map (\<lambda>(k, group). (k, sort_key ed_To group))
       (fold (\<lambda>e. gm_append (ed_From e) e) (filter (\<lambda>e. ed_Relation e = rel) es) [])"

definition inventory_sortedUnique :: "string list \<Rightarrow> string list" where
  "inventory_sortedUnique vs = remdups_adj (filter (\<lambda>v. v \<noteq> '''') (sort vs))"

section \<open>Walks over the feeds graph\<close>

definition feeds_succ :: "(string, Edge list) gmap \<Rightarrow> string \<Rightarrow> string list" where
  "feeds_succ feeds v = map ed_To (gm_list feeds v)"

definition feeds_fuel :: "(string, Edge list) gmap \<Rightarrow> nat" where
  "feeds_fuel feeds = length (concat (map snd feeds)) + 2"

type_synonym closure_state = "string set \<times> string list"

fun closure_walk :: "nat \<Rightarrow> (string, Edge list) gmap \<Rightarrow> string \<Rightarrow> closure_state \<Rightarrow> closure_state option"
  and closure_walks :: "nat \<Rightarrow> (string, Edge list) gmap \<Rightarrow> string list \<Rightarrow> closure_state \<Rightarrow> closure_state option" where
  "closure_walk 0 feeds v st = None"
| "closure_walk (Suc n) feeds v (visited, members) =
     (if v \<in> visited then Some (visited, members)
      else closure_walks n feeds (feeds_succ feeds v) (insert v visited, members @ [v]))"
| "closure_walks n feeds [] st = Some st"
| "closure_walks n feeds (x # xs) st =
     (case closure_walk n feeds x st of
        None \<Rightarrow> None
      | Some st' \<Rightarrow> closure_walks n feeds xs st')"

definition feedsClosure :: "string \<Rightarrow> (string, Edge list) gmap \<Rightarrow> string list" where
  "feedsClosure root feeds =
     (case closure_walk (feeds_fuel feeds) feeds root ({}, []) of
        None \<Rightarrow> []
      | Some (visited, members) \<Rightarrow> sort members)"

fun cyclePath :: "string list \<Rightarrow> string \<Rightarrow> string list" where
  "cyclePath [] repeated = [repeated, repeated]"
| "cyclePath (v # stack) repeated =
     (if v = repeated then v # stack @ [repeated] else cyclePath stack repeated)"

record cycle_state =
  cs_diagnostics :: "Diagnostic list"
  cs_visited :: "string set"
  cs_visiting :: "string set"
  cs_stack :: "string list"

definition feedsCycleDiagnostic :: "string list \<Rightarrow> string \<Rightarrow> Diagnostic" where
  "feedsCycleDiagnostic stack v =
     diag DiagnosticError ''FeedsCycle'' v
       (''feeds graph contains a cycle: '' @ join '' -> '' (cyclePath stack v))"

fun cycle_walk :: "nat \<Rightarrow> (string, Edge list) gmap \<Rightarrow> string \<Rightarrow> cycle_state \<Rightarrow> cycle_state option"
  and cycle_walks :: "nat \<Rightarrow> (string, Edge list) gmap \<Rightarrow> string list \<Rightarrow> cycle_state \<Rightarrow> cycle_state option" where
  "cycle_walk 0 feeds v st = None"
| "cycle_walk (Suc n) feeds v st =
     (if v \<in> cs_visiting st
      then Some (st\<lparr>cs_diagnostics := cs_diagnostics st @ [feedsCycleDiagnostic (cs_stack st) v]\<rparr>)
      else if v \<in> cs_visited st then Some st
      else (case cycle_walks n feeds (feeds_succ feeds v)
                   (st\<lparr>cs_visiting := insert v (cs_visiting st), cs_stack := cs_stack st @ [v]\<rparr>) of
              None \<Rightarrow> None
            | Some st' \<Rightarrow>
                Some (st'\<lparr>cs_stack := butlast (cs_stack st'),
                          cs_visiting := cs_visiting st' - {v},
                          cs_visited := insert v (cs_visited st')\<rparr>)))"
| "cycle_walks n feeds [] st = Some st"
| "cycle_walks n feeds (x # xs) st =
     (case cycle_walk n feeds x st of
        None \<Rightarrow> None
      | Some st' \<Rightarrow> cycle_walks n feeds xs st')"

definition feedCycleDiagnostics :: "Edge list \<Rightarrow> Diagnostic list" where
  "feedCycleDiagnostics es =
     (let feeds = edgesByFrom es EdgeRelationFeeds in
      case cycle_walks (feeds_fuel feeds) feeds (gm_keys feeds)
             \<lparr>cs_diagnostics = [], cs_visited = {}, cs_visiting = {}, cs_stack = []\<rparr> of
        None \<Rightarrow> []
      | Some st \<Rightarrow> cs_diagnostics st)"

section \<open>Validation\<close>

definition validateEntity :: "Entity \<Rightarrow> bool \<Rightarrow> Diagnostic list" where
  "validateEntity e dup =
     (if dup then [diag DiagnosticError ''DuplicateEntity'' (en_ID e)
        (''inventory entity '' @ quote (en_ID e) @ '' is duplicated'')] else []) @
     (if \<not> validEntityKind (en_Kind e) then [diag DiagnosticError ''UnsupportedEntityKind'' (en_ID e)
        (''inventory entity '' @ quote (en_ID e) @ '' has unsupported kind '' @ quote (en_Kind e))] else []) @
     (if en_Kind e = EntityKindUPSDevice \<and> en_PowerDomains e = []
      then [diag DiagnosticError ''PowerDomainRequired'' (en_ID e)
        (''UPS entity '' @ quote (en_ID e) @ '' requires at least one power domain label'')] else []) @
     (if en_Kind e \<noteq> EntityKindUPSDevice \<and> en_PowerDomains e \<noteq> []
      then [diag DiagnosticError ''PowerDomainDeclaredOnNonRoot'' (en_ID e)
        (''inventory entity '' @ quote (en_ID e) @ '' declares power domains, but domain membership is derived from UPS roots'')] else []) @
     (case en_ShutdownTier e of
        None \<Rightarrow> []
      | Some tier \<Rightarrow>
          if tier < 0 then [diag DiagnosticError ''ShutdownTierInvalid'' (en_ID e)
            (''inventory entity '' @ quote (en_ID e) @ '' declares invalid shutdown tier '' @ show_int tier)]
          else if en_Kind e = EntityKindNode \<and> tier = 0 then [diag DiagnosticError ''ShutdownTierZeroNode'' (en_ID e)
            (''node '' @ quote (en_ID e) @ '' cannot be assigned shutdown tier 0'')]
          else [])"

fun validateEntities :: "Entity list \<Rightarrow> string set \<Rightarrow> Diagnostic list \<times> string set" where
  "validateEntities [] entities = ([], entities)"
| "validateEntities (e # es) entities =
     (if en_ID e = ''''
      then (let (ds, known) = validateEntities es entities in
            (diag DiagnosticError ''EntityIDRequired'' '''' ''every inventory entity requires an id'' # ds, known))
      else (let (ds, known) = validateEntities es (insert (en_ID e) entities) in
            (validateEntity e (en_ID e \<in> entities) @ ds, known)))"

type_synonym edgeIdentity = "string \<times> string \<times> string \<times> string"

definition edgeIdentity :: "Edge \<Rightarrow> edgeIdentity" where
  "edgeIdentity e = (ed_From e, ed_To e, ed_Relation e, ed_Input e)"

definition validateEdge :: "string set \<Rightarrow> Edge \<Rightarrow> bool \<Rightarrow> Diagnostic list" where
  "validateEdge entities e dup =
     (if ed_From e = ed_To e then [diag DiagnosticError ''SelfEdge'' (ed_From e)
        (''inventory edge '' @ quote (ed_From e) @ '' -> '' @ quote (ed_To e) @ '' cannot point at itself'')] else []) @
     (if ed_From e \<notin> entities then [diag DiagnosticError ''UnknownEdgeEndpoint'' (ed_From e)
        (''inventory edge references unknown source entity '' @ quote (ed_From e))] else []) @
     (if ed_To e \<notin> entities then [diag DiagnosticError ''UnknownEdgeEndpoint'' (ed_To e)
        (''inventory edge references unknown target entity '' @ quote (ed_To e))] else []) @
     (if \<not> validEdgeRelation (ed_Relation e) then [diag DiagnosticError ''UnsupportedEdgeRelation'' (ed_From e)
        (''inventory edge '' @ quote (ed_From e) @ '' -> '' @ quote (ed_To e) @ '' has unsupported relation '' @ quote (ed_Relation e))] else []) @
     (if ed_Relation e = EdgeRelationFeeds \<and> ed_Input e = '''' then [diag DiagnosticError ''FeedInputRequired'' (ed_To e)
        (''feeds edge '' @ quote (ed_From e) @ '' -> '' @ quote (ed_To e) @ '' requires an input qualifier'')] else []) @
     (if dup then [diag DiagnosticError ''DuplicateEdge'' (ed_From e)
        (''inventory edge '' @ quote (ed_From e) @ '' -> '' @ quote (ed_To e) @ '' relation '' @ quote (ed_Relation e) @ '' is duplicated'')] else [])"

definition usableFeed :: "string set \<Rightarrow> Edge \<Rightarrow> bool" where
  "usableFeed entities e \<longleftrightarrow>
     ed_Relation e = EdgeRelationFeeds \<and> ed_Input e \<noteq> '''' \<and> ed_From e \<noteq> ed_To e \<and>
     ed_From e \<noteq> '''' \<and> ed_To e \<noteq> '''' \<and> ed_From e \<in> entities \<and> ed_To e \<in> entities"

fun validateEdges :: "string set \<Rightarrow> Edge list \<Rightarrow> edgeIdentity set \<Rightarrow> Diagnostic list \<times> Edge list" where
  "validateEdges entities [] seen = ([], [])"
| "validateEdges entities (e # es) seen =
     (if ed_From e = '''' \<or> ed_To e = ''''
      then (let (ds, feeds) = validateEdges entities es seen in
            (diag DiagnosticError ''EdgeEndpointRequired'' '''' ''every inventory edge requires from and to endpoints'' # ds, feeds))
      else (let (ds, feeds) = validateEdges entities es (insert (edgeIdentity e) seen) in
            (validateEdge entities e (edgeIdentity e \<in> seen) @ ds,
             if usableFeed entities e then e # feeds else feeds)))"

definition validateSnapshot :: "Snapshot \<Rightarrow> Diagnostic list" where
  "validateSnapshot s =
     (let (entityDiagnostics, entities) = validateEntities (sn_Entities s) {};
          (edgeDiagnostics, feedEdges) = validateEdges entities (sn_Edges s) {}
      in entityDiagnostics @ edgeDiagnostics @ feedCycleDiagnostics feedEdges)"

section \<open>Derived structure\<close>

definition entityKindOf :: "(string, Entity) gmap \<Rightarrow> string \<Rightarrow> EntityKind" where
  "entityKindOf entities v = (case map_of entities v of None \<Rightarrow> '''' | Some e \<Rightarrow> en_Kind e)"

definition addDomainMember :: "(string, Entity) gmap \<Rightarrow> string \<Rightarrow> PowerDomain \<Rightarrow> PowerDomain" where
  "addDomainMember entities v d =
     (let d' = d\<lparr>pd_Members := pd_Members d @ [v]\<rparr> in
      if entityKindOf entities v = EntityKindNode then d'\<lparr>pd_Nodes := pd_Nodes d' @ [v]\<rparr>
      else if entityKindOf entities v = EntityKindPowerInfrastructure
        then d'\<lparr>pd_Infrastructure := pd_Infrastructure d' @ [v]\<rparr>
      else d')"

definition addRoot :: "(string, Entity) gmap \<Rightarrow> (string, Edge list) gmap \<Rightarrow> Entity \<Rightarrow> string
    \<Rightarrow> (string, PowerDomain) gmap \<Rightarrow> (string, PowerDomain) gmap" where
  "addRoot entities feeds root name domains =
     (let d = (case map_of domains name of
                 None \<Rightarrow> \<lparr>pd_Name = name, pd_UPSDevices = [], pd_Members = [], pd_Nodes = [], pd_Infrastructure = []\<rparr>
               | Some d \<Rightarrow> d);
          d' = d\<lparr>pd_UPSDevices := pd_UPSDevices d @ [en_ID root]\<rparr>
      in gm_put name (fold (addDomainMember entities) (feedsClosure (en_ID root) feeds) d') domains)"

definition finishDomain :: "PowerDomain \<Rightarrow> PowerDomain" where
  "finishDomain d = d\<lparr>
     pd_UPSDevices := inventory_sortedUnique (pd_UPSDevices d),
     pd_Members := inventory_sortedUnique (pd_Members d),
     pd_Nodes := inventory_sortedUnique (pd_Nodes d),
     pd_Infrastructure := inventory_sortedUnique (pd_Infrastructure d)\<rparr>"

definition derivePowerDomains :: "Snapshot \<Rightarrow> PowerDomain list" where
  "derivePowerDomains s =
     (let entities = entitiesByID (sn_Entities s);
          feeds = edgesByFrom (sn_Edges s) EdgeRelationFeeds;
          domainsByName =
            fold (\<lambda>root domains.
                    if en_Kind root \<noteq> EntityKindUPSDevice then domains
                    else fold (addRoot entities feeds root) (en_PowerDomains root) domains)
              (sn_Entities s) []
      in map (finishDomain \<circ> snd) domainsByName)"

definition communicationOrder :: "Edge \<Rightarrow> DerivedEdge" where
  "communicationOrder e =
     \<lparr>de_From = ed_To e, de_To = ed_From e, de_Reason = ''CommunicationPath'', de_Source = ed_SourceID e\<rparr>"

fun ordersByKey :: "(DerivedEdge \<Rightarrow> string option) \<Rightarrow> Edge list \<Rightarrow> (string, DerivedEdge) gmap
    \<Rightarrow> (string, DerivedEdge) gmap option" where
  "ordersByKey h [] m = Some m"
| "ordersByKey h (e # es) m =
     (if ed_Relation e \<noteq> EdgeRelationCarries then ordersByKey h es m
      else (case h (communicationOrder e) of
              None \<Rightarrow> None
            | Some key \<Rightarrow> ordersByKey h es (gm_put key (communicationOrder e) m)))"

definition deriveCommunicationOrders :: "(DerivedEdge \<Rightarrow> string option) \<Rightarrow> Snapshot \<Rightarrow> DerivedEdge list option" where
  "deriveCommunicationOrders h s = map_option (map snd) (ordersByKey h (sn_Edges s) [])"

definition validateDerivedEntity :: "string set \<Rightarrow> string set \<Rightarrow> Entity \<Rightarrow> Diagnostic list" where
  "validateDerivedEntity powered carried e =
     (if en_Kind e \<noteq> EntityKindNode then []
      else
        (if en_ID e \<notin> powered \<and> \<not> en_PowerPlanningExempt e
         then [diag DiagnosticError ''PowerPlanningOrphan'' (en_ID e)
           (''node '' @ quote (en_ID e) @ '' is not reachable from any UPS feeds path and is not power-planning exempt'')] else []) @
        (if en_ID e \<notin> carried \<and> \<not> en_CommunicationPathExempt e
         then [diag DiagnosticWarning ''CommunicationPathUnmodeled'' (en_ID e)
           (''node '' @ quote (en_ID e) @ '' has no modeled carries path'')] else []))"

definition validateDerivedTopology :: "Topology \<Rightarrow> Diagnostic list" where
  "validateDerivedTopology t =
     concat (map (validateDerivedEntity
               (set (concat (map pd_Nodes (to_Domains t))))
               (set (map de_From (to_CommunicationOrders t))))
             (to_Entities t))"

definition inventory_Compile :: "inventory_hash \<Rightarrow> Snapshot \<Rightarrow> Diagnostic list \<times> (inventory_error + Topology)" where
  "inventory_Compile H snapshot =
     (let normalized = normalizeSnapshot snapshot;
          diagnostics = validateSnapshot normalized
      in if hasError diagnostics then (diagnostics, Inl InventoryRejected)
         else (case hash_snapshot H normalized of
                 None \<Rightarrow> (diagnostics, Inl (InventoryHashFailed ''hash inventory snapshot''))
               | Some hash \<Rightarrow>
                   (case deriveCommunicationOrders (hash_order H) normalized of
                      None \<Rightarrow> (diagnostics, Inl (InventoryHashFailed ''hash inventory communication order''))
                    | Some orders \<Rightarrow>
                        let topology = \<lparr>to_Hash = hash, to_Domains = derivePowerDomains normalized,
                                        to_CommunicationOrders = orders,
                                        to_Entities = sn_Entities normalized,
                                        to_Edges = sn_Edges normalized\<rparr>;
                            diagnostics' = diagnostics @ validateDerivedTopology topology
                        in if hasError diagnostics' then (diagnostics', Inl InventoryRejected)
                           else (diagnostics', Inr topology))))"

section \<open>The feeds graph\<close>

definition feeds_edge :: "Edge list \<Rightarrow> (string \<times> string) set" where
  "feeds_edge es = {(ed_From e, ed_To e) | e. e \<in> set es \<and> ed_Relation e = EdgeRelationFeeds}"

lemma map_of_edgesByFrom:
  "map_of (edgesByFrom es rel) k =
     (if k \<in> ed_From ` {e \<in> set es. ed_Relation e = rel}
      then Some (sort_key ed_To (filter (\<lambda>e. ed_From e = k) (filter (\<lambda>e. ed_Relation e = rel) es)))
      else None)"
proof -
  let ?m = "fold (\<lambda>e. gm_append (ed_From e) e) (filter (\<lambda>e. ed_Relation e = rel) es) []"
  have "map_of (edgesByFrom es rel) k = map_option (sort_key ed_To) (map_of ?m k)"
    by (simp add: edgesByFrom_def map_of_map)
  then show ?thesis
    using gml.get_group_by [of ed_From "\<lambda>e. e" "filter (\<lambda>e. ed_Relation e = rel) es" k] by simp
qed

lemma gm_list_edgesByFrom [gm_simps]:
  "gm_list (edgesByFrom es rel) k =
     sort_key ed_To (filter (\<lambda>e. ed_From e = k) (filter (\<lambda>e. ed_Relation e = rel) es))"
proof (cases "k \<in> ed_From ` {e \<in> set es. ed_Relation e = rel}")
  case False
  then have "filter (\<lambda>e. ed_From e = k) (filter (\<lambda>e. ed_Relation e = rel) es) = []"
    by (auto simp: filter_empty_conv)
  with False show ?thesis by (simp add: gm_list_def map_of_edgesByFrom)
qed (simp add: gm_list_def map_of_edgesByFrom)

lemma set_feeds_succ:
  "set (feeds_succ (edgesByFrom es EdgeRelationFeeds) u) = {v. (u, v) \<in> feeds_edge es}"
  by (auto simp: feeds_succ_def gm_list_edgesByFrom feeds_edge_def)

lemma succ_rel_feeds: "succ_rel (feeds_succ (edgesByFrom es EdgeRelationFeeds)) = feeds_edge es"
  unfolding succ_rel_def by (auto simp: set_feeds_succ)

definition feeds_targets :: "(string, Edge list) gmap \<Rightarrow> string set" where
  "feeds_targets feeds = set (map ed_To (concat (map snd feeds)))"

lemma feeds_succ_targets: "set (feeds_succ feeds v) \<subseteq> feeds_targets feeds"
proof (cases "map_of feeds v")
  case (Some l)
  then have "(v, l) \<in> set feeds" by (rule map_of_SomeD)
  then show ?thesis using Some by (force simp: feeds_succ_def gm_list_def feeds_targets_def)
qed (simp add: feeds_succ_def gm_list_def)

interpretation feeds_graph: succ_graph "feeds_targets feeds" "feeds_succ feeds"
  for feeds :: "(string, Edge list) gmap"
  by unfold_locales (simp_all add: feeds_succ_targets, simp add: feeds_targets_def)

lemma feeds_fuel_enough: "card (insert v (feeds_targets feeds) - M) < feeds_fuel feeds"
proof -
  have "card (feeds_targets feeds) \<le> length (concat (map snd feeds))"
    unfolding feeds_targets_def by (metis card_length length_map)
  moreover have "card (insert v (feeds_targets feeds) - M) \<le> card (insert v (feeds_targets feeds))"
    by (rule card_mono) (simp_all add: feeds_graph.finite_V Diff_subset)
  moreover have "card (insert v (feeds_targets feeds)) \<le> Suc (card (feeds_targets feeds))"
    using feeds_graph.finite_V [of feeds] by (simp add: card_insert_if)
  ultimately show ?thesis by (simp add: feeds_fuel_def)
qed

section \<open>The closure walk computes reachability\<close>

lemma closure_walk_mono:
  "closure_walk n feeds v st = Some st' \<Longrightarrow> fst st \<subseteq> fst st' \<and> v \<in> fst st'"
  "closure_walks n feeds vs st = Some st' \<Longrightarrow> fst st \<subseteq> fst st' \<and> set vs \<subseteq> fst st'"
proof (induction n feeds v st and n feeds vs st arbitrary: st' and st'
    rule: closure_walk_closure_walks.induct)
  case (2 n feeds v visited members)
  then show ?case by (cases "v \<in> visited") auto
next
  case (4 n feeds x xs st)
  from 4(3) obtain st1 where "closure_walk n feeds x st = Some st1"
    and "closure_walks n feeds xs st1 = Some st'" by (auto split: option.splits)
  with 4(1,2) show ?case by fastforce
qed auto

lemma closure_walk_within:
  "closure_walk n feeds v st = Some st' \<Longrightarrow>
     fst st' \<subseteq> fst st \<union> (succ_rel (feeds_succ feeds))\<^sup>* `` {v}"
  "closure_walks n feeds vs st = Some st' \<Longrightarrow>
     fst st' \<subseteq> fst st \<union> (succ_rel (feeds_succ feeds))\<^sup>* `` set vs"
proof (induction n feeds v st and n feeds vs st arbitrary: st' and st'
    rule: closure_walk_closure_walks.induct)
  case (2 n feeds v visited members)
  show ?case
  proof (cases "v \<in> visited")
    case False
    with 2 have "fst st' \<subseteq> insert v visited \<union> (succ_rel (feeds_succ feeds))\<^sup>* `` set (feeds_succ feeds v)"
      by auto
    then show ?thesis by (fastforce intro: converse_rtrancl_into_rtrancl)
  qed (use 2 in auto)
next
  case (4 n feeds x xs st)
  from 4(3) obtain st1 where "closure_walk n feeds x st = Some st1"
    and "closure_walks n feeds xs st1 = Some st'" by (auto split: option.splits)
  with 4(1,2) show ?case by fastforce
qed auto

lemma closure_walk_closed:
  "closure_walk n feeds v st = Some st' \<Longrightarrow>
     \<forall>x \<in> fst st' - fst st. set (feeds_succ feeds x) \<subseteq> fst st'"
  "closure_walks n feeds vs st = Some st' \<Longrightarrow>
     \<forall>x \<in> fst st' - fst st. set (feeds_succ feeds x) \<subseteq> fst st'"
proof (induction n feeds v st and n feeds vs st arbitrary: st' and st'
    rule: closure_walk_closure_walks.induct)
  case (2 n feeds v visited members)
  show ?case
  proof (cases "v \<in> visited")
    case False
    with 2 have *: "closure_walks n feeds (feeds_succ feeds v) (insert v visited, members @ [v]) = Some st'"
      by simp
    show ?thesis using 2(1) [OF False *] closure_walk_mono(2) [OF *] by auto
  qed (use 2 in auto)
next
  case (4 n feeds x xs st)
  from 4(3) obtain st1 where a: "closure_walk n feeds x st = Some st1"
    and b: "closure_walks n feeds xs st1 = Some st'" by (auto split: option.splits)
  show ?case using 4(1) [OF a] 4(2) [OF a b] closure_walk_mono(2) [OF b] by blast
qed auto

lemma closure_walk_members:
  "closure_walk n feeds v st = Some st' \<Longrightarrow> distinct (snd st) \<Longrightarrow> set (snd st) = fst st \<Longrightarrow>
     distinct (snd st') \<and> set (snd st') = fst st'"
  "closure_walks n feeds vs st = Some st' \<Longrightarrow> distinct (snd st) \<Longrightarrow> set (snd st) = fst st \<Longrightarrow>
     distinct (snd st') \<and> set (snd st') = fst st'"
  by (induction n feeds v st and n feeds vs st arbitrary: st' and st'
      rule: closure_walk_closure_walks.induct)
    (auto split: if_splits option.splits)

lemma closure_walk_total:
  "card (insert v (feeds_targets feeds) - fst st) < n \<Longrightarrow> \<exists>st'. closure_walk n feeds v st = Some st'"
  "(\<forall>v \<in> set vs. card (insert v (feeds_targets feeds) - fst st) < n) \<Longrightarrow>
     \<exists>st'. closure_walks n feeds vs st = Some st'"
proof (induction n feeds v st and n feeds vs st rule: closure_walk_closure_walks.induct)
  case (2 n feeds v visited members)
  show ?case
  proof (cases "v \<in> visited")
    case False
    have "card (insert w (feeds_targets feeds) - insert v visited) < n" if "w \<in> set (feeds_succ feeds v)" for w
    proof -
      have "card (insert w (feeds_targets feeds) - insert v visited)
          \<le> card (insert v (feeds_targets feeds) - insert v visited)"
        using feeds_graph.fresh_succ [OF that] by (intro card_mono) (simp_all add: feeds_graph.finite_V)
      then show ?thesis using feeds_graph.fresh_decreases [OF False, of feeds] 2(2) by simp
    qed
    then show ?thesis using 2(1) [OF False] False by simp
  qed simp
next
  case (4 n feeds x xs st)
  then obtain st1 where a: "closure_walk n feeds x st = Some st1" by auto
  have "card (insert v (feeds_targets feeds) - fst st1) < n" if "v \<in> set xs" for v
  proof -
    have "card (insert v (feeds_targets feeds) - fst st1) \<le> card (insert v (feeds_targets feeds) - fst st)"
      using closure_walk_mono(1) [OF a] by (intro card_mono) (auto simp: feeds_graph.finite_V)
    then show ?thesis using 4(3) that by (meson le_less_trans list.set_intros(2))
  qed
  then show ?case using 4(2) [OF a] a by simp
qed auto

lemma feedsClosure_reach:
  "set (feedsClosure root feeds) = (succ_rel (feeds_succ feeds))\<^sup>* `` {root} \<and>
   sorted (feedsClosure root feeds) \<and> distinct (feedsClosure root feeds)"
proof -
  obtain visited members where w: "closure_walk (feeds_fuel feeds) feeds root ({}, []) = Some (visited, members)"
    using closure_walk_total(1) [of root feeds "({}, [])" "feeds_fuel feeds"] feeds_fuel_enough
    by (metis surj_pair)
  have "closed_under (feeds_succ feeds) visited" "root \<in> visited"
    using closure_walk_closed(1) [OF w] closure_walk_mono(1) [OF w] by (auto simp: closed_under_def)
  then have "(succ_rel (feeds_succ feeds))\<^sup>* `` {root} \<subseteq> visited"
    using closed_under_reach by fastforce
  then have "visited = (succ_rel (feeds_succ feeds))\<^sup>* `` {root}"
    using closure_walk_within(1) [OF w] by auto
  moreover have "distinct members" "set members = visited" using closure_walk_members(1) [OF w] by auto
  ultimately show ?thesis by (simp add: feedsClosure_def w)
qed

section \<open>The cycle walk decides acyclicity\<close>

lemma cycle_walk_frame:
  "cycle_walk n feeds v st = Some st' \<Longrightarrow>
     cs_visiting st' = cs_visiting st \<and> cs_stack st' = cs_stack st \<and>
     cs_visited st \<subseteq> cs_visited st' \<and> prefix (cs_diagnostics st) (cs_diagnostics st')"
  "cycle_walks n feeds vs st = Some st' \<Longrightarrow>
     cs_visiting st' = cs_visiting st \<and> cs_stack st' = cs_stack st \<and>
     cs_visited st \<subseteq> cs_visited st' \<and> prefix (cs_diagnostics st) (cs_diagnostics st')"
proof (induction n feeds v st and n feeds vs st arbitrary: st' and st'
    rule: cycle_walk_cycle_walks.induct)
  case (2 n feeds v st)
  show ?case
  proof (cases "v \<in> cs_visiting st \<or> v \<in> cs_visited st")
    case False
    let ?in = "st\<lparr>cs_visiting := insert v (cs_visiting st), cs_stack := cs_stack st @ [v]\<rparr>"
    from False 2(2) obtain st1 where w: "cycle_walks n feeds (feeds_succ feeds v) ?in = Some st1"
      and st': "st' = st1\<lparr>cs_stack := butlast (cs_stack st1), cs_visiting := cs_visiting st1 - {v},
                          cs_visited := insert v (cs_visited st1)\<rparr>"
      by (auto split: option.splits)
    from False have ih: "cs_visiting st1 = insert v (cs_visiting st) \<and> cs_stack st1 = cs_stack st @ [v] \<and>
      cs_visited st \<subseteq> cs_visited st1 \<and> prefix (cs_diagnostics st) (cs_diagnostics st1)"
      using 2(1) [OF _ _ w] by simp
    from False ih show ?thesis by (simp add: st' subset_insertI2)
  qed (use 2(2) in \<open>simp_all split: if_splits\<close>, use 2(2) in auto)
next
  case (4 n feeds x xs st)
  from 4(3) obtain st1 where a: "cycle_walk n feeds x st = Some st1"
    and b: "cycle_walks n feeds xs st1 = Some st'" by (auto split: option.splits)
  from 4(1) [OF a] 4(2) [OF a b] show ?case
    using prefix_order.order_trans [of "cs_diagnostics st" "cs_diagnostics st1"] by (simp add: subset_trans [of _ "cs_visited st1"])
qed auto

text \<open>Progress of a walk that adds no diagnostic: the visited set stays closed and free of cycles.\<close>

definition finished :: "(string, Edge list) gmap \<Rightarrow> cycle_state \<Rightarrow> bool" where
  "finished feeds st \<longleftrightarrow> closed_under (feeds_succ feeds) (cs_visited st) \<and>
     cycle_free_on (feeds_succ feeds) (cs_visited st) \<and> cs_visiting st \<inter> cs_visited st = {}"

lemma finished_enter:
  "finished feeds st \<Longrightarrow> v \<notin> cs_visited st \<Longrightarrow>
     finished feeds (st\<lparr>cs_visiting := insert v (cs_visiting st), cs_stack := stk\<rparr>)"
  by (auto simp: finished_def)

lemma finished_leave:
  assumes "finished feeds st" and "v \<in> cs_visiting st" and "set (feeds_succ feeds v) \<subseteq> cs_visited st"
  shows "finished feeds (st\<lparr>cs_stack := stk, cs_visiting := cs_visiting st - {v}, cs_visited := insert v (cs_visited st)\<rparr>)"
  using assms by (auto simp: finished_def closed_under_insert intro: cycle_free_on_insert)

lemma cycle_walk_quiet:
  "cycle_walk n feeds v st = Some st' \<Longrightarrow> cs_diagnostics st' = cs_diagnostics st \<Longrightarrow> finished feeds st \<Longrightarrow>
     finished feeds st' \<and> v \<in> cs_visited st'"
  "cycle_walks n feeds vs st = Some st' \<Longrightarrow> cs_diagnostics st' = cs_diagnostics st \<Longrightarrow> finished feeds st \<Longrightarrow>
     finished feeds st' \<and> set vs \<subseteq> cs_visited st'"
proof (induction n feeds v st and n feeds vs st arbitrary: st' and st'
    rule: cycle_walk_cycle_walks.induct)
  case (2 n feeds v st)
  show ?case
  proof (cases "v \<in> cs_visiting st \<or> v \<in> cs_visited st")
    case False
    let ?in = "st\<lparr>cs_visiting := insert v (cs_visiting st), cs_stack := cs_stack st @ [v]\<rparr>"
    from False 2(2) obtain st1 where w: "cycle_walks n feeds (feeds_succ feeds v) ?in = Some st1"
      and st': "st' = st1\<lparr>cs_stack := butlast (cs_stack st1), cs_visiting := cs_visiting st1 - {v},
                          cs_visited := insert v (cs_visited st1)\<rparr>"
      by (auto split: option.splits)
    have "finished feeds st1" "set (feeds_succ feeds v) \<subseteq> cs_visited st1"
      using 2(1) [OF _ _ w] False 2(3,4) finished_enter [of feeds st v] st' by auto
    then show ?thesis using finished_leave [of feeds st1 v] cycle_walk_frame(2) [OF w] st' by simp
  qed (use 2(2-4) in \<open>auto split: if_splits\<close>)
next
  case (4 n feeds x xs st)
  from 4(3) obtain st1 where a: "cycle_walk n feeds x st = Some st1"
    and b: "cycle_walks n feeds xs st1 = Some st'" by (auto split: option.splits)
  have "cs_diagnostics st1 = cs_diagnostics st"
    using cycle_walk_frame(1) [OF a] cycle_walk_frame(2) [OF b] 4(4) by (metis prefix_order.antisym)
  then show ?case
    using 4(1) [OF a] 4(2) [OF a b] 4(4,5) cycle_walk_frame(2) [OF b] by auto
qed auto

definition on_feeds_cycle :: "(string, Edge list) gmap \<Rightarrow> Diagnostic \<Rightarrow> bool" where
  "on_feeds_cycle feeds d \<longleftrightarrow> Severity d = DiagnosticError \<and> Reason d = ''FeedsCycle'' \<and>
     (Subject d, Subject d) \<in> (succ_rel (feeds_succ feeds))\<^sup>+"

lemma cycle_walk_sound:
  "cycle_walk n feeds v st = Some st' \<Longrightarrow> \<forall>u \<in> cs_visiting st. (u, v) \<in> (succ_rel (feeds_succ feeds))\<^sup>+ \<Longrightarrow>
     \<forall>d \<in> set (cs_diagnostics st). on_feeds_cycle feeds d \<Longrightarrow>
     \<forall>d \<in> set (cs_diagnostics st'). on_feeds_cycle feeds d"
  "cycle_walks n feeds vs st = Some st' \<Longrightarrow>
     \<forall>v \<in> set vs. \<forall>u \<in> cs_visiting st. (u, v) \<in> (succ_rel (feeds_succ feeds))\<^sup>+ \<Longrightarrow>
     \<forall>d \<in> set (cs_diagnostics st). on_feeds_cycle feeds d \<Longrightarrow>
     \<forall>d \<in> set (cs_diagnostics st'). on_feeds_cycle feeds d"
proof (induction n feeds v st and n feeds vs st arbitrary: st' and st'
    rule: cycle_walk_cycle_walks.induct)
  case (2 n feeds v st)
  show ?case
  proof (cases "v \<in> cs_visiting st \<or> v \<in> cs_visited st")
    case True
    then have "st' = st \<or> (v \<in> cs_visiting st \<and>
        cs_diagnostics st' = cs_diagnostics st @ [feedsCycleDiagnostic (cs_stack st) v])"
      using 2(2) by (auto split: if_splits)
    moreover have "on_feeds_cycle feeds (feedsCycleDiagnostic (cs_stack st) v)" if "v \<in> cs_visiting st"
      using that 2(3) by (simp only: on_feeds_cycle_def feedsCycleDiagnostic_def diag_sel simp_thms)
    ultimately show ?thesis using 2(4) by auto
  next
    case False
    let ?in = "st\<lparr>cs_visiting := insert v (cs_visiting st), cs_stack := cs_stack st @ [v]\<rparr>"
    from False 2(2) obtain st1 where w: "cycle_walks n feeds (feeds_succ feeds v) ?in = Some st1"
      and st': "cs_diagnostics st' = cs_diagnostics st1"
      by (auto split: option.splits)
    have "\<forall>y \<in> set (feeds_succ feeds v). \<forall>u \<in> cs_visiting ?in. (u, y) \<in> (succ_rel (feeds_succ feeds))\<^sup>+"
    proof (intro ballI)
      fix y u assume y: "y \<in> set (feeds_succ feeds v)" and u: "u \<in> cs_visiting ?in"
      then have step: "(v, y) \<in> succ_rel (feeds_succ feeds)" by simp
      from u consider "u = v" | "u \<in> cs_visiting st" by auto
      then show "(u, y) \<in> (succ_rel (feeds_succ feeds))\<^sup>+"
      proof cases
        case 2
        with \<open>\<forall>u \<in> cs_visiting st. (u, v) \<in> (succ_rel (feeds_succ feeds))\<^sup>+\<close>
        show ?thesis using step by (metis trancl_into_trancl)
      qed (use step in \<open>metis r_into_trancl\<close>)
    qed
    then have "\<forall>d \<in> set (cs_diagnostics st1). on_feeds_cycle feeds d"
      using 2(1) [OF _ _ w] False 2(4) by simp
    then show ?thesis by (simp only: st')
  qed
next
  case (4 n feeds x xs st)
  from 4(3) obtain st1 where a: "cycle_walk n feeds x st = Some st1"
    and b: "cycle_walks n feeds xs st1 = Some st'" by (auto split: option.splits)
  have "\<forall>d \<in> set (cs_diagnostics st1). on_feeds_cycle feeds d"
    by (rule 4(1) [OF a _ 4(5)]) (use 4(4) in simp)
  then show ?case
    by (rule 4(2) [OF a b, rotated]) (use 4(4) cycle_walk_frame(1) [OF a] in simp)
qed auto

lemma cycle_walk_total:
  "card (insert v (feeds_targets feeds) - cs_visiting st) < n \<Longrightarrow> \<exists>st'. cycle_walk n feeds v st = Some st'"
  "(\<forall>v \<in> set vs. card (insert v (feeds_targets feeds) - cs_visiting st) < n) \<Longrightarrow>
     \<exists>st'. cycle_walks n feeds vs st = Some st'"
proof (induction n feeds v st and n feeds vs st rule: cycle_walk_cycle_walks.induct)
  case (2 n feeds v st)
  show ?case
  proof (cases "v \<in> cs_visiting st \<or> v \<in> cs_visited st")
    case False
    have "card (insert w (feeds_targets feeds) - insert v (cs_visiting st)) < n" if "w \<in> set (feeds_succ feeds v)" for w
    proof -
      have "card (insert w (feeds_targets feeds) - insert v (cs_visiting st))
          \<le> card (insert v (feeds_targets feeds) - insert v (cs_visiting st))"
        using feeds_graph.fresh_succ [OF that] by (intro card_mono) (simp_all add: feeds_graph.finite_V)
      then show ?thesis using feeds_graph.fresh_decreases [of v "cs_visiting st" feeds] False 2(2) by simp
    qed
    then show ?thesis using 2(1) False by fastforce
  qed auto
next
  case (4 n feeds x xs st)
  then obtain st1 where a: "cycle_walk n feeds x st = Some st1" by auto
  then show ?case using 4(2) [OF a] 4(3) cycle_walk_frame(1) [OF a] by simp
qed auto

lemma gm_keys_edgesByFrom: "set (gm_keys (edgesByFrom es rel)) = ed_From ` {e \<in> set es. ed_Relation e = rel}"
proof -
  have "set (gm_keys (edgesByFrom es rel)) = dom (map_of (edgesByFrom es rel))"
    by (simp add: gm_keys_def dom_map_of_conv_image_fst)
  then show ?thesis by (auto simp: dom_def map_of_edgesByFrom split: if_splits)
qed

lemma feedCycleDiagnostics_run:
  obtains st where "feedCycleDiagnostics es = cs_diagnostics st"
    and "cycle_walks (feeds_fuel (edgesByFrom es EdgeRelationFeeds)) (edgesByFrom es EdgeRelationFeeds)
           (gm_keys (edgesByFrom es EdgeRelationFeeds))
           \<lparr>cs_diagnostics = [], cs_visited = {}, cs_visiting = {}, cs_stack = []\<rparr> = Some st"
proof -
  let ?init = "\<lparr>cs_diagnostics = [], cs_visited = {}, cs_visiting = {}, cs_stack = []\<rparr> :: cycle_state"
  obtain st where "cycle_walks (feeds_fuel (edgesByFrom es EdgeRelationFeeds)) (edgesByFrom es EdgeRelationFeeds)
           (gm_keys (edgesByFrom es EdgeRelationFeeds)) ?init = Some st"
    using cycle_walk_total(2) feeds_fuel_enough by metis
  with that show thesis by (simp add: feedCycleDiagnostics_def)
qed

lemma feedCycleDiagnostics_subjects:
  "d \<in> set (feedCycleDiagnostics es) \<Longrightarrow>
     Severity d = DiagnosticError \<and> Reason d = ''FeedsCycle'' \<and> (Subject d, Subject d) \<in> (feeds_edge es)\<^sup>+"
proof -
  assume d: "d \<in> set (feedCycleDiagnostics es)"
  obtain st where "feedCycleDiagnostics es = cs_diagnostics st" and
    "cycle_walks (feeds_fuel (edgesByFrom es EdgeRelationFeeds)) (edgesByFrom es EdgeRelationFeeds)
           (gm_keys (edgesByFrom es EdgeRelationFeeds))
           \<lparr>cs_diagnostics = [], cs_visited = {}, cs_visiting = {}, cs_stack = []\<rparr> = Some st"
    by (rule feedCycleDiagnostics_run)
  then have "\<forall>d \<in> set (feedCycleDiagnostics es). on_feeds_cycle (edgesByFrom es EdgeRelationFeeds) d"
    using cycle_walk_sound(2) by fastforce
  with d show ?thesis by (simp add: on_feeds_cycle_def succ_rel_feeds)
qed

lemma feedCycleDiagnostics_none:
  "feedCycleDiagnostics es = [] \<longleftrightarrow> acyclic (feeds_edge es)"
proof
  assume none: "feedCycleDiagnostics es = []"
  let ?feeds = "edgesByFrom es EdgeRelationFeeds"
  obtain st where st: "feedCycleDiagnostics es = cs_diagnostics st" and
    w: "cycle_walks (feeds_fuel ?feeds) ?feeds (gm_keys ?feeds)
           \<lparr>cs_diagnostics = [], cs_visited = {}, cs_visiting = {}, cs_stack = []\<rparr> = Some st"
    by (rule feedCycleDiagnostics_run)
  have fin: "finished ?feeds st" "set (gm_keys ?feeds) \<subseteq> cs_visited st"
    using cycle_walk_quiet(2) [OF w] st none by (auto simp: finished_def)
  have "feeds_edge es \<subseteq> feeds_edge es \<inter> cs_visited st \<times> cs_visited st"
  proof (rule subsetI)
    fix p assume p: "p \<in> feeds_edge es"
    then have "fst p \<in> cs_visited st"
      using fin(2) by (auto simp: gm_keys_edgesByFrom feeds_edge_def)
    moreover have "snd p \<in> set (feeds_succ ?feeds (fst p))" using p by (simp add: set_feeds_succ)
    ultimately show "p \<in> feeds_edge es \<inter> cs_visited st \<times> cs_visited st"
      using p fin(1) by (cases p) (auto simp: finished_def closed_under_def)
  qed
  moreover have "acyclic (feeds_edge es \<inter> cs_visited st \<times> cs_visited st)"
    using fin(1) by (simp add: finished_def cycle_free_on_def succ_rel_feeds)
  ultimately show "acyclic (feeds_edge es)" by (rule acyclic_subset [rotated])
next
  assume "acyclic (feeds_edge es)"
  then show "feedCycleDiagnostics es = []"
    using feedCycleDiagnostics_subjects [of _ es] by (cases "feedCycleDiagnostics es") (auto simp: acyclic_def)
qed

section \<open>Power domains\<close>

lemma inventory_sortedUnique_props [simp]:
  "set (inventory_sortedUnique vs) = set vs - {''''}"
  "sorted (inventory_sortedUnique vs)" "distinct (inventory_sortedUnique vs)"
proof -
  have "sorted (filter (\<lambda>v. v \<noteq> '''') (sort vs))" by (rule sorted_wrt_filter) simp
  then show "sorted (inventory_sortedUnique vs)" "distinct (inventory_sortedUnique vs)"
    by (simp_all add: inventory_sortedUnique_def sorted_remdups_adj distinct_remdups_adj_sorted)
qed (auto simp: inventory_sortedUnique_def)

lemma fold_addDomainMember:
  "fold (addDomainMember entities) vs d =
     d\<lparr>pd_Members := pd_Members d @ vs,
       pd_Nodes := pd_Nodes d @ filter (\<lambda>v. entityKindOf entities v = EntityKindNode) vs,
       pd_Infrastructure := pd_Infrastructure d @
         filter (\<lambda>v. entityKindOf entities v = EntityKindPowerInfrastructure) vs\<rparr>"
  by (induction vs arbitrary: d) (simp_all add: addDomainMember_def Let_def)

text \<open>The labels of the UPS roots, in the order the code visits them.\<close>

definition rootLabels :: "Entity list \<Rightarrow> (Entity \<times> string) list" where
  "rootLabels es = concat (map (\<lambda>r. if en_Kind r \<noteq> EntityKindUPSDevice then []
                                    else map (Pair r) (en_PowerDomains r)) es)"

lemma set_rootLabels:
  "set (rootLabels es) = {(r, n). r \<in> set es \<and> en_Kind r = EntityKindUPSDevice \<and> n \<in> set (en_PowerDomains r)}"
  by (auto simp: rootLabels_def split: if_splits)

lemma fold_rootLabels:
  "fold (\<lambda>root m. if en_Kind root \<noteq> EntityKindUPSDevice then m
                  else fold (addRoot entities feeds root) (en_PowerDomains root) m) es m =
   fold (\<lambda>(root, name). addRoot entities feeds root name) (rootLabels es) m"
  by (induction es arbitrary: m) (simp_all add: rootLabels_def fold_map comp_def)

definition domain_of :: "(string, Entity) gmap \<Rightarrow> (string, Edge list) gmap \<Rightarrow> (Entity \<times> string) list
    \<Rightarrow> string \<Rightarrow> PowerDomain \<Rightarrow> bool" where
  "domain_of entities feeds prs name d \<longleftrightarrow>
     pd_Name d = name \<and>
     set (pd_UPSDevices d) = {en_ID r | r. (r, name) \<in> set prs} \<and>
     set (pd_Members d) = (\<Union>r \<in> {r. (r, name) \<in> set prs}. set (feedsClosure (en_ID r) feeds)) \<and>
     set (pd_Nodes d) = {v \<in> set (pd_Members d). entityKindOf entities v = EntityKindNode} \<and>
     set (pd_Infrastructure d) =
       {v \<in> set (pd_Members d). entityKindOf entities v = EntityKindPowerInfrastructure}"

lemma domain_of_other:
  "n \<noteq> name \<Longrightarrow> domain_of entities feeds (prs @ [(r, n)]) name d = domain_of entities feeds prs name d"
  by (simp add: domain_of_def)

lemma fold_addRoot:
  "gm_wf (fold (\<lambda>(root, name). addRoot entities feeds root name) prs []) \<and>
   dom (map_of (fold (\<lambda>(root, name). addRoot entities feeds root name) prs [])) = snd ` set prs \<and>
   (\<forall>name d. map_of (fold (\<lambda>(root, name). addRoot entities feeds root name) prs []) name = Some d \<longrightarrow>
      domain_of entities feeds prs name d)"
proof (induction prs rule: rev_induct)
  case (snoc p prs)
  obtain r n where p: "p = (r, n)" by (cases p)
  let ?m = "fold (\<lambda>(root, name). addRoot entities feeds root name) prs []"
  have wf: "gm_wf ?m" and dm: "dom (map_of ?m) = snd ` set prs"
    and old: "\<And>name d. map_of ?m name = Some d \<Longrightarrow> domain_of entities feeds prs name d"
    using snoc.IH by auto
  have fresh: "(x, n) \<notin> set prs" if "map_of ?m n = None" for x
    using dm that by (metis domIff image_eqI snd_conv)
  have "domain_of entities feeds (prs @ [(r, n)]) name d"
    if d: "map_of (addRoot entities feeds r n ?m) name = Some d" for name d
  proof (cases "name = n")
    case True
    show ?thesis
    proof (cases "map_of ?m n")
      case None
      then show ?thesis using d True fresh
        by (auto simp: addRoot_def Let_def fold_addDomainMember domain_of_def)
    next
      case (Some d0)
      with old [OF Some] show ?thesis using d True
        by (auto simp: addRoot_def Let_def fold_addDomainMember domain_of_def)
    qed
  next
    case False
    with d old show ?thesis by (simp add: addRoot_def Let_def domain_of_other)
  qed
  moreover have "dom (map_of (addRoot entities feeds r n ?m)) = insert n (snd ` set prs)"
    using dm by (simp add: addRoot_def Let_def)
  moreover have "gm_wf (addRoot entities feeds r n ?m)" using wf by (simp add: addRoot_def Let_def)
  ultimately show ?case by (simp add: p)
qed simp

text \<open>What the derived domains are, in terms of the snapshot alone.\<close>

definition powers :: "Snapshot \<Rightarrow> string \<Rightarrow> string \<Rightarrow> bool" where
  "powers s name v \<longleftrightarrow> (\<exists>r \<in> set (sn_Entities s). en_Kind r = EntityKindUPSDevice \<and>
     name \<in> set (en_PowerDomains r) \<and> (en_ID r, v) \<in> (feeds_edge (sn_Edges s))\<^sup>*)"

lemma finishDomain_sel [simp]:
  "pd_Name (finishDomain d) = pd_Name d"
  "pd_UPSDevices (finishDomain d) = inventory_sortedUnique (pd_UPSDevices d)"
  "pd_Members (finishDomain d) = inventory_sortedUnique (pd_Members d)"
  "pd_Nodes (finishDomain d) = inventory_sortedUnique (pd_Nodes d)"
  "pd_Infrastructure (finishDomain d) = inventory_sortedUnique (pd_Infrastructure d)"
  by (simp_all add: finishDomain_def)

lemma derivePowerDomains_members:
  assumes "d \<in> set (derivePowerDomains s)"
  shows "set (pd_Members d) = {v. v \<noteq> '''' \<and> powers s (pd_Name d) v}"
    and "set (pd_Nodes d) = {v \<in> set (pd_Members d). entityKindOf (entitiesByID (sn_Entities s)) v = EntityKindNode}"
    and "set (pd_Infrastructure d) =
      {v \<in> set (pd_Members d). entityKindOf (entitiesByID (sn_Entities s)) v = EntityKindPowerInfrastructure}"
    and "set (pd_UPSDevices d) = {en_ID r | r. r \<in> set (sn_Entities s) \<and> en_Kind r = EntityKindUPSDevice \<and>
      pd_Name d \<in> set (en_PowerDomains r)} - {''''}"
proof -
  let ?ents = "entitiesByID (sn_Entities s)" and ?feeds = "edgesByFrom (sn_Edges s) EdgeRelationFeeds"
  let ?m = "fold (\<lambda>(root, name). addRoot ?ents ?feeds root name) (rootLabels (sn_Entities s)) []"
  obtain k d0 where e: "(k, d0) \<in> set ?m" and d: "d = finishDomain d0"
    using assms by (auto simp: derivePowerDomains_def Let_def fold_rootLabels)
  have "map_of ?m k = Some d0"
    by (rule gm_lookup_entry [OF conjunct1 [OF fold_addRoot] e])
  then have ok: "domain_of ?ents ?feeds (rootLabels (sn_Entities s)) k d0"
    using fold_addRoot [of ?ents ?feeds "rootLabels (sn_Entities s)"] by blast
  show mem: "set (pd_Members d) = {v. v \<noteq> '''' \<and> powers s (pd_Name d) v}"
    using ok by (auto simp: d domain_of_def powers_def set_rootLabels feedsClosure_reach succ_rel_feeds)
  show "set (pd_Nodes d) = {v \<in> set (pd_Members d). entityKindOf ?ents v = EntityKindNode}"
    "set (pd_Infrastructure d) = {v \<in> set (pd_Members d). entityKindOf ?ents v = EntityKindPowerInfrastructure}"
    "set (pd_UPSDevices d) = {en_ID r | r. r \<in> set (sn_Entities s) \<and> en_Kind r = EntityKindUPSDevice \<and>
      pd_Name d \<in> set (en_PowerDomains r)} - {''''}"
    using ok by (auto simp: d domain_of_def set_rootLabels)
qed

lemma derivePowerDomains_names:
  "map pd_Name (derivePowerDomains s) = sorted_list_of_set
     {n. \<exists>r \<in> set (sn_Entities s). en_Kind r = EntityKindUPSDevice \<and> n \<in> set (en_PowerDomains r)}"
proof -
  let ?ents = "entitiesByID (sn_Entities s)" and ?feeds = "edgesByFrom (sn_Edges s) EdgeRelationFeeds"
  let ?m = "fold (\<lambda>(root, name). addRoot ?ents ?feeds root name) (rootLabels (sn_Entities s)) []"
  have m: "gm_wf ?m" "dom (map_of ?m) = snd ` set (rootLabels (sn_Entities s))"
    and nm: "\<And>k d. map_of ?m k = Some d \<Longrightarrow> pd_Name d = k"
    using fold_addRoot [of ?ents ?feeds "rootLabels (sn_Entities s)"] by (auto simp: domain_of_def)
  have "pd_Name (snd e) = fst e" if "e \<in> set ?m" for e
    using nm [OF gm_lookup_entry [OF m(1)]] that by simp
  then have "map pd_Name (derivePowerDomains s) = gm_keys ?m"
    by (simp add: derivePowerDomains_def Let_def fold_rootLabels gm_keys_def)
  also have "\<dots> = sorted_list_of_set (snd ` set (rootLabels (sn_Entities s)))"
    by (simp add: gm.keys_eq m)
  also have "snd ` set (rootLabels (sn_Entities s)) =
      {n. \<exists>r \<in> set (sn_Entities s). en_Kind r = EntityKindUPSDevice \<and> n \<in> set (en_PowerDomains r)}"
    by (force simp: set_rootLabels)
  finally show ?thesis .
qed

section \<open>What validation accepts\<close>

definition entity_ok :: "Entity \<Rightarrow> bool" where
  "entity_ok e \<longleftrightarrow> en_ID e \<noteq> '''' \<and> validEntityKind (en_Kind e) \<and>
     (en_Kind e = EntityKindUPSDevice \<longleftrightarrow> en_PowerDomains e \<noteq> []) \<and>
     (\<forall>tier. en_ShutdownTier e = Some tier \<longrightarrow> 0 \<le> tier \<and> (en_Kind e = EntityKindNode \<longrightarrow> 0 < tier))"

definition edge_ok :: "string set \<Rightarrow> Edge \<Rightarrow> bool" where
  "edge_ok ids e \<longleftrightarrow> ed_From e \<noteq> '''' \<and> ed_To e \<noteq> '''' \<and> ed_From e \<noteq> ed_To e \<and>
     ed_From e \<in> ids \<and> ed_To e \<in> ids \<and> validEdgeRelation (ed_Relation e) \<and>
     (ed_Relation e = EdgeRelationFeeds \<longrightarrow> ed_Input e \<noteq> '''')"

definition snapshot_ok :: "Snapshot \<Rightarrow> bool" where
  "snapshot_ok s \<longleftrightarrow>
     (\<forall>e \<in> set (sn_Entities s). entity_ok e) \<and> distinct (map en_ID (sn_Entities s)) \<and>
     (\<forall>e \<in> set (sn_Edges s). edge_ok (en_ID ` set (sn_Entities s)) e) \<and>
     distinct (map edgeIdentity (sn_Edges s)) \<and> acyclic (feeds_edge (sn_Edges s))"

lemma validateEntity_ok [diag_simps]:
  "en_ID e \<noteq> '''' \<Longrightarrow> hasError (validateEntity e dup) \<longleftrightarrow> dup \<or> \<not> entity_ok e"
  by (auto simp: validateEntity_def entity_ok_def split: option.splits)

lemma validateEntities_ids: "snd (validateEntities es K) = K \<union> (en_ID ` set es - {''''})"
  by (induction es K rule: validateEntities.induct) (auto simp: Let_def split: prod.splits)

lemma validateEntities_ok [diag_simps]:
  "\<not> hasError (fst (validateEntities es K)) \<longleftrightarrow>
     (\<forall>e \<in> set es. entity_ok e) \<and> distinct (map en_ID es) \<and> en_ID ` set es \<inter> K = {}"
proof (induction es K rule: validateEntities.induct)
  case (2 e es K)
  show ?case
  proof (cases "en_ID e = ''''")
    case True
    then show ?thesis by (simp add: entity_ok_def split: prod.splits)
  next
    case False
    have "\<not> hasError (fst (validateEntities (e # es) K)) \<longleftrightarrow>
        en_ID e \<notin> K \<and> entity_ok e \<and> \<not> hasError (fst (validateEntities es (insert (en_ID e) K)))"
      using False by (auto simp: validateEntity_ok split: prod.splits)
    then show ?thesis using 2(2) [OF False] by auto
  qed
qed simp

lemma validateEdge_ok [diag_simps]:
  "ed_From e \<noteq> '''' \<Longrightarrow> ed_To e \<noteq> '''' \<Longrightarrow>
     hasError (validateEdge K e dup) \<longleftrightarrow> dup \<or> \<not> edge_ok K e"
  by (auto simp: validateEdge_def edge_ok_def)

lemma validateEdges_feeds: "snd (validateEdges K es seen) = filter (usableFeed K) es"
  by (induction K es seen rule: validateEdges.induct) (auto simp: Let_def usableFeed_def split: prod.splits)

lemma validateEdges_ok [diag_simps]:
  "\<not> hasError (fst (validateEdges K es seen)) \<longleftrightarrow>
     (\<forall>e \<in> set es. edge_ok K e) \<and> distinct (map edgeIdentity es) \<and> edgeIdentity ` set es \<inter> seen = {}"
proof (induction K es seen rule: validateEdges.induct)
  case (2 K e es seen)
  show ?case
  proof (cases "ed_From e = '''' \<or> ed_To e = ''''")
    case True
    then show ?thesis by (auto simp: edge_ok_def split: prod.splits)
  next
    case False
    have "\<not> hasError (fst (validateEdges K (e # es) seen)) \<longleftrightarrow>
        edgeIdentity e \<notin> seen \<and> edge_ok K e \<and> \<not> hasError (fst (validateEdges K es (insert (edgeIdentity e) seen)))"
      using False by (auto simp: validateEdge_ok split: prod.splits)
    then show ?thesis using 2(2) [OF False] by auto
  qed
qed simp

lemma hasError_feedCycle [diag_simps]: "hasError (feedCycleDiagnostics es) \<longleftrightarrow> \<not> acyclic (feeds_edge es)"
  using feedCycleDiagnostics_subjects [of _ es] feedCycleDiagnostics_none [of es]
  by (cases "feedCycleDiagnostics es") auto

lemma feeds_edge_usable:
  "\<forall>e \<in> set es. edge_ok K e \<Longrightarrow> feeds_edge (filter (usableFeed K) es) = feeds_edge es"
  by (fastforce simp: feeds_edge_def edge_ok_def usableFeed_def)

lemma validateSnapshot_ok: "hasError (validateSnapshot s) \<longleftrightarrow> \<not> snapshot_ok s"
proof -
  let ?K = "snd (validateEntities (sn_Entities s) {})"
  have "\<not> hasError (validateSnapshot s) \<longleftrightarrow>
      \<not> hasError (fst (validateEntities (sn_Entities s) {})) \<and>
      \<not> hasError (fst (validateEdges ?K (sn_Edges s) {})) \<and>
      acyclic (feeds_edge (filter (usableFeed ?K) (sn_Edges s)))"
    using validateEdges_feeds [of ?K "sn_Edges s" "{}"]
    by (auto simp: validateSnapshot_def hasError_feedCycle split: prod.splits)
  moreover have "?K = en_ID ` set (sn_Entities s)" if "\<forall>e \<in> set (sn_Entities s). entity_ok e"
    using that by (auto simp: validateEntities_ids entity_ok_def)
  ultimately show ?thesis
    using feeds_edge_usable [of "sn_Edges s" ?K]
    by (auto simp: validateEntities_ok validateEdges_ok snapshot_ok_def)
qed

text \<open>A node is orphaned when no UPS root feeds it and it is not exempt from power planning.\<close>

definition powered :: "Snapshot \<Rightarrow> string \<Rightarrow> bool" where
  "powered s v \<longleftrightarrow> (\<exists>name. powers s name v)"

definition no_orphans :: "Snapshot \<Rightarrow> bool" where
  "no_orphans s \<longleftrightarrow> (\<forall>e \<in> set (sn_Entities s). en_Kind e = EntityKindNode \<longrightarrow>
     en_PowerPlanningExempt e \<or> powered s (en_ID e))"

lemma entitiesByID_kind:
  assumes "distinct (map en_ID es)" and "e \<in> set es"
  shows "entityKindOf (entitiesByID es) (en_ID e) = en_Kind e"
proof -
  have "filter (\<lambda>x. en_ID x = en_ID e) es = [e]"
    using assms by (induction es) (auto simp: filter_empty_conv image_iff)
  then show ?thesis
    using assms(2) by (simp add: entityKindOf_def entitiesByID_def gm.get_fold_put)
qed

lemma powers_label:
  "powers s name v \<Longrightarrow> \<exists>d \<in> set (derivePowerDomains s). pd_Name d = name"
proof -
  assume p: "powers s name v"
  let ?N = "{n. \<exists>r \<in> set (sn_Entities s). en_Kind r = EntityKindUPSDevice \<and> n \<in> set (en_PowerDomains r)}"
  have "?N \<subseteq> (\<Union>r \<in> set (sn_Entities s). set (en_PowerDomains r))" by blast
  then have "finite ?N" by (rule finite_subset) simp
  then have "set (map pd_Name (derivePowerDomains s)) = ?N"
    by (simp only: derivePowerDomains_names set_sorted_list_of_set)
  moreover have "name \<in> ?N" using p by (auto simp: powers_def)
  ultimately show ?thesis by (metis (no_types, lifting) image_iff image_set)
qed

lemma domain_nodes_powered:
  assumes "snapshot_ok s" and "e \<in> set (sn_Entities s)" and "en_Kind e = EntityKindNode"
  shows "en_ID e \<in> set (concat (map pd_Nodes (derivePowerDomains s))) \<longleftrightarrow> powered s (en_ID e)"
proof -
  have ne: "en_ID e \<noteq> ''''" and kind: "entityKindOf (entitiesByID (sn_Entities s)) (en_ID e) = EntityKindNode"
    using assms entitiesByID_kind by (auto simp: snapshot_ok_def entity_ok_def)
  have "en_ID e \<in> set (pd_Nodes d) \<longleftrightarrow> powers s (pd_Name d) (en_ID e)" if "d \<in> set (derivePowerDomains s)" for d
    using derivePowerDomains_members(1,2) [OF that] ne kind by simp
  then show ?thesis using powers_label [of s _ "en_ID e"] unfolding powered_def by auto
qed

lemma validateDerivedTopology_ok:
  assumes "snapshot_ok s" and "to_Domains t = derivePowerDomains s" and "to_Entities t = sn_Entities s"
  shows "hasError (validateDerivedTopology t) \<longleftrightarrow> \<not> no_orphans s"
proof -
  have "hasError (validateDerivedEntity (set (concat (map pd_Nodes (derivePowerDomains s)))) C e) \<longleftrightarrow>
      en_Kind e = EntityKindNode \<and> \<not> en_PowerPlanningExempt e \<and> \<not> powered s (en_ID e)"
    if "e \<in> set (sn_Entities s)" for C e
    using domain_nodes_powered [OF assms(1) that] by (auto simp: validateDerivedEntity_def)
  then show ?thesis
    unfolding validateDerivedTopology_def hasError_iff no_orphans_def assms(2,3) by (simp add: hasError_iff)
qed

lemma ordersByKey_total: "\<forall>od. h od \<noteq> None \<Longrightarrow> ordersByKey h es m \<noteq> None"
proof (induction es arbitrary: m)
  case (Cons e es)
  from Cons.prems obtain k where "h (communicationOrder e) = Some k" by blast
  with Cons show ?case by simp
qed simp

lemma inventory_Compile_accepts:
  assumes "hash_snapshot H (normalizeSnapshot s) \<noteq> None" and "\<forall>od. hash_order H od \<noteq> None"
  shows "(\<exists>t. snd (inventory_Compile H s) = Inr t) \<longleftrightarrow>
     snapshot_ok (normalizeSnapshot s) \<and> no_orphans (normalizeSnapshot s)"
  using assms ordersByKey_total [of "hash_order H" "sn_Edges (normalizeSnapshot s)" "[]"]
  by (auto simp: inventory_Compile_def Let_def validateSnapshot_ok validateDerivedTopology_ok
      deriveCommunicationOrders_def split: if_splits)

lemma inventory_Compile_topology:
  assumes "snd (inventory_Compile H s) = Inr t"
  shows "snapshot_ok (normalizeSnapshot s)" and "no_orphans (normalizeSnapshot s)"
    and "to_Domains t = derivePowerDomains (normalizeSnapshot s)"
    and "to_Entities t = sn_Entities (normalizeSnapshot s)"
    and "to_Edges t = sn_Edges (normalizeSnapshot s)"
    and "deriveCommunicationOrders (hash_order H) (normalizeSnapshot s) = Some (to_CommunicationOrders t)"
  using assms
  by (auto simp: inventory_Compile_def Let_def validateSnapshot_ok validateDerivedTopology_ok
      split: if_splits option.splits)

section \<open>Communication orders and determinism\<close>

lemma ordersByKey_fold:
  "ordersByKey h es m = Some m' \<Longrightarrow>
     m' = fold (\<lambda>e. gm_put (the (h (communicationOrder e))) (communicationOrder e))
            (filter (\<lambda>e. ed_Relation e = EdgeRelationCarries) es) m \<and>
     (\<forall>e \<in> set es. ed_Relation e = EdgeRelationCarries \<longrightarrow> h (communicationOrder e) \<noteq> None)"
  by (induction h es m rule: ordersByKey.induct) (auto split: if_splits option.splits)

text \<open>With a hash that separates the orders at hand, the orders are the reversed carries edges.\<close>

lemma deriveCommunicationOrders_set:
  assumes ords: "deriveCommunicationOrders h s = Some orders"
    and inj: "inj_on h (communicationOrder ` set (sn_Edges s))"
  shows "set orders = communicationOrder ` {e \<in> set (sn_Edges s). ed_Relation e = EdgeRelationCarries}"
proof -
  let ?cs = "filter (\<lambda>e. ed_Relation e = EdgeRelationCarries) (sn_Edges s)"
  let ?key = "\<lambda>e. the (h (communicationOrder e))"
  let ?m = "fold (\<lambda>e. gm_put (?key e) (communicationOrder e)) ?cs []"
  from ords have m: "ordersByKey h (sn_Edges s) [] = Some ?m" and o: "orders = map snd ?m"
    using ordersByKey_fold [of h "sn_Edges s" "[]"] by (auto simp: deriveCommunicationOrders_def)
  have same: "communicationOrder (last (filter (\<lambda>x. ?key x = ?key e) ?cs)) = communicationOrder e" if "e \<in> set ?cs" for e
  proof -
    let ?l = "last (filter (\<lambda>x. ?key x = ?key e) ?cs)"
    have "?l \<in> set (filter (\<lambda>x. ?key x = ?key e) ?cs)"
      by (rule last_in_set) (use that in \<open>auto simp: filter_empty_conv\<close>)
    then have "?l \<in> set ?cs" "?key ?l = ?key e" by auto
    moreover have "h (communicationOrder x) \<noteq> None" if "x \<in> set ?cs" for x
      using ordersByKey_fold [OF m] that by simp
    ultimately have "h (communicationOrder ?l) = h (communicationOrder e)"
      using that by (metis option.expand)
    then show ?thesis using inj that \<open>?l \<in> set ?cs\<close> by (auto dest: inj_onD)
  qed
  have "set orders = ran (map_of ?m)"
    using gm_values [of ?m] gm.inv_fold_put [of "[]" ?key communicationOrder ?cs] by (simp add: o)
  also have "\<dots> = communicationOrder ` set ?cs"
    using same by (auto simp: ran_def gm.get_fold_put split: if_splits)
  finally show ?thesis by simp
qed

lemma normalizeSnapshot_perm:
  assumes "mset (sn_Entities s) = mset (sn_Entities s')" and "mset (sn_Edges s) = mset (sn_Edges s')"
    and "sn_SourceID s = sn_SourceID s'" and "sn_Version s = sn_Version s'" and "sn_ObservedAt s = sn_ObservedAt s'"
    and "distinct (map en_ID (sn_Entities s))"
  shows "normalizeSnapshot s = normalizeSnapshot s'"
proof -
  let ?k = "\<lambda>e. (en_ID e, en_Kind e)"
  have id: "en_ID (normalizeEntity e) = en_ID e" for e by (simp add: normalizeEntity_def)
  have "inj_on en_ID (set (sn_Entities s))" using assms(6) by (simp add: distinct_map)
  then have "inj_on ?k (set (map normalizeEntity (sn_Entities s)))"
    by (auto simp: id inj_on_def)
  then have "sort_key ?k (map normalizeEntity (sn_Entities s)) = sort_key ?k (map normalizeEntity (sn_Entities s'))"
    by (rule sort_key_mset_eq [rotated]) (simp add: assms(1))
  moreover have "inj_on (\<lambda>e. (ed_Relation e, ed_From e, ed_To e, ed_Input e, ed_SourceID e)) (set (sn_Edges s))"
    by (simp add: inj_on_def)
  ultimately show ?thesis
    using sort_key_mset_eq [OF assms(2)] by (simp add: normalizeSnapshot_def assms(3-5))
qed

section \<open>The compiler as a whole\<close>

lemma normalizeSnapshot_sel [simp]:
  "set (sn_Entities (normalizeSnapshot s)) = normalizeEntity ` set (sn_Entities s)"
  "set (sn_Edges (normalizeSnapshot s)) = set (sn_Edges s)"
  "mset (sn_Edges (normalizeSnapshot s)) = mset (sn_Edges s)"
  "mset (sn_Entities (normalizeSnapshot s)) = mset (map normalizeEntity (sn_Entities s))"
  by (simp_all add: normalizeSnapshot_def)

lemma normalizeEntity_sel [simp]:
  "en_ID (normalizeEntity e) = en_ID e" "en_Kind (normalizeEntity e) = en_Kind e"
  "set (en_PowerDomains (normalizeEntity e)) = set (en_PowerDomains e)"
  "en_PowerPlanningExempt (normalizeEntity e) = en_PowerPlanningExempt e"
  "entity_ok (normalizeEntity e) = entity_ok e"
  by (simp_all add: normalizeEntity_def entity_ok_def)

lemma snapshot_ok_normalize [simp]: "snapshot_ok (normalizeSnapshot s) \<longleftrightarrow> snapshot_ok s"
proof -
  have ids: "distinct (map en_ID (sn_Entities (normalizeSnapshot s))) \<longleftrightarrow> distinct (map en_ID (sn_Entities s))"
    using distinct_map_mset [OF normalizeSnapshot_sel(4), of en_ID s] by (simp add: comp_def)
  have edges: "distinct (map edgeIdentity (sn_Edges (normalizeSnapshot s))) \<longleftrightarrow> distinct (map edgeIdentity (sn_Edges s))"
    by (rule distinct_map_mset) simp
  show ?thesis
    by (simp add: snapshot_ok_def ids edges feeds_edge_def image_image)
qed

lemma powers_normalize [simp]: "powers (normalizeSnapshot s) name v \<longleftrightarrow> powers s name v"
  by (simp add: powers_def feeds_edge_def)

lemma no_orphans_normalize [simp]: "no_orphans (normalizeSnapshot s) \<longleftrightarrow> no_orphans s"
  by (simp add: no_orphans_def powered_def)

lemma inventory_Compile_rejects:
  assumes "hash_snapshot H (normalizeSnapshot s) \<noteq> None" and "\<forall>od. hash_order H od \<noteq> None"
    and "\<not> (snapshot_ok s \<and> no_orphans s)"
  shows "snd (inventory_Compile H s) = Inl InventoryRejected"
  using assms ordersByKey_total [of "hash_order H" "sn_Edges (normalizeSnapshot s)" "[]"]
  by (auto simp: inventory_Compile_def Let_def validateSnapshot_ok
      validateDerivedTopology_ok [of "normalizeSnapshot s"] deriveCommunicationOrders_def split: if_splits)

text \<open>C23. The inventory compiler accepts exactly the well-formed snapshots: when hashing succeeds, a
  snapshot whose entities have unique ids, supported kinds and consistent labels and tiers, whose
  edges are unique, qualified and between known entities, whose feeds graph is acyclic and whose
  every non-exempt node is fed by a UPS root compiles to a topology, and every other snapshot is
  rejected.\<close>

theorem inventory_accepts_exactly:
  assumes "hash_snapshot H (normalizeSnapshot s) \<noteq> None" and "\<forall>od. hash_order H od \<noteq> None"
  shows "if snapshot_ok s \<and> no_orphans s then \<exists>t. snd (inventory_Compile H s) = Inr t
         else snd (inventory_Compile H s) = Inl InventoryRejected"
  using inventory_Compile_accepts [OF assms] inventory_Compile_rejects [OF assms] by simp

definition example_entity :: "string \<Rightarrow> string \<Rightarrow> string list \<Rightarrow> Entity" where
  "example_entity name kind labels =
     \<lparr>en_ID = name, en_Kind = kind, en_PowerDomains = labels, en_PowerPlanningExempt = False,
      en_CommunicationPathExempt = False, en_Model = '''', en_Firmware = '''', en_DriverFamily = '''',
      en_ShutdownTier = None, en_LastDitchRole = '''', en_ControlPlane = False,
      en_ControlPlaneQuorumMember = False\<rparr>"

definition example_snapshot :: Snapshot where
  "example_snapshot =
     \<lparr>sn_SourceID = ''lab'', sn_Version = ''1'', sn_ObservedAt = '''',
      sn_Entities = [example_entity ''ups'' EntityKindUPSDevice [''rack''],
                     example_entity ''pdu'' EntityKindPowerInfrastructure [],
                     example_entity ''node'' EntityKindNode []],
      sn_Edges = [\<lparr>ed_From = ''ups'', ed_To = ''pdu'', ed_Relation = ''feeds'', ed_Input = ''A'', ed_SourceID = ''''\<rparr>,
                  \<lparr>ed_From = ''pdu'', ed_To = ''node'', ed_Relation = ''feeds'', ed_Input = ''A'', ed_SourceID = ''''\<rparr>,
                  \<lparr>ed_From = ''pdu'', ed_To = ''node'', ed_Relation = ''carries'', ed_Input = '''', ed_SourceID = ''s''\<rparr>]\<rparr>"

definition example_hash :: inventory_hash where
  "example_hash = \<lparr>hash_snapshot = \<lambda>_. Some ''h'', hash_order = \<lambda>od. Some (de_From od @ de_To od)\<rparr>"

theorem inventory_accepts_exactly_witness:
  "snapshot_ok example_snapshot \<and> no_orphans example_snapshot"
proof -
  have "snd (inventory_Compile example_hash example_snapshot) \<noteq> Inl InventoryRejected" by code_simp
  then show ?thesis
    using inventory_accepts_exactly [of example_hash example_snapshot]
    by (auto simp: example_hash_def split: if_splits)
qed

lemma entityKindOf_iff:
  assumes "distinct (map en_ID es)" and "k \<noteq> ''''"
  shows "entityKindOf (entitiesByID es) v = k \<longleftrightarrow> (\<exists>e \<in> set es. en_ID e = v \<and> en_Kind e = k)"
proof (cases "v \<in> en_ID ` set es")
  case True
  then obtain e where e: "e \<in> set es" "en_ID e = v" by auto
  have "e' = e" if "e' \<in> set es" "en_ID e' = v" for e'
    using assms(1) e that by (simp add: distinct_map inj_on_def)
  then have "(\<exists>e \<in> set es. en_ID e = v \<and> en_Kind e = k) \<longleftrightarrow> en_Kind e = k" using e by metis
  then show ?thesis using entitiesByID_kind [OF assms(1) e(1)] e(2) by simp
next
  case False
  then show ?thesis
    using assms(2) by (auto simp: entityKindOf_def entitiesByID_def gm.get_fold_put)
qed

definition entity_ids :: "Snapshot \<Rightarrow> EntityKind \<Rightarrow> string \<Rightarrow> string set" where
  "entity_ids s k name = {en_ID e | e. e \<in> set (sn_Entities s) \<and> en_Kind e = k \<and> powers s name (en_ID e)}"

lemma entity_ids_normalize [simp]: "entity_ids (normalizeSnapshot s) k name = entity_ids s k name"
  unfolding entity_ids_def by (simp add: image_iff) (metis normalizeEntity_sel(1,2))

lemma domain_kind_exact:
  assumes ok: "snapshot_ok s" and k: "k \<noteq> ''''"
  shows "{v \<in> {v. v \<noteq> '''' \<and> powers s name v}. entityKindOf (entitiesByID (sn_Entities s)) v = k} =
    entity_ids s k name"
proof -
  have "distinct (map en_ID (sn_Entities s))" "\<forall>e \<in> set (sn_Entities s). en_ID e \<noteq> ''''"
    using ok by (auto simp: snapshot_ok_def entity_ok_def)
  then show ?thesis using k by (auto simp: entityKindOf_iff entity_ids_def)
qed

text \<open>C24. In a compiled topology the power domains are the labels of the UPS roots, once each and in
  order, and the nodes (infrastructure entities) of a domain are exactly the entities of that kind
  reachable along feeds edges from a UPS root carrying the label.\<close>

theorem inventory_domains_exact:
  assumes "snd (inventory_Compile H s) = Inr t"
  shows "map pd_Name (to_Domains t) = sorted_list_of_set
       {n. \<exists>r \<in> set (sn_Entities s). en_Kind r = EntityKindUPSDevice \<and> n \<in> set (en_PowerDomains r)} \<and>
     (\<forall>d \<in> set (to_Domains t).
       set (pd_Nodes d) = entity_ids s EntityKindNode (pd_Name d) \<and>
       set (pd_Infrastructure d) = entity_ids s EntityKindPowerInfrastructure (pd_Name d))"
proof -
  let ?n = "normalizeSnapshot s"
  have ok: "snapshot_ok ?n" and d: "to_Domains t = derivePowerDomains ?n"
    using inventory_Compile_topology [OF assms] by simp_all
  have "set (pd_Nodes d) = entity_ids ?n EntityKindNode (pd_Name d) \<and>
       set (pd_Infrastructure d) = entity_ids ?n EntityKindPowerInfrastructure (pd_Name d)"
    if "d \<in> set (derivePowerDomains ?n)" for d
    unfolding derivePowerDomains_members [OF that]
    by (simp only: domain_kind_exact [OF ok] simp_thms list.distinct)
  then show ?thesis by (simp add: d derivePowerDomains_names)
qed

theorem inventory_domains_exact_witness:
  "entity_ids example_snapshot EntityKindNode ''rack'' = {''node''}"
proof -
  let ?r = "snd (inventory_Compile example_hash example_snapshot)"
  have t: "?r = Inr (projr ?r)" by code_simp
  have "map (\<lambda>d. (pd_Name d, pd_Nodes d)) (to_Domains (projr ?r)) = [(''rack'', [''node''])]" by code_simp
  then obtain d where "to_Domains (projr ?r) = [d]" "pd_Name d = ''rack''" "pd_Nodes d = [''node'']" by auto
  then show ?thesis using inventory_domains_exact [OF t] by auto
qed

text \<open>The topology does not depend on the order in which the provider lists entities and edges.\<close>

theorem inventory_order_independent:
  assumes "mset (sn_Entities s) = mset (sn_Entities s')" and "mset (sn_Edges s) = mset (sn_Edges s')"
    and "sn_SourceID s = sn_SourceID s'" and "sn_Version s = sn_Version s'" and "sn_ObservedAt s = sn_ObservedAt s'"
    and "distinct (map en_ID (sn_Entities s))"
  shows "inventory_Compile H s = inventory_Compile H s'"
  by (simp add: inventory_Compile_def normalizeSnapshot_perm [OF assms])

definition example_reordered :: Snapshot where
  "example_reordered = example_snapshot\<lparr>sn_Entities := rev (sn_Entities example_snapshot),
     sn_Edges := rev (sn_Edges example_snapshot)\<rparr>"

theorem inventory_order_independent_witness:
  "inventory_Compile example_hash example_snapshot = inventory_Compile example_hash example_reordered \<and>
   sn_Entities example_snapshot \<noteq> sn_Entities example_reordered"
  using inventory_order_independent [of example_snapshot example_reordered example_hash]
  by (simp add: example_reordered_def example_snapshot_def example_entity_def)

end
