(* ===== verification/PlannerTypes.thy ===== *)
theory PlannerTypes
  imports GoMap
begin

text \<open>
  The data of the shutdown planner, \<open>src/internal/planner/types.go\<close>: the structural inputs that
  define a plan, the telemetry and history kept apart from them, and the compiled plan.  Field names
  carry a prefix per type.  Pointers are options, 32-bit tiers and counters and 64-bit durations are
  integers, and \<open>InventoryEntities\<close>, whose nil differs from the empty slice, is an option.
\<close>

section \<open>Structural inputs\<close>

record NodeTier =
  nt_Name :: string
  nt_Tier :: int

record ControlPlaneNode =
  cp_Name :: string
  cp_QuorumMember :: bool

record CommunicationDependency =
  cd_Dependent :: string
  cd_Carrier :: string
  cd_Source :: string

record CommunicationServicePath =
  cv_Service :: string
  cv_Entities :: "string list"
  cv_Exempt :: bool

record GroupNodeMembership =
  gn_Group :: string
  gn_Unresolved :: bool
  gn_Acts :: "string list"
  gn_Releases :: "string list"

record DeviceCapability =
  dc_DeviceID :: string
  dc_ProfileID :: string
  dc_Unidentified :: bool
  dc_TelemetryVariables :: "string list"
  dc_RuntimeEstimate :: string

record PowerDomainMembership =
  pm_Name :: string
  pm_UPSDevices :: "string list"
  pm_Members :: "string list"
  pm_Nodes :: "string list"
  pm_Infrastructure :: "string list"

record TierDefinition =
  td_Tier :: int
  td_Name :: string
  td_Description :: string

record TierSelector =
  ts_Name :: string
  ts_Subject :: string
  ts_Tier :: int
  ts_Hash :: string

record TierPolicy =
  tp_LabelKey :: string
  tp_DefaultTier :: "int option"
  tp_Definitions :: "TierDefinition list"
  tp_SelectorRules :: "TierSelector list"

record Trigger =
  tr_Type :: string
  tr_FallbackType :: string
  tr_UPSDevices :: "string list"
  tr_PowerDomains :: "string list"
  tr_For :: duration
  tr_RuntimeBelowSeconds :: "int option"
  tr_ChargeBelowPercent :: "int option"

record HookReference =
  hr_Namespace :: string
  hr_Name :: string

record HookDigest =
  hd_Namespace :: string
  hd_Name :: string
  hd_Hash :: string

record Target =
  ta_IdentityHash :: string
  ta_NodeSelector :: bool
  ta_NamespaceSelector :: bool
  ta_WorkloadSelector :: bool
  ta_NamespaceCount :: int
  ta_WorkloadRefCount :: int
  ta_AgentRefCount :: int

type_synonym params = "(string, string) gmap"

record Group =
  g_Name :: string
  g_Description :: string
  g_Action :: string
  g_HookRef :: "HookReference option"
  g_Target :: Target
  g_Requires :: "string list"
  g_Before :: "string list"
  g_After :: "string list"
  g_ShutdownTier :: "int option"
  g_Timeout :: duration
  g_Params :: params
  g_TierInversionPolicy :: string

abbreviation "TierInversionBlock \<equiv> ''Block''"
abbreviation "TierInversionAllow \<equiv> ''Allow''"

record Step =
  st_ID :: string
  st_Action :: string
  st_HookRef :: "HookReference option"
  st_Target :: Target
  st_Duration :: duration
  st_Timeout :: duration
  st_ContinueOnError :: bool
  st_Params :: params

record ExecutionScope =
  es_UPSDevices :: "string list"

record StructuralInputs =
  si_SourceID :: string
  si_ObservedAt :: string
  si_ResolvedInputHash :: string
  si_TierPolicy :: TierPolicy
  si_Triggers :: "Trigger list"
  si_ExecutionScope :: "ExecutionScope option"
  si_Groups :: "Group list"
  si_Steps :: "Step list"
  si_AbortBehavior :: string
  si_AbortNotify :: bool
  si_TierOverrunPolicy :: string
  si_DeviceCapabilities :: "DeviceCapability list"
  si_PowerDomains :: "PowerDomainMembership list"
  si_CommunicationDependencies :: "CommunicationDependency list"
  si_CommunicationServices :: "CommunicationServicePath list"
  si_CommunicationExemptNodes :: "string list"
  si_InventoryEntities :: "string list option"
  si_GroupNodes :: "GroupNodeMembership list"
  si_NodeTiers :: "NodeTier list"
  si_ControlPlaneNodes :: "ControlPlaneNode list"
  si_HookDigests :: "HookDigest list"

section \<open>Telemetry and history\<close>

record PowerDomainSnapshot =
  ps_Domain :: string
  ps_ObservedAt :: string
  ps_RuntimeRemainingSeconds :: "int option"
  ps_ChargePercent :: "int option"
  ps_OnBattery :: "bool option"
  ps_Stale :: bool

record TelemetryInputs =
  ti_PowerDomains :: "PowerDomainSnapshot list"

section \<open>The compiled plan\<close>

record CommunicationCoverage =
  cc_Kind :: string
  cc_Name :: string
  cc_State :: string
  cc_Entities :: "string list"

record CommunicationSupplyConstraint =
  cs_Carrier :: string
  cs_PowerDomains :: "string list"
  cs_UPSDevices :: "string list"
  cs_UnknownSupply :: bool

record CommunicationBudget =
  cb_Scope :: string
  cb_UPSDevices :: "string list"
  cb_UnresolvedActions :: "string list"
  cb_Supplies :: "CommunicationSupplyConstraint list"
  cb_Coverage :: "CommunicationCoverage list"

record BlockedNode =
  bn_Name :: string
  bn_Reason :: string
  bn_NodeTier :: int
  bn_Groups :: "string list"
  bn_Message :: string

record PowerDomainArtifact =
  pa_Name :: string
  pa_UPSDevices :: "string list"
  pa_Members :: "string list"
  pa_Nodes :: "string list"
  pa_Infrastructure :: "string list"

record CompiledStep =
  cst_ID :: string
  cst_Index :: int
  cst_Action :: string
  cst_ShutdownTier :: "int option"
  cst_TargetSummary :: string
  cst_CumulativeDuration :: duration

record Wave =
  w_Index :: int
  w_ShutdownTier :: "int option"
  w_Groups :: "string list"
  w_Duration :: duration
  w_CumulativeDuration :: duration

record GraphVertex =
  gv_ID :: string
  gv_Kind :: string
  gv_Label :: string
  gv_Action :: string
  gv_ShutdownTier :: "int option"
  gv_TargetSummary :: string

record GraphSourceRef =
  gs_Kind :: string
  gs_Name :: string
  gs_Field :: string

record GraphEdge =
  ge_ID :: string
  ge_From :: string
  ge_To :: string
  ge_Relation :: string
  ge_Provenance :: string
  ge_Sources :: "GraphSourceRef list"
  ge_Explanation :: string

record Graph =
  gr_Vertices :: "GraphVertex list"
  gr_Edges :: "GraphEdge list"

record Explanation =
  ex_ID :: string
  ex_Subject :: string
  ex_Reason :: string
  ex_Message :: string

record DiagramExports =
  dx_Mermaid :: string
  dx_GraphvizDOT :: string
  dx_D2 :: string

record Feasibility =
  fe_Verdict :: string
  fe_Reason :: string
  fe_Detail :: string

section \<open>Zero values\<close>

text \<open>Go's zero values of the composite types the code builds field by field or reads from a map
  that lacks the key.\<close>

definition zeroTarget :: Target where
  "zeroTarget = \<lparr>ta_IdentityHash = '''', ta_NodeSelector = False, ta_NamespaceSelector = False,
     ta_WorkloadSelector = False, ta_NamespaceCount = 0, ta_WorkloadRefCount = 0, ta_AgentRefCount = 0\<rparr>"

definition zeroGroup :: Group where
  "zeroGroup = \<lparr>g_Name = '''', g_Description = '''', g_Action = '''', g_HookRef = None, g_Target = zeroTarget,
     g_Requires = [], g_Before = [], g_After = [], g_ShutdownTier = None, g_Timeout = 0, g_Params = [],
     g_TierInversionPolicy = ''''\<rparr>"

definition zeroTierPolicy :: TierPolicy where
  "zeroTierPolicy = \<lparr>tp_LabelKey = '''', tp_DefaultTier = None, tp_Definitions = [], tp_SelectorRules = []\<rparr>"

definition zeroTrigger :: Trigger where
  "zeroTrigger = \<lparr>tr_Type = '''', tr_FallbackType = '''', tr_UPSDevices = [], tr_PowerDomains = [], tr_For = 0,
     tr_RuntimeBelowSeconds = None, tr_ChargeBelowPercent = None\<rparr>"

definition zeroInputs :: StructuralInputs where
  "zeroInputs = \<lparr>si_SourceID = '''', si_ObservedAt = '''', si_ResolvedInputHash = '''', si_TierPolicy = zeroTierPolicy,
     si_Triggers = [], si_ExecutionScope = None, si_Groups = [], si_Steps = [], si_AbortBehavior = '''',
     si_AbortNotify = False, si_TierOverrunPolicy = '''', si_DeviceCapabilities = [], si_PowerDomains = [],
     si_CommunicationDependencies = [], si_CommunicationServices = [], si_CommunicationExemptNodes = [],
     si_InventoryEntities = None, si_GroupNodes = [], si_NodeTiers = [], si_ControlPlaneNodes = [], si_HookDigests = []\<rparr>"

lemma zeroGroup_sel [simp]:
  "g_Name zeroGroup = ''''" "g_ShutdownTier zeroGroup = None" "g_Requires zeroGroup = []"
  "g_Before zeroGroup = []" "g_After zeroGroup = []"
  by (simp_all add: zeroGroup_def)

end
