(* ===== verification/PlannerGraph.thy ===== *)
theory PlannerGraph
  imports PlannerTypes
begin

text \<open>
  The dependency graph artifact of a plan, \<open>src/internal/planner/artifacts.go\<close>: edge
  identifiers, sorting, deduplication, the successor table and the three diagram renderings.

  \<open>safeGraphID\<close> ranges over runes.  Strings are bytes here, so the continuation bytes of a
  multi-byte rune are skipped: the rune becomes one underscore, as in the code, for every string
  that is valid UTF-8.

  The main facts are that an edge identifier determines relation and endpoints up to
  \<open>safeGraphID\<close> (\<open>graphEdgeID_parts\<close>), that deduplication keeps every edge when the
  identifiers separate the edges and always keeps one edge per identifier, and that the successor
  table lists the edges of the graph with their multiplicity.
\<close>

abbreviation "GraphVertexKindGroup \<equiv> ''ShutdownGroup''"
abbreviation "GraphVertexKindStep \<equiv> ''ShutdownStep''"
abbreviation "GraphEdgeRelationRequires \<equiv> ''Requires''"
abbreviation "GraphEdgeRelationBefore \<equiv> ''Before''"
abbreviation "GraphEdgeRelationAfter \<equiv> ''After''"
abbreviation "GraphEdgeRelationLinearOrder \<equiv> ''LinearOrder''"
abbreviation "GraphEdgeRelationShutdownTier \<equiv> ''ShutdownTier''"
abbreviation "GraphEdgeRelationNodeClearance \<equiv> ''NodeClearance''"
abbreviation "GraphEdgeRelationCommunicationPath \<equiv> ''CommunicationPath''"
abbreviation "GraphEdgeProvenanceDeclared \<equiv> ''Declared''"
abbreviation "GraphEdgeProvenanceDerived \<equiv> ''Derived''"
abbreviation "GraphEdgeProvenancePolicy \<equiv> ''Policy''"

section \<open>Identifiers\<close>

definition graph_alnum :: "char \<Rightarrow> bool" where
  "graph_alnum c \<longleftrightarrow>
     (let n = (of_char c :: nat) in (97 \<le> n \<and> n \<le> 122) \<or> (65 \<le> n \<and> n \<le> 90) \<or> (48 \<le> n \<and> n \<le> 57))"

definition utf8_continuation :: "char \<Rightarrow> bool" where
  "utf8_continuation c \<longleftrightarrow> (let n = (of_char c :: nat) in 128 \<le> n \<and> n < 192)"

definition safeGraphID :: "string \<Rightarrow> string" where
  "safeGraphID v =
     (let s = map (\<lambda>c. if graph_alnum c then c else CHR ''_'') (filter (\<lambda>c. \<not> utf8_continuation c) v)
      in if s = [] then ''node'' else s)"

definition graphEdgeID :: "string \<Rightarrow> string \<Rightarrow> string \<Rightarrow> string" where
  "graphEdgeID from to relation = safeGraphID from @ ''-'' @ toLower relation @ ''-'' @ safeGraphID to"

section \<open>Sorting, deduplication and successors\<close>

definition edge_key :: "GraphEdge \<Rightarrow> string \<times> string \<times> string" where
  "edge_key e = (ge_From e, ge_To e, ge_Relation e)"

definition sortGraphEdges :: "GraphEdge list \<Rightarrow> GraphEdge list" where
  "sortGraphEdges es = sort_key edge_key es"

definition sortGraph :: "Graph \<Rightarrow> Graph" where
  "sortGraph g = \<lparr>gr_Vertices = sort_key gv_ID (gr_Vertices g), gr_Edges = sortGraphEdges (gr_Edges g)\<rparr>"

definition dedupeGraphEdges :: "GraphEdge list \<Rightarrow> GraphEdge list" where
  "dedupeGraphEdges es = sortGraphEdges (map snd (fold (\<lambda>e. gm_put (ge_ID e) e) es []))"

definition graphSuccessors :: "Graph \<Rightarrow> (string, string list) gmap" where
  "graphSuccessors g =
     map (\<lambda>(k, l). (k, sort l))
       (fold (\<lambda>e. gm_append (ge_From e) (ge_To e)) (gr_Edges g)
          (fold (\<lambda>v. gm_put (gv_ID v) []) (gr_Vertices g) []))"

definition summarizeTarget :: "Target \<Rightarrow> string" where
  "summarizeTarget t =
     (if ta_NodeSelector t then ''nodes selected by label selector''
      else if ta_NamespaceSelector t then ''namespaces selected by label selector''
      else if ta_WorkloadSelector t then ''workloads selected by label selector''
      else if ta_AgentRefCount t > 0 then show_int (ta_AgentRefCount t) @ '' node power agent fleet(s)''
      else if ta_WorkloadRefCount t > 0 then show_int (ta_WorkloadRefCount t) @ '' workload(s)''
      else if ta_NamespaceCount t > 0 then show_int (ta_NamespaceCount t) @ '' namespace(s)''
      else ''no explicit target'')"

section \<open>Explanations and diagrams\<close>

definition graphExplanations :: "Graph \<Rightarrow> nat \<Rightarrow> nat \<Rightarrow> Explanation list" where
  "graphExplanations g shutdownWaveCount startupWaveCount =
     map (\<lambda>e. \<lparr>ex_ID = ''edge-'' @ ge_ID e, ex_Subject = ge_ID e, ex_Reason = ge_Relation e,
                ex_Message = ge_Explanation e\<rparr>) (gr_Edges g) @
     [\<lparr>ex_ID = ''plan-compiled'', ex_Subject = ''plan'', ex_Reason = ''PlanCompiled'',
       ex_Message = ''compiled '' @ show_nat (length (gr_Vertices g)) @ '' graph vertices and '' @
         show_nat (length (gr_Edges g)) @ '' graph edges into '' @ show_nat shutdownWaveCount @ '' shutdown wave(s).''\<rparr>] @
     (if startupWaveCount > 0
      then [\<lparr>ex_ID = ''startup-projection'', ex_Subject = ''startupWaves'', ex_Reason = ''AdvisoryStartupProjection'',
             ex_Message = ''projected '' @ show_nat startupWaveCount @
               '' advisory startup wave(s) by reversing the shutdown dependency order.''\<rparr>]
      else [])"

definition newline :: string where "newline = [CHR 0x0A]"

definition diagramLabel :: "GraphVertex \<Rightarrow> string" where
  "diagramLabel v =
     (if gv_Action v = '''' then gv_Label v else gv_Label v @ [CHR 0x5C, CHR ''n''] @ gv_Action v)"

fun diagramNodeIDs_loop :: "GraphVertex list \<Rightarrow> (string, string) gmap \<Rightarrow> (string, nat) gmap \<Rightarrow> (string, string) gmap" where
  "diagramNodeIDs_loop [] ids used = ids"
| "diagramNodeIDs_loop (v # vs) ids used =
     (let base = safeGraphID (gv_ID v);
          count = (case map_of used base of None \<Rightarrow> 0 | Some n \<Rightarrow> n);
          name = (if count > 0 then base @ ''_'' @ show_nat count else base)
      in diagramNodeIDs_loop vs (gm_put (gv_ID v) name ids) (gm_put base (count + 1) used))"

definition diagramNodeIDs :: "GraphVertex list \<Rightarrow> (string, string) gmap" where
  "diagramNodeIDs vs = diagramNodeIDs_loop vs [] []"

definition renderMermaid :: "Graph \<Rightarrow> string" where
  "renderMermaid g =
     (let nodeIDs = diagramNodeIDs (gr_Vertices g) in
      ''flowchart TD'' @ newline @
      concat (map (\<lambda>v. ''  '' @ gm_string nodeIDs (gv_ID v) @ ''['' @ quote (diagramLabel v) @ '']'' @ newline) (gr_Vertices g)) @
      concat (map (\<lambda>e. ''  '' @ gm_string nodeIDs (ge_From e) @ '' -->|'' @ ge_Relation e @ ''| '' @
        gm_string nodeIDs (ge_To e) @ newline) (gr_Edges g)))"

definition renderGraphvizDOT :: "Graph \<Rightarrow> string" where
  "renderGraphvizDOT g =
     ''digraph shutdown_plan {'' @ newline @ ''  rankdir=LR;'' @ newline @
     concat (map (\<lambda>v. ''  '' @ quote (gv_ID v) @ '' [label='' @ quote (diagramLabel v) @ ''];'' @ newline) (gr_Vertices g)) @
     concat (map (\<lambda>e. ''  '' @ quote (ge_From e) @ '' -> '' @ quote (ge_To e) @ '' [label='' @ quote (ge_Relation e) @ ''];'' @ newline) (gr_Edges g)) @
     ''}'' @ newline"

definition renderD2 :: "Graph \<Rightarrow> string" where
  "renderD2 g =
     concat (map (\<lambda>v. safeGraphID (gv_ID v) @ '': '' @ quote (diagramLabel v) @ newline) (gr_Vertices g)) @
     concat (map (\<lambda>e. safeGraphID (ge_From e) @ '' -> '' @ safeGraphID (ge_To e) @ '': '' @ ge_Relation e @ newline) (gr_Edges g))"

definition renderDiagramExports :: "Graph \<Rightarrow> DiagramExports" where
  "renderDiagramExports g =
     (if gr_Vertices g = [] then \<lparr>dx_Mermaid = '''', dx_GraphvizDOT = '''', dx_D2 = ''''\<rparr>
      else \<lparr>dx_Mermaid = renderMermaid g, dx_GraphvizDOT = renderGraphvizDOT g, dx_D2 = renderD2 g\<rparr>)"

section \<open>Identifiers separate edges up to safeGraphID\<close>

lemma safeGraphID_no_dash [simp]: "CHR ''-'' \<notin> set (safeGraphID v)"
  by (auto simp: safeGraphID_def Let_def graph_alnum_def)

lemma split_at_dash:
  assumes "a @ c # b = a' @ c # b'" and "c \<notin> set a" and "c \<notin> set a'"
  shows "a = a' \<and> b = b'"
proof -
  have "a = takeWhile (\<lambda>x. x \<noteq> c) (a @ c # b)" "a' = takeWhile (\<lambda>x. x \<noteq> c) (a' @ c # b')"
    using assms(2,3) by (simp_all add: takeWhile_append)
  then show ?thesis using assms(1) by auto
qed

lemma graphEdgeID_parts:
  assumes "graphEdgeID f t r = graphEdgeID f' t' r'"
    and "CHR ''-'' \<notin> set (toLower r)" and "CHR ''-'' \<notin> set (toLower r')"
  shows "safeGraphID f = safeGraphID f' \<and> toLower r = toLower r' \<and> safeGraphID t = safeGraphID t'"
proof -
  have "safeGraphID f = safeGraphID f' \<and>
      toLower r @ CHR ''-'' # safeGraphID t = toLower r' @ CHR ''-'' # safeGraphID t'"
    by (rule split_at_dash) (use assms(1) in \<open>simp add: graphEdgeID_def\<close>, rule safeGraphID_no_dash, rule safeGraphID_no_dash)
  then show ?thesis using split_at_dash [OF _ assms(2,3)] by blast
qed

lemma relation_no_dash [simp]:
  "CHR ''-'' \<notin> set (toLower GraphEdgeRelationRequires)"
  "CHR ''-'' \<notin> set (toLower GraphEdgeRelationBefore)"
  "CHR ''-'' \<notin> set (toLower GraphEdgeRelationAfter)"
  "CHR ''-'' \<notin> set (toLower GraphEdgeRelationShutdownTier)"
  "CHR ''-'' \<notin> set (toLower GraphEdgeRelationNodeClearance)"
  "CHR ''-'' \<notin> set (toLower GraphEdgeRelationCommunicationPath)"
  by code_simp+

text \<open>Edges whose identifier is that of their endpoints and relation.\<close>

definition well_named :: "GraphEdge \<Rightarrow> bool" where
  "well_named e \<longleftrightarrow> ge_ID e = graphEdgeID (ge_From e) (ge_To e) (ge_Relation e) \<and>
     CHR ''-'' \<notin> set (toLower (ge_Relation e))"

lemma well_named_endpoints:
  assumes "well_named e" and "well_named e'" and "ge_ID e = ge_ID e'"
    and "inj_on safeGraphID N" and "{ge_From e, ge_To e, ge_From e', ge_To e'} \<subseteq> N"
  shows "ge_From e' = ge_From e \<and> ge_To e' = ge_To e"
proof -
  have "safeGraphID (ge_From e') = safeGraphID (ge_From e) \<and> safeGraphID (ge_To e') = safeGraphID (ge_To e)"
    using graphEdgeID_parts [of "ge_From e" "ge_To e" "ge_Relation e" "ge_From e'" "ge_To e'" "ge_Relation e'"]
      assms(1-3) by (simp add: well_named_def)
  then show ?thesis using assms(4,5) by (auto dest: inj_onD)
qed

section \<open>Deduplication\<close>

lemma set_sortGraphEdges [simp]: "set (sortGraphEdges es) = set es"
  by (simp add: sortGraphEdges_def)

lemma sortGraph_sel [simp]:
  "set (gr_Vertices (sortGraph g)) = set (gr_Vertices g)"
  "set (gr_Edges (sortGraph g)) = set (gr_Edges g)"
  by (simp_all add: sortGraph_def)

lemma set_dedupeGraphEdges:
  "set (dedupeGraphEdges es) = {last (filter (\<lambda>x. ge_ID x = ge_ID e) es) | e. e \<in> set es}"
proof -
  have wf: "gm_wf (fold (\<lambda>e. gm_put (ge_ID e) e) es [])"
    using gm.inv_fold_put [of "[]" ge_ID "\<lambda>e. e"] by simp
  have "set (dedupeGraphEdges es) = ran (map_of (fold (\<lambda>e. gm_put (ge_ID e) e) es []))"
    using gm_values [OF wf] by (simp add: dedupeGraphEdges_def)
  then show ?thesis
    using gm.get_fold_put [of "[]" ge_ID "\<lambda>e. e" es] by (auto simp: ran_def split: if_splits)
qed

lemma dedupe_subset: "set (dedupeGraphEdges es) \<subseteq> set es"
proof
  fix x assume "x \<in> set (dedupeGraphEdges es)"
  then obtain e where e: "e \<in> set es" and x: "x = last (filter (\<lambda>x. ge_ID x = ge_ID e) es)"
    by (auto simp: set_dedupeGraphEdges)
  have "x \<in> set (filter (\<lambda>x. ge_ID x = ge_ID e) es)"
    unfolding x by (rule last_in_set) (use e in \<open>auto simp: filter_empty_conv\<close>)
  then show "x \<in> set es" by simp
qed

text \<open>Every edge is represented by one with the same identifier.\<close>

lemma dedupe_represents:
  assumes "e \<in> set es"
  obtains e' where "e' \<in> set (dedupeGraphEdges es)" and "ge_ID e' = ge_ID e"
proof -
  let ?x = "last (filter (\<lambda>x. ge_ID x = ge_ID e) es)"
  have "?x \<in> set (filter (\<lambda>x. ge_ID x = ge_ID e) es)"
    by (rule last_in_set) (use assms in \<open>auto simp: filter_empty_conv\<close>)
  then show thesis using assms that [of ?x] by (auto simp: set_dedupeGraphEdges)
qed

section \<open>The successor table\<close>

lemma fold_put_nil: "gm_wf m \<Longrightarrow> (\<forall>k. gm_list m k = []) \<Longrightarrow>
    gm_wf (fold (\<lambda>v. gm_put (f v) []) vs m) \<and> (\<forall>k. gm_list (fold (\<lambda>v. gm_put (f v) []) vs m) k = [])"
  by (induction vs arbitrary: m) (auto simp: gm_list_def)

lemma gm_list_fold_append:
  "gm_wf m \<Longrightarrow> gm_list (fold (\<lambda>e. gm_append (f e) (g e)) es m) k = gm_list m k @ map g (filter (\<lambda>e. f e = k) es)"
  by (induction es arbitrary: m) (auto simp: gml.inv_app)

lemma gm_list_map: "gm_list (map (\<lambda>(k, l). (k, f l)) m) k = (case map_of m k of None \<Rightarrow> [] | Some l \<Rightarrow> f l)"
  by (simp add: gm_list_def map_of_map split: option.splits)

lemma gm_list_graphSuccessors:
  "gm_list (graphSuccessors g) k = sort (map ge_To (filter (\<lambda>e. ge_From e = k) (gr_Edges g)))"
proof -
  let ?init = "fold (\<lambda>v. gm_put (gv_ID v) []) (gr_Vertices g) [] :: (string, string list) gmap"
  let ?m = "fold (\<lambda>e. gm_append (ge_From e) (ge_To e)) (gr_Edges g) ?init"
  have "gm_wf ?init" "gm_list ?init k = []"
    using fold_put_nil [of "[] :: (string, string list) gmap" gv_ID "gr_Vertices g"] by (simp_all add: gm_list_def)
  then have "gm_list ?m k = map ge_To (filter (\<lambda>e. ge_From e = k) (gr_Edges g))"
    by (simp add: gm_list_fold_append)
  moreover have "gm_list (graphSuccessors g) k = sort (gm_list ?m k)"
    unfolding graphSuccessors_def gm_list_map by (simp add: gm_list_def split: option.splits)
  ultimately show ?thesis by simp
qed

definition edge_rel :: "GraphEdge list \<Rightarrow> (string \<times> string) set" where
  "edge_rel es = (\<lambda>e. (ge_From e, ge_To e)) ` set es"

lemma set_graphSuccessors:
  "set (gm_list (graphSuccessors g) u) = {v. (u, v) \<in> edge_rel (gr_Edges g)}"
  by (auto simp: gm_list_graphSuccessors edge_rel_def)

lemma edge_relI: "e \<in> set es \<Longrightarrow> (ge_From e, ge_To e) \<in> edge_rel es"
  by (auto simp: edge_rel_def)

lemma edge_rel_Nil [simp]: "edge_rel [] = {}"
  by (simp add: edge_rel_def)

lemma edge_rel_concat: "edge_rel (concat xss) = (\<Union>xs \<in> set xss. edge_rel xs)"
  by (auto simp: edge_rel_def)

lemma edge_rel_append [simp]: "edge_rel (xs @ ys) = edge_rel xs \<union> edge_rel ys"
  by (auto simp: edge_rel_def)

end
