(* ===== verification/PlannerTiers.thy ===== *)
theory PlannerTiers
  imports PlannerGraph
begin

text \<open>
  Shutdown tiers, \<open>src/internal/planner/tiers.go\<close>, and the tier half of
  \<open>src/internal/planner/nodes.go\<close>: effective tiers, the edges that order occupied tiers, tier
  policy validation, and tier inversion with the nodes it withholds from power-off.

  The lemmas state the effective tier of a group, that the tier edges connect neighbouring occupied
  tiers completely (so that any two groups of different tiers are joined by a path of tier edges),
  and that a node is withheld exactly when some group that did not opt out would outlive it.
\<close>

section \<open>Effective tiers\<close>

fun tier_max :: "int list \<Rightarrow> int \<times> bool \<Rightarrow> int \<times> bool" where
  "tier_max [] acc = acc"
| "tier_max (t # ts) (maxTier, found) =
     tier_max ts (if t > maxTier \<or> \<not> found then (t, True) else (maxTier, found))"

definition effectiveDefaultShutdownTier :: "Group list \<Rightarrow> TierPolicy \<Rightarrow> int option" where
  "effectiveDefaultShutdownTier groups policy =
     (case tp_DefaultTier policy of
        Some t \<Rightarrow> Some t
      | None \<Rightarrow>
          (let (maxTier, found) =
             tier_max (List.map_filter g_ShutdownTier groups) (tier_max (map td_Tier (tp_Definitions policy)) (0, False))
           in if \<not> found \<or> maxTier = 0 then None else Some maxTier))"

definition tiersActive :: "Group list \<Rightarrow> TierPolicy \<Rightarrow> bool" where
  "tiersActive groups policy \<longleftrightarrow>
     tp_DefaultTier policy \<noteq> None \<or> tp_Definitions policy \<noteq> [] \<or> list_ex (\<lambda>g. g_ShutdownTier g \<noteq> None) groups"

definition effectiveShutdownTiers :: "Group list \<Rightarrow> TierPolicy \<Rightarrow> (string, int) gmap" where
  "effectiveShutdownTiers groups policy =
     (if \<not> tiersActive groups policy then []
      else fold (\<lambda>g tiers.
              case g_ShutdownTier g of
                Some t \<Rightarrow> gm_put (g_Name g) t tiers
              | None \<Rightarrow> (case effectiveDefaultShutdownTier groups policy of
                           Some d \<Rightarrow> gm_put (g_Name g) d tiers
                         | None \<Rightarrow> tiers)) groups [])"

definition shutdownTierPtr :: "string \<Rightarrow> (string, int) gmap \<Rightarrow> int option" where
  "shutdownTierPtr name tiers = (if tiers = [] then None else map_of tiers name)"

definition sharedShutdownTier :: "string list \<Rightarrow> (string, int) gmap \<Rightarrow> int option" where
  "sharedShutdownTier names tiers =
     (if names = [] \<or> tiers = [] then None
      else (case map_of tiers (hd names) of
              None \<Rightarrow> None
            | Some first \<Rightarrow>
                if list_all (\<lambda>n. map_of tiers n = Some first) (tl names) then Some first else None))"

definition graphShutdownTiers :: "Graph \<Rightarrow> (string, int) gmap" where
  "graphShutdownTiers g =
     fold (\<lambda>v tiers. case gv_ShutdownTier v of None \<Rightarrow> tiers | Some t \<Rightarrow> gm_put (gv_ID v) t tiers)
       (gr_Vertices g) []"

section \<open>Tier edges\<close>

definition groupsByTier :: "Group list \<Rightarrow> (string, int) gmap \<Rightarrow> (int, string list) gmap" where
  "groupsByTier groups tiers =
     map (\<lambda>(t, names). (t, sort names))
       (fold (\<lambda>g m. case map_of tiers (g_Name g) of None \<Rightarrow> m | Some t \<Rightarrow> gm_append t (g_Name g) m) groups [])"

definition tierEdge :: "int \<Rightarrow> int \<Rightarrow> string \<Rightarrow> string \<Rightarrow> GraphEdge" where
  "tierEdge higherTier lowerTier from to =
     \<lparr>ge_ID = graphEdgeID from to GraphEdgeRelationShutdownTier, ge_From = from, ge_To = to,
      ge_Relation = GraphEdgeRelationShutdownTier, ge_Provenance = GraphEdgeProvenanceDerived,
      ge_Sources = [\<lparr>gs_Kind = ''PowerManagementCluster'', gs_Name = '''', gs_Field = ''spec.shutdownTiers''\<rparr>],
      ge_Explanation = from @ '' runs before '' @ to @ '' because shutdown tier '' @ show_int higherTier @
        '' stops before tier '' @ show_int lowerTier @ ''.''\<rparr>"

definition collectShutdownTierGraphEdges :: "Group list \<Rightarrow> TierPolicy \<Rightarrow> GraphEdge list" where
  "collectShutdownTierGraphEdges groups policy =
     (let tiers = effectiveShutdownTiers groups policy in
      if tiers = [] then []
      else let byTier = groupsByTier groups tiers;
               occupied = rev (gm_keys byTier)
           in concat (map (\<lambda>(higher, lower).
                concat (map (\<lambda>from. map (tierEdge higher lower from) (gm_list byTier lower)) (gm_list byTier higher)))
                (zip occupied (tl occupied))))"

section \<open>Tier policy\<close>

definition normalizeTierPolicy :: "TierPolicy \<Rightarrow> TierPolicy" where
  "normalizeTierPolicy p =
     \<lparr>tp_LabelKey = tp_LabelKey p, tp_DefaultTier = tp_DefaultTier p,
      tp_Definitions = sort_key (\<lambda>d. (td_Tier d, td_Name d)) (tp_Definitions p),
      tp_SelectorRules = sort_key ts_Name (tp_SelectorRules p)\<rparr>"

fun validateTierDefinitions :: "TierDefinition list \<Rightarrow> int set \<Rightarrow> Diagnostic list" where
  "validateTierDefinitions [] seen = []"
| "validateTierDefinitions (d # ds) seen =
     (if td_Tier d < 0 then [diag DiagnosticError ''ShutdownTierInvalid'' (td_Name d)
        (''shutdown tier '' @ show_int (td_Tier d) @ '' must be zero or greater'')] else []) @
     (if td_Tier d \<in> seen then [diag DiagnosticError ''DuplicateShutdownTier'' (show_int (td_Tier d))
        (''shutdown tier '' @ show_int (td_Tier d) @ '' is defined more than once'')] else []) @
     validateTierDefinitions ds (insert (td_Tier d) seen)"

fun validateTierRules :: "TierSelector list \<Rightarrow> string set \<Rightarrow> Diagnostic list" where
  "validateTierRules [] seen = []"
| "validateTierRules (r # rs) seen =
     (if ts_Name r = '''' then [diag DiagnosticError ''ShutdownTierRuleNameRequired'' ''''
        ''every shutdown tier selector rule requires a name''] else []) @
     (if ts_Name r \<noteq> '''' \<and> ts_Name r \<in> seen then [diag DiagnosticError ''DuplicateShutdownTierRule'' (ts_Name r)
        (''shutdown tier selector rule '' @ quote (ts_Name r) @ '' is duplicated'')] else []) @
     (if ts_Tier r < 0 then [diag DiagnosticError ''ShutdownTierInvalid'' (ts_Name r)
        (''shutdown tier selector rule '' @ quote (ts_Name r) @ '' assigns invalid tier '' @ show_int (ts_Tier r))] else []) @
     validateTierRules rs (insert (ts_Name r) seen)"

definition validateTierPolicy :: "TierPolicy \<Rightarrow> Diagnostic list" where
  "validateTierPolicy p =
     (case tp_DefaultTier p of
        None \<Rightarrow> []
      | Some t \<Rightarrow> if t < 2 then [diag DiagnosticError ''ShutdownTierDefaultReserved'' ''''
          ''shutdown tier default must be 2 or greater; tiers 0 and 1 are reserved''] else []) @
     validateTierDefinitions (tp_Definitions p) {} @
     validateTierRules (tp_SelectorRules p) {}"

definition validateGroupShutdownTier :: "Group \<Rightarrow> Diagnostic list" where
  "validateGroupShutdownTier g =
     (case g_ShutdownTier g of
        None \<Rightarrow> []
      | Some tier \<Rightarrow>
          if tier < 0 then [diag DiagnosticError ''ShutdownTierInvalid'' (g_Name g)
            (''shutdown group '' @ quote (g_Name g) @ '' has invalid shutdown tier '' @ show_int tier)]
          else if tier = 0 then [diag DiagnosticError ''ShutdownTierZeroTargeted'' (g_Name g)
            (''shutdown group '' @ quote (g_Name g) @ '' targets tier 0, which is excluded from orchestrated flow actions'')]
          else [])"

definition validateGroupShutdownTiers :: "Group list \<Rightarrow> Diagnostic list" where
  "validateGroupShutdownTiers groups = concat (map validateGroupShutdownTier groups)"

definition reportDefaultedShutdownTiers :: "StructuralInputs \<Rightarrow> Diagnostic list" where
  "reportDefaultedShutdownTiers inp =
     (case effectiveDefaultShutdownTier (si_Groups inp) (si_TierPolicy inp) of
        None \<Rightarrow> []
      | Some d \<Rightarrow>
          map (\<lambda>g. diag DiagnosticInfo ''ShutdownTierDefaulted'' (g_Name g)
                 (''shutdown group '' @ quote (g_Name g) @ '' declares no tier and was placed at the default tier '' @ show_int d))
            (filter (\<lambda>g. \<not> (g_Name g = '''' \<or> g_ShutdownTier g \<noteq> None)) (si_Groups inp)))"

section \<open>Tier inversion\<close>

record tierInversion =
  tv_Group :: string
  tv_Node :: string
  tv_GroupTier :: int
  tv_NodeTier :: int
  tv_Policy :: string

definition effectiveTierInversionPolicy :: "Group \<Rightarrow> string" where
  "effectiveTierInversionPolicy g =
     (if g_TierInversionPolicy g = TierInversionAllow then TierInversionAllow else TierInversionBlock)"

definition nodeTierMap :: "NodeTier list \<Rightarrow> (string, int) gmap" where
  "nodeTierMap nts = fold (\<lambda>n. gm_put (nt_Name n) (nt_Tier n)) nts []"

definition inversionPolicies :: "Group list \<Rightarrow> (string, string) gmap" where
  "inversionPolicies groups = fold (\<lambda>g. gm_put (g_Name g) (effectiveTierInversionPolicy g)) groups []"

definition entryInversions :: "(string, int) gmap \<Rightarrow> (string, int) gmap \<Rightarrow> (string, string) gmap
    \<Rightarrow> GroupNodeMembership \<Rightarrow> tierInversion list" where
  "entryInversions groupTiers nodeTiers policies entry =
     (case map_of groupTiers (gn_Group entry) of
        None \<Rightarrow> []
      | Some groupTier \<Rightarrow>
          concat (map (\<lambda>node.
            case map_of nodeTiers node of
              None \<Rightarrow> []
            | Some nodeTier \<Rightarrow>
                if nodeTier \<le> groupTier then []
                else [\<lparr>tv_Group = gn_Group entry, tv_Node = node, tv_GroupTier = groupTier, tv_NodeTier = nodeTier,
                       tv_Policy = gm_string policies (gn_Group entry)\<rparr>]) (gn_Acts entry)))"

definition detectTierInversions :: "StructuralInputs \<Rightarrow> tierInversion list" where
  "detectTierInversions inp =
     (let groupTiers = effectiveShutdownTiers (si_Groups inp) (si_TierPolicy inp) in
      if si_GroupNodes inp = [] \<or> si_NodeTiers inp = [] \<or> groupTiers = [] then []
      else sort_key (\<lambda>i. (tv_Node i, tv_Group i))
             (concat (map (entryInversions groupTiers (nodeTierMap (si_NodeTiers inp)) (inversionPolicies (si_Groups inp)))
                (si_GroupNodes inp))))"

definition inversionDiagnostic :: "tierInversion \<Rightarrow> Diagnostic" where
  "inversionDiagnostic i =
     (if tv_Policy i = TierInversionAllow
      then diag DiagnosticWarning ''ShutdownTierInversionAllowed'' (tv_Group i)
        (''shutdown group '' @ quote (tv_Group i) @ '' is tier '' @ show_int (tv_GroupTier i) @ '' but runs on node '' @
         quote (tv_Node i) @ '' at tier '' @ show_int (tv_NodeTier i) @
         ''; the group sets tierInversionPolicy Allow, so the node powers off on schedule and this group goes down with it'')
      else diag DiagnosticWarning ''ShutdownTierInversion'' (tv_Group i)
        (''shutdown group '' @ quote (tv_Group i) @ '' is tier '' @ show_int (tv_GroupTier i) @ '' but runs on node '' @
         quote (tv_Node i) @ '' at tier '' @ show_int (tv_NodeTier i) @
         ''; the node is scheduled to power off before this group stops and is withheld from power-off''))"

definition validateTierInversion :: "StructuralInputs \<Rightarrow> Diagnostic list" where
  "validateTierInversion inp = sort_key Message (map inversionDiagnostic (detectTierInversions inp))"

definition joinQuoted :: "string list \<Rightarrow> string" where
  "joinQuoted vs = join '', '' (map quote vs)"

definition blockedNode :: "string \<Rightarrow> int \<Rightarrow> string list \<Rightarrow> BlockedNode" where
  "blockedNode node tier groups =
     \<lparr>bn_Name = node, bn_Reason = ''ShutdownTierInversion'', bn_NodeTier = tier, bn_Groups = groups,
      bn_Message = ''node '' @ quote node @ '' is tier '' @ show_int tier @ '' but still runs '' @ joinQuoted groups @
        '', scheduled to stop later; the node is withheld from power-off''\<rparr>"

definition blockedNodesFromInversions :: "tierInversion list \<Rightarrow> BlockedNode list" where
  "blockedNodesFromInversions inversions =
     (let blocking = filter (\<lambda>i. tv_Policy i \<noteq> TierInversionAllow) inversions;
          groupsByNode = fold (\<lambda>i. gm_append (tv_Node i) (tv_Group i)) blocking [];
          tierByNode = fold (\<lambda>i m. if map_of m (tv_Node i) = None then gm_put (tv_Node i) (tv_NodeTier i) m else m) blocking []
      in map (\<lambda>node. blockedNode node (gm_int tierByNode node) (sort (gm_list groupsByNode node)))
           (gm_keys groupsByNode))"

section \<open>Effective tiers of uniquely named groups\<close>

definition effective_tier :: "Group list \<Rightarrow> TierPolicy \<Rightarrow> Group \<Rightarrow> int option" where
  "effective_tier groups policy g =
     (case g_ShutdownTier g of Some t \<Rightarrow> Some t | None \<Rightarrow> effectiveDefaultShutdownTier groups policy)"

lemma tier_max_found:
  "tier_max ts (m, f) = (m', f') \<Longrightarrow>
     (f' \<longleftrightarrow> f \<or> ts \<noteq> []) \<and> (f' \<longrightarrow> m' \<in> (if f then insert m (set ts) else set ts)) \<and>
     (\<not> f' \<longrightarrow> m' = m)"
  by (induction ts "(m, f)" arbitrary: m f rule: tier_max.induct) (auto split: if_splits)

lemma inactive_no_default:
  assumes "\<not> tiersActive groups policy"
  shows "effectiveDefaultShutdownTier groups policy = None" and "\<forall>g \<in> set groups. g_ShutdownTier g = None"
proof -
  show none: "\<forall>g \<in> set groups. g_ShutdownTier g = None"
    using assms by (auto simp: tiersActive_def list_ex_iff)
  then have "List.map_filter g_ShutdownTier groups = []"
    by (induction groups) (auto simp: List.map_filter_simps)
  then show "effectiveDefaultShutdownTier groups policy = None"
    using assms by (simp add: effectiveDefaultShutdownTier_def tiersActive_def)
qed

lemma tiers_fold_get:
  assumes "distinct (map g_Name gs)" and "gm_wf m"
  shows "map_of (fold (\<lambda>g tiers. case g_ShutdownTier g of Some t \<Rightarrow> gm_put (g_Name g) t tiers
            | None \<Rightarrow> (case D of Some d \<Rightarrow> gm_put (g_Name g) d tiers | None \<Rightarrow> tiers)) gs m) k =
     (case find (\<lambda>g. g_Name g = k) gs of
        None \<Rightarrow> map_of m k
      | Some g \<Rightarrow> (case (case g_ShutdownTier g of Some t \<Rightarrow> Some t | None \<Rightarrow> D) of
            None \<Rightarrow> map_of m k | Some t \<Rightarrow> Some t))"
  using assms
proof (induction gs arbitrary: m)
  case (Cons g gs)
  let ?m = "(case g_ShutdownTier g of Some t \<Rightarrow> gm_put (g_Name g) t m
      | None \<Rightarrow> (case D of Some d \<Rightarrow> gm_put (g_Name g) d m | None \<Rightarrow> m))"
  have "gm_wf ?m" using Cons.prems(2) by (auto split: option.splits)
  moreover have "find (\<lambda>g'. g_Name g' = g_Name g) gs = None"
    using Cons.prems(1) by (auto simp: find_None_iff image_iff)
  ultimately show ?case
    using Cons.IH [of ?m] Cons.prems(1) by (auto split: option.splits)
qed simp

lemma tiers_fold_wf:
  "gm_wf m \<Longrightarrow> gm_wf (fold (\<lambda>g tiers. case g_ShutdownTier g of Some t \<Rightarrow> gm_put (g_Name g) t tiers
            | None \<Rightarrow> (case D of Some d \<Rightarrow> gm_put (g_Name g) d tiers | None \<Rightarrow> tiers)) gs m)"
  by (induction gs arbitrary: m) (auto split: option.splits)

lemma effective_tiers_get:
  assumes "distinct (map g_Name groups)"
  shows "map_of (effectiveShutdownTiers groups policy) k =
    (case find (\<lambda>g. g_Name g = k) groups of None \<Rightarrow> None | Some g \<Rightarrow> effective_tier groups policy g)"
proof (cases "tiersActive groups policy")
  case True
  then show ?thesis
    using tiers_fold_get [OF assms gm_wf_Nil, of "effectiveDefaultShutdownTier groups policy" k]
    by (auto simp: effectiveShutdownTiers_def effective_tier_def split: option.splits)
next
  case False
  then show ?thesis
    using inactive_no_default [OF False]
    by (auto simp: effectiveShutdownTiers_def effective_tier_def find_Some_iff split: option.splits)
qed

lemma effective_tiers_group:
  assumes "distinct (map g_Name groups)" and "g \<in> set groups"
  shows "map_of (effectiveShutdownTiers groups policy) (g_Name g) = effective_tier groups policy g"
  by (simp add: effective_tiers_get [OF assms(1)] find_unique [OF assms])

text \<open>Valid policies and groups have positive effective tiers: tier 0 is never scheduled.\<close>

lemma tier_definitions_ok:
  "\<not> hasError (validateTierDefinitions ds seen) \<Longrightarrow> \<forall>d \<in> set ds. 0 \<le> td_Tier d"
  by (induction ds seen rule: validateTierDefinitions.induct) (auto split: if_splits)

lemma group_tiers_ok:
  "\<not> hasError (validateGroupShutdownTiers gs) \<Longrightarrow> g \<in> set gs \<Longrightarrow> g_ShutdownTier g = Some t \<Longrightarrow> 0 < t"
proof (induction gs)
  case (Cons a gs)
  then show ?case by (auto simp: validateGroupShutdownTiers_def validateGroupShutdownTier_def split: option.splits if_splits)
qed simp

lemma effective_tier_positive:
  assumes "\<not> hasError (validateTierPolicy policy)" and "\<not> hasError (validateGroupShutdownTiers groups)"
    and "g \<in> set groups" and "effective_tier groups policy g = Some t"
  shows "0 < t"
proof (cases "g_ShutdownTier g")
  case (Some t')
  then show ?thesis using group_tiers_ok assms by (auto simp: effective_tier_def)
next
  case None
  then have d: "effectiveDefaultShutdownTier groups policy = Some t" using assms(4) by (simp add: effective_tier_def)
  show ?thesis
  proof (cases "tp_DefaultTier policy")
    case (Some t')
    then show ?thesis
      using assms(1) d by (auto simp: validateTierPolicy_def effectiveDefaultShutdownTier_def split: if_splits)
  next
    case none: None
    obtain m f where mf: "tier_max (map td_Tier (tp_Definitions policy)) (0, False) = (m, f)" by fastforce
    with d none have t: "tier_max (List.map_filter g_ShutdownTier groups) (m, f) = (t, True)" "t \<noteq> 0"
      by (auto simp: effectiveDefaultShutdownTier_def split: prod.splits if_splits)
    have pos: "0 \<le> x" if "x \<in> td_Tier ` set (tp_Definitions policy) \<union> set (List.map_filter g_ShutdownTier groups)" for x
      using that tier_definitions_ok assms(1) group_tiers_ok [OF assms(2)]
      by (fastforce simp: validateTierPolicy_def set_map_filter)
    have "t \<in> td_Tier ` set (tp_Definitions policy) \<union> set (List.map_filter g_ShutdownTier groups)"
      using tier_max_found [OF t(1)] tier_max_found [OF mf] by (auto split: if_splits)
    then show ?thesis using pos [of t] t(2) by simp
  qed
qed

section \<open>Tier edges order every pair of tiers\<close>

lemma zip_tl_descending:
  fixes xs :: "'a::linorder list"
  assumes "sorted_wrt (>) xs"
  shows "(a, b) \<in> set (zip xs (tl xs)) \<longleftrightarrow> a \<in> set xs \<and> b \<in> set xs \<and> b < a \<and> (\<forall>c \<in> set xs. \<not> (b < c \<and> c < a))"
  using assms
proof (induction xs)
  case (Cons x xs)
  show ?case
  proof (cases xs)
    case (Cons y ys)
    have "(a, b) \<in> set (zip (x # xs) (tl (x # xs))) \<longleftrightarrow> (a = x \<and> b = y) \<or> (a, b) \<in> set (zip xs (tl xs))"
      using Cons by auto
    then show ?thesis using Cons.IH Cons.prems Cons by (auto simp: not_less)
  qed auto
qed simp

lemma gm_keys_map: "gm_keys (map (\<lambda>(k, l). (k, f l)) m) = gm_keys m"
  by (simp add: gm_keys_def case_prod_unfold comp_def)

definition tier_groups :: "Group list \<Rightarrow> (string, int) gmap \<Rightarrow> (Group \<times> int) list" where
  "tier_groups groups tiers =
     List.map_filter (\<lambda>g. map_option (Pair g) (map_of tiers (g_Name g))) groups"

lemma groupsByTier_fold:
  "fold (\<lambda>g m. case map_of tiers (g_Name g) of None \<Rightarrow> m | Some t \<Rightarrow> gm_append t (g_Name g) m) groups m =
   fold (\<lambda>(g, t). gm_append t (g_Name g)) (tier_groups groups tiers) m"
  by (induction groups arbitrary: m)
    (auto simp: tier_groups_def List.map_filter_simps split: option.splits)

lemma set_tier_groups: "set (tier_groups groups tiers) = {(g, t). g \<in> set groups \<and> map_of tiers (g_Name g) = Some t}"
  by (auto simp: tier_groups_def set_map_filter)

definition at_tier :: "Group list \<Rightarrow> (string, int) gmap \<Rightarrow> int \<Rightarrow> string set" where
  "at_tier groups tiers t = g_Name ` {g \<in> set groups. map_of tiers (g_Name g) = Some t}"

lemma groupsByTier_get: "set (gm_list (groupsByTier groups tiers) t) = at_tier groups tiers t"
proof -
  let ?m = "fold (\<lambda>p. gm_append (snd p) (g_Name (fst p))) (tier_groups groups tiers) []"
  have "set (gm_list (groupsByTier groups tiers) t) = set (gm_list ?m t)"
    unfolding groupsByTier_def gm_list_map groupsByTier_fold
    by (simp add: gm_list_def case_prod_unfold split: option.splits)
  also have "gm_list ?m t = map (g_Name \<circ> fst) (filter (\<lambda>p. snd p = t) (tier_groups groups tiers))"
    by (simp add: gm_list_group_by comp_def)
  also have "set \<dots> = g_Name ` fst ` {p \<in> set (tier_groups groups tiers). snd p = t}" by auto
  also have "fst ` {p \<in> set (tier_groups groups tiers). snd p = t} = {g \<in> set groups. map_of tiers (g_Name g) = Some t}"
    unfolding set_tier_groups by (auto intro!: image_eqI [where x = "(_, t)"])
  finally show ?thesis by (simp only: at_tier_def)
qed

lemma groupsByTier_keys:
  "gm_keys (groupsByTier groups tiers) =
     sorted_list_of_set {t. at_tier groups tiers t \<noteq> {}}"
proof -
  let ?m = "fold (\<lambda>p. gm_append (snd p) (g_Name (fst p))) (tier_groups groups tiers) []"
  have "gm_keys (groupsByTier groups tiers) = gm_keys ?m"
    unfolding groupsByTier_def gm_keys_map groupsByTier_fold by (simp add: case_prod_unfold)
  also have "\<dots> = sorted_list_of_set (snd ` set (tier_groups groups tiers))"
    using gml.dom_group_by [of snd "\<lambda>p. g_Name (fst p)" "tier_groups groups tiers"]
      gml.inv_fold_app [of "[]" snd "\<lambda>p. g_Name (fst p)" "tier_groups groups tiers"]
    by (simp add: gm.keys_eq)
  also have "snd ` set (tier_groups groups tiers) = {t. at_tier groups tiers t \<noteq> {}}"
    by (force simp: set_tier_groups at_tier_def)
  finally show ?thesis .
qed

lemma finite_occupied: "finite {t. at_tier groups tiers t \<noteq> {}}"
  by (rule finite_subset [of _ "(\<lambda>g. the (map_of tiers (g_Name g))) ` set groups"])
    (force simp: at_tier_def, simp)

lemma occupied_descending:
  "sorted_wrt (>) (rev (gm_keys (groupsByTier groups tiers)))"
  "set (gm_keys (groupsByTier groups tiers)) = {t. at_tier groups tiers t \<noteq> {}}"
  using finite_occupied [of groups tiers] by (simp_all add: groupsByTier_keys sorted_wrt_rev)

lemma tierEdge_sel [simp]:
  "ge_From (tierEdge h l f t) = f" "ge_To (tierEdge h l f t) = t"
  "ge_Relation (tierEdge h l f t) = GraphEdgeRelationShutdownTier"
  "ge_ID (tierEdge h l f t) = graphEdgeID f t GraphEdgeRelationShutdownTier"
  by (simp_all add: tierEdge_def)

lemma edge_rel_tierEdges: "edge_rel (map (tierEdge h l f) ts) = {f} \<times> set ts"
  by (force simp: edge_rel_def)

text \<open>Neighbouring occupied tiers, the higher first.\<close>

definition adjacent_tiers :: "Group list \<Rightarrow> (string, int) gmap \<Rightarrow> int \<Rightarrow> int \<Rightarrow> bool" where
  "adjacent_tiers groups tiers ta tb \<longleftrightarrow> at_tier groups tiers ta \<noteq> {} \<and> at_tier groups tiers tb \<noteq> {} \<and> tb < ta \<and>
     (\<forall>tc. at_tier groups tiers tc \<noteq> {} \<longrightarrow> \<not> (tb < tc \<and> tc < ta))"

lemma tier_edges_iff:
  "(x, y) \<in> edge_rel (collectShutdownTierGraphEdges groups policy) \<longleftrightarrow>
     (\<exists>ta tb. adjacent_tiers groups (effectiveShutdownTiers groups policy) ta tb \<and>
        x \<in> at_tier groups (effectiveShutdownTiers groups policy) ta \<and>
        y \<in> at_tier groups (effectiveShutdownTiers groups policy) tb)"
proof (cases "effectiveShutdownTiers groups policy = []")
  case True
  then show ?thesis by (simp add: collectShutdownTierGraphEdges_def edge_rel_def at_tier_def)
next
  case False
  let ?tiers = "effectiveShutdownTiers groups policy"
  let ?by = "groupsByTier groups ?tiers"
  let ?occ = "rev (gm_keys ?by)"
  have "(x, y) \<in> edge_rel (collectShutdownTierGraphEdges groups policy) \<longleftrightarrow>
      (\<exists>p \<in> set (zip ?occ (tl ?occ)). x \<in> set (gm_list ?by (fst p)) \<and> y \<in> set (gm_list ?by (snd p)))"
    using False
    by (simp add: collectShutdownTierGraphEdges_def Let_def edge_rel_concat edge_rel_tierEdges case_prod_unfold)
  also have "\<dots> \<longleftrightarrow> (\<exists>ta tb. (ta, tb) \<in> set (zip ?occ (tl ?occ)) \<and> x \<in> at_tier groups ?tiers ta \<and> y \<in> at_tier groups ?tiers tb)"
    unfolding groupsByTier_get by (metis prod.collapse fst_conv snd_conv)
  also have "(\<lambda>ta tb. (ta, tb) \<in> set (zip ?occ (tl ?occ))) = adjacent_tiers groups ?tiers"
    by (intro ext) (simp add: zip_tl_descending [OF occupied_descending(1)] adjacent_tiers_def occupied_descending(2))
  finally show ?thesis .
qed

lemma adjacent_above:
  assumes "at_tier groups tiers ta \<noteq> {}" and "at_tier groups tiers tb \<noteq> {}" and "tb < ta"
  obtains tc where "adjacent_tiers groups tiers tc tb" and "tc \<le> ta"
proof -
  let ?A = "{t. at_tier groups tiers t \<noteq> {} \<and> tb < t}"
  have A: "finite ?A" "ta \<in> ?A" using finite_occupied [of groups tiers] assms by (auto intro: rev_finite_subset)
  have "Min ?A \<in> ?A" using Min_in [OF A(1)] A(2) by blast
  moreover have "Min ?A \<le> t" if "t \<in> ?A" for t using A(1) that by simp
  ultimately have "adjacent_tiers groups tiers (Min ?A) tb" "Min ?A \<le> ta"
    using A(2) assms(2) by (fastforce simp: adjacent_tiers_def)+
  then show thesis by (rule that)
qed

text \<open>Every group of a higher tier precedes every group of a lower one along tier edges.\<close>

lemma tier_path:
  assumes "x \<in> at_tier groups (effectiveShutdownTiers groups policy) ta"
    and "y \<in> at_tier groups (effectiveShutdownTiers groups policy) tb" and "tb < ta"
  shows "(x, y) \<in> (edge_rel (collectShutdownTierGraphEdges groups policy))\<^sup>+"
  using assms(2,3)
proof (induction "nat (ta - tb)" arbitrary: y tb rule: less_induct)
  case less
  let ?tiers = "effectiveShutdownTiers groups policy"
  obtain tc where adj: "adjacent_tiers groups ?tiers tc tb" and le: "tc \<le> ta"
    using adjacent_above [of groups ?tiers ta tb] assms(1) less.prems by blast
  show ?case
  proof (cases "tc = ta")
    case True
    then show ?thesis using adj assms(1) less.prems(1) by (meson tier_edges_iff r_into_trancl)
  next
    case False
    from adj obtain z where z: "z \<in> at_tier groups ?tiers tc" by (auto simp: adjacent_tiers_def)
    have "(z, y) \<in> edge_rel (collectShutdownTierGraphEdges groups policy)"
      using adj z less.prems(1) by (meson tier_edges_iff)
    moreover have "(x, z) \<in> (edge_rel (collectShutdownTierGraphEdges groups policy))\<^sup>+"
      by (rule less.hyps [OF _ z]) (use adj le False in \<open>auto simp: adjacent_tiers_def\<close>)
    ultimately show ?thesis by (rule trancl_into_trancl [rotated])
  qed
qed

section \<open>Tier inversion\<close>

definition inverts :: "StructuralInputs \<Rightarrow> string \<Rightarrow> string \<Rightarrow> int \<Rightarrow> int \<Rightarrow> bool" where
  "inverts inp k node gt nt \<longleftrightarrow>
     (\<exists>e \<in> set (si_GroupNodes inp). gn_Group e = k \<and> node \<in> set (gn_Acts e)) \<and>
     map_of (effectiveShutdownTiers (si_Groups inp) (si_TierPolicy inp)) k = Some gt \<and>
     map_of (nodeTierMap (si_NodeTiers inp)) node = Some nt \<and> gt < nt"

lemma in_entryInversions:
  "i \<in> set (entryInversions gts nts ps e) \<longleftrightarrow>
     tv_Group i = gn_Group e \<and> tv_Node i \<in> set (gn_Acts e) \<and> map_of gts (gn_Group e) = Some (tv_GroupTier i) \<and>
     map_of nts (tv_Node i) = Some (tv_NodeTier i) \<and> tv_GroupTier i < tv_NodeTier i \<and>
     tv_Policy i = gm_string ps (gn_Group e)"
proof (cases "map_of gts (gn_Group e)")
  case (Some gt)
  let ?f = "\<lambda>n. case map_of nts n of None \<Rightarrow> [] | Some nt \<Rightarrow> if nt \<le> gt then []
      else [\<lparr>tv_Group = gn_Group e, tv_Node = n, tv_GroupTier = gt, tv_NodeTier = nt, tv_Policy = gm_string ps (gn_Group e)\<rparr>]"
  have "i \<in> set (?f n) \<longleftrightarrow> tv_Group i = gn_Group e \<and> tv_Node i = n \<and> tv_GroupTier i = gt \<and>
      map_of nts n = Some (tv_NodeTier i) \<and> gt < tv_NodeTier i \<and> tv_Policy i = gm_string ps (gn_Group e)" for n
    by (cases i; cases "map_of nts n") auto
  moreover have "i \<in> set (entryInversions gts nts ps e) \<longleftrightarrow> (\<exists>n \<in> set (gn_Acts e). i \<in> set (?f n))"
    using Some by (simp add: entryInversions_def)
  ultimately show ?thesis using Some by auto
qed (simp add: entryInversions_def)

lemma nodeTierMap_Nil [simp]: "nodeTierMap [] = []"
  by (simp add: nodeTierMap_def)

lemma in_detectTierInversions:
  "i \<in> set (detectTierInversions inp) \<longleftrightarrow>
     inverts inp (tv_Group i) (tv_Node i) (tv_GroupTier i) (tv_NodeTier i) \<and>
     tv_Policy i = gm_string (inversionPolicies (si_Groups inp)) (tv_Group i)"
proof (cases "si_GroupNodes inp = [] \<or> si_NodeTiers inp = [] \<or>
    effectiveShutdownTiers (si_Groups inp) (si_TierPolicy inp) = []")
  case True
  then show ?thesis by (auto simp: detectTierInversions_def inverts_def)
next
  case False
  then have "i \<in> set (detectTierInversions inp) \<longleftrightarrow> (\<exists>e \<in> set (si_GroupNodes inp). i \<in>
      set (entryInversions (effectiveShutdownTiers (si_Groups inp) (si_TierPolicy inp))
        (nodeTierMap (si_NodeTiers inp)) (inversionPolicies (si_Groups inp)) e))"
    by (simp add: detectTierInversions_def)
  then show ?thesis unfolding in_entryInversions inverts_def by (metis (no_types, lifting))
qed

lemma ex_inversion:
  "(\<exists>i \<in> set (detectTierInversions inp). tv_Policy i \<noteq> TierInversionAllow \<and> tv_Node i = n \<and> tv_Group i = k) \<longleftrightarrow>
     (\<exists>gt nt. inverts inp k n gt nt) \<and> gm_string (inversionPolicies (si_Groups inp)) k \<noteq> TierInversionAllow"
proof
  assume "(\<exists>gt nt. inverts inp k n gt nt) \<and> gm_string (inversionPolicies (si_Groups inp)) k \<noteq> TierInversionAllow"
  then obtain gt nt where "inverts inp k n gt nt" and "gm_string (inversionPolicies (si_Groups inp)) k \<noteq> TierInversionAllow"
    by blast
  then show "\<exists>i \<in> set (detectTierInversions inp). tv_Policy i \<noteq> TierInversionAllow \<and> tv_Node i = n \<and> tv_Group i = k"
    by (intro bexI [of _ "\<lparr>tv_Group = k, tv_Node = n, tv_GroupTier = gt, tv_NodeTier = nt,
        tv_Policy = gm_string (inversionPolicies (si_Groups inp)) k\<rparr>"]) (simp_all add: in_detectTierInversions)
qed (auto simp: in_detectTierInversions, blast)

lemma inversionPolicies_get:
  assumes "distinct (map g_Name groups)" and "g \<in> set groups"
  shows "gm_string (inversionPolicies groups) (g_Name g) = effectiveTierInversionPolicy g"
proof -
  have "filter (\<lambda>x. g_Name x = g_Name g) groups = [g]"
    using assms by (induction groups) (auto simp: filter_empty_conv image_iff)
  then show ?thesis using assms(2) by (simp add: gm_string_def inversionPolicies_def gm.get_fold_put)
qed

lemma effective_tiers_dom:
  assumes "distinct (map g_Name groups)" and "map_of (effectiveShutdownTiers groups policy) k = Some t"
  obtains g where "g \<in> set groups" and "g_Name g = k" and "effective_tier groups policy g = Some t"
proof -
  from assms(2) obtain g where "find (\<lambda>g. g_Name g = k) groups = Some g" "effective_tier groups policy g = Some t"
    by (auto simp: effective_tiers_get [OF assms(1)] split: option.splits)
  then show thesis using that [of g] by (auto simp: find_Some_iff)
qed

text \<open>The groups that hold a node up: they act on it, their tier is lower than the node's, and they did
  not accept going down with it.\<close>

definition holds_up :: "StructuralInputs \<Rightarrow> Group \<Rightarrow> string \<Rightarrow> bool" where
  "holds_up inp g node \<longleftrightarrow>
     (\<exists>e \<in> set (si_GroupNodes inp). gn_Group e = g_Name g \<and> node \<in> set (gn_Acts e)) \<and>
     (\<exists>gt nt. effective_tier (si_Groups inp) (si_TierPolicy inp) g = Some gt \<and>
        map_of (nodeTierMap (si_NodeTiers inp)) node = Some nt \<and> gt < nt) \<and>
     g_TierInversionPolicy g \<noteq> TierInversionAllow"

lemma blocking_inversions:
  assumes "distinct (map g_Name (si_Groups inp))"
  shows "(\<exists>i \<in> set (detectTierInversions inp). tv_Policy i \<noteq> TierInversionAllow \<and> tv_Node i = n \<and> tv_Group i = k) \<longleftrightarrow>
     (\<exists>g \<in> set (si_Groups inp). g_Name g = k \<and> holds_up inp g n)"
proof -
  have pol: "gm_string (inversionPolicies (si_Groups inp)) (g_Name g) \<noteq> TierInversionAllow \<longleftrightarrow>
      g_TierInversionPolicy g \<noteq> TierInversionAllow" if "g \<in> set (si_Groups inp)" for g
    using inversionPolicies_get [OF assms that] by (simp add: effectiveTierInversionPolicy_def)
  have "(\<exists>gt nt. inverts inp k n gt nt) \<and> gm_string (inversionPolicies (si_Groups inp)) k \<noteq> TierInversionAllow \<longleftrightarrow>
     (\<exists>g \<in> set (si_Groups inp). g_Name g = k \<and> holds_up inp g n)" (is "?l \<longleftrightarrow> ?r")
  proof
    assume ?l
    then obtain gt nt where i: "inverts inp k n gt nt"
      and p: "gm_string (inversionPolicies (si_Groups inp)) k \<noteq> TierInversionAllow" by blast
    from i have "map_of (effectiveShutdownTiers (si_Groups inp) (si_TierPolicy inp)) k = Some gt"
      by (simp add: inverts_def)
    then obtain g where g: "g \<in> set (si_Groups inp)" "g_Name g = k"
        "effective_tier (si_Groups inp) (si_TierPolicy inp) g = Some gt"
      by (rule effective_tiers_dom [OF assms])
    have "holds_up inp g n" using i p pol [OF g(1)] g(2,3) by (simp add: inverts_def holds_up_def)
    with g show ?r by blast
  next
    assume ?r
    then obtain g where g: "g \<in> set (si_Groups inp)" "g_Name g = k" "holds_up inp g n" by blast
    then show ?l
      using effective_tiers_group [OF assms g(1)] pol [OF g(1)] unfolding inverts_def holds_up_def by auto
  qed
  then show ?thesis unfolding ex_inversion .
qed

lemma blocked_names:
  "map bn_Name (blockedNodesFromInversions is) =
     sorted_list_of_set (tv_Node ` {i \<in> set is. tv_Policy i \<noteq> TierInversionAllow})"
proof -
  let ?b = "filter (\<lambda>i. tv_Policy i \<noteq> TierInversionAllow) is"
  have "map bn_Name (blockedNodesFromInversions is) = gm_keys (fold (\<lambda>i. gm_append (tv_Node i) (tv_Group i)) ?b [])"
    by (simp add: blockedNodesFromInversions_def Let_def blockedNode_def comp_def)
  also have "\<dots> = sorted_list_of_set (tv_Node ` set ?b)"
    using gml.dom_group_by [of tv_Node tv_Group ?b] gml.inv_fold_app [of "[]" tv_Node tv_Group ?b]
    by (simp add: gm.keys_eq)
  finally show ?thesis by simp
qed

lemma blocked_groups:
  assumes "b \<in> set (blockedNodesFromInversions is)"
  shows "set (bn_Groups b) = tv_Group ` {i \<in> set is. tv_Policy i \<noteq> TierInversionAllow \<and> tv_Node i = bn_Name b}"
  using assms
  by (auto simp: blockedNodesFromInversions_def Let_def blockedNode_def gm_list_group_by)

text \<open>C28. Tier inversion withholds exactly the right nodes: with uniquely named groups, the nodes
  withheld from power-off are, once each and in order, those that some group without the Allow
  policy acts on while its effective tier is below the node's tier, and each is published with
  exactly the groups responsible.\<close>

theorem blocked_nodes_exact:
  assumes "distinct (map g_Name (si_Groups inp))"
  shows "sorted (map bn_Name (blockedNodesFromInversions (detectTierInversions inp))) \<and>
     distinct (map bn_Name (blockedNodesFromInversions (detectTierInversions inp))) \<and>
     (\<forall>n. n \<in> bn_Name ` set (blockedNodesFromInversions (detectTierInversions inp)) \<longleftrightarrow>
        (\<exists>g \<in> set (si_Groups inp). holds_up inp g n)) \<and>
     (\<forall>b \<in> set (blockedNodesFromInversions (detectTierInversions inp)).
        set (bn_Groups b) = {g_Name g | g. g \<in> set (si_Groups inp) \<and> holds_up inp g (bn_Name b)})"
proof -
  let ?is = "detectTierInversions inp"
  have nodes: "bn_Name ` set (blockedNodesFromInversions ?is) = {n. \<exists>g \<in> set (si_Groups inp). holds_up inp g n}"
  proof -
    have "bn_Name ` set (blockedNodesFromInversions ?is) = set (map bn_Name (blockedNodesFromInversions ?is))" by simp
    also have "\<dots> = tv_Node ` {i \<in> set ?is. tv_Policy i \<noteq> TierInversionAllow}"
      unfolding blocked_names by (rule set_sorted_list_of_set) simp
    also have "\<dots> = {n. \<exists>k. \<exists>i \<in> set ?is. tv_Policy i \<noteq> TierInversionAllow \<and> tv_Node i = n \<and> tv_Group i = k}" by auto
    also have "\<dots> = {n. \<exists>g \<in> set (si_Groups inp). holds_up inp g n}"
      unfolding blocking_inversions [OF assms] by auto
    finally show ?thesis .
  qed
  have "set (bn_Groups b) = {g_Name g | g. g \<in> set (si_Groups inp) \<and> holds_up inp g (bn_Name b)}"
    if "b \<in> set (blockedNodesFromInversions ?is)" for b
  proof -
    have "set (bn_Groups b) = {k. \<exists>i \<in> set ?is. tv_Policy i \<noteq> TierInversionAllow \<and> tv_Node i = bn_Name b \<and> tv_Group i = k}"
      unfolding blocked_groups [OF that] by auto
    then show ?thesis unfolding blocking_inversions [OF assms] by auto
  qed
  then show ?thesis using nodes by (simp add: blocked_names set_eq_iff)
qed

definition inversion_example :: StructuralInputs where
  "inversion_example = zeroInputs\<lparr>
     si_Groups := [zeroGroup\<lparr>g_Name := ''db'', g_ShutdownTier := Some 2\<rparr>,
                   zeroGroup\<lparr>g_Name := ''web'', g_ShutdownTier := Some 3, g_TierInversionPolicy := TierInversionAllow\<rparr>],
     si_GroupNodes := [\<lparr>gn_Group = ''db'', gn_Unresolved = False, gn_Acts = [''n1''], gn_Releases = []\<rparr>,
                       \<lparr>gn_Group = ''web'', gn_Unresolved = False, gn_Acts = [''n1'', ''n2''], gn_Releases = []\<rparr>],
     si_NodeTiers := [\<lparr>nt_Name = ''n1'', nt_Tier = 4\<rparr>, \<lparr>nt_Name = ''n2'', nt_Tier = 4\<rparr>]\<rparr>"

theorem blocked_nodes_exact_witness:
  "(\<exists>g \<in> set (si_Groups inversion_example). holds_up inversion_example g ''n1'') \<and>
   \<not> (\<exists>g \<in> set (si_Groups inversion_example). holds_up inversion_example g ''n2'')"
proof -
  have d: "distinct (map g_Name (si_Groups inversion_example))" by code_simp
  have b: "map bn_Name (blockedNodesFromInversions (detectTierInversions inversion_example)) = [''n1'']" by code_simp
  have n: "bn_Name ` set (blockedNodesFromInversions (detectTierInversions inversion_example)) = {''n1''}"
    using arg_cong [OF b, of set] by (simp only: set_map list.set)
  have "\<forall>n. n \<in> bn_Name ` set (blockedNodesFromInversions (detectTierInversions inversion_example)) \<longleftrightarrow>
      (\<exists>g \<in> set (si_Groups inversion_example). holds_up inversion_example g n)"
    using blocked_nodes_exact [OF d] by blast
  from spec [OF this, of "''n1''"] spec [OF this, of "''n2''"] show ?thesis unfolding n by simp
qed

end
