(* ===== verification/PlannerComm.thy ===== *)
theory PlannerComm
  imports PlannerTiers Digraph
begin

text \<open>
  Communication paths, \<open>src/internal/planner/communication.go\<close>, \<open>communication_index.go\<close> and
  \<open>communication_services.go\<close>, with the membership helpers of \<open>scope.go\<close> they use: the index
  over carries edges and power supplies, the breadth-first walks along it, the ordering edges that
  keep a carrier up while work still needs it, coverage, the communication budget and its
  diagnostics.

  The two breadth-first loops and the fixed-point loop that grows the affected node set are total
  functions with termination proofs: each iteration either shortens the queue or visits an entity
  for the first time.
\<close>

section \<open>Index\<close>

record communicationIndex =
  ix_upstream :: "(string, CommunicationDependency list) gmap"
  ix_dependents :: "(string, string list) gmap"
  ix_supplies :: "(string, CommunicationSupplyConstraint) gmap"

definition gm_set :: "('k, 'v set) gmap \<Rightarrow> 'k \<Rightarrow> 'v set" where
  "gm_set m k = (case map_of m k of None \<Rightarrow> {} | Some S \<Rightarrow> S)"

definition normalizeCommunicationDependencies :: "CommunicationDependency list \<Rightarrow> CommunicationDependency list" where
  "normalizeCommunicationDependencies ds =
     sort_key (\<lambda>d. (cd_Dependent d, cd_Carrier d, cd_Source d)) (remdups ds)"

definition domainEntities :: "PowerDomainMembership \<Rightarrow> string list" where
  "domainEntities d = pm_Members d @ pm_Nodes d @ pm_Infrastructure d @ pm_UPSDevices d"

definition domainPairs :: "PowerDomainMembership list \<Rightarrow> (PowerDomainMembership \<times> string) list" where
  "domainPairs domains = concat (map (\<lambda>d. map (Pair d) (domainEntities d)) domains)"

definition indexSupply :: "PowerDomainMembership \<times> string
    \<Rightarrow> (string, string set) gmap \<times> (string, string set) gmap
    \<Rightarrow> (string, string set) gmap \<times> (string, string set) gmap" where
  "indexSupply p acc =
     (case (p, acc) of ((domain, entity), (domains, devices)) \<Rightarrow>
        (gm_put entity (insert (pm_Name domain) (gm_set domains entity)) domains,
         gm_put entity (gm_set devices entity \<union> set (filter (\<lambda>u. u \<noteq> '''') (pm_UPSDevices domain))) devices))"

definition newCommunicationIndex :: "StructuralInputs \<Rightarrow> communicationIndex" where
  "newCommunicationIndex inp =
     (let deps = normalizeCommunicationDependencies (si_CommunicationDependencies inp);
          (domains, devices) = fold indexSupply (domainPairs (si_PowerDomains inp)) ([], [])
      in \<lparr>ix_upstream = fold (\<lambda>d. gm_append (cd_Dependent d) d) deps [],
          ix_dependents = fold (\<lambda>d. gm_append (cd_Carrier d) (cd_Dependent d)) deps [],
          ix_supplies =
            map (\<lambda>(entity, names). (entity,
              \<lparr>cs_Carrier = entity, cs_PowerDomains = sortedSetKeys names,
               cs_UPSDevices = sortedSetKeys (gm_set devices entity),
               cs_UnknownSupply = (gm_set devices entity = {})\<rparr>)) domains\<rparr>)"

definition supplyConstraint :: "communicationIndex \<Rightarrow> string \<Rightarrow> CommunicationSupplyConstraint" where
  "supplyConstraint index carrier =
     (case map_of (ix_supplies index) carrier of
        None \<Rightarrow> \<lparr>cs_Carrier = carrier, cs_PowerDomains = [], cs_UPSDevices = [], cs_UnknownSupply = True\<rparr>
      | Some s \<Rightarrow> s)"

definition supplyConstraints :: "communicationIndex \<Rightarrow> string list \<Rightarrow> CommunicationSupplyConstraint list" where
  "supplyConstraints index carriers = map (supplyConstraint index) carriers"

definition supplyDomains :: "communicationIndex \<Rightarrow> string \<Rightarrow> string list" where
  "supplyDomains index carrier =
     (case map_of (ix_supplies index) carrier of None \<Rightarrow> [] | Some s \<Rightarrow> cs_PowerDomains s)"

section \<open>Breadth-first walks\<close>

type_synonym paths = "(string, CommunicationDependency list) gmap"

definition paths_scan :: "string \<Rightarrow> CommunicationDependency \<Rightarrow> paths \<times> string list \<Rightarrow> paths \<times> string list" where
  "paths_scan dependent d acc =
     (case acc of (paths, added) \<Rightarrow>
        if map_of paths (cd_Carrier d) \<noteq> None then (paths, added)
        else (gm_put (cd_Carrier d) (gm_list paths dependent @ [d]) paths, added @ [cd_Carrier d]))"

definition all_carriers :: "(string, CommunicationDependency list) gmap \<Rightarrow> string set" where
  "all_carriers upstream = cd_Carrier ` set (concat (map snd upstream))"

lemma gm_list_carriers: "cd_Carrier ` set (gm_list upstream d) \<subseteq> all_carriers upstream"
proof (cases "map_of upstream d")
  case (Some l)
  then show ?thesis using map_of_SomeD [OF Some] by (fastforce simp: gm_list_def all_carriers_def)
qed (simp add: gm_list_def)

lemma paths_scan_seen: "cd_Carrier d \<in> dom (map_of paths) \<Longrightarrow> paths_scan dependent d (paths, added) = (paths, added)"
  by (auto simp: paths_scan_def)

lemma paths_scan_new:
  "cd_Carrier d \<notin> dom (map_of paths) \<Longrightarrow> paths_scan dependent d (paths, added) =
     (gm_put (cd_Carrier d) (gm_list paths dependent @ [d]) paths, added @ [cd_Carrier d])"
  by (auto simp: paths_scan_def)

lemma paths_scan_fold:
  assumes "fold (paths_scan dependent) ds (paths, added) = (paths', added')"
  shows "\<exists>new. added' = added @ new \<and> distinct new \<and> set new \<subseteq> cd_Carrier ` set ds \<and>
     set new \<inter> dom (map_of paths) = {} \<and> dom (map_of paths') = dom (map_of paths) \<union> set new \<and>
     cd_Carrier ` set ds \<subseteq> dom (map_of paths')"
  using assms
proof (induction ds arbitrary: paths added)
  case (Cons d ds)
  show ?case
  proof (cases "cd_Carrier d \<in> dom (map_of paths)")
    case True
    then have "fold (paths_scan dependent) ds (paths, added) = (paths', added')"
      using Cons.prems by (simp add: paths_scan_seen)
    from Cons.IH [OF this] show ?thesis using True by auto
  next
    case False
    let ?paths = "gm_put (cd_Carrier d) (gm_list paths dependent @ [d]) paths"
    have dom: "dom (map_of ?paths) = insert (cd_Carrier d) (dom (map_of paths))" by (simp only: map_of_gm_put dom_fun_upd option.distinct if_False)
    have "fold (paths_scan dependent) ds (?paths, added @ [cd_Carrier d]) = (paths', added')"
      using Cons.prems False by (simp add: paths_scan_new)
    from Cons.IH [OF this, unfolded dom] obtain new where new: "added' = (added @ [cd_Carrier d]) @ new" "distinct new"
      "set new \<subseteq> cd_Carrier ` set ds" "set new \<inter> insert (cd_Carrier d) (dom (map_of paths)) = {}"
      "dom (map_of paths') = insert (cd_Carrier d) (dom (map_of paths)) \<union> set new"
      "cd_Carrier ` set ds \<subseteq> dom (map_of paths')" by (elim exE conjE)
    then show ?thesis using False by (intro exI [of _ "cd_Carrier d # new"]) auto
  qed
qed auto

lemma paths_decrease:
  assumes "fold (paths_scan dependent) (gm_list upstream dependent) (paths, []) = (paths', added)"
  shows "card (all_carriers upstream - dom (map_of paths')) + length added = card (all_carriers upstream - dom (map_of paths))"
proof -
  from paths_scan_fold [OF assms] gm_list_carriers [of upstream dependent]
  have added: "distinct added" "set added \<subseteq> all_carriers upstream" "set added \<inter> dom (map_of paths) = {}"
    "dom (map_of paths') = dom (map_of paths) \<union> set added" by auto
  have "all_carriers upstream - dom (map_of paths) = (all_carriers upstream - dom (map_of paths')) \<union> set added"
    using added by auto
  moreover have "(all_carriers upstream - dom (map_of paths')) \<inter> set added = {}" using added by auto
  moreover have "finite (all_carriers upstream)" by (simp add: all_carriers_def)
  ultimately show ?thesis
    using added(1) by (simp add: card_Un_disjoint distinct_card)
qed

function paths_loop :: "(string, CommunicationDependency list) gmap \<Rightarrow> string list \<Rightarrow> paths \<Rightarrow> paths" where
  "paths_loop upstream [] paths = paths"
| "paths_loop upstream (dependent # pending) paths =
     (case fold (paths_scan dependent) (gm_list upstream dependent) (paths, []) of
        (paths', added) \<Rightarrow> paths_loop upstream (pending @ added) paths')"
  by pat_completeness auto
termination
  by (relation "measure (\<lambda>(upstream, pending, paths). card (all_carriers upstream - dom (map_of paths)) + length pending)")
    (simp, drule sym, drule paths_decrease, simp)

definition communicationPathsFrom :: "(string, CommunicationDependency list) gmap \<Rightarrow> string \<Rightarrow> paths" where
  "communicationPathsFrom upstream node = gm_del node (paths_loop upstream [node] (gm_put node [] []))"

definition consumers_scan :: "string \<Rightarrow> string set \<times> string set \<times> string list \<Rightarrow> string set \<times> string set \<times> string list" where
  "consumers_scan dependent acc =
     (case acc of (visited, consumers, added) \<Rightarrow>
        if dependent \<in> visited then (visited, insert dependent consumers, added)
        else (insert dependent visited, insert dependent consumers, added @ [dependent]))"

definition all_dependents :: "(string, string list) gmap \<Rightarrow> string set" where
  "all_dependents dependents = set (concat (map snd dependents))"

lemma gm_list_dependents: "set (gm_list dependents k) \<subseteq> all_dependents dependents"
proof (cases "map_of dependents k")
  case (Some l)
  then have "set l \<subseteq> all_dependents dependents" using map_of_SomeD [OF Some] by (force simp: all_dependents_def)
  then show ?thesis using Some by (simp add: gm_list_def)
qed (simp add: gm_list_def)

lemma consumers_scan_eq:
  "consumers_scan d (visited, consumers, added) =
     (insert d visited, insert d consumers, if d \<in> visited then added else added @ [d])"
  by (auto simp: consumers_scan_def)

lemma consumers_scan_fold:
  assumes "fold consumers_scan ds (visited, consumers, added) = (visited', consumers', added')"
  shows "\<exists>new. added' = added @ new \<and> distinct new \<and> set new = set ds - visited \<and>
     visited' = visited \<union> set ds \<and> consumers' = consumers \<union> set ds"
  using assms
proof (induction ds arbitrary: visited consumers added)
  case (Cons d ds)
  let ?added = "if d \<in> visited then added else added @ [d]"
  have "fold consumers_scan ds (insert d visited, insert d consumers, ?added) = (visited', consumers', added')"
    using Cons.prems by (simp only: fold_simps consumers_scan_eq)
  from Cons.IH [OF this] obtain new where "added' = ?added @ new" "distinct new" "set new = set ds - insert d visited"
    "visited' = insert d visited \<union> set ds" "consumers' = insert d consumers \<union> set ds" by blast
  then show ?case by (intro exI [of _ "if d \<in> visited then new else d # new"]) auto
qed auto

lemma consumers_decrease:
  assumes "fold consumers_scan (gm_list dependents x) (visited, consumers, []) = (visited', consumers', added)"
  shows "card (all_dependents dependents - visited') + length added = card (all_dependents dependents - visited)"
proof -
  from consumers_scan_fold [OF assms] gm_list_dependents [of dependents x]
  have added: "distinct added" "(all_dependents dependents - visited') \<inter> set added = {}"
    "all_dependents dependents - visited = (all_dependents dependents - visited') \<union> set added" by auto
  have "finite (all_dependents dependents)" by (simp add: all_dependents_def)
  then show ?thesis
    unfolding added(3) using added(1,2) by (simp add: card_Un_disjoint distinct_card)
qed

function consumers_loop :: "(string, string list) gmap \<Rightarrow> string list \<Rightarrow> string set \<Rightarrow> string set \<Rightarrow> string set" where
  "consumers_loop dependents [] visited consumers = consumers"
| "consumers_loop dependents (x # pending) visited consumers =
     (case fold consumers_scan (gm_list dependents x) (visited, consumers, []) of
        (visited', consumers', added) \<Rightarrow> consumers_loop dependents (pending @ added) visited' consumers')"
  by pat_completeness auto
termination
  by (relation "measure (\<lambda>(dependents, pending, visited, _). card (all_dependents dependents - visited) + length pending)")
    (simp, drule sym, hypsubst, drule consumers_decrease, simp)

definition seed_scan :: "string \<Rightarrow> string set \<times> string list \<Rightarrow> string set \<times> string list" where
  "seed_scan seed acc =
     (case acc of (visited, pending) \<Rightarrow>
        if seed \<in> visited then (visited, pending) else (insert seed visited, pending @ [seed]))"

definition consumersOf :: "communicationIndex \<Rightarrow> string list \<Rightarrow> string set" where
  "consumersOf index seeds =
     (case fold seed_scan seeds ({}, []) of
        (visited, pending) \<Rightarrow> consumers_loop (ix_dependents index) pending visited {})"

lemma consumers_loop_subset:
  "consumers_loop dependents pending visited consumers \<subseteq> consumers \<union> all_dependents dependents"
proof (induction dependents pending visited consumers rule: consumers_loop.induct)
  case (2 dependents x pending visited consumers)
  obtain visited' consumers' added where
    f: "fold consumers_scan (gm_list dependents x) (visited, consumers, []) = (visited', consumers', added)"
    by (metis prod.collapse)
  have "consumers' \<subseteq> consumers \<union> all_dependents dependents"
    using consumers_scan_fold [OF f] gm_list_dependents [of dependents x] by auto
  then show ?case using 2 [OF f [symmetric] refl] f by auto
qed simp

lemma consumersOf_subset: "consumersOf index seeds \<subseteq> all_dependents (ix_dependents index)"
  using consumers_loop_subset by (fastforce simp: consumersOf_def split: prod.splits)

section \<open>Membership\<close>

definition groupNodeSets :: "GroupNodeMembership list \<Rightarrow> (string, string set) gmap" where
  "groupNodeSets ms =
     fold (\<lambda>m groups.
        if gn_Group m = '''' then groups
        else gm_put (gn_Group m) (gm_set groups (gn_Group m) \<union> set (gn_Acts m) \<union> set (gn_Releases m)) groups) ms []"

definition unresolvedGroupMembership :: "GroupNodeMembership list \<Rightarrow> string set" where
  "unresolvedGroupMembership ms = gn_Group ` set (filter gn_Unresolved ms)"

definition outsideNodeSet :: "string set \<Rightarrow> string set \<Rightarrow> bool" where
  "outsideNodeSet nodes affected = (nodes \<inter> affected = {})"

definition nodesForPowerDomains :: "PowerDomainMembership list \<Rightarrow> string set \<Rightarrow> string set" where
  "nodesForPowerDomains domains affected =
     set (concat (map pm_Nodes (filter (\<lambda>d. pm_Name d \<in> affected) domains)))"

definition includeUnmappedNodes :: "communicationIndex \<Rightarrow> (string, string set) gmap \<Rightarrow> string set \<Rightarrow> string set" where
  "includeUnmappedNodes index membership retained =
     retained \<union> Set.filter (\<lambda>node. map_of (ix_supplies index) node = None) (\<Union> (set (map snd membership)))"

definition communicationDependents :: "communicationIndex \<Rightarrow> StructuralInputs \<Rightarrow> string set \<Rightarrow> string set" where
  "communicationDependents index inp affectedDomains =
     consumersOf index
       (map cd_Carrier (filter (\<lambda>d. supplyDomains index (cd_Carrier d) = []) (si_CommunicationDependencies inp)) @
        concat (map domainEntities (filter (\<lambda>d. pm_Name d \<in> affectedDomains) (si_PowerDomains inp))))"

definition groupRetained :: "string set \<Rightarrow> (string, string set) gmap \<Rightarrow> string set \<Rightarrow> string \<Rightarrow> bool" where
  "groupRetained unresolved membership affected name \<longleftrightarrow>
     name \<in> unresolved \<or>
     (case map_of membership name of
        None \<Rightarrow> True
      | Some nodes \<Rightarrow> nodes = {} \<or> \<not> outsideNodeSet nodes affected)"

definition releasedNodes :: "StructuralInputs \<Rightarrow> string set \<Rightarrow> string list" where
  "releasedNodes inp retained =
     concat (map gn_Releases (filter (\<lambda>e. gn_Group e \<in> retained) (si_GroupNodes inp)))"

function retain_loop :: "communicationIndex \<Rightarrow> StructuralInputs \<Rightarrow> (string, string set) gmap \<Rightarrow> string set \<Rightarrow> string set" where
  "retain_loop index inp membership affected =
     (let unresolved = unresolvedGroupMembership (si_GroupNodes inp);
          retained = set (filter (groupRetained unresolved membership affected) (map g_Name (si_Groups inp)));
          grown = consumersOf index (releasedNodes inp retained)
      in if grown \<subseteq> affected then affected
         else retain_loop index inp membership (affected \<union> grown))"
  by pat_completeness auto

lemma retain_decrease:
  assumes "\<not> consumersOf index seeds \<subseteq> affected"
  shows "card (all_dependents (ix_dependents index) - (affected \<union> consumersOf index seeds)) <
    card (all_dependents (ix_dependents index) - affected)"
proof (rule psubset_card_mono)
  show "finite (all_dependents (ix_dependents index) - affected)" by (simp add: all_dependents_def)
  show "all_dependents (ix_dependents index) - (affected \<union> consumersOf index seeds) \<subset>
      all_dependents (ix_dependents index) - affected"
    using assms consumersOf_subset [of index seeds] by blast
qed

termination retain_loop
  by (relation "measure (\<lambda>(index, inp, membership, affected). card (all_dependents (ix_dependents index) - affected))")
    (simp_all add: retain_decrease)

declare retain_loop.simps [simp del]

definition retainReleasedCarrierConsumers :: "communicationIndex \<Rightarrow> StructuralInputs \<Rightarrow> (string, string set) gmap
    \<Rightarrow> string set \<Rightarrow> string set" where
  "retainReleasedCarrierConsumers index inp membership affected =
     (if si_CommunicationDependencies inp = [] then affected else retain_loop index inp membership affected)"

section \<open>Services\<close>

definition normalizeCommunicationServices :: "CommunicationServicePath list \<Rightarrow> CommunicationServicePath list" where
  "normalizeCommunicationServices ps =
     sort_key cv_Service (map (\<lambda>p. p\<lparr>cv_Entities := sortedUnique (cv_Entities p)\<rparr>) ps)"

fun serviceDiagnostics_loop :: "string list option \<Rightarrow> CommunicationServicePath list \<Rightarrow> string set \<Rightarrow> Diagnostic list" where
  "serviceDiagnostics_loop inventory [] seen = []"
| "serviceDiagnostics_loop inventory (p # ps) seen =
     (if cv_Service p \<in> seen \<or> (cv_Service p \<noteq> ''OperatorAPI'' \<and> cv_Service p \<noteq> ''NUT'') \<or>
         cv_Exempt p = (cv_Entities p \<noteq> [])
      then [diag DiagnosticError ''CommunicationServiceInvalid'' (cv_Service p)
        ''declare each OperatorAPI or NUT service once, with required inventory entities or an explicit exemption''] else []) @
     concat (map (\<lambda>entity.
        if entity = '''' \<or> (case inventory of None \<Rightarrow> False | Some known \<Rightarrow> entity \<notin> set known)
        then [diag DiagnosticError ''CommunicationServiceEntityUnknown'' entity
          (cv_Service p @ '' service path references an unknown inventory entity '' @ quote entity)]
        else []) (cv_Entities p)) @
     serviceDiagnostics_loop inventory ps (insert (cv_Service p) seen)"

definition communicationServiceDiagnostics :: "StructuralInputs \<Rightarrow> Diagnostic list" where
  "communicationServiceDiagnostics inp =
     serviceDiagnostics_loop (si_InventoryEntities inp) (si_CommunicationServices inp) {}"

definition serviceCarrierPaths :: "communicationIndex \<Rightarrow> CommunicationServicePath \<Rightarrow> paths" where
  "serviceCarrierPaths index service =
     (if cv_Exempt service then []
      else fold (\<lambda>entity paths.
             fold (\<lambda>(carrier, path) ps. if map_of ps carrier \<noteq> None then ps else gm_put carrier path ps)
               (communicationPathsFrom (ix_upstream index) entity) (gm_put entity [] paths))
             (sortedUnique (cv_Entities service)) [])"

definition sharedCommunicationCarriers :: "communicationIndex \<Rightarrow> StructuralInputs \<Rightarrow> string list" where
  "sharedCommunicationCarriers index inp =
     sortedSetKeys (set (concat (map (\<lambda>s. gm_keys (serviceCarrierPaths index s)) (si_CommunicationServices inp))))"

section \<open>Ordering edges\<close>

definition addSources :: "GraphSourceRef list \<Rightarrow> GraphEdge \<Rightarrow> GraphEdge" where
  "addSources refs e =
     e\<lparr>ge_Sources := fold (\<lambda>r acc. if r \<in> set acc then acc else acc @ [r]) refs (ge_Sources e)\<rparr>"

definition sortSources :: "GraphEdge \<Rightarrow> GraphEdge" where
  "sortSources e = e\<lparr>ge_Sources := sort_key (\<lambda>r. (gs_Kind r, gs_Name r, gs_Field r)) (ge_Sources e)\<rparr>"

definition pathSources :: "CommunicationDependency list \<Rightarrow> GraphSourceRef list" where
  "pathSources path = map (\<lambda>d. \<lparr>gs_Kind = ''PowerInventoryEdge'', gs_Name = cd_Source d, gs_Field = ''carries''\<rparr>) path"

definition releasersOf :: "string set \<Rightarrow> GroupNodeMembership list \<Rightarrow> (string, string list) gmap" where
  "releasersOf known ms =
     fold (\<lambda>(node, name). gm_append node name)
       (concat (map (\<lambda>e. map (\<lambda>node. (node, gn_Group e)) (gn_Releases e)) (filter (\<lambda>e. gn_Group e \<in> known) ms))) []"

definition nodeCommunicationEdge :: "string \<Rightarrow> string \<Rightarrow> GraphEdge" where
  "nodeCommunicationEdge from to =
     \<lparr>ge_ID = graphEdgeID from to GraphEdgeRelationCommunicationPath, ge_From = from, ge_To = to,
      ge_Relation = GraphEdgeRelationCommunicationPath, ge_Provenance = GraphEdgeProvenanceDerived, ge_Sources = [],
      ge_Explanation = from @ '' runs before '' @ to @
        '' because its dependent work needs a communication carrier released by '' @ to @ ''.''\<rparr>"

definition nodeCommunicationUses :: "communicationIndex \<Rightarrow> string set \<Rightarrow> GroupNodeMembership list
    \<Rightarrow> (string \<times> string \<times> string \<times> CommunicationDependency list \<times> string) list" where
  "nodeCommunicationUses index known ms =
     (let releasers = releasersOf known ms in
      concat (map (\<lambda>e. concat (map (\<lambda>node.
        concat (map (\<lambda>(carrier, path). map (\<lambda>releaser. (gn_Group e, node, carrier, path, releaser)) (gm_list releasers carrier))
          (communicationPathsFrom (ix_upstream index) node)))
        (gn_Acts e @ gn_Releases e))) (filter (\<lambda>e. gn_Group e \<in> known) ms)))"

definition addNodeUse :: "string \<times> string \<times> string \<times> CommunicationDependency list \<times> string
    \<Rightarrow> (string \<times> string, GraphEdge) gmap \<Rightarrow> (string \<times> string, GraphEdge) gmap" where
  "addNodeUse use edges =
     (case use of (from, node, carrier, path, to) \<Rightarrow>
        let edge = (case map_of edges (from, to) of None \<Rightarrow> nodeCommunicationEdge from to | Some e \<Rightarrow> e) in
        gm_put (from, to)
          (addSources ([\<lparr>gs_Kind = ''Node'', gs_Name = node, gs_Field = ''''\<rparr>,
                        \<lparr>gs_Kind = ''Node'', gs_Name = carrier, gs_Field = ''''\<rparr>] @ pathSources path) edge) edges)"

definition collectNodeCommunicationGraphEdges :: "communicationIndex \<Rightarrow> Group list \<Rightarrow> GroupNodeMembership list \<Rightarrow> GraphEdge list" where
  "collectNodeCommunicationGraphEdges index groups ms =
     (if groups = [] \<or> ms = [] \<or> ix_upstream index = [] then []
      else sortGraphEdges (map (sortSources \<circ> snd)
             (fold addNodeUse (nodeCommunicationUses index (g_Name ` set groups) ms) [])))"

definition serviceCommunicationEdge :: "string \<Rightarrow> string \<Rightarrow> GraphEdge" where
  "serviceCommunicationEdge from to =
     \<lparr>ge_ID = graphEdgeID from to GraphEdgeRelationCommunicationPath, ge_From = from, ge_To = to,
      ge_Relation = GraphEdgeRelationCommunicationPath, ge_Provenance = GraphEdgeProvenanceDerived, ge_Sources = [],
      ge_Explanation = from @ '' runs before '' @ to @
        '' because the shared communication path is required throughout the flow.''\<rparr>"

definition serviceCommunicationUses :: "communicationIndex \<Rightarrow> Group list \<Rightarrow> GroupNodeMembership list
    \<Rightarrow> CommunicationServicePath list \<Rightarrow> (string \<times> string \<times> CommunicationDependency list \<times> string \<times> string) list" where
  "serviceCommunicationUses index groups ms services =
     concat (map (\<lambda>service.
       let paths = serviceCarrierPaths index service in
       concat (map (\<lambda>release.
         concat (map (\<lambda>carrier.
           case map_of paths carrier of
             None \<Rightarrow> []
           | Some path \<Rightarrow>
               map (\<lambda>g. (cv_Service service, carrier, path, g_Name g, gn_Group release))
                 (filter (\<lambda>g. g_Name g \<noteq> gn_Group release) groups)) (gn_Releases release)))
         (filter (\<lambda>e. gn_Group e \<in> g_Name ` set groups) ms)))
       (normalizeCommunicationServices services))"

definition addServiceUse :: "string \<times> string \<times> CommunicationDependency list \<times> string \<times> string
    \<Rightarrow> GraphEdge list \<times> (string, nat) gmap \<Rightarrow> GraphEdge list \<times> (string, nat) gmap" where
  "addServiceUse use acc =
     (case (use, acc) of ((service, carrier, path, from, to), (edges, byID)) \<Rightarrow>
        let edgeID = graphEdgeID from to GraphEdgeRelationCommunicationPath;
            refs = [\<lparr>gs_Kind = ''ShutdownFlow'', gs_Name = service, gs_Field = ''spec.communicationPaths''\<rparr>,
                    \<lparr>gs_Kind = ''InventoryEntity'', gs_Name = carrier, gs_Field = ''''\<rparr>] @ pathSources path
        in case map_of byID edgeID of
             Some i \<Rightarrow> (edges[i := addSources refs (edges ! i)], byID)
           | None \<Rightarrow> (edges @ [addSources refs (serviceCommunicationEdge from to)], gm_put edgeID (length edges) byID))"

definition collectCommunicationGraphEdges :: "communicationIndex \<Rightarrow> Group list \<Rightarrow> GroupNodeMembership list
    \<Rightarrow> CommunicationServicePath list \<Rightarrow> GraphEdge list" where
  "collectCommunicationGraphEdges index groups ms services =
     (let edges = collectNodeCommunicationGraphEdges index groups ms;
          byID = fold (\<lambda>(i, e). gm_put (ge_ID e) i) (enumerate 0 edges) [];
          (edges', _) = fold addServiceUse (serviceCommunicationUses index groups ms services) (edges, byID)
      in sortGraphEdges (map sortSources edges'))"

definition stepGroups :: "Step list \<Rightarrow> Group list" where
  "stepGroups steps = map (\<lambda>s. zeroGroup\<lparr>g_Name := st_ID s\<rparr>) steps"

definition collectLinearCommunicationGraphEdges :: "communicationIndex \<Rightarrow> StructuralInputs \<Rightarrow> GraphEdge list" where
  "collectLinearCommunicationGraphEdges index inp =
     (if si_CommunicationDependencies inp = [] \<and> si_CommunicationServices inp = [] then []
      else collectCommunicationGraphEdges index (stepGroups (si_Steps inp)) (si_GroupNodes inp) (si_CommunicationServices inp))"

section \<open>Coverage, budget and diagnostics\<close>

definition upstreamCarriers :: "communicationIndex \<Rightarrow> string list \<Rightarrow> string set" where
  "upstreamCarriers index consumers =
     set (concat (map (\<lambda>c. gm_keys (communicationPathsFrom (ix_upstream index) c)) consumers))"

definition communicationSupplySummary :: "CommunicationSupplyConstraint list \<Rightarrow> string list \<times> bool" where
  "communicationSupplySummary cs =
     (sortedSetKeys (set (concat (map cs_UPSDevices cs))), list_ex cs_UnknownSupply cs)"

definition consumerSupplyConstraints :: "communicationIndex \<Rightarrow> string list \<Rightarrow> CommunicationSupplyConstraint list" where
  "consumerSupplyConstraints index consumers =
     supplyConstraints index (sortedSetKeys (upstreamCarriers index consumers))"

definition CommunicationSupplyDevices :: "StructuralInputs \<Rightarrow> string list \<Rightarrow> string list \<times> bool" where
  "CommunicationSupplyDevices inp consumers =
     communicationSupplySummary (consumerSupplyConstraints (newCommunicationIndex inp) consumers)"

definition nodeCoverage :: "communicationIndex \<Rightarrow> StructuralInputs \<Rightarrow> string \<Rightarrow> CommunicationCoverage" where
  "nodeCoverage index inp node =
     \<lparr>cc_Kind = ''Node'', cc_Name = node,
      cc_State = (if gm_list (ix_upstream index) node \<noteq> [] then ''Modeled''
                  else if node \<in> set (si_CommunicationExemptNodes inp) then ''Exempt'' else ''Unmodeled''),
      cc_Entities = []\<rparr>"

definition serviceCoverage :: "StructuralInputs \<Rightarrow> string \<Rightarrow> CommunicationCoverage" where
  "serviceCoverage inp name =
     fold (\<lambda>service item.
       let item' = item\<lparr>cc_Entities := sortedUnique (cv_Entities service)\<rparr> in
       if cv_Exempt service then item'\<lparr>cc_State := ''Exempt''\<rparr>
       else if cv_Entities service \<noteq> [] then item'\<lparr>cc_State := ''Modeled''\<rparr>
       else item')
       (filter (\<lambda>s. cv_Service s = name) (si_CommunicationServices inp))
       \<lparr>cc_Kind = ''Service'', cc_Name = name, cc_State = ''Unmodeled'', cc_Entities = []\<rparr>"

definition communicationCoverage :: "communicationIndex \<Rightarrow> StructuralInputs \<Rightarrow> string list \<Rightarrow> CommunicationCoverage list" where
  "communicationCoverage index inp consumers =
     map (nodeCoverage index inp) consumers @ map (serviceCoverage inp) [''NUT'', ''OperatorAPI'']"

definition completeServiceCoverage :: "CommunicationCoverage list \<Rightarrow> bool" where
  "completeServiceCoverage cs = list_all (\<lambda>c. \<not> (cc_Kind c = ''Service'' \<and> cc_State c = ''Unmodeled'')) cs"

definition planActions :: "StructuralInputs \<Rightarrow> string list" where
  "planActions inp =
     (if si_Groups inp = [] then map st_ID (si_Steps inp) else map g_Name (si_Groups inp))"

definition communicationBudget :: "communicationIndex \<Rightarrow> StructuralInputs \<Rightarrow> CommunicationBudget option" where
  "communicationBudget index inp =
     (let actions = planActions inp in
      if actions = [] then None
      else let membership = groupNodeSets (si_GroupNodes inp);
               incomplete = unresolvedGroupMembership (si_GroupNodes inp);
               unresolved = set (filter (\<lambda>a. gm_set membership a = {} \<or> a \<in> incomplete) actions);
               partialMembership = list_ex (\<lambda>a. a \<in> incomplete) actions;
               consumers = \<Union> (set (map (gm_set membership) actions));
               coverage = communicationCoverage index inp (sortedSetKeys consumers);
               consumers' = (if unresolved \<noteq> {} \<and> (\<not> completeServiceCoverage coverage \<or> partialMembership)
                             then consumers \<union> set (map cd_Dependent (si_CommunicationDependencies inp)) else consumers);
               carriers = upstreamCarriers index (sortedSetKeys consumers') \<union> set (sharedCommunicationCarriers index inp);
               constraints = supplyConstraints index (sortedSetKeys carriers)
           in Some \<lparr>cb_Scope = ''WholePlan'', cb_UPSDevices = fst (communicationSupplySummary constraints),
                    cb_UnresolvedActions = sortedSetKeys unresolved, cb_Supplies = constraints, cb_Coverage = coverage\<rparr>)"

definition CommunicationBudgetForInputs :: "StructuralInputs \<Rightarrow> CommunicationBudget option" where
  "CommunicationBudgetForInputs inp = communicationBudget (newCommunicationIndex inp) inp"

definition coverageDiagnostics :: "communicationIndex \<Rightarrow> StructuralInputs \<Rightarrow> Diagnostic list" where
  "coverageDiagnostics index inp =
     (case communicationBudget index inp of
        None \<Rightarrow> []
      | Some budget \<Rightarrow>
          map (\<lambda>c. diag DiagnosticWarning ''CommunicationPathUnmodeled'' (cc_Kind c @ ''/'' @ cc_Name c)
                 (cc_Kind c @ '' '' @ quote (cc_Name c) @ '' has no modeled communication path; coverage is incomplete''))
            (filter (\<lambda>c. cc_State c = ''Unmodeled'') (cb_Coverage budget)))"

definition dependencyInvalid :: "CommunicationDependency \<Rightarrow> bool" where
  "dependencyInvalid d \<longleftrightarrow> cd_Dependent d = '''' \<or> cd_Carrier d = '''' \<or> cd_Dependent d = cd_Carrier d"

definition orderDiagnostic :: "bool \<Rightarrow> (string \<Rightarrow> nat) \<Rightarrow> GraphEdge \<Rightarrow> Diagnostic list" where
  "orderDiagnostic linear stepIndex e =
     (if ge_From e = ge_To e
      then [diag DiagnosticError ''CommunicationReleaseConflict'' (ge_From e)
        (''shutdown action '' @ quote (ge_From e) @ '' releases a communication carrier while also targeting its dependent; split carrier release into a separate group or step so dependent work can finish first'')]
      else if linear \<and> stepIndex (ge_From e) > stepIndex (ge_To e)
      then [diag DiagnosticError ''CommunicationReleaseOrderInvalid'' (ge_To e)
        (''linear step '' @ quote (ge_From e) @ '' must precede '' @ quote (ge_To e) @
         '' because the latter releases its communication carrier; reorder the declared steps'')]
      else [])"

definition stepPositions :: "Step list \<Rightarrow> (string, nat) gmap" where
  "stepPositions steps = fold (\<lambda>(i, s). gm_put (st_ID s) i) (enumerate 0 steps) []"

definition stepPosition :: "Step list \<Rightarrow> string \<Rightarrow> nat" where
  "stepPosition steps name = (case map_of (stepPositions steps) name of None \<Rightarrow> 0 | Some i \<Rightarrow> i)"

definition communicationDiagnostics :: "communicationIndex \<Rightarrow> StructuralInputs \<Rightarrow> Diagnostic list" where
  "communicationDiagnostics index inp =
     (let linear = (si_Groups inp = []);
          sharedUnknown = map cs_Carrier (filter cs_UnknownSupply (supplyConstraints index (sharedCommunicationCarriers index inp)));
          dependencyUnknown = map cd_Carrier (filter (\<lambda>d. \<not> dependencyInvalid d \<and> supplyDomains index (cd_Carrier d) = [])
            (si_CommunicationDependencies inp));
          orderEdges = (if linear then collectLinearCommunicationGraphEdges index inp
            else collectCommunicationGraphEdges index (si_Groups inp) (si_GroupNodes inp) (si_CommunicationServices inp))
      in communicationServiceDiagnostics inp @
         coverageDiagnostics index inp @
         map (\<lambda>d. diag DiagnosticError ''CommunicationDependencyInvalid'' ''''
               ''communication dependencies require distinct, non-empty dependent and carrier identities'')
           (filter dependencyInvalid (si_CommunicationDependencies inp)) @
         map (\<lambda>c. diag DiagnosticWarning ''CommunicationPowerDomainUnknown'' c
               (''communication carrier '' @ quote c @ '' has no resolved supplying power domain; its power-loss constraints are unknown''))
           (sortedSetKeys (set (sharedUnknown @ dependencyUnknown))) @
         concat (map (orderDiagnostic linear (stepPosition (si_Steps inp))) orderEdges))"

definition communicationExplanations :: "communicationIndex \<Rightarrow> StructuralInputs \<Rightarrow> Explanation list" where
  "communicationExplanations index inp =
     map (\<lambda>(i, d).
       let supply = join '', '' (supplyDomains index (cd_Carrier d)) in
       \<lparr>ex_ID = ''communication-'' @ show_nat i, ex_Subject = cd_Dependent d, ex_Reason = ''CommunicationPowerDependency'',
        ex_Message = quote (cd_Dependent d) @ '' depends on communication carrier '' @ quote (cd_Carrier d) @
          '' (source '' @ quote (cd_Source d) @ ''), supplied by power domain(s) '' @
          (if supply = '''' then ''unknown'' else supply) @
          ''; dependent work remains in outage scope if the carrier's supply is affected''\<rparr>)
       (enumerate 0 (si_CommunicationDependencies inp))"

section \<open>Shared services and scope\<close>

definition sharedCommunicationAffected :: "communicationIndex \<Rightarrow> StructuralInputs \<Rightarrow> string set \<Rightarrow> bool" where
  "sharedCommunicationAffected index inp affected =
     (let carriers = sharedCommunicationCarriers index inp;
          membership = groupNodeSets (si_GroupNodes inp);
          unresolved = unresolvedGroupMembership (si_GroupNodes inp);
          affectedNodes = retainReleasedCarrierConsumers index inp membership
            (includeUnmappedNodes index membership (nodesForPowerDomains (si_PowerDomains inp) affected) \<union>
             communicationDependents index inp affected)
      in list_ex (\<lambda>s. cs_UnknownSupply s \<or> list_ex (\<lambda>d. d \<in> affected) (cs_PowerDomains s)) (supplyConstraints index carriers) \<or>
         list_ex (\<lambda>e. (gn_Group e \<in> unresolved \<or> \<not> outsideNodeSet (gm_set membership (gn_Group e)) affectedNodes) \<and>
                      list_ex (\<lambda>n. n \<in> set carriers) (gn_Releases e)) (si_GroupNodes inp))"

section \<open>The walks compute reachability\<close>

definition carrier_succ :: "(string, CommunicationDependency list) gmap \<Rightarrow> string \<Rightarrow> string list" where
  "carrier_succ upstream u = map cd_Carrier (gm_list upstream u)"

interpretation carries_graph: succ_graph "all_carriers upstream" "carrier_succ upstream"
  for upstream :: "(string, CommunicationDependency list) gmap"
  using gm_list_carriers by unfold_locales (auto simp: all_carriers_def carrier_succ_def)

interpretation dependents_graph: succ_graph "all_dependents dependents" "gm_list dependents"
  for dependents :: "(string, string list) gmap"
  using gm_list_dependents by unfold_locales (auto simp: all_dependents_def)

text \<open>A frontier: everything discovered that is not pending has its successors discovered.\<close>

definition frontier :: "('a \<Rightarrow> 'a list) \<Rightarrow> 'a list \<Rightarrow> 'a set \<Rightarrow> bool" where
  "frontier succ pending found \<longleftrightarrow> set pending \<subseteq> found \<and> (\<forall>x \<in> found - set pending. set (succ x) \<subseteq> found)"

lemma frontier_step:
  assumes "frontier succ (x # pending) found" and "found \<subseteq> found'" and "set (succ x) \<subseteq> found'"
    and "found' \<subseteq> found \<union> set added" and "set added \<subseteq> found'"
  shows "frontier succ (pending @ added) found'"
  unfolding frontier_def
proof (intro conjI ballI)
  show "set (pending @ added) \<subseteq> found'" using assms by (auto simp: frontier_def)
  fix y assume y: "y \<in> found' - set (pending @ added)"
  then have "y \<in> found" "y \<notin> set pending" using assms(4) by auto
  then have "y = x \<or> set (succ y) \<subseteq> found" using assms(1) by (simp add: frontier_def) blast
  then show "set (succ y) \<subseteq> found'" using assms(2,3) by blast
qed

lemma reach_step:
  assumes "set added \<subseteq> set (succ x)"
  shows "(succ_rel succ)\<^sup>* `` set added \<subseteq> (succ_rel succ)\<^sup>* `` {x}" and "set added \<subseteq> (succ_rel succ)\<^sup>* `` {x}"
proof -
  have "(x, y) \<in> succ_rel succ" if "y \<in> set added" for y using that assms by auto
  then show "(succ_rel succ)\<^sup>* `` set added \<subseteq> (succ_rel succ)\<^sup>* `` {x}" and "set added \<subseteq> (succ_rel succ)\<^sup>* `` {x}"
    by (blast intro: converse_rtrancl_into_rtrancl)+
qed

lemma frontier_Nil: "frontier succ [] found \<longleftrightarrow> closed_under succ found"
  by (simp add: frontier_def closed_under_def)

lemma paths_loop_reach:
  assumes "frontier (carrier_succ upstream) pending (dom (map_of paths))"
  shows "dom (map_of paths) \<subseteq> dom (map_of (paths_loop upstream pending paths)) \<and>
    closed_under (carrier_succ upstream) (dom (map_of (paths_loop upstream pending paths))) \<and>
    dom (map_of (paths_loop upstream pending paths)) \<subseteq>
      dom (map_of paths) \<union> (succ_rel (carrier_succ upstream))\<^sup>* `` set pending"
  using assms
proof (induction upstream pending paths rule: paths_loop.induct)
  case (1 upstream paths)
  then show ?case by (simp add: frontier_Nil)
next
  case (2 upstream dependent pending paths)
  obtain paths' added where f: "fold (paths_scan dependent) (gm_list upstream dependent) (paths, []) = (paths', added)"
    by fastforce
  have add: "dom (map_of paths') = dom (map_of paths) \<union> set added" "set added \<subseteq> set (carrier_succ upstream dependent)"
    "set (carrier_succ upstream dependent) \<subseteq> dom (map_of paths')"
    unfolding carrier_succ_def set_map using paths_scan_fold [OF f] by (simp_all, blast+)
  have "frontier (carrier_succ upstream) (pending @ added) (dom (map_of paths'))"
    by (rule frontier_step [OF 2(2)]) (use add in auto)
  note ih = 2(1) [OF f [symmetric] this]
  note reach = reach_step [of added "carrier_succ upstream" dependent, OF add(2)]
  have loop: "paths_loop upstream (dependent # pending) paths = paths_loop upstream (pending @ added) paths'"
    by (simp add: f)
  show ?case unfolding loop
  proof (intro conjI)
    show "dom (map_of paths) \<subseteq> dom (map_of (paths_loop upstream (pending @ added) paths'))" using ih add(1) by blast
    show "closed_under (carrier_succ upstream) (dom (map_of (paths_loop upstream (pending @ added) paths')))" using ih by blast
    show "dom (map_of (paths_loop upstream (pending @ added) paths')) \<subseteq>
        dom (map_of paths) \<union> (succ_rel (carrier_succ upstream))\<^sup>* `` set (dependent # pending)"
      using ih reach add(1) unfolding set_append Image_Un list.set insert_is_Un [of _ "set pending"] by blast
  qed
qed

lemma dom_communicationPathsFrom:
  "set (gm_keys (communicationPathsFrom upstream node)) =
     {c. c \<noteq> node \<and> (node, c) \<in> (succ_rel (carrier_succ upstream))\<^sup>+}"
proof -
  let ?R = "succ_rel (carrier_succ upstream)"
  let ?init = "gm_put node [] [] :: paths"
  let ?out = "paths_loop upstream [node] ?init"
  have "frontier (carrier_succ upstream) [node] (dom (map_of ?init))" by (simp add: frontier_def)
  from paths_loop_reach [OF this]
  have out: "node \<in> dom (map_of ?out)" "closed_under (carrier_succ upstream) (dom (map_of ?out))"
    "dom (map_of ?out) \<subseteq> ?R\<^sup>* `` {node}" by auto
  have "?R\<^sup>* `` {node} \<subseteq> dom (map_of ?out)" using closed_under_reach [OF out(2,1)] by auto
  then have "dom (map_of ?out) = ?R\<^sup>* `` {node}" using out(3) by blast
  moreover have "set (gm_keys (communicationPathsFrom upstream node)) = dom (map_of ?out) - {node}"
    by (simp add: communicationPathsFrom_def gm_keys_def dom_map_of_conv_image_fst [symmetric])
  ultimately show ?thesis by (auto simp: rtrancl_eq_or_trancl)
qed

text \<open>Each recorded path is a chain of carries edges from the node to the carrier.\<close>

fun carries_chain :: "(string, CommunicationDependency list) gmap \<Rightarrow> string \<Rightarrow> CommunicationDependency list \<Rightarrow> string \<Rightarrow> bool" where
  "carries_chain upstream u [] v \<longleftrightarrow> u = v"
| "carries_chain upstream u (d # p) v \<longleftrightarrow> d \<in> set (gm_list upstream u) \<and> carries_chain upstream (cd_Carrier d) p v"

lemma carries_chain_snoc:
  "carries_chain upstream u p v \<Longrightarrow> d \<in> set (gm_list upstream v) \<Longrightarrow> carries_chain upstream u (p @ [d]) (cd_Carrier d)"
  by (induction p arbitrary: u) auto

definition chains_from :: "(string, CommunicationDependency list) gmap \<Rightarrow> string \<Rightarrow> paths \<Rightarrow> bool" where
  "chains_from upstream node paths \<longleftrightarrow> (\<forall>k p. map_of paths k = Some p \<longrightarrow> carries_chain upstream node p k)"

lemma paths_scan_chains:
  assumes "chains_from upstream node paths" and "dependent \<in> dom (map_of paths)" and "set ds \<subseteq> set (gm_list upstream dependent)"
  shows "chains_from upstream node (fst (fold (paths_scan dependent) ds (paths, added)))"
  using assms
proof (induction ds arbitrary: paths added)
  case (Cons d ds)
  show ?case
  proof (cases "cd_Carrier d \<in> dom (map_of paths)")
    case True
    then show ?thesis using Cons by (simp add: paths_scan_seen)
  next
    case False
    let ?paths = "gm_put (cd_Carrier d) (gm_list paths dependent @ [d]) paths"
    obtain p where p: "map_of paths dependent = Some p" using Cons.prems(2) by auto
    then have "carries_chain upstream node p dependent" and "gm_list paths dependent = p"
      using Cons.prems(1) by (simp_all add: gm_list_def chains_from_def)
    moreover have "d \<in> set (gm_list upstream dependent)" using Cons.prems(3) by simp
    ultimately have "carries_chain upstream node (gm_list paths dependent @ [d]) (cd_Carrier d)"
      by (simp add: carries_chain_snoc)
    then have "chains_from upstream node ?paths" using Cons.prems(1) by (simp add: chains_from_def)
    moreover have "dependent \<in> dom (map_of ?paths)" using Cons.prems(2) by auto
    ultimately have "chains_from upstream node (fst (fold (paths_scan dependent) ds (?paths, added @ [cd_Carrier d])))"
      by (rule Cons.IH) (use Cons.prems(3) in simp)
    then show ?thesis using False by (simp add: paths_scan_new)
  qed
qed simp

lemma paths_loop_chains:
  "chains_from upstream node paths \<Longrightarrow> set pending \<subseteq> dom (map_of paths) \<Longrightarrow>
     chains_from upstream node (paths_loop upstream pending paths)"
proof (induction upstream pending paths rule: paths_loop.induct)
  case (2 upstream dependent pending paths)
  obtain paths' added where f: "fold (paths_scan dependent) (gm_list upstream dependent) (paths, []) = (paths', added)"
    by fastforce
  have "chains_from upstream node paths'"
    using paths_scan_chains [OF 2(2), of dependent "gm_list upstream dependent" "[]"] 2(3) f by simp
  moreover have "set (pending @ added) \<subseteq> dom (map_of paths')" using paths_scan_fold [OF f] 2(3) by auto
  ultimately show ?case using 2(1) [OF f [symmetric]] f by simp
qed simp

lemma communicationPathsFrom_chain:
  assumes "map_of (communicationPathsFrom upstream node) carrier = Some path"
  shows "carries_chain upstream node path carrier"
proof -
  have "chains_from upstream node (gm_put node [] [])" by (simp add: chains_from_def)
  then have "chains_from upstream node (paths_loop upstream [node] (gm_put node [] []))"
    by (rule paths_loop_chains) simp
  then show ?thesis using assms by (auto simp: communicationPathsFrom_def chains_from_def split: if_splits)
qed

lemma consumers_loop_reach:
  assumes "frontier (gm_list dependents) pending visited" and "\<forall>x \<in> visited - set pending. set (gm_list dependents x) \<subseteq> consumers"
  shows "\<exists>V. visited \<subseteq> V \<and> closed_under (gm_list dependents) V \<and> V \<subseteq> visited \<union> (succ_rel (gm_list dependents))\<^sup>* `` set pending \<and>
    (\<forall>x \<in> V. set (gm_list dependents x) \<subseteq> consumers_loop dependents pending visited consumers) \<and>
    consumers_loop dependents pending visited consumers \<subseteq> consumers \<union> (\<Union>x \<in> V. set (gm_list dependents x))"
  using assms
proof (induction dependents pending visited consumers rule: consumers_loop.induct)
  case (1 dependents visited consumers)
  then show ?case by (intro exI [of _ visited]) (auto simp: frontier_Nil)
next
  case (2 dependents x pending visited consumers)
  let ?R = "succ_rel (gm_list dependents)"
  obtain visited' consumers' added where
    f: "fold consumers_scan (gm_list dependents x) (visited, consumers, []) = (visited', consumers', added)"
    by (metis prod.collapse)
  from consumers_scan_fold [OF f] have add: "set added = set (gm_list dependents x) - visited"
    "visited' = visited \<union> set (gm_list dependents x)" "consumers' = consumers \<union> set (gm_list dependents x)" by auto
  have fr: "frontier (gm_list dependents) (pending @ added) visited'"
    by (rule frontier_step [OF 2(2)]) (use add in auto)
  have cons: "\<forall>y \<in> visited' - set (pending @ added). set (gm_list dependents y) \<subseteq> consumers'"
    using 2(3) add by auto
  from 2(1) [OF f [symmetric] refl fr cons] obtain V where V: "visited' \<subseteq> V" "closed_under (gm_list dependents) V"
    "V \<subseteq> visited' \<union> ?R\<^sup>* `` set (pending @ added)"
    "\<forall>y \<in> V. set (gm_list dependents y) \<subseteq> consumers_loop dependents (pending @ added) visited' consumers'"
    "consumers_loop dependents (pending @ added) visited' consumers' \<subseteq> consumers' \<union> (\<Union>y \<in> V. set (gm_list dependents y))"
    by (elim exE conjE)
  have loop: "consumers_loop dependents (x # pending) visited consumers = consumers_loop dependents (pending @ added) visited' consumers'"
    by (simp add: f)
  have x: "x \<in> V" using 2(2) add(2) V(1) by (auto simp: frontier_def)
  have "set (gm_list dependents x) \<subseteq> ?R\<^sup>* `` {x}" by (rule reach_step) simp
  moreover have "?R\<^sup>* `` set added \<subseteq> ?R\<^sup>* `` {x}" using add(1) by (intro reach_step) blast
  ultimately have "V \<subseteq> visited \<union> ?R\<^sup>* `` set (x # pending)"
    using V(3) add(2) by (simp add: Image_Un) blast
  moreover have "consumers' \<subseteq> consumers \<union> (\<Union>y \<in> V. set (gm_list dependents y))" using add(3) x by blast
  ultimately show ?case unfolding loop using V add(2) by (intro exI [of _ V]) blast
qed

lemma seed_scan_eq:
  "seed_scan s (visited, pending) = (insert s visited, if s \<in> visited then pending else pending @ [s])"
  by (auto simp: seed_scan_def)

lemma seed_scan_fold: "fold seed_scan seeds (visited, pending) = (v, p) \<Longrightarrow> set pending = visited \<Longrightarrow> v = visited \<union> set seeds \<and> set p = v"
proof (induction seeds arbitrary: visited pending)
  case (Cons s seeds)
  let ?pending = "if s \<in> visited then pending else pending @ [s]"
  have "fold seed_scan seeds (insert s visited, ?pending) = (v, p)"
    using Cons.prems(1) by (simp only: fold_simps seed_scan_eq)
  moreover have "set ?pending = insert s visited" using Cons.prems(2) by auto
  ultimately have "v = insert s visited \<union> set seeds \<and> set p = v" by (rule Cons.IH)
  then show ?case by simp
qed simp

text \<open>The consumers of a set of carriers are what depends on one of them, transitively.\<close>

lemma consumersOf_reach:
  "consumersOf index seeds = (succ_rel (gm_list (ix_dependents index)))\<^sup>+ `` set seeds"
proof -
  let ?succ = "gm_list (ix_dependents index)" and ?R = "succ_rel (gm_list (ix_dependents index))"
  obtain v p where f: "fold seed_scan seeds ({}, []) = (v, p)" by fastforce
  with seed_scan_fold [OF f] have v: "v = set seeds" "set p = set seeds" by auto
  have "frontier ?succ p v" "\<forall>x \<in> v - set p. set (?succ x) \<subseteq> {}" using v by (auto simp: frontier_def)
  from consumers_loop_reach [OF this] obtain V where V: "set seeds \<subseteq> V" "closed_under ?succ V"
    "V \<subseteq> v \<union> ?R\<^sup>* `` set p" "\<forall>x \<in> V. set (?succ x) \<subseteq> consumers_loop (ix_dependents index) p v {}"
    "consumers_loop (ix_dependents index) p v {} \<subseteq> {} \<union> (\<Union>x \<in> V. set (?succ x))"
    unfolding v(1) by (elim exE conjE)
  have loop: "consumersOf index seeds = consumers_loop (ix_dependents index) p v {}" by (simp add: consumersOf_def f)
  have "?R\<^sup>* `` set seeds \<subseteq> V" using closed_under_reach [OF V(2)] V(1) by blast
  then have V_eq: "V = ?R\<^sup>* `` set seeds" using V(3) unfolding v by blast
  have "consumersOf index seeds = (\<Union>x \<in> V. set (?succ x))" unfolding loop using V(4,5) by blast
  also have "\<dots> = ?R `` (?R\<^sup>* `` set seeds)" unfolding V_eq [symmetric] by auto
  also have "\<dots> = ?R\<^sup>+ `` set seeds" by (simp add: trancl_unfold_right relcomp_Image)
  finally show ?thesis .
qed

end
