(* ===== verification/PlannerCollect.thy ===== *)
theory PlannerCollect
  imports PlannerComm
begin

text \<open>
  The ordering edges of a plan: declared dependencies and linear steps
  (\<open>src/internal/planner/artifacts.go\<close>) and node clearance
  (\<open>src/internal/planner/nodes.go\<close>), put together with tier and communication edges into the
  graph that validation and scheduling read.

  The lemmas say which ordering constraints the graph contains.  Edge identifiers are built with
  \<open>safeGraphID\<close>, which is not injective, and identifiers are what edges are deduplicated by;
  the completeness lemmas therefore assume that \<open>safeGraphID\<close> separates the group names at hand,
  which names built from letters, digits and hyphens satisfy.
\<close>

definition declaredEdge :: "string \<Rightarrow> string \<Rightarrow> string \<Rightarrow> string \<Rightarrow> string \<Rightarrow> string \<Rightarrow> GraphEdge" where
  "declaredEdge from to relation owner field explanation =
     \<lparr>ge_ID = graphEdgeID from to relation, ge_From = from, ge_To = to, ge_Relation = relation,
      ge_Provenance = GraphEdgeProvenanceDeclared,
      ge_Sources = [\<lparr>gs_Kind = GraphVertexKindGroup, gs_Name = owner, gs_Field = field\<rparr>],
      ge_Explanation = from @ '' runs before '' @ to @ '' because '' @ explanation\<rparr>"

definition declaredGroupEdges :: "Group \<Rightarrow> GraphEdge list" where
  "declaredGroupEdges g =
     map (\<lambda>d. declaredEdge (g_Name g) d GraphEdgeRelationRequires (g_Name g) ''spec.groups[].requires''
           (g_Name g @ '' requires '' @ d @ '' to remain available during shutdown.'')) (g_Requires g) @
     map (\<lambda>d. declaredEdge (g_Name g) d GraphEdgeRelationBefore (g_Name g) ''spec.groups[].before''
           (g_Name g @ '' declares before: '' @ d @ ''.'')) (g_Before g) @
     map (\<lambda>d. declaredEdge d (g_Name g) GraphEdgeRelationAfter (g_Name g) ''spec.groups[].after''
           (g_Name g @ '' declares after: '' @ d @ ''.'')) (g_After g)"

definition collectGroupGraphEdges :: "Group list \<Rightarrow> TierPolicy \<Rightarrow> GraphEdge list" where
  "collectGroupGraphEdges groups policy =
     dedupeGraphEdges (concat (map declaredGroupEdges groups) @ collectShutdownTierGraphEdges groups policy)"

definition clearanceEdge :: "string \<Rightarrow> string \<Rightarrow> string \<Rightarrow> GraphEdge" where
  "clearanceEdge actor releaser node =
     \<lparr>ge_ID = graphEdgeID actor releaser GraphEdgeRelationNodeClearance, ge_From = actor, ge_To = releaser,
      ge_Relation = GraphEdgeRelationNodeClearance, ge_Provenance = GraphEdgeProvenanceDerived,
      ge_Sources = [\<lparr>gs_Kind = ''Node'', gs_Name = node, gs_Field = ''''\<rparr>],
      ge_Explanation = actor @ '' runs before '' @ releaser @ '' because node '' @ node @
        '' cannot power off until '' @ actor @ '' has cleared it.''\<rparr>"

definition clearanceUses :: "string set \<Rightarrow> GroupNodeMembership list \<Rightarrow> (string \<times> string \<times> string) list" where
  "clearanceUses known ms =
     (let releasers = map (\<lambda>(node, names). (node, sort names)) (releasersOf known ms) in
      concat (map (\<lambda>e. concat (map (\<lambda>node.
        map (\<lambda>releaser. (gn_Group e, releaser, node)) (filter (\<lambda>r. r \<noteq> gn_Group e) (gm_list releasers node)))
        (gn_Acts e))) (filter (\<lambda>e. gn_Group e \<in> known) ms)))"

definition addClearance :: "string \<times> string \<times> string \<Rightarrow> string set \<times> GraphEdge list \<Rightarrow> string set \<times> GraphEdge list" where
  "addClearance use acc =
     (case (use, acc) of ((actor, releaser, node), (seen, edges)) \<Rightarrow>
        let edge = clearanceEdge actor releaser node in
        if ge_ID edge \<in> seen then (seen, edges) else (insert (ge_ID edge) seen, edges @ [edge]))"

definition collectNodeClearanceGraphEdges :: "Group list \<Rightarrow> GroupNodeMembership list \<Rightarrow> GraphEdge list" where
  "collectNodeClearanceGraphEdges groups ms =
     (if ms = [] \<or> groups = [] then []
      else sort_key ge_ID (snd (fold addClearance (clearanceUses (g_Name ` set groups) ms) ({}, []))))"

definition groupVertex :: "(string, int) gmap \<Rightarrow> Group \<Rightarrow> GraphVertex" where
  "groupVertex tiers g =
     \<lparr>gv_ID = g_Name g, gv_Kind = GraphVertexKindGroup, gv_Label = g_Name g, gv_Action = g_Action g,
      gv_ShutdownTier = shutdownTierPtr (g_Name g) tiers, gv_TargetSummary = summarizeTarget (g_Target g)\<rparr>"

definition buildGroupGraphForInputs :: "communicationIndex \<Rightarrow> StructuralInputs \<Rightarrow> Graph" where
  "buildGroupGraphForInputs index inp =
     (let groups = si_Groups inp; policy = si_TierPolicy inp; ms = si_GroupNodes inp;
          tiers = effectiveShutdownTiers groups policy
      in sortGraph
           \<lparr>gr_Vertices = map (groupVertex tiers) groups,
            gr_Edges = collectGroupGraphEdges groups policy @ collectNodeClearanceGraphEdges groups ms @
              collectCommunicationGraphEdges index groups ms (si_CommunicationServices inp)\<rparr>)"

definition stepVertex :: "Step \<Rightarrow> GraphVertex" where
  "stepVertex s =
     \<lparr>gv_ID = st_ID s, gv_Kind = GraphVertexKindStep, gv_Label = st_ID s, gv_Action = st_Action s,
      gv_ShutdownTier = None, gv_TargetSummary = summarizeTarget (st_Target s)\<rparr>"

definition linearEdge :: "Step \<Rightarrow> Step \<Rightarrow> GraphEdge" where
  "linearEdge previous s =
     \<lparr>ge_ID = graphEdgeID (st_ID previous) (st_ID s) GraphEdgeRelationLinearOrder,
      ge_From = st_ID previous, ge_To = st_ID s, ge_Relation = GraphEdgeRelationLinearOrder,
      ge_Provenance = GraphEdgeProvenancePolicy,
      ge_Sources = [\<lparr>gs_Kind = GraphVertexKindStep, gs_Name = '''', gs_Field = ''spec.steps''\<rparr>],
      ge_Explanation = st_ID previous @ '' runs before '' @ st_ID s @ '' because linear steps preserve declared order.''\<rparr>"

definition buildStepGraph :: "Step list \<Rightarrow> Graph" where
  "buildStepGraph steps =
     sortGraph \<lparr>gr_Vertices = map stepVertex steps, gr_Edges = map (\<lambda>(p, s). linearEdge p s) (zip steps (tl steps))\<rparr>"

section \<open>Which edges the graph has\<close>

lemma declaredEdge_sel [simp]:
  "ge_From (declaredEdge f t r own fld x) = f" "ge_To (declaredEdge f t r own fld x) = t"
  "ge_Relation (declaredEdge f t r own fld x) = r" "ge_ID (declaredEdge f t r own fld x) = graphEdgeID f t r"
  by (simp_all add: declaredEdge_def)

lemma clearanceEdge_sel [simp]:
  "ge_From (clearanceEdge a r n) = a" "ge_To (clearanceEdge a r n) = r"
  "ge_ID (clearanceEdge a r n) = graphEdgeID a r GraphEdgeRelationNodeClearance"
  by (simp_all add: clearanceEdge_def)

text \<open>The declared order: a group runs before what it requires, before what it names in before, and
  after what it names in after.\<close>

definition declared_order :: "Group list \<Rightarrow> (string \<times> string) set" where
  "declared_order groups =
     (\<Union>g \<in> set groups. {g_Name g} \<times> (set (g_Requires g) \<union> set (g_Before g)) \<union> set (g_After g) \<times> {g_Name g})"

lemma edge_rel_declaredGroupEdges:
  "edge_rel (declaredGroupEdges g) = {g_Name g} \<times> (set (g_Requires g) \<union> set (g_Before g)) \<union> set (g_After g) \<times> {g_Name g}"
  by (force simp: declaredGroupEdges_def edge_rel_def)

lemma edge_rel_declared: "edge_rel (concat (map declaredGroupEdges groups)) = declared_order groups"
  by (simp add: edge_rel_concat declared_order_def edge_rel_declaredGroupEdges)

lemma dedupe_edge_rel:
  assumes "\<forall>e \<in> set es. well_named e"
    and inj: "inj_on safeGraphID N" and "edge_rel es \<subseteq> N \<times> N"
  shows "edge_rel (dedupeGraphEdges es) = edge_rel es"
proof
  show "edge_rel (dedupeGraphEdges es) \<subseteq> edge_rel es"
    using dedupe_subset [of es] by (auto simp: edge_rel_def)
  show "edge_rel es \<subseteq> edge_rel (dedupeGraphEdges es)"
  proof
    fix p assume "p \<in> edge_rel es"
    then obtain e where e: "e \<in> set es" and p: "p = (ge_From e, ge_To e)" by (auto simp: edge_rel_def)
    obtain e' where e': "e' \<in> set (dedupeGraphEdges es)" and same: "ge_ID e' = ge_ID e"
      by (rule dedupe_represents [OF e])
    have "e' \<in> set es" using e' dedupe_subset by blast
    moreover have "{ge_From e, ge_To e, ge_From e', ge_To e'} \<subseteq> N"
      using assms(3) edge_relI [OF e] edge_relI [OF \<open>e' \<in> set es\<close>] by blast
    ultimately have "ge_From e' = ge_From e \<and> ge_To e' = ge_To e"
      using well_named_endpoints [of e e' N] assms(1) e same inj by simp
    then show "p \<in> edge_rel (dedupeGraphEdges es)" using edge_relI [OF e'] p by simp
  qed
qed

lemma well_named_declared: "e \<in> set (concat (map declaredGroupEdges groups)) \<Longrightarrow> well_named e"
  by (auto simp: declaredGroupEdges_def well_named_def simp del: append_Cons append_Nil)

lemma well_named_tier: "e \<in> set (collectShutdownTierGraphEdges groups policy) \<Longrightarrow> well_named e"
  by (auto simp: collectShutdownTierGraphEdges_def Let_def well_named_def split: if_splits)

lemma at_tier_names: "at_tier groups tiers t \<subseteq> g_Name ` set groups"
  by (auto simp: at_tier_def)

lemma tier_edges_names:
  "edge_rel (collectShutdownTierGraphEdges groups policy) \<subseteq> g_Name ` set groups \<times> g_Name ` set groups"
  using tier_edges_iff [of _ _ groups policy] at_tier_names by fastforce

lemma group_edges_complete:
  assumes "inj_on safeGraphID (g_Name ` set groups)"
    and "declared_order groups \<subseteq> g_Name ` set groups \<times> g_Name ` set groups"
  shows "edge_rel (collectGroupGraphEdges groups policy) =
    declared_order groups \<union> edge_rel (collectShutdownTierGraphEdges groups policy)"
proof -
  let ?es = "concat (map declaredGroupEdges groups) @ collectShutdownTierGraphEdges groups policy"
  have "edge_rel (dedupeGraphEdges ?es) = edge_rel ?es"
  proof (rule dedupe_edge_rel [OF _ assms(1)])
    show "\<forall>e \<in> set ?es. well_named e" using well_named_declared well_named_tier by auto
    show "edge_rel ?es \<subseteq> g_Name ` set groups \<times> g_Name ` set groups"
      using assms(2) tier_edges_names [of groups policy] by (simp add: edge_rel_declared)
  qed
  then show ?thesis by (simp add: collectGroupGraphEdges_def edge_rel_declared)
qed

lemma group_edges_bound:
  "edge_rel (collectGroupGraphEdges groups policy) \<subseteq>
    declared_order groups \<union> edge_rel (collectShutdownTierGraphEdges groups policy)"
  using dedupe_subset [of "concat (map declaredGroupEdges groups) @ collectShutdownTierGraphEdges groups policy"]
  by (auto simp: collectGroupGraphEdges_def edge_rel_declared [symmetric]) (force simp: edge_rel_def)

section \<open>Node clearance\<close>

lemma gm_list_pairs:
  "gm_list (fold (\<lambda>(k, v). gm_append k v) ps []) k = map snd (filter (\<lambda>p. fst p = k) ps)"
  using gm_list_group_by [of fst snd ps k] by (simp add: case_prod_unfold)

text \<open>Who acts on a node and who powers it off, according to the membership table.\<close>

definition acts_on :: "GroupNodeMembership list \<Rightarrow> string \<Rightarrow> string \<Rightarrow> bool" where
  "acts_on ms k node \<longleftrightarrow> (\<exists>e \<in> set ms. gn_Group e = k \<and> node \<in> set (gn_Acts e))"

definition releases_node :: "GroupNodeMembership list \<Rightarrow> string \<Rightarrow> string \<Rightarrow> bool" where
  "releases_node ms k node \<longleftrightarrow> (\<exists>e \<in> set ms. gn_Group e = k \<and> node \<in> set (gn_Releases e))"

lemma set_releasersOf: "set (gm_list (releasersOf known ms) node) = {k \<in> known. releases_node ms k node}"
  unfolding releasersOf_def gm_list_pairs by (force simp: releases_node_def)

text \<open>The clearance order: whoever acts on a node precedes whoever else powers it off.\<close>

definition clearance_order :: "string set \<Rightarrow> GroupNodeMembership list \<Rightarrow> (string \<times> string) set" where
  "clearance_order known ms = {(a, r). a \<in> known \<and> r \<in> known \<and> r \<noteq> a \<and>
     (\<exists>node. acts_on ms a node \<and> releases_node ms r node)}"

lemma gm_list_sorted:
  "set (gm_list (map (\<lambda>(node, names). (node, sort names)) m) k) = set (gm_list m k)"
  unfolding gm_list_map by (simp add: gm_list_def split: option.splits)

lemma in_clearanceUses:
  "(a, r, n) \<in> set (clearanceUses known ms) \<longleftrightarrow>
     a \<in> known \<and> r \<in> known \<and> r \<noteq> a \<and> acts_on ms a n \<and> releases_node ms r n"
proof -
  have "(a, r, n) \<in> set (clearanceUses known ms) \<longleftrightarrow>
      (\<exists>e \<in> set ms. gn_Group e \<in> known \<and> a = gn_Group e \<and> n \<in> set (gn_Acts e) \<and> r \<noteq> gn_Group e \<and>
         r \<in> set (gm_list (releasersOf known ms) n))"
    by (auto simp: clearanceUses_def Let_def gm_list_sorted)
  then show ?thesis unfolding set_releasersOf acts_on_def by auto
qed

lemma addClearance_eq:
  "addClearance (a, r, n) (seen, es) =
     (let i = graphEdgeID a r GraphEdgeRelationNodeClearance in
      if i \<in> seen then (seen, es) else (insert i seen, es @ [clearanceEdge a r n]))"
  by (simp add: addClearance_def Let_def)

lemma addClearance_fold:
  assumes "fold addClearance uses (seen, es) = (seen', es')" and "seen = ge_ID ` set es"
  shows "seen' = ge_ID ` set es' \<and> set es \<subseteq> set es' \<and>
     set es' \<subseteq> set es \<union> (\<lambda>(a, r, n). clearanceEdge a r n) ` set uses \<and>
     (\<forall>(a, r, n) \<in> set uses. graphEdgeID a r GraphEdgeRelationNodeClearance \<in> ge_ID ` set es')"
  using assms
proof (induction uses arbitrary: seen es)
  case (Cons u uses)
  obtain a r n where u: "u = (a, r, n)" by (cases u)
  show ?case
  proof (cases "graphEdgeID a r GraphEdgeRelationNodeClearance \<in> seen")
    case True
    then have "fold addClearance uses (seen, es) = (seen', es')"
      using Cons.prems(1) by (simp add: u addClearance_eq)
    from Cons.IH [OF this Cons.prems(2)] show ?thesis using True Cons.prems(2) by (auto simp: u)
  next
    case False
    then have "fold addClearance uses (insert (graphEdgeID a r GraphEdgeRelationNodeClearance) seen, es @ [clearanceEdge a r n]) = (seen', es')"
      using Cons.prems(1) by (simp add: u addClearance_eq)
    from Cons.IH [OF this] Cons.prems(2) show ?thesis by (auto simp: u intro: rev_image_eqI)
  qed
qed auto

lemma well_named_clearance [simp]: "well_named (clearanceEdge a r n)"
  by (simp add: well_named_def) (simp add: clearanceEdge_def)

lemma edge_rel_sort_key [simp]: "edge_rel (sort_key f es) = edge_rel es"
  by (simp add: edge_rel_def)

lemma clearance_edges_bound:
  "edge_rel (collectNodeClearanceGraphEdges groups ms) \<subseteq> clearance_order (g_Name ` set groups) ms"
proof -
  let ?N = "g_Name ` set groups"
  obtain seen es where f: "fold addClearance (clearanceUses ?N ms) ({}, []) = (seen, es)" by fastforce
  have "(ge_From e, ge_To e) \<in> clearance_order ?N ms" if "e \<in> set es" for e
  proof -
    from addClearance_fold [OF f] that obtain a r n where "(a, r, n) \<in> set (clearanceUses ?N ms)" "e = clearanceEdge a r n"
      by auto
    then show ?thesis by (auto simp: in_clearanceUses clearance_order_def)
  qed
  then show ?thesis by (auto simp: collectNodeClearanceGraphEdges_def f edge_rel_def)
qed

lemma clearance_edges:
  assumes inj: "inj_on safeGraphID (g_Name ` set groups)"
  shows "edge_rel (collectNodeClearanceGraphEdges groups ms) = clearance_order (g_Name ` set groups) ms"
proof (rule equalityI [OF clearance_edges_bound], rule subrelI)
  let ?N = "g_Name ` set groups"
  fix a r assume "(a, r) \<in> clearance_order ?N ms"
  then obtain n where u: "(a, r, n) \<in> set (clearanceUses ?N ms)" by (auto simp: clearance_order_def in_clearanceUses)
  obtain seen es where f: "fold addClearance (clearanceUses ?N ms) ({}, []) = (seen, es)" by fastforce
  note inv = addClearance_fold [OF f, simplified]
  from inv u have "graphEdgeID a r GraphEdgeRelationNodeClearance \<in> ge_ID ` set es" by blast
  then obtain e where e: "e \<in> set es" and same: "ge_ID e = graphEdgeID a r GraphEdgeRelationNodeClearance" by auto
  from e inv obtain a' r' n' where u': "(a', r', n') \<in> set (clearanceUses ?N ms)" and ee: "e = clearanceEdge a' r' n'" by auto
  have "{a, r, a', r'} \<subseteq> ?N" using u u' by (simp add: in_clearanceUses)
  then have "a' = a \<and> r' = r"
    using well_named_endpoints [of "clearanceEdge a r n" e ?N] inj same ee by simp
  then have "(a, r) \<in> edge_rel es" using edge_relI [OF e] ee by simp
  moreover have "ms \<noteq> [] \<and> groups \<noteq> []" using u by (auto simp: in_clearanceUses acts_on_def)
  ultimately show "(a, r) \<in> edge_rel (collectNodeClearanceGraphEdges groups ms)"
    by (simp add: collectNodeClearanceGraphEdges_def f)
qed

section \<open>Communication order\<close>

definition carrier_order :: "communicationIndex \<Rightarrow> string set \<Rightarrow> GroupNodeMembership list \<Rightarrow> (string \<times> string) set" where
  "carrier_order index known ms = {(a, r). a \<in> known \<and> r \<in> known \<and>
     (\<exists>node carrier. (acts_on ms a node \<or> releases_node ms a node) \<and>
        carrier \<in> set (gm_keys (communicationPathsFrom (ix_upstream index) node)) \<and> releases_node ms r carrier)}"

definition service_order :: "communicationIndex \<Rightarrow> string set \<Rightarrow> GroupNodeMembership list
    \<Rightarrow> CommunicationServicePath list \<Rightarrow> (string \<times> string) set" where
  "service_order index known ms services = {(a, r). a \<in> known \<and> r \<in> known \<and> a \<noteq> r \<and>
     (\<exists>service carrier. service \<in> set (normalizeCommunicationServices services) \<and>
        map_of (serviceCarrierPaths index service) carrier \<noteq> None \<and> releases_node ms r carrier)}"

lemma commEdge_sel [simp]:
  "ge_From (nodeCommunicationEdge f t) = f" "ge_To (nodeCommunicationEdge f t) = t" "well_named (nodeCommunicationEdge f t)"
  "ge_From (serviceCommunicationEdge f t) = f" "ge_To (serviceCommunicationEdge f t) = t" "well_named (serviceCommunicationEdge f t)"
  "ge_ID (serviceCommunicationEdge f t) = graphEdgeID f t GraphEdgeRelationCommunicationPath"
  by (simp_all add: nodeCommunicationEdge_def serviceCommunicationEdge_def well_named_def)

lemma sources_sel [simp]:
  "ge_From (addSources r e) = ge_From e" "ge_To (addSources r e) = ge_To e" "ge_ID (addSources r e) = ge_ID e"
  "ge_From (sortSources e) = ge_From e" "ge_To (sortSources e) = ge_To e" "ge_ID (sortSources e) = ge_ID e"
  "well_named (addSources r e) = well_named e" "well_named (sortSources e) = well_named e"
  by (simp_all add: addSources_def sortSources_def well_named_def)

lemma edge_rel_map_sort [simp]: "edge_rel (sortGraphEdges es) = edge_rel es" "edge_rel (map sortSources es) = edge_rel es"
  by (simp_all add: edge_rel_def sortGraphEdges_def image_image)

definition use_pair :: "string \<times> string \<times> string \<times> CommunicationDependency list \<times> string \<Rightarrow> string \<times> string" where
  "use_pair u = (case u of (from, node, carrier, path, to) \<Rightarrow> (from, to))"

definition keyed_edges :: "(string \<times> string, GraphEdge) gmap \<Rightarrow> bool" where
  "keyed_edges m \<longleftrightarrow> gm_wf m \<and>
     (\<forall>k e. map_of m k = Some e \<longrightarrow> ge_From e = fst k \<and> ge_To e = snd k \<and> well_named e)"

lemma keyed_edgesD:
  "keyed_edges m \<Longrightarrow> map_of m k = Some e \<Longrightarrow> ge_From e = fst k \<and> ge_To e = snd k \<and> well_named e"
  unfolding keyed_edges_def by blast

lemma addNodeUse_keeps:
  assumes "keyed_edges m"
  shows "keyed_edges (addNodeUse u m)" and "dom (map_of (addNodeUse u m)) = insert (use_pair u) (dom (map_of m))"
proof -
  obtain f n c p t where u: "u = (f, n, c, p, t)" by (cases u)
  then have up: "use_pair u = (f, t)" by (simp add: use_pair_def)
  obtain refs where add: "addNodeUse u m = gm_put (f, t) (addSources refs
      (case map_of m (f, t) of None \<Rightarrow> nodeCommunicationEdge f t | Some e \<Rightarrow> e)) m"
    by (simp add: u addNodeUse_def Let_def)
  show "dom (map_of (addNodeUse u m)) = insert (use_pair u) (dom (map_of m))" unfolding add up by simp
  have "ge_From e = fst k \<and> ge_To e = snd k \<and> well_named e" if "map_of (addNodeUse u m) k = Some e" for k e
  proof (cases "k = (f, t)")
    case True
    then show ?thesis
      using that assms unfolding add by (cases "map_of m (f, t)") (auto simp: keyed_edges_def)
  next
    case False
    then have "map_of m k = Some e" using that unfolding add by simp
    then show ?thesis by (rule keyed_edgesD [OF assms])
  qed
  moreover have "gm_wf (addNodeUse u m)" using assms unfolding add by (simp add: keyed_edges_def)
  ultimately show "keyed_edges (addNodeUse u m)" unfolding keyed_edges_def by blast
qed

lemma addNodeUse_fold:
  "keyed_edges m \<Longrightarrow> keyed_edges (fold addNodeUse us m) \<and>
     dom (map_of (fold addNodeUse us m)) = dom (map_of m) \<union> use_pair ` set us"
  by (induction us arbitrary: m) (simp_all add: addNodeUse_keeps)

lemma in_nodeCommunicationUses:
  "(a, n, c, p, r) \<in> set (nodeCommunicationUses index known ms) \<longleftrightarrow>
     a \<in> known \<and> r \<in> known \<and> (acts_on ms a n \<or> releases_node ms a n) \<and>
     (c, p) \<in> set (communicationPathsFrom (ix_upstream index) n) \<and> releases_node ms r c"
proof -
  have "(a, n, c, p, r) \<in> set (nodeCommunicationUses index known ms) \<longleftrightarrow>
      (\<exists>e \<in> set ms. gn_Group e \<in> known \<and> a = gn_Group e \<and> n \<in> set (gn_Acts e) \<union> set (gn_Releases e) \<and>
        (c, p) \<in> set (communicationPathsFrom (ix_upstream index) n) \<and> r \<in> set (gm_list (releasersOf known ms) c))"
    by (fastforce simp: nodeCommunicationUses_def Let_def)
  then show ?thesis unfolding set_releasersOf acts_on_def releases_node_def by auto
qed

lemma in_gm_keys: "k \<in> set (gm_keys m) \<longleftrightarrow> (\<exists>v. (k, v) \<in> set m)"
  by (force simp: gm_keys_def)

lemma nodeCommunicationUses_pairs:
  "use_pair ` set (nodeCommunicationUses index known ms) = carrier_order index known ms"
proof (rule set_eqI)
  fix x :: "string \<times> string"
  obtain a r where x: "x = (a, r)" by (cases x)
  have "x \<in> use_pair ` set (nodeCommunicationUses index known ms) \<longleftrightarrow>
      (\<exists>n c p. (a, n, c, p, r) \<in> set (nodeCommunicationUses index known ms))"
    unfolding x by (force simp: use_pair_def)
  then show "x \<in> use_pair ` set (nodeCommunicationUses index known ms) \<longleftrightarrow> x \<in> carrier_order index known ms"
    unfolding in_nodeCommunicationUses carrier_order_def in_gm_keys x by auto
qed

lemma node_communication_edges:
  assumes "groups \<noteq> []" and "ms \<noteq> []" and "ix_upstream index \<noteq> []"
  shows "edge_rel (collectNodeCommunicationGraphEdges index groups ms) = carrier_order index (g_Name ` set groups) ms"
    and "\<forall>e \<in> set (collectNodeCommunicationGraphEdges index groups ms). well_named e"
proof -
  let ?m = "fold addNodeUse (nodeCommunicationUses index (g_Name ` set groups) ms) []"
  have inv: "keyed_edges ?m" and dm: "dom (map_of ?m) = carrier_order index (g_Name ` set groups) ms"
    using addNodeUse_fold [of "[]" "nodeCommunicationUses index (g_Name ` set groups) ms"]
    by (simp_all add: nodeCommunicationUses_pairs keyed_edges_def)
  have get: "ge_From (snd p) = fst (fst p) \<and> ge_To (snd p) = snd (fst p) \<and> well_named (snd p)" if "p \<in> set ?m" for p
    by (rule keyed_edgesD [OF inv gm_lookup_entry]) (use inv that in \<open>simp_all add: keyed_edges_def\<close>)
  have "edge_rel (map snd ?m) = fst ` set ?m"
    unfolding edge_rel_def set_map image_image by (rule image_cong) (use get in simp_all)
  also have "\<dots> = carrier_order index (g_Name ` set groups) ms"
    using dm by (simp add: dom_map_of_conv_image_fst)
  finally show "edge_rel (collectNodeCommunicationGraphEdges index groups ms) = carrier_order index (g_Name ` set groups) ms"
    using assms by (simp add: collectNodeCommunicationGraphEdges_def map_map [symmetric] del: map_map)
  show "\<forall>e \<in> set (collectNodeCommunicationGraphEdges index groups ms). well_named e"
    using get assms by (auto simp: collectNodeCommunicationGraphEdges_def)
qed

definition indexed_edges :: "GraphEdge list \<Rightarrow> (string, nat) gmap \<Rightarrow> bool" where
  "indexed_edges es byID \<longleftrightarrow> (\<forall>e \<in> set es. well_named e) \<and>
     (\<forall>k i. map_of byID k = Some i \<longrightarrow> i < length es \<and> ge_ID (es ! i) = k) \<and>
     ge_ID ` set es \<subseteq> dom (map_of byID)"

lemma indexed_edgesD:
  "indexed_edges es byID \<Longrightarrow> map_of byID k = Some i \<Longrightarrow> i < length es \<and> ge_ID (es ! i) = k"
  by (simp add: indexed_edges_def)

lemma indexed_edges_init:
  assumes "\<forall>e \<in> set es. well_named e"
  shows "indexed_edges es (fold (\<lambda>(i, e). gm_put (ge_ID e) i) (enumerate 0 es) [])"
proof -
  let ?m = "fold (\<lambda>(i, e). gm_put (ge_ID e) i) (enumerate 0 es) []"
  let ?at = "\<lambda>k. filter (\<lambda>p. ge_ID (snd p) = k) (enumerate 0 es)"
  have get: "map_of ?m k = (if k \<in> ge_ID ` set es then Some (fst (last (?at k))) else None)" for k
  proof -
    have "snd ` set (enumerate 0 es) = set es" by (metis map_snd_enumerate set_map)
    then have "(\<lambda>p. ge_ID (snd p)) ` set (enumerate 0 es) = ge_ID ` set es" by (metis image_image)
    then show ?thesis
      using gm.get_fold_put [of "[]" "\<lambda>p. ge_ID (snd p)" fst "enumerate 0 es" k]
      by (simp add: case_prod_unfold)
  qed
  have "fst (last (?at k)) < length es \<and> ge_ID (es ! fst (last (?at k))) = k" if "k \<in> ge_ID ` set es" for k
  proof -
    from that obtain e where "e \<in> set es" "ge_ID e = k" by auto
    then obtain i where "i < length es" "es ! i = e" by (metis in_set_conv_nth)
    then have "(i, e) \<in> set (?at k)" using \<open>ge_ID e = k\<close> by (auto simp: in_set_enumerate_eq)
    then have "last (?at k) \<in> set (?at k)" by (metis last_in_set list.set(1) empty_iff)
    then show ?thesis by (auto simp: in_set_enumerate_eq)
  qed
  then show ?thesis using assms get by (auto simp: indexed_edges_def split: if_splits)
qed

lemma addServiceUse_step:
  assumes "indexed_edges es byID" and "addServiceUse (sv, c, p, f, t) (es, byID) = (es', byID')"
  shows "indexed_edges es' byID'" and "edge_rel es \<subseteq> edge_rel es'" and "edge_rel es' \<subseteq> insert (f, t) (edge_rel es)"
    and "ge_ID ` set es' = insert (graphEdgeID f t GraphEdgeRelationCommunicationPath) (ge_ID ` set es)"
proof -
  let ?i = "graphEdgeID f t GraphEdgeRelationCommunicationPath"
  obtain refs where step: "addServiceUse (sv, c, p, f, t) (es, byID) =
      (case map_of byID ?i of Some i \<Rightarrow> (es[i := addSources refs (es ! i)], byID)
       | None \<Rightarrow> (es @ [addSources refs (serviceCommunicationEdge f t)], gm_put ?i (length es) byID))"
    by (simp add: addServiceUse_def Let_def)
  have "indexed_edges es' byID' \<and> edge_rel es \<subseteq> edge_rel es' \<and> edge_rel es' \<subseteq> insert (f, t) (edge_rel es) \<and>
      ge_ID ` set es' = insert ?i (ge_ID ` set es)"
  proof (cases "map_of byID ?i")
    case None
    then have r: "es' = es @ [addSources refs (serviceCommunicationEdge f t)]" "byID' = gm_put ?i (length es) byID"
      using assms(2) unfolding step by auto
    have "indexed_edges es' byID'"
      using assms(1) unfolding r indexed_edges_def by (auto simp: nth_append intro: less_SucI)
    then show ?thesis by (auto simp: r edge_rel_def)
  next
    case (Some i)
    then have r: "es' = es[i := addSources refs (es ! i)]" "byID' = byID" using assms(2) unfolding step by auto
    have i: "i < length es" "ge_ID (es ! i) = ?i" using indexed_edgesD [OF assms(1) Some] by auto
    have same: "map F es' = map F es" if "F (addSources refs (es ! i)) = F (es ! i)" for F :: "GraphEdge \<Rightarrow> 'x"
      unfolding r by (rule nth_equalityI) (use i(1) that in \<open>auto simp: nth_list_update\<close>)
    have rel: "edge_rel es' = edge_rel es"
      using arg_cong [OF same [of "\<lambda>e. (ge_From e, ge_To e)"], of set] by (simp add: edge_rel_def)
    have ids: "map ge_ID es' = map ge_ID es" by (rule same) simp
    have wn: "map well_named es' = map well_named es" by (rule same) simp
    have "indexed_edges es' byID'"
      unfolding indexed_edges_def
    proof (intro conjI allI impI)
      show "\<forall>e \<in> set es'. well_named e"
        using assms(1) arg_cong [OF wn, of "\<lambda>l. \<forall>b \<in> set l. b"] by (simp add: indexed_edges_def)
      show "ge_ID ` set es' \<subseteq> dom (map_of byID')"
        using assms(1) arg_cong [OF ids, of set] by (simp add: indexed_edges_def r(2))
      fix k j assume "map_of byID' k = Some j"
      then have "j < length es \<and> ge_ID (es ! j) = k" using indexed_edgesD [OF assms(1)] by (simp add: r(2))
      moreover have "length es' = length es" by (simp add: r(1))
      ultimately show "j < length es'" "ge_ID (es' ! j) = k"
        using arg_cong [OF ids, of "\<lambda>l. l ! j"] by simp_all
    qed
    moreover have "?i \<in> ge_ID ` set es" using i by (metis image_eqI nth_mem)
    ultimately show ?thesis using rel arg_cong [OF ids, of set] by auto
  qed
  then show "indexed_edges es' byID'" "edge_rel es \<subseteq> edge_rel es'" "edge_rel es' \<subseteq> insert (f, t) (edge_rel es)"
    "ge_ID ` set es' = insert ?i (ge_ID ` set es)" by auto
qed

definition service_pairs :: "(string \<times> string \<times> CommunicationDependency list \<times> string \<times> string) list \<Rightarrow> (string \<times> string) set" where
  "service_pairs us = (\<lambda>(sv, c, p, f, t). (f, t)) ` set us"

lemma service_pairs_Cons: "service_pairs ((sv, c, p, f, t) # us) = insert (f, t) (service_pairs us)"
  by (simp add: service_pairs_def)

lemma in_service_pairs: "(f, t) \<in> service_pairs us \<longleftrightarrow> (\<exists>sv c p. (sv, c, p, f, t) \<in> set us)"
  by (force simp: service_pairs_def)

lemma addServiceUse_fold:
  assumes "indexed_edges es byID" and "fold addServiceUse us (es, byID) = (es', byID')"
  shows "indexed_edges es' byID' \<and> edge_rel es \<subseteq> edge_rel es' \<and> edge_rel es' \<subseteq> edge_rel es \<union> service_pairs us \<and>
    ge_ID ` set es \<subseteq> ge_ID ` set es' \<and>
    (\<forall>(f, t) \<in> service_pairs us. graphEdgeID f t GraphEdgeRelationCommunicationPath \<in> ge_ID ` set es')"
  using assms
proof (induction us arbitrary: es byID)
  case (Cons u us)
  obtain sv c p f t where u: "u = (sv, c, p, f, t)" by (cases u)
  obtain es1 byID1 where s: "addServiceUse u (es, byID) = (es1, byID1)" by fastforce
  then have rest: "fold addServiceUse us (es1, byID1) = (es', byID')" using Cons.prems(2) by simp
  note step = addServiceUse_step [OF Cons.prems(1) s [unfolded u]]
  from Cons.IH [OF step(1) rest] step(2-4) show ?case
    unfolding u service_pairs_Cons by auto
qed (simp add: service_pairs_def)

lemma service_pairs_concat: "service_pairs (concat uss) = (\<Union>us \<in> set uss. service_pairs us)"
  by (simp add: service_pairs_def image_UN)

lemma service_pairs_groups:
  "service_pairs (map (\<lambda>g. (sv, c, p, g_Name g, r)) (filter (\<lambda>g. g_Name g \<noteq> r) gs)) = (g_Name ` set gs - {r}) \<times> {r}"
  by (force simp: service_pairs_def)

lemma service_pairs_case:
  "service_pairs (case z of None \<Rightarrow> [] | Some x \<Rightarrow> map (\<lambda>g. (sv, c, x, g_Name g, r)) (filter (\<lambda>g. g_Name g \<noteq> r) gs)) =
     (if z = None then {} else (g_Name ` set gs - {r}) \<times> {r})"
  by (cases z) (simp_all add: service_pairs_groups, simp add: service_pairs_def)

lemma service_pairs_uses:
  "service_pairs (serviceCommunicationUses index groups ms services) = service_order index (g_Name ` set groups) ms services"
proof (rule set_eqI)
  fix x :: "string \<times> string"
  obtain a r where x: "x = (a, r)" by (cases x)
  define N where "N = g_Name ` set groups"
  have "x \<in> service_pairs (serviceCommunicationUses index groups ms services) \<longleftrightarrow>
      (\<exists>service \<in> set (normalizeCommunicationServices services). \<exists>e \<in> set ms. gn_Group e \<in> N \<and>
        (\<exists>c \<in> set (gn_Releases e). map_of (serviceCarrierPaths index service) c \<noteq> None) \<and> a \<in> N \<and> a \<noteq> gn_Group e \<and> r = gn_Group e)"
    unfolding x serviceCommunicationUses_def Let_def N_def [symmetric]
    by (auto simp: service_pairs_concat service_pairs_case N_def [symmetric] split: if_splits)
  also have "\<dots> \<longleftrightarrow> x \<in> service_order index N ms services"
    unfolding x service_order_def releases_node_def by auto
  finally show "x \<in> service_pairs (serviceCommunicationUses index groups ms services) \<longleftrightarrow>
      x \<in> service_order index (g_Name ` set groups) ms services" unfolding N_def .
qed

lemma no_upstream: "communicationPathsFrom [] node = []"
  by (simp add: communicationPathsFrom_def gm_list_def gm_del_def)

lemma node_communication_rel:
  "edge_rel (collectNodeCommunicationGraphEdges index groups ms) = carrier_order index (g_Name ` set groups) ms \<and>
   (\<forall>e \<in> set (collectNodeCommunicationGraphEdges index groups ms). well_named e)"
proof (cases "groups = [] \<or> ms = [] \<or> ix_upstream index = []")
  case True
  then have "carrier_order index (g_Name ` set groups) ms = {}"
    by (auto simp: carrier_order_def no_upstream gm_keys_def releases_node_def)
  then show ?thesis using True by (simp add: collectNodeCommunicationGraphEdges_def)
next
  case False
  then show ?thesis using node_communication_edges [of groups ms index] by blast
qed

lemma communication_edges:
  "edge_rel (collectCommunicationGraphEdges index groups ms services) \<subseteq>
     carrier_order index (g_Name ` set groups) ms \<union> service_order index (g_Name ` set groups) ms services"
  "inj_on safeGraphID (g_Name ` set groups) \<Longrightarrow>
     edge_rel (collectCommunicationGraphEdges index groups ms services) =
     carrier_order index (g_Name ` set groups) ms \<union> service_order index (g_Name ` set groups) ms services"
proof -
  let ?N = "g_Name ` set groups"
  let ?es = "collectNodeCommunicationGraphEdges index groups ms"
  let ?byID = "fold (\<lambda>(i, e). gm_put (ge_ID e) i) (enumerate 0 ?es) []"
  let ?us = "serviceCommunicationUses index groups ms services"
  obtain es' byID' where f: "fold addServiceUse ?us (?es, ?byID) = (es', byID')" by fastforce
  note rel = node_communication_rel [of index groups ms]
  note inv = addServiceUse_fold [OF indexed_edges_init f, unfolded service_pairs_uses, OF conjunct2 [OF rel]]
  have keep: "edge_rel ?es \<subseteq> edge_rel es'" and add: "edge_rel es' \<subseteq> edge_rel ?es \<union> service_order index ?N ms services"
    using inv by simp_all
  have result: "edge_rel (collectCommunicationGraphEdges index groups ms services) = edge_rel es'"
    by (simp add: collectCommunicationGraphEdges_def f)
  show bound: "edge_rel (collectCommunicationGraphEdges index groups ms services) \<subseteq>
      carrier_order index ?N ms \<union> service_order index ?N ms services"
    unfolding result using add unfolding conjunct1 [OF rel] .
  assume inj: "inj_on safeGraphID ?N"
  have names: "carrier_order index ?N ms \<union> service_order index ?N ms services \<subseteq> ?N \<times> ?N"
    by (auto simp: carrier_order_def service_order_def)
  have "service_order index ?N ms services \<subseteq> edge_rel es'"
  proof (rule subrelI)
    fix a r assume ar: "(a, r) \<in> service_order index ?N ms services"
    have "\<forall>(f, t) \<in> service_order index ?N ms services. graphEdgeID f t GraphEdgeRelationCommunicationPath \<in> ge_ID ` set es'"
      using inv by simp
    from bspec [OF this ar] obtain e where e: "e \<in> set es'" and same: "ge_ID e = graphEdgeID a r GraphEdgeRelationCommunicationPath"
      by (auto simp only: case_prod_conv image_iff)
    have wn: "well_named e" using inv e by (simp add: indexed_edges_def)
    have "(ge_From e, ge_To e) \<in> ?N \<times> ?N"
      by (rule subsetD [OF names], rule subsetD [OF bound [unfolded result]], rule edge_relI [OF e])
    moreover have "(a, r) \<in> ?N \<times> ?N" by (rule subsetD [OF names]) (rule UnI2 [OF ar])
    ultimately have "ge_From e = a \<and> ge_To e = r"
      using well_named_endpoints [of "serviceCommunicationEdge a r" e ?N] wn same inj by simp
    then show "(a, r) \<in> edge_rel es'" using edge_relI [OF e] by simp
  qed
  then show "edge_rel (collectCommunicationGraphEdges index groups ms services) =
      carrier_order index ?N ms \<union> service_order index ?N ms services"
    using bound keep unfolding result conjunct1 [OF rel] by blast
qed

section \<open>The whole graph\<close>

text \<open>Every ordering constraint of a plan, each stated in terms of its inputs.\<close>

definition plan_order :: "communicationIndex \<Rightarrow> StructuralInputs \<Rightarrow> (string \<times> string) set" where
  "plan_order index inp =
     (let N = g_Name ` set (si_Groups inp) in
      declared_order (si_Groups inp) \<union> edge_rel (collectShutdownTierGraphEdges (si_Groups inp) (si_TierPolicy inp)) \<union>
      clearance_order N (si_GroupNodes inp) \<union> carrier_order index N (si_GroupNodes inp) \<union>
      service_order index N (si_GroupNodes inp) (si_CommunicationServices inp))"

lemma edge_rel_sortGraph [simp]: "edge_rel (gr_Edges (sortGraph g)) = edge_rel (gr_Edges g)"
  by (simp add: sortGraph_def)

lemma group_graph_bound: "edge_rel (gr_Edges (buildGroupGraphForInputs index inp)) \<subseteq> plan_order index inp"
  using group_edges_bound [of "si_Groups inp" "si_TierPolicy inp"]
    clearance_edges_bound [of "si_Groups inp" "si_GroupNodes inp"]
    communication_edges(1) [of index "si_Groups inp" "si_GroupNodes inp" "si_CommunicationServices inp"]
  by (auto simp: buildGroupGraphForInputs_def Let_def plan_order_def)

lemma group_graph_edges:
  assumes "inj_on safeGraphID (g_Name ` set (si_Groups inp))"
    and "declared_order (si_Groups inp) \<subseteq> g_Name ` set (si_Groups inp) \<times> g_Name ` set (si_Groups inp)"
  shows "edge_rel (gr_Edges (buildGroupGraphForInputs index inp)) = plan_order index inp"
  by (simp add: buildGroupGraphForInputs_def Let_def plan_order_def group_edges_complete [OF assms]
      clearance_edges [OF assms(1)] communication_edges(2) [OF assms(1)] Un_assoc)

lemma plan_order_names:
  assumes "declared_order (si_Groups inp) \<subseteq> g_Name ` set (si_Groups inp) \<times> g_Name ` set (si_Groups inp)"
  shows "plan_order index inp \<subseteq> g_Name ` set (si_Groups inp) \<times> g_Name ` set (si_Groups inp)"
  using assms tier_edges_names [of "si_Groups inp" "si_TierPolicy inp"]
  by (auto simp: plan_order_def Let_def clearance_order_def carrier_order_def service_order_def)

lemma group_graph_vertices:
  "map gv_ID (gr_Vertices (buildGroupGraphForInputs index inp)) = sort (map g_Name (si_Groups inp))"
  by (simp add: buildGroupGraphForInputs_def Let_def sortGraph_def map_sort_key groupVertex_def comp_def)

end
