(* ===== verification/GoTime.thy ===== *)
theory GoTime
  imports Prelude
begin

text \<open>
  The part of Go's \<open>time\<close> package the sources call on strings: \<open>time.ParseDuration\<close>
  and \<open>Duration.String\<close>.
  A duration is a signed 64-bit count of nanoseconds.  The magnitude is accumulated in an unsigned
  64-bit integer, and a fraction is scaled in double precision: \<open>roundFloat\<close> rounds a positive
  rational to 53 significant bits, ties to even, as the arithmetic of float64 does.
\<close>

definition isDigit :: "char \<Rightarrow> bool" where
  "isDigit c \<longleftrightarrow> CHR ''0'' \<le> c \<and> c \<le> CHR ''9''"

definition digitValue :: "char \<Rightarrow> int" where
  "digitValue c = of_char c - 48"

fun leadingInt :: "int \<Rightarrow> string \<Rightarrow> (int \<times> string) option" where
  "leadingInt x [] = Some (x, [])"
| "leadingInt x (c # s) =
     (if \<not> isDigit c then Some (x, c # s)
      else if x > 2 ^ 63 div 10 then None
      else let y = x * 10 + digitValue c in if y > 2 ^ 63 then None else leadingInt y s)"

fun leadingFraction :: "int \<Rightarrow> int \<Rightarrow> bool \<Rightarrow> string \<Rightarrow> int \<times> int \<times> string" where
  "leadingFraction x scale overflow [] = (x, scale, [])"
| "leadingFraction x scale overflow (c # s) =
     (if \<not> isDigit c then (x, scale, c # s)
      else if overflow then leadingFraction x scale True s
      else if x > (2 ^ 63 - 1) div 10 then leadingFraction x scale True s
      else let y = x * 10 + digitValue c in
        if y > 2 ^ 63 then leadingFraction x scale True s else leadingFraction y (scale * 10) False s)"

function bitLength :: "int \<Rightarrow> nat" where
  "bitLength n = (if n \<le> 0 then 0 else Suc (bitLength (n div 2)))"
  by pat_completeness auto
termination
  by (relation "measure nat") auto

declare bitLength.simps [simp del]

definition roundHalfEven :: "int \<Rightarrow> int \<Rightarrow> int" where
  "roundHalfEven a b =
     (let q = a div b; r = a mod b in if 2 * r > b \<or> (2 * r = b \<and> odd q) then q + 1 else q)"

definition scaleBy :: "int \<times> int \<Rightarrow> int \<Rightarrow> int \<times> int" where
  "scaleBy r e = (if e \<ge> 0 then (fst r, snd r * 2 ^ nat e) else (fst r * 2 ^ nat (- e), snd r))"

definition roundFloat :: "int \<times> int \<Rightarrow> int \<times> int" where
  "roundFloat r =
     (if fst r = 0 then (0, 1)
      else let e0 = int (bitLength (fst r)) - int (bitLength (snd r)) - 53;
               s0 = scaleBy r e0;
               e = (if 2 ^ 53 * snd s0 \<le> fst s0 then e0 + 1 else e0);
               s = scaleBy r e
           in scaleBy (roundHalfEven (fst s) (snd s), 1) (- e))"

definition fractionNanos :: "int \<Rightarrow> int \<Rightarrow> int \<Rightarrow> int" where
  "fractionNanos f unit scale =
     (let x = roundFloat (f, 1); y = roundFloat (unit, scale);
          z = roundFloat (fst x * fst y, snd x * snd y) in fst z div snd z)"

definition unitMap :: "string \<Rightarrow> int option" where
  "unitMap = map_of
     [(''ns'', 1), (''us'', 1000), ([CHR 0xC2, CHR 0xB5, CHR ''s''], 1000), ([CHR 0xCE, CHR 0xBC, CHR ''s''], 1000),
      (''ms'', 1000000), (''s'', 1000000000), (''m'', 60000000000), (''h'', 3600000000000)]"

lemma leadingInt_length: "leadingInt x s = Some (v, s') \<Longrightarrow> length s' \<le> length s"
  by (induction x s rule: leadingInt.induct) (auto simp: Let_def split: if_splits)

lemma leadingFraction_length: "leadingFraction x scale ov s = (f, scale', s') \<Longrightarrow> length s' \<le> length s"
  by (induction x scale ov s rule: leadingFraction.induct) (auto simp: Let_def split: if_splits)

text \<open>The optional fraction of a component: its digits, their scale, what follows, and whether there were any.\<close>

definition fractionPart :: "string \<Rightarrow> int \<times> int \<times> string \<times> bool" where
  "fractionPart s =
     (if s \<noteq> [] \<and> hd s = CHR ''.''
      then case leadingFraction 0 1 False (tl s) of (f, scale, s') \<Rightarrow> (f, scale, s', length (tl s) \<noteq> length s')
      else (0, 1, s, False))"

definition notNumeric :: "char \<Rightarrow> bool" where
  "notNumeric c \<longleftrightarrow> \<not> (c = CHR ''.'' \<or> isDigit c)"

text \<open>One component: the number, its fraction and its unit.\<close>

definition durationPart :: "string \<Rightarrow> (int \<times> string) option" where
  "durationPart s =
     (if notNumeric (hd s) then None
      else case leadingInt 0 s of
        None \<Rightarrow> None
      | Some (v, s1) \<Rightarrow>
          (case fractionPart s1 of (f, scale, s2, post) \<Rightarrow>
             if length s = length s1 \<and> \<not> post then None
             else if takeWhile notNumeric s2 = [] then None
             else case unitMap (takeWhile notNumeric s2) of
               None \<Rightarrow> None
             | Some unit \<Rightarrow>
                 if v > 2 ^ 63 div unit then None
                 else let n = v * unit + (if f > 0 then fractionNanos f unit scale else 0) in
                   if f > 0 \<and> n > 2 ^ 63 then None else Some (n, dropWhile notNumeric s2)))"

lemma fractionPart_length: "fractionPart s = (f, scale, s', post) \<Longrightarrow> length s' \<le> length s"
  using leadingFraction_length [of 0 1 False "tl s"]
  by (fastforce simp: fractionPart_def split: if_splits prod.splits)

lemma dropWhile_shorter: "takeWhile P s \<noteq> [] \<Longrightarrow> length (dropWhile P s) < length s"
  by (metis length_append length_greater_0_conv less_add_same_cancel2 takeWhile_dropWhile_id)

lemma durationPart_length:
  assumes "durationPart s = Some (n, s')"
  shows "length s' < length s"
proof -
  from assms obtain v s1 where v: "leadingInt 0 s = Some (v, s1)"
    by (auto simp: durationPart_def split: if_splits option.splits)
  obtain f scale s2 post where fr: "fractionPart s1 = (f, scale, s2, post)" by (metis prod.collapse)
  from assms have "takeWhile notNumeric s2 \<noteq> []" and "s' = dropWhile notNumeric s2"
    by (auto simp: durationPart_def v fr Let_def split: if_splits option.splits)
  then show ?thesis
    using dropWhile_shorter [of notNumeric s2] fractionPart_length [OF fr] leadingInt_length [OF v] by simp
qed

function durationParts :: "int \<Rightarrow> string \<Rightarrow> int option" where
  "durationParts d s =
     (if s = [] then Some d
      else case durationPart s of
        None \<Rightarrow> None
      | Some (v, s') \<Rightarrow> let d' = (d + v) mod 2 ^ 64 in if d' > 2 ^ 63 then None else durationParts d' s')"
  by pat_completeness auto
termination
  by (relation "measure (\<lambda>(d, s). length s)") (auto dest: durationPart_length)

declare durationParts.simps [simp del]

definition ParseDuration :: "string \<Rightarrow> int option" where
  "ParseDuration s =
     (let neg = (s \<noteq> [] \<and> hd s = CHR ''-'');
          s' = (if s \<noteq> [] \<and> (hd s = CHR ''-'' \<or> hd s = CHR ''+'') then tl s else s)
      in if s' = ''0'' then Some 0
         else if s' = [] then None
         else case durationParts 0 s' of
           None \<Rightarrow> None
         | Some d \<Rightarrow> if neg then Some (- d) else if d > 2 ^ 63 - 1 then None else Some d)"

text \<open>Whatever is parsed is a 64-bit signed value.\<close>

lemma durationParts_bound: "durationParts d s = Some r \<Longrightarrow> 0 \<le> d \<and> d \<le> 2 ^ 63 \<Longrightarrow> 0 \<le> r \<and> r \<le> 2 ^ 63"
proof (induction d s rule: durationParts.induct)
  case (1 d s)
  show ?case
  proof (cases "s = []")
    case True
    then show ?thesis using 1(2,3) by (simp add: durationParts.simps)
  next
    case False
    then obtain v s' where p: "durationPart s = Some (v, s')" and le: "\<not> (d + v) mod 2 ^ 64 > 2 ^ 63"
      and r: "durationParts ((d + v) mod 2 ^ 64) s' = Some r"
      using 1(2) by (subst (asm) durationParts.simps) (auto simp: Let_def split: option.splits if_splits)
    show ?thesis by (rule 1(1) [OF False p refl refl le r]) (use le in simp)
  qed
qed

lemma ParseDuration_int64:
  assumes "ParseDuration s = Some d"
  shows "int64 d"
proof -
  let ?s = "if s \<noteq> [] \<and> (hd s = CHR ''-'' \<or> hd s = CHR ''+'') then tl s else s"
  have "0 \<le> r \<and> r \<le> 2 ^ 63" if "durationParts 0 ?s = Some r" for r using durationParts_bound [OF that] by simp
  then show ?thesis using assms
    by (cases "durationParts 0 ?s") (auto simp: ParseDuration_def Let_def int64_def split: if_splits)
qed

text \<open>The spelling of a whole number of seconds and of a fraction.\<close>

lemma ParseDuration_examples:
  "ParseDuration ''90s'' = Some 90000000000" "ParseDuration ''-1.5h'' = Some (- 5400000000000)"
  "ParseDuration ''1h0.1s'' = Some 3600100000000" "ParseDuration ''5'' = None" "ParseDuration '''' = None"
  by code_simp+

section \<open>Printing\<close>

function show_digits :: "int \<Rightarrow> string" where
  "show_digits n = (if n < 10 then [char_of (48 + n)] else show_digits (n div 10) @ [char_of (48 + n mod 10)])"
  by pat_completeness auto
termination
  by (relation "measure nat") auto

declare show_digits.simps [simp del]

definition padDigits :: "nat \<Rightarrow> int \<Rightarrow> string" where
  "padDigits w n = replicate (w - length (show_digits n)) CHR ''0'' @ show_digits n"

definition fracDigits :: "nat \<Rightarrow> int \<Rightarrow> string" where
  "fracDigits prec v =
     (let r = v mod 10 ^ prec in
      if r = 0 then [] else CHR ''.'' # rev (dropWhile (\<lambda>c. c = CHR ''0'') (rev (padDigits prec r))))"

definition clockPrefix :: "int \<Rightarrow> string" where
  "clockPrefix minutes =
     (if minutes = 0 then []
      else (if minutes div 60 = 0 then [] else show_digits (minutes div 60) @ ''h'') @ show_digits (minutes mod 60) @ ''m'')"

text \<open>\<open>Duration.String\<close>: the largest unit below a second, or hours, minutes and seconds.\<close>

definition durationString :: "duration \<Rightarrow> string" where
  "durationString d =
     (let u = \<bar>d\<bar>; sign = (if d < 0 then ''-'' else '''') in
      if u = 0 then ''0s''
      else if u < 1000 then sign @ show_digits u @ ''ns''
      else if u < 1000000 then sign @ show_digits (u div 1000) @ fracDigits 3 u @ [CHR 0xC2, CHR 0xB5, CHR ''s'']
      else if u < 1000000000 then sign @ show_digits (u div 1000000) @ fracDigits 6 u @ ''ms''
      else let s = u div 1000000000 in
        sign @ clockPrefix (s div 60) @ show_digits (s mod 60) @ fracDigits 9 u @ ''s'')"

lemma durationString_examples:
  "durationString 90000000000 = ''1m30s''" "durationString 1500000 = ''1.5ms''" "durationString (- 3600000000001) = ''-1h0m0.000000001s''"
  by code_simp+

end
