(* ===== verification/Layering.thy ===== *)
theory Layering
  imports Digraph
begin

text \<open>
  What a wave descent promises, stated without the bookkeeping of the code: of the vertices that
  remain, exactly those without a remaining predecessor form the next layer, in name order.  The
  planner's \<open>compileGroups\<close> is shown to compute this layering, and the facts that make a plan
  safe to run (every vertex once, every edge to a strictly later layer, no vertex later than it has
  to be) are proved here for every layering.
\<close>

definition sources :: "('a \<times> 'a) set \<Rightarrow> 'a set \<Rightarrow> 'a set" where
  "sources R S = {v \<in> S. \<forall>u \<in> S. (u, v) \<notin> R}"

fun layered :: "('a::linorder \<times> 'a) set \<Rightarrow> 'a set \<Rightarrow> 'a list list \<Rightarrow> 'a set \<Rightarrow> bool" where
  "layered R S [] T \<longleftrightarrow> S = T"
| "layered R S (w # ws) T \<longleftrightarrow>
     w \<noteq> [] \<and> w = sorted_list_of_set (sources R S) \<and> layered R (S - set w) ws T"

definition precedes :: "'a list list \<Rightarrow> 'a \<Rightarrow> 'a \<Rightarrow> bool" where
  "precedes ws u v \<longleftrightarrow> (\<exists>i j. i < j \<and> j < length ws \<and> u \<in> set (ws ! i) \<and> v \<in> set (ws ! j))"

lemma sources_subset: "sources R S \<subseteq> S"
  by (auto simp: sources_def)

lemma set_layer: "finite S \<Longrightarrow> set (sorted_list_of_set (sources R S)) = sources R S"
  by (simp add: sources_def)

lemma layered_partition:
  assumes "finite S" and "layered R S ws T"
  shows "distinct (concat ws) \<and> set (concat ws) = S - T \<and> T \<subseteq> S"
  using assms
proof (induction ws arbitrary: S)
  case (Cons w ws)
  then have w: "w = sorted_list_of_set (sources R S)" "set w \<subseteq> S" and l: "layered R (S - set w) ws T"
    using set_layer [of S R] sources_subset [of R S] by auto
  have "distinct (concat ws) \<and> set (concat ws) = (S - set w) - T \<and> T \<subseteq> S - set w"
    using Cons.IH [OF _ l] Cons.prems(1) by simp
  then show ?case using w by (auto simp: sorted_list_of_set.distinct_sorted_key_list_of_set)
qed simp

lemma precedes_Cons: "precedes (w # ws) u v \<longleftrightarrow> u \<in> set w \<and> v \<in> set (concat ws) \<or> precedes ws u v"
proof
  assume "precedes (w # ws) u v"
  then obtain i j where "i < j" "j < length (w # ws)" "u \<in> set ((w # ws) ! i)" "v \<in> set ((w # ws) ! j)"
    by (auto simp: precedes_def)
  then obtain j' where j: "j = Suc j'" "j' < length ws" "v \<in> set (ws ! j')" by (cases j) auto
  show "u \<in> set w \<and> v \<in> set (concat ws) \<or> precedes ws u v"
  proof (cases i)
    case 0
    then show ?thesis using \<open>u \<in> set ((w # ws) ! i)\<close> j by (auto intro: nth_mem)
  next
    case (Suc i')
    then show ?thesis
      using \<open>u \<in> set ((w # ws) ! i)\<close> \<open>i < j\<close> j unfolding precedes_def by (intro disjI2 exI [of _ i'] exI [of _ j']) auto
  qed
next
  assume "u \<in> set w \<and> v \<in> set (concat ws) \<or> precedes ws u v"
  then show "precedes (w # ws) u v"
  proof
    assume *: "u \<in> set w \<and> v \<in> set (concat ws)"
    then obtain x where "x \<in> set ws" "v \<in> set x" by auto
    then obtain j where "j < length ws" "v \<in> set (ws ! j)" by (metis in_set_conv_nth)
    with * show ?thesis unfolding precedes_def by (intro exI [of _ 0] exI [of _ "Suc j"]) auto
  next
    assume "precedes ws u v"
    then obtain i j where "i < j" "j < length ws" "u \<in> set (ws ! i)" "v \<in> set (ws ! j)" by (auto simp: precedes_def)
    then show ?thesis unfolding precedes_def by (intro exI [of _ "Suc i"] exI [of _ "Suc j"]) auto
  qed
qed

lemma precedes_in: "precedes ws u v \<Longrightarrow> u \<in> set (concat ws) \<and> v \<in> set (concat ws)"
  by (force simp: precedes_def intro: nth_mem)

text \<open>Edges lead to strictly later layers.\<close>

lemma layered_order:
  assumes "finite S" and "layered R S ws T" and "(u, v) \<in> R" and "u \<in> S" and "v \<in> S - T"
  shows "precedes ws u v"
  using assms(1,2,4,5)
proof (induction ws arbitrary: S)
  case (Cons w ws)
  then have w: "set w = sources R S" and l: "layered R (S - set w) ws T" using set_layer [of S R] by auto
  have v: "v \<notin> set w" using assms(3) Cons.prems(3) by (auto simp: w sources_def)
  have ws: "set (concat ws) = (S - set w) - T" using layered_partition [OF _ l] Cons.prems(1) by simp
  show ?case
  proof (cases "u \<in> set w")
    case True
    then show ?thesis using ws v Cons.prems(4) by (auto simp: precedes_Cons)
  next
    case False
    then show ?thesis using Cons.IH [OF _ l] Cons.prems v by (simp add: precedes_Cons)
  qed
qed simp

text \<open>Position of a vertex, and that the order of positions has no cycle.\<close>

lemma precedes_irrefl: "distinct (concat ws) \<Longrightarrow> \<not> precedes ws u u"
proof (induction ws)
  case (Cons w ws)
  then have "u \<in> set w \<Longrightarrow> u \<notin> set (concat ws)" by auto
  with Cons show ?case unfolding precedes_Cons by auto
qed (simp add: precedes_def)

lemma precedes_trans: "distinct (concat ws) \<Longrightarrow> precedes ws u v \<Longrightarrow> precedes ws v x \<Longrightarrow> precedes ws u x"
proof (induction ws)
  case (Cons w ws)
  have "set w \<inter> set (concat ws) = {}" using Cons.prems(1) by auto
  moreover have "precedes ws a b \<Longrightarrow> a \<in> set (concat ws) \<and> b \<in> set (concat ws)" for a b by (rule precedes_in)
  ultimately show ?case using Cons unfolding precedes_Cons by (metis IntI concat.simps(2) distinct_append empty_iff)
qed (simp add: precedes_def)

lemma layered_order_trancl:
  assumes "finite S" and "layered R S ws {}" and "(u, v) \<in> (R \<inter> S \<times> S)\<^sup>+"
  shows "precedes ws u v"
proof -
  have d: "distinct (concat ws)" using layered_partition [OF assms(1,2)] by blast
  from assms(3) show ?thesis
  proof (induction rule: trancl_induct)
    case (base y)
    then show ?case using layered_order [OF assms(1,2), of u y] by auto
  next
    case (step y z)
    then have "precedes ws y z" using layered_order [OF assms(1,2), of y z] by auto
    with step.IH show ?case by (rule precedes_trans [OF d])
  qed
qed

text \<open>The layering consumes everything exactly when the graph has no cycle.\<close>

lemma layered_complete_iff:
  assumes "finite S" and "layered R S ws T" and "sources R T = {}"
  shows "T = {} \<longleftrightarrow> acyclic (R \<inter> S \<times> S)"
proof
  assume "T = {}"
  with assms(2) have l: "layered R S ws {}" by simp
  have "distinct (concat ws)" using layered_partition [OF assms(1) l] by blast
  then show "acyclic (R \<inter> S \<times> S)"
    using layered_order_trancl [OF assms(1) l] precedes_irrefl [of ws] unfolding acyclic_def by blast
next
  assume acyc: "acyclic (R \<inter> S \<times> S)"
  have TS: "T \<subseteq> S" using layered_partition [OF assms(1,2)] by blast
  show "T = {}"
  proof (rule ccontr)
    assume "T \<noteq> {}"
    have "wf (R \<inter> S \<times> S)" using acyc assms(1) by (intro finite_acyclic_wf) auto
    then obtain v where v: "v \<in> T" "\<And>u. (u, v) \<in> R \<inter> S \<times> S \<Longrightarrow> u \<notin> T" using \<open>T \<noteq> {}\<close> by (metis wfE_min ex_in_conv)
    then have "v \<in> sources R T" using TS by (auto simp: sources_def)
    with assms(3) show False by simp
  qed
qed

text \<open>No vertex is held back: each vertex of a later layer has a predecessor in the layer before.\<close>

lemma layered_eager:
  assumes "finite S" and "layered R S ws T" and "Suc i < length ws" and "v \<in> set (ws ! Suc i)"
  shows "\<exists>u \<in> set (ws ! i). (u, v) \<in> R"
  using assms
proof (induction ws arbitrary: S i)
  case (Cons w ws)
  then have w: "set w = sources R S" and l: "layered R (S - set w) ws T" using set_layer [of S R] by auto
  show ?case
  proof (cases i)
    case 0
    then have "ws \<noteq> []" "v \<in> set (hd ws)" using Cons.prems(3,4) by (cases ws; simp)+
    then obtain x xs where ws: "ws = x # xs" and vx: "v \<in> set x" by (cases ws) auto
    then have "v \<in> sources R (S - set w)" using l set_layer [of "S - set w" R] Cons.prems(1) by auto
    then have "v \<in> S - set w" "\<forall>u \<in> S - set w. (u, v) \<notin> R" by (auto simp: sources_def)
    then have "\<exists>u \<in> set w. (u, v) \<in> R" by (auto simp: w sources_def)
    then show ?thesis by (simp add: 0)
  next
    case (Suc k)
    then show ?thesis using Cons.IH [OF _ l, of k] Cons.prems by simp
  qed
qed simp

text \<open>Whatever is left waits for something that is left.\<close>

lemma sources_empty: "sources R T = {} \<longleftrightarrow> (\<forall>v \<in> T. \<exists>u \<in> T. (u, v) \<in> R)"
  by (auto simp: sources_def)

end
