(* ===== verification/PlannerSchedule.thy ===== *)
theory PlannerSchedule
  imports PlannerCollect GoTime Layering
begin

text \<open>
  Scheduling: \<open>src/internal/planner/wait.go\<close>, \<open>compiler_scheduling.go\<close>,
  \<open>history.go\<close> and the advisory startup waves of \<open>artifacts.go\<close>.

  The descent into waves is a loop over a mutable in-degree map.  It is modelled with the map it
  mutates: decrementing a key that was deleted brings the key back, and a ready key that is not a
  group yields the zero group, whose deletion removes nothing.  The loop is therefore a
  \<open>partial_function\<close>, and that it returns is a lemma: on a graph whose edges join declared
  groups the descent computes the layering of the ordering edges and stops
  (\<open>compileGroups_descends\<close>).  Step and wave indices are 32-bit counters, durations are 64-bit.
\<close>

section \<open>Durations\<close>

definition WaitDurationFromParams :: "params \<Rightarrow> duration" where
  "WaitDurationFromParams params =
     (case ParseDuration (gm_string params ''duration'') of None \<Rightarrow> 0 | Some d \<Rightarrow> if d < 0 then 0 else d)"

definition boundedWaitDuration :: "duration \<Rightarrow> duration \<Rightarrow> duration" where
  "boundedWaitDuration d timeout =
     (if d \<le> 0 then 0 else if timeout > 0 \<and> timeout < d then timeout else d)"

definition declaredGroupDuration :: "Group \<Rightarrow> duration" where
  "declaredGroupDuration g =
     (if g_Action g = ''Wait'' then boundedWaitDuration (WaitDurationFromParams (g_Params g)) (g_Timeout g)
      else g_Timeout g)"

section \<open>Wave descent\<close>

record descent =
  de_indegree :: "(string, int) gmap"
  de_waves :: "Wave list"
  de_steps :: "CompiledStep list"
  de_cumulative :: duration
  de_stepIndex :: int
  de_waveIndex :: int

definition groupsByName :: "Group list \<Rightarrow> (string, Group) gmap" where
  "groupsByName groups = fold (\<lambda>g. gm_put (g_Name g) g) groups []"

definition gm_group :: "(string, Group) gmap \<Rightarrow> string \<Rightarrow> Group" where
  "gm_group m k = (case map_of m k of None \<Rightarrow> zeroGroup | Some g \<Rightarrow> g)"

definition bump :: "int \<Rightarrow> string \<Rightarrow> (string, int) gmap \<Rightarrow> (string, int) gmap" where
  "bump n k m = gm_put k (gm_int m k + n) m"

definition initialIndegree :: "Group list \<Rightarrow> (string, string list) gmap \<Rightarrow> (string, int) gmap" where
  "initialIndegree groups edges =
     fold (bump 1) (concat (map snd edges)) (fold (\<lambda>g. gm_put (g_Name g) 0) groups [])"

definition readyGroups :: "(string, Group) gmap \<Rightarrow> (string, int) gmap \<Rightarrow> Group list" where
  "readyGroups byName indegree =
     sort_key g_Name (map (\<lambda>(name, _). gm_group byName name) (filter (\<lambda>(_, count). count = 0) indegree))"

definition waveDuration :: "Group list \<Rightarrow> duration" where
  "waveDuration groups = fold (\<lambda>g d. if declaredGroupDuration g > d then declaredGroupDuration g else d) groups 0"

definition waveSteps :: "(string, int) gmap \<Rightarrow> int \<Rightarrow> duration \<Rightarrow> Group list \<Rightarrow> CompiledStep list" where
  "waveSteps tiers stepIndex cumulative groups =
     map (\<lambda>(i, g). \<lparr>cst_ID = g_Name g, cst_Index = wrap32 (stepIndex + int i), cst_Action = g_Action g,
            cst_ShutdownTier = shutdownTierPtr (g_Name g) tiers, cst_TargetSummary = summarizeTarget (g_Target g),
            cst_CumulativeDuration = add64 cumulative (waveDuration groups)\<rparr>) (enumerate 0 groups)"

definition waveOf :: "(string, int) gmap \<Rightarrow> int \<Rightarrow> duration \<Rightarrow> Group list \<Rightarrow> Wave" where
  "waveOf tiers waveIndex cumulative groups =
     \<lparr>w_Index = waveIndex, w_ShutdownTier = sharedShutdownTier (map g_Name groups) tiers, w_Groups = map g_Name groups,
      w_Duration = waveDuration groups, w_CumulativeDuration = add64 cumulative (waveDuration groups)\<rparr>"

definition releaseGroup :: "(string, string list) gmap \<Rightarrow> Group \<Rightarrow> (string, int) gmap \<Rightarrow> (string, int) gmap" where
  "releaseGroup edges g indegree = fold (bump (- 1)) (gm_list edges (g_Name g)) (gm_del (g_Name g) indegree)"

definition scheduleWave :: "(string, string list) gmap \<Rightarrow> (string, int) gmap \<Rightarrow> Group list \<Rightarrow> descent \<Rightarrow> descent" where
  "scheduleWave edges tiers groups st =
     \<lparr>de_indegree = fold (releaseGroup edges) groups (de_indegree st),
      de_waves = de_waves st @ [waveOf tiers (de_waveIndex st) (de_cumulative st) groups],
      de_steps = de_steps st @ waveSteps tiers (de_stepIndex st) (de_cumulative st) groups,
      de_cumulative = add64 (de_cumulative st) (waveDuration groups),
      de_stepIndex = wrap32 (de_stepIndex st + int (length groups)),
      de_waveIndex = wrap32 (de_waveIndex st + 1)\<rparr>"

type_synonym descended = "CompiledStep list \<times> Wave list \<times> duration \<times> string list"

partial_function (option) descend ::
    "(string, Group) gmap \<Rightarrow> (string, string list) gmap \<Rightarrow> (string, int) gmap \<Rightarrow> descent \<Rightarrow> descended option" where
  [code]: "descend byName edges tiers st =
     (if de_indegree st = [] then Some (de_steps st, de_waves st, de_cumulative st, [])
      else if readyGroups byName (de_indegree st) = [] then Some ([], [], 0, sort (gm_keys (de_indegree st)))
      else descend byName edges tiers (scheduleWave edges tiers (readyGroups byName (de_indegree st)) st))"

definition compileGroups :: "Group list \<Rightarrow> Graph \<Rightarrow> descended option" where
  "compileGroups groups graph =
     descend (groupsByName groups) (graphSuccessors graph) (graphShutdownTiers graph)
       \<lparr>de_indegree = initialIndegree groups (graphSuccessors graph), de_waves = [], de_steps = [],
        de_cumulative = 0, de_stepIndex = 0, de_waveIndex = 0\<rparr>"

section \<open>Linear steps and startup\<close>

definition stepDuration :: "duration \<Rightarrow> Step \<Rightarrow> duration" where
  "stepDuration cumulative s =
     (let c1 = (if st_Action s = ''Wait'' then add64 cumulative (boundedWaitDuration (st_Duration s) (st_Timeout s))
                else if st_Duration s > 0 then add64 cumulative (st_Duration s) else cumulative)
      in if st_Timeout s > 0 \<and> st_Action s \<noteq> ''Wait'' then add64 c1 (st_Timeout s) else c1)"

fun compileSteps_loop :: "nat \<Rightarrow> duration \<Rightarrow> Step list \<Rightarrow> CompiledStep list \<times> duration" where
  "compileSteps_loop i cumulative [] = ([], cumulative)"
| "compileSteps_loop i cumulative (s # ss) =
     (let c = stepDuration cumulative s; (rest, total) = compileSteps_loop (Suc i) c ss
      in (\<lparr>cst_ID = st_ID s, cst_Index = wrap32 (int i), cst_Action = st_Action s, cst_ShutdownTier = None,
           cst_TargetSummary = summarizeTarget (st_Target s), cst_CumulativeDuration = c\<rparr> # rest, total))"

definition compileSteps :: "Step list \<Rightarrow> CompiledStep list \<times> duration" where
  "compileSteps steps = compileSteps_loop 0 0 steps"

fun startup_loop :: "nat \<Rightarrow> duration \<Rightarrow> Wave list \<Rightarrow> Wave list" where
  "startup_loop i cumulative [] = []"
| "startup_loop i cumulative (source # ws) =
     (let c = add64 cumulative (w_Duration source)
      in \<lparr>w_Index = wrap32 (int i), w_ShutdownTier = w_ShutdownTier source, w_Groups = sort (w_Groups source),
          w_Duration = w_Duration source, w_CumulativeDuration = c\<rparr> # startup_loop (Suc i) c ws)"

definition advisoryStartupWaves :: "Wave list \<Rightarrow> Wave list" where
  "advisoryStartupWaves shutdownWaves = startup_loop 0 0 (rev shutdownWaves)"

section \<open>Estimates from history\<close>

type_synonym HistoryInputs = "(string, duration list) gmap"

definition EstimateDeclared :: string where "EstimateDeclared = ''Declared''"
definition EstimateObserved :: string where "EstimateObserved = ''Observed''"
definition thinHistoryThreshold :: int where "thinHistoryThreshold = 2"

record GroupEstimate =
  et_Group :: string
  et_Duration :: duration
  et_Source :: string
  et_Samples :: int
  et_Declared :: duration

record EstimateConfidence =
  ec_ObservedGroups :: int
  ec_DeclaredGroups :: int
  ec_ThinGroups :: "string list"

definition countSample :: "duration \<Rightarrow> int \<times> duration \<Rightarrow> int \<times> duration" where
  "countSample sample acc =
     (case acc of (counted, slowest) \<Rightarrow>
        if sample \<le> 0 then acc else (counted + 1, if sample > slowest then sample else slowest))"

definition estimateGroupDuration :: "Group \<Rightarrow> duration list \<Rightarrow> GroupEstimate" where
  "estimateGroupDuration g samples =
     (let declared = declaredGroupDuration g;
          estimate = \<lparr>et_Group = g_Name g, et_Duration = declared, et_Source = EstimateDeclared,
                      et_Samples = 0, et_Declared = declared\<rparr>
      in case fold countSample samples (0, 0) of (counted, slowest) \<Rightarrow>
           if counted = 0 then estimate
           else estimate\<lparr>et_Duration := slowest, et_Source := EstimateObserved, et_Samples := counted\<rparr>)"

definition compileGroupEstimates :: "Group list \<Rightarrow> HistoryInputs \<Rightarrow> GroupEstimate list" where
  "compileGroupEstimates groups history =
     sort_key et_Group (map (\<lambda>g. estimateGroupDuration g (gm_list history (g_Name g))) groups)"

definition summarizeEstimateConfidence :: "GroupEstimate list \<Rightarrow> EstimateConfidence" where
  "summarizeEstimateConfidence estimates =
     \<lparr>ec_ObservedGroups = int (length (filter (\<lambda>e. et_Source e = EstimateObserved) estimates)),
      ec_DeclaredGroups = int (length (filter (\<lambda>e. et_Source e \<noteq> EstimateObserved) estimates)),
      ec_ThinGroups = map et_Group (filter (\<lambda>e. et_Samples e < thinHistoryThreshold) estimates)\<rparr>"

definition slowestInWave :: "(string, GroupEstimate) gmap \<Rightarrow> Wave \<Rightarrow> duration" where
  "slowestInWave byGroup w =
     fold (\<lambda>name slowest. case map_of byGroup name of
             Some e \<Rightarrow> if et_Duration e > slowest then et_Duration e else slowest | None \<Rightarrow> slowest) (w_Groups w) 0"

definition observedPlanDuration :: "Wave list \<Rightarrow> GroupEstimate list \<Rightarrow> duration option" where
  "observedPlanDuration waves estimates =
     (let byGroup = fold (\<lambda>e. gm_put (et_Group e) e) estimates [] in
      if \<not> list_ex (\<lambda>e. et_Source e = EstimateObserved) estimates then None
      else Some (fold (\<lambda>w total. add64 total (slowestInWave byGroup w)) waves 0))"

section \<open>The schedule\<close>

record Plan =
  pl_Hash :: string
  pl_StructuralHash :: string
  pl_Steps :: "CompiledStep list"
  pl_Waves :: "Wave list"
  pl_StartupWaves :: "Wave list"
  pl_Graph :: Graph
  pl_PowerDomains :: "PowerDomainArtifact list"
  pl_CommunicationBudget :: "CommunicationBudget option"
  pl_Explanations :: "Explanation list"
  pl_Diagrams :: DiagramExports
  pl_EstimatedDuration :: duration
  pl_ObservedDuration :: duration
  pl_GroupEstimates :: "GroupEstimate list"
  pl_EstimateConfidence :: EstimateConfidence
  pl_Feasibility :: Feasibility
  pl_BlockedNodes :: "BlockedNode list"

definition zeroPlan :: Plan where
  "zeroPlan =
     \<lparr>pl_Hash = [], pl_StructuralHash = [], pl_Steps = [], pl_Waves = [], pl_StartupWaves = [],
      pl_Graph = \<lparr>gr_Vertices = [], gr_Edges = []\<rparr>, pl_PowerDomains = [], pl_CommunicationBudget = None,
      pl_Explanations = [], pl_Diagrams = \<lparr>dx_Mermaid = [], dx_GraphvizDOT = [], dx_D2 = []\<rparr>,
      pl_EstimatedDuration = 0, pl_ObservedDuration = 0, pl_GroupEstimates = [],
      pl_EstimateConfidence = \<lparr>ec_ObservedGroups = 0, ec_DeclaredGroups = 0, ec_ThinGroups = []\<rparr>,
      pl_Feasibility = \<lparr>fe_Verdict = [], fe_Reason = [], fe_Detail = []\<rparr>, pl_BlockedNodes = []\<rparr>"

definition planNotSchedulable :: "string list \<Rightarrow> Diagnostic" where
  "planNotSchedulable stalled =
     diag DiagnosticError ''PlanNotSchedulable'' (join '','' stalled)
       (''shutdown groups '' @ join '', '' stalled @
        '' never became schedulable, so wave descent could not finish; '' @
        ''this is a planner defect rather than a flow error, because a dependency cycle is '' @
        ''rejected as DependencyCycle before this point'')"

definition compileSchedule :: "communicationIndex \<Rightarrow> StructuralInputs \<Rightarrow> (Plan \<times> Diagnostic list) option" where
  "compileSchedule index inp =
     (if si_Groups inp \<noteq> [] then
        let graph = buildGroupGraphForInputs index inp in
        (case compileGroups (si_Groups inp) graph of
           None \<Rightarrow> None
         | Some (steps, waves, d, stalled) \<Rightarrow>
             if stalled \<noteq> [] then Some (zeroPlan, [planNotSchedulable stalled])
             else Some (zeroPlan\<lparr>pl_Graph := graph, pl_Steps := steps, pl_Waves := waves,
                          pl_StartupWaves := advisoryStartupWaves waves, pl_EstimatedDuration := d\<rparr>, []))
      else
        let linear = buildStepGraph (si_Steps inp);
            graph = sortGraph (linear\<lparr>gr_Edges := gr_Edges linear @ collectLinearCommunicationGraphEdges index inp\<rparr>)
        in case compileSteps (si_Steps inp) of (steps, d) \<Rightarrow>
             Some (zeroPlan\<lparr>pl_Graph := graph, pl_Steps := steps, pl_EstimatedDuration := d\<rparr>, []))"

definition applyGroupEstimates :: "Group list \<Rightarrow> HistoryInputs \<Rightarrow> Plan \<Rightarrow> Plan" where
  "applyGroupEstimates groups history plan =
     (let estimates = compileGroupEstimates groups history;
          plan1 = plan\<lparr>pl_GroupEstimates := estimates, pl_EstimateConfidence := summarizeEstimateConfidence estimates\<rparr>
      in case observedPlanDuration (pl_Waves plan1) estimates of
           None \<Rightarrow> plan1
         | Some observed \<Rightarrow> plan1\<lparr>pl_ObservedDuration := observed\<rparr>)"

section \<open>The in-degree map\<close>

lemma gm_int_put [simp]: "gm_int (gm_put k v m) n = (if n = k then v else gm_int m n)"
  by (simp add: gm_int_def)

lemma bump_fold:
  "map_of (fold (bump d) xs m) n = (if n \<in> set xs then Some (gm_int m n + d * int (count_list xs n)) else map_of m n)"
proof (induction xs arbitrary: m)
  case (Cons x xs)
  have "map_of (bump d x m) n = (if n = x then Some (gm_int m x + d) else map_of m n)" by (simp add: bump_def)
  moreover have "gm_int (bump d x m) n = (if n = x then gm_int m x + d else gm_int m n)" by (simp add: bump_def)
  ultimately show ?case using Cons.IH [of "bump d x m"] by (auto simp: algebra_simps count_notin)
qed simp

lemma gm_wf_bump: "gm_wf m \<Longrightarrow> gm_wf (fold (bump d) xs m)"
  by (induction xs arbitrary: m) (auto simp: bump_def)

text \<open>How many edges of the graph lead from a vertex of \<open>S\<close> to \<open>n\<close>.\<close>

definition indeg :: "GraphEdge list \<Rightarrow> string set \<Rightarrow> string \<Rightarrow> nat" where
  "indeg es S n = length (filter (\<lambda>e. ge_From e \<in> S \<and> ge_To e = n) es)"

definition waiting :: "GraphEdge list \<Rightarrow> string set \<Rightarrow> (string, int) gmap \<Rightarrow> bool" where
  "waiting es S m \<longleftrightarrow> gm_wf m \<and> dom (map_of m) = S \<and> (\<forall>n \<in> S. map_of m n = Some (int (indeg es S n))) \<and>
     (\<forall>(u, v) \<in> edge_rel es. u \<in> S \<longrightarrow> v \<in> S)"

lemma indeg_zero: "n \<in> S \<Longrightarrow> indeg es S n = 0 \<longleftrightarrow> n \<in> sources (edge_rel es) S"
  by (auto simp: indeg_def sources_def edge_rel_def filter_empty_conv)

lemma indeg_remove: "u \<in> S \<Longrightarrow> indeg es S n = indeg es (S - {u}) n + length (filter (\<lambda>e. ge_From e = u \<and> ge_To e = n) es)"
  unfolding indeg_def by (induction es) auto

lemma count_map_filter: "count_list (map f (filter P xs)) n = length (filter (\<lambda>x. P x \<and> f x = n) xs)"
  by (induction xs) auto

lemma count_successors:
  "count_list (gm_list (graphSuccessors g) u) n = length (filter (\<lambda>e. ge_From e = u \<and> ge_To e = n) (gr_Edges g))"
proof -
  have "count_list (gm_list (graphSuccessors g) u) n = count_list (map ge_To (filter (\<lambda>e. ge_From e = u) (gr_Edges g))) n"
    unfolding gm_list_graphSuccessors by (metis count_mset mset_sort)
  also have "\<dots> = length (filter (\<lambda>e. ge_From e = u \<and> ge_To e = n) (gr_Edges g))"
    by (rule count_map_filter)
  finally show ?thesis .
qed

lemma releaseGroup_waiting:
  assumes w: "waiting (gr_Edges g) S m" and src: "g_Name x \<in> sources (edge_rel (gr_Edges g)) S"
  shows "waiting (gr_Edges g) (S - {g_Name x}) (releaseGroup (graphSuccessors g) x m)"
proof -
  let ?R = "edge_rel (gr_Edges g)" and ?u = "g_Name x" and ?succ = "gm_list (graphSuccessors g) (g_Name x)"
  have u: "?u \<in> S" and up: "\<And>a b. (a, b) \<in> ?R \<Longrightarrow> a \<in> S \<Longrightarrow> b \<in> S - {?u}"
    using src w by (auto simp: sources_def waiting_def)
  have succ: "set ?succ \<subseteq> S - {?u}" using up u by (auto simp: set_graphSuccessors)
  have get: "map_of (releaseGroup (graphSuccessors g) x m) n =
      (if n \<in> S - {?u} then Some (int (indeg (gr_Edges g) (S - {?u}) n)) else None)" for n
  proof (cases "n \<in> S - {?u}")
    case True
    then have "map_of (gm_del ?u m) n = Some (int (indeg (gr_Edges g) S n))" using w by (simp add: waiting_def)
    then show ?thesis using True indeg_remove [OF u, of "gr_Edges g" n]
      by (auto simp: releaseGroup_def bump_fold gm_int_def count_successors [symmetric] count_notin)
  next
    case False
    then have "n \<notin> set ?succ" "map_of (gm_del ?u m) n = None" using succ w by (auto simp: waiting_def)
    then show ?thesis using False by (auto simp: releaseGroup_def bump_fold)
  qed
  have "gm_wf (releaseGroup (graphSuccessors g) x m)"
    using w by (simp add: releaseGroup_def gm_wf_bump waiting_def)
  moreover have "dom (map_of (releaseGroup (graphSuccessors g) x m)) = S - {?u}" by (auto simp: get dom_def)
  ultimately show ?thesis using up by (auto simp: waiting_def get)
qed

lemma sources_remove: "x \<in> sources R S \<Longrightarrow> x \<noteq> y \<Longrightarrow> x \<in> sources R (S - {y})"
  by (auto simp: sources_def)

lemma release_wave_waiting:
  assumes "waiting (gr_Edges g) S m" and "distinct (map g_Name xs)" and "g_Name ` set xs \<subseteq> sources (edge_rel (gr_Edges g)) S"
  shows "waiting (gr_Edges g) (S - g_Name ` set xs) (fold (releaseGroup (graphSuccessors g)) xs m)"
  using assms
proof (induction xs arbitrary: S m)
  case (Cons x xs)
  have "waiting (gr_Edges g) (S - {g_Name x}) (releaseGroup (graphSuccessors g) x m)"
    using Cons.prems by (intro releaseGroup_waiting) auto
  moreover have "g_Name ` set xs \<subseteq> sources (edge_rel (gr_Edges g)) (S - {g_Name x})"
  proof
    fix n assume n: "n \<in> g_Name ` set xs"
    then have "n \<in> sources (edge_rel (gr_Edges g)) S" using Cons.prems(3) by auto
    moreover have "n \<noteq> g_Name x" using n Cons.prems(2) by (metis distinct.simps(2) list.simps(9) set_map)
    ultimately show "n \<in> sources (edge_rel (gr_Edges g)) (S - {g_Name x})" by (rule sources_remove)
  qed
  ultimately have "waiting (gr_Edges g) (S - {g_Name x} - g_Name ` set xs)
      (fold (releaseGroup (graphSuccessors g)) xs (releaseGroup (graphSuccessors g) x m))"
    using Cons.prems(2) by (intro Cons.IH) auto
  moreover have "S - {g_Name x} - g_Name ` set xs = S - g_Name ` set (x # xs)" by auto
  ultimately show ?case by (metis fold_simps(2))
qed simp

text \<open>Flattening the successor lists gives the targets of all edges.\<close>

lemma mset_gm_put:
  "gm_wf m \<Longrightarrow> mset (concat (map snd (gm_put k l m))) + mset (gm_list m k) = mset (concat (map snd m)) + mset l"
proof (induction k l m rule: gm_put.induct)
  case (2 k l k' l' m)
  have wf: "gm_wf m" and less: "\<forall>x \<in> fst ` set m. k' < x" using 2(2) by (auto simp: gm_wf_def)
  consider "k < k'" | "k = k'" | "\<not> k < k'" "k \<noteq> k'" by blast
  then show ?case
  proof cases
    case 1
    then have "map_of m k = None" using less by (auto simp: map_of_eq_None_iff)
    then show ?thesis using 1 by (auto simp: gm_list_def)
  next
    case 2
    then show ?thesis by (simp add: gm_list_def)
  next
    case 3
    then have "gm_list ((k', l') # m) k = gm_list m k" by (simp add: gm_list_def)
    then show ?thesis using 3 2(1) [OF 3 wf] by (simp add: ac_simps)
  qed
qed (simp add: gm_list_def)

lemma mset_gm_append: "gm_wf m \<Longrightarrow> mset (concat (map snd (gm_append k v m))) = add_mset v (mset (concat (map snd m)))"
  using mset_gm_put [of m k "gm_list m k @ [v]"] by (simp add: gm_append_def)

lemma mset_fold_append:
  "gm_wf m \<Longrightarrow> mset (concat (map snd (fold (\<lambda>e. gm_append (f e) (h e)) es m))) = mset (map h es) + mset (concat (map snd m))"
  by (induction es arbitrary: m) (simp_all add: mset_gm_append gml.inv_app)

lemma mset_successors: "mset (concat (map snd (graphSuccessors g))) = mset (map ge_To (gr_Edges g))"
proof -
  let ?zero = "fold (\<lambda>v. gm_put (gv_ID v) ([] :: string list)) (gr_Vertices g) []"
  have sorts: "mset (concat (map snd (map (\<lambda>(k, l). (k, sort l)) m))) = mset (concat (map snd m))" for m :: "(string, string list) gmap"
    by (induction m) auto
  have "snd ` set ?zero \<subseteq> {[]}"
    by (subst gm_values) (auto simp: gm.inv_fold_put gm.get_fold_put ran_def)
  then have "concat (map snd ?zero) = []" by auto
  then show ?thesis unfolding graphSuccessors_def sorts by (simp add: mset_fold_append gm.inv_fold_put)
qed

lemma initial_waiting:
  assumes "edge_rel (gr_Edges g) \<subseteq> g_Name ` set groups \<times> g_Name ` set groups"
  shows "waiting (gr_Edges g) (g_Name ` set groups) (initialIndegree groups (graphSuccessors g))"
proof -
  let ?N = "g_Name ` set groups" and ?edges = "graphSuccessors g"
  let ?zero = "fold (\<lambda>x. gm_put (g_Name x) (0::int)) groups []"
  have zero: "map_of ?zero n = (if n \<in> ?N then Some 0 else None)" for n
    by (auto simp: gm.get_fold_put)
  have inside: "\<forall>e \<in> set (gr_Edges g). ge_From e \<in> ?N \<and> ge_To e \<in> ?N" using assms by (auto simp: edge_rel_def)
  have "count_list (concat (map snd ?edges)) n = count_list (map ge_To (gr_Edges g)) n" for n
    by (metis count_mset mset_successors)
  moreover have "filter (\<lambda>e. ge_From e \<in> ?N \<and> ge_To e = n) (gr_Edges g) = filter (\<lambda>e. ge_To e = n) (gr_Edges g)" for n
    using inside by (intro filter_cong) auto
  ultimately have count: "count_list (concat (map snd ?edges)) n = indeg (gr_Edges g) ?N n" for n
    using count_map_filter [of ge_To "\<lambda>_. True" "gr_Edges g"] by (simp add: indeg_def)
  have "set (concat (map snd ?edges)) = ge_To ` set (gr_Edges g)" by (metis mset_successors set_map set_mset_mset)
  then have sub: "set (concat (map snd ?edges)) \<subseteq> ?N" using inside by auto
  have "map_of (initialIndegree groups ?edges) n = (if n \<in> ?N then Some (int (indeg (gr_Edges g) ?N n)) else None)" for n
    using sub by (auto simp: initialIndegree_def bump_fold zero gm_int_def count [symmetric] count_notin)
  then show ?thesis using assms by (auto simp: waiting_def dom_def initialIndegree_def gm_wf_bump gm.inv_fold_put)
qed

section \<open>The descent computes the layering\<close>

text \<open>What a list of layers looks like once it is rendered as waves and steps.\<close>

definition layer_groups :: "(string, Group) gmap \<Rightarrow> string list \<Rightarrow> Group list" where
  "layer_groups byName names = map (gm_group byName) names"

fun rendered :: "(string, Group) gmap \<Rightarrow> (string, string list) gmap \<Rightarrow> (string, int) gmap \<Rightarrow> string list list \<Rightarrow> descent \<Rightarrow> descent" where
  "rendered byName edges tiers [] st = st"
| "rendered byName edges tiers (w # ws) st = rendered byName edges tiers ws (scheduleWave edges tiers (layer_groups byName w) st)"

definition known_names :: "(string, Group) gmap \<Rightarrow> string set \<Rightarrow> bool" where
  "known_names byName N \<longleftrightarrow> (\<forall>n \<in> N. g_Name (gm_group byName n) = n)"

lemma layer_names: "known_names byName N \<Longrightarrow> set names \<subseteq> N \<Longrightarrow> map g_Name (layer_groups byName names) = names"
  unfolding layer_groups_def known_names_def by (induction names) auto

lemma readyGroups_layer:
  assumes w: "waiting es S m" and N: "known_names byName N" "S \<subseteq> N"
  shows "readyGroups byName m = layer_groups byName (sorted_list_of_set (sources (edge_rel es) S))"
proof -
  let ?zero = "filter (\<lambda>(_, count). count = 0) m"
  have wf: "gm_wf m" using w by (simp add: waiting_def)
  have "sorted_wrt (<) (map fst ?zero)"
    using wf unfolding gm_wf_def by (induction m) (auto simp: case_prod_unfold)
  moreover have "set (map fst ?zero) = sources (edge_rel es) S"
  proof (rule set_eqI)
    fix n
    have "n \<in> set (map fst ?zero) \<longleftrightarrow> map_of m n = Some 0"
      using gm_lookup_entry [OF wf] by (force dest: map_of_SomeD)
    also have "\<dots> \<longleftrightarrow> n \<in> sources (edge_rel es) S"
    proof (cases "n \<in> S")
      case True
      then show ?thesis using w indeg_zero [OF True, of es] by (auto simp: waiting_def)
    next
      case False
      then show ?thesis using w by (auto simp: waiting_def sources_def)
    qed
    finally show "n \<in> set (map fst ?zero) \<longleftrightarrow> n \<in> sources (edge_rel es) S" .
  qed
  ultimately have names: "map fst ?zero = sorted_list_of_set (sources (edge_rel es) S)"
    by (metis sorted_list_of_set.idem_if_sorted_distinct strict_sorted_iff)
  have ready: "readyGroups byName m = sort_key g_Name (layer_groups byName (map fst ?zero))"
    by (simp add: readyGroups_def layer_groups_def case_prod_unfold comp_def)
  have "set (map fst ?zero) \<subseteq> N" using \<open>set (map fst ?zero) = _\<close> sources_subset N(2) by fastforce
  then have "map g_Name (layer_groups byName (map fst ?zero)) = map fst ?zero" by (rule layer_names [OF N(1)])
  then have "sorted (map g_Name (layer_groups byName (map fst ?zero)))"
    using \<open>sorted_wrt (<) (map fst ?zero)\<close> by (simp add: strict_sorted_iff)
  then show ?thesis unfolding ready names by (rule sort_key_id_if_sorted)
qed

lemma waiting_Nil: "waiting es S m \<Longrightarrow> m = [] \<longleftrightarrow> S = {}"
  by (cases m) (auto simp: waiting_def)

lemma waiting_keys: "waiting es S m \<Longrightarrow> sort (gm_keys m) = sorted_list_of_set S"
  using gm.keys_eq [of m] by (simp add: waiting_def sort_key_id_if_sorted)

lemma descend_layers:
  assumes "finite S" and "waiting (gr_Edges g) S (de_indegree st)" and "known_names byName N" and "S \<subseteq> N"
  shows "\<exists>ws T. layered (edge_rel (gr_Edges g)) S ws T \<and> sources (edge_rel (gr_Edges g)) T = {} \<and>
    descend byName (graphSuccessors g) tiers st = Some
      (if T = {} then (de_steps (rendered byName (graphSuccessors g) tiers ws st),
          de_waves (rendered byName (graphSuccessors g) tiers ws st),
          de_cumulative (rendered byName (graphSuccessors g) tiers ws st), [])
       else ([], [], 0, sorted_list_of_set T))"
  using assms(1,2,4)
proof (induction "card S" arbitrary: S st rule: less_induct)
  case less
  let ?R = "edge_rel (gr_Edges g)" and ?m = "de_indegree st"
  let ?layer = "sorted_list_of_set (sources ?R S)"
  have ready: "readyGroups byName ?m = layer_groups byName ?layer"
    by (rule readyGroups_layer [OF less.prems(2) assms(3) less.prems(3)])
  show ?case
  proof (cases "S = {} \<or> ?layer = []")
    case True
    then have "sources ?R S = {}" using set_layer [OF less.prems(1), of ?R] by (auto simp: sources_def)
    moreover have "descend byName (graphSuccessors g) tiers st = Some
        (if S = {} then (de_steps st, de_waves st, de_cumulative st, []) else ([], [], 0, sorted_list_of_set S))"
      using True waiting_Nil [OF less.prems(2)] waiting_keys [OF less.prems(2)] ready
      by (subst descend.simps) (auto simp: layer_groups_def)
    ultimately show ?thesis by (intro exI [of _ "[]"] exI [of _ S]) simp
  next
    case False
    let ?st = "scheduleWave (graphSuccessors g) tiers (layer_groups byName ?layer) st"
    have layer: "set ?layer = sources ?R S" by (rule set_layer [OF less.prems(1)])
    then have sub: "set ?layer \<subseteq> S" using sources_subset by metis
    have names: "map g_Name (layer_groups byName ?layer) = ?layer"
      using sub less.prems(3) by (intro layer_names [OF assms(3)]) blast
    then have nset: "g_Name ` set (layer_groups byName ?layer) = set ?layer" by (metis set_map)
    have w': "waiting (gr_Edges g) (S - set ?layer) (de_indegree ?st)"
      using release_wave_waiting [OF less.prems(2), of "layer_groups byName ?layer"] names nset layer
      by (simp add: scheduleWave_def sorted_list_of_set.distinct_sorted_key_list_of_set)
    obtain x where "x \<in> set ?layer" using False by (meson list.set_sel(1))
    then have "S - set ?layer \<subset> S" using sub by blast
    then have "card (S - set ?layer) < card S" by (rule psubset_card_mono [OF less.prems(1)])
    from less.hyps [OF this _ w'] less.prems(1,3) obtain ws T where IH: "layered ?R (S - set ?layer) ws T"
      "sources ?R T = {}" "descend byName (graphSuccessors g) tiers ?st = Some
      (if T = {} then (de_steps (rendered byName (graphSuccessors g) tiers ws ?st),
          de_waves (rendered byName (graphSuccessors g) tiers ws ?st),
          de_cumulative (rendered byName (graphSuccessors g) tiers ws ?st), [])
       else ([], [], 0, sorted_list_of_set T))" by blast
    have "descend byName (graphSuccessors g) tiers st = descend byName (graphSuccessors g) tiers ?st"
      using False waiting_Nil [OF less.prems(2)] ready by (subst descend.simps) (simp add: layer_groups_def)
    then show ?thesis using IH False
      by (intro exI [of _ "?layer # ws"] exI [of _ T]) (simp del: set_sorted_list_of_set sorted_list_of_set_eq_Nil_iff)
  qed
qed

lemma known_groups: "known_names (groupsByName groups) (g_Name ` set groups)"
proof -
  have "g_Name (gm_group (groupsByName groups) n) = n" if "n \<in> g_Name ` set groups" for n
  proof -
    have "map_of (groupsByName groups) n = Some (last (filter (\<lambda>x. g_Name x = n) groups))"
      using that by (simp add: groupsByName_def gm.get_fold_put)
    moreover have "filter (\<lambda>x. g_Name x = n) groups \<noteq> []" using that by (auto simp: filter_empty_conv)
    then have "last (filter (\<lambda>x. g_Name x = n) groups) \<in> set (filter (\<lambda>x. g_Name x = n) groups)" by (rule last_in_set)
    ultimately show ?thesis by (simp add: gm_group_def)
  qed
  then show ?thesis by (simp add: known_names_def)
qed

text \<open>The observable parts of a rendered layering.\<close>

fun wave_ends :: "(string, Group) gmap \<Rightarrow> duration \<Rightarrow> string list list \<Rightarrow> duration list" where
  "wave_ends byName c [] = []"
| "wave_ends byName c (w # ws) =
     (let c' = add64 c (waveDuration (layer_groups byName w)) in c' # wave_ends byName c' ws)"

lemma map_enumerate_snd: "map (\<lambda>(i, x). f x) (enumerate k xs) = map f xs"
  by (induction xs arbitrary: k) auto

lemma waveSteps_IDs: "map cst_ID (waveSteps tiers i c groups) = map g_Name groups"
proof -
  have "map cst_ID (waveSteps tiers i c groups) = map (\<lambda>(i, g). g_Name g) (enumerate 0 groups)"
    by (simp add: waveSteps_def case_prod_unfold comp_def)
  then show ?thesis by (simp only: map_enumerate_snd)
qed

lemma runWave_sel [simp]:
  "de_waves (scheduleWave edges tiers gs st) = de_waves st @ [waveOf tiers (de_waveIndex st) (de_cumulative st) gs]"
  "de_steps (scheduleWave edges tiers gs st) = de_steps st @ waveSteps tiers (de_stepIndex st) (de_cumulative st) gs"
  "de_cumulative (scheduleWave edges tiers gs st) = add64 (de_cumulative st) (waveDuration gs)"
  by (simp_all add: scheduleWave_def)

lemma waveOf_sel [simp]:
  "w_Groups (waveOf tiers i c gs) = map g_Name gs" "w_Duration (waveOf tiers i c gs) = waveDuration gs"
  "w_CumulativeDuration (waveOf tiers i c gs) = add64 c (waveDuration gs)"
  by (simp_all add: waveOf_def)

lemma rendered_names:
  assumes "known_names byName N" and "set (concat ws) \<subseteq> N"
  shows "map w_Groups (de_waves (rendered byName edges tiers ws st)) = map w_Groups (de_waves st) @ ws \<and>
    map cst_ID (de_steps (rendered byName edges tiers ws st)) = map cst_ID (de_steps st) @ concat ws"
  using assms(2)
proof (induction ws arbitrary: st)
  case (Cons w ws)
  have names: "map g_Name (layer_groups byName w) = w" using Cons.prems by (intro layer_names [OF assms(1)]) auto
  have sub: "set (concat ws) \<subseteq> N" using Cons.prems by auto
  show ?case by (simp add: Cons.IH [OF sub] names waveSteps_IDs)
qed simp

lemma rendered_durations:
  "map w_Duration (de_waves (rendered byName edges tiers ws st)) =
     map w_Duration (de_waves st) @ map (\<lambda>w. waveDuration (layer_groups byName w)) ws"
  "map w_CumulativeDuration (de_waves (rendered byName edges tiers ws st)) =
     map w_CumulativeDuration (de_waves st) @ wave_ends byName (de_cumulative st) ws"
  "de_cumulative (rendered byName edges tiers ws st) = last (de_cumulative st # wave_ends byName (de_cumulative st) ws)"
  by (induction ws arbitrary: st) (simp_all add: Let_def)

text \<open>
  The contract of the descent: on edges that join declared groups it returns; it schedules everything
  exactly when the edges have no cycle, and then in the layers of the ordering, one step per group.
\<close>

lemma compileGroups_descends:
  assumes "edge_rel (gr_Edges g) \<subseteq> g_Name ` set groups \<times> g_Name ` set groups"
  obtains (scheduled) ws where "acyclic (edge_rel (gr_Edges g))"
      and "layered (edge_rel (gr_Edges g)) (g_Name ` set groups) ws {}"
      and "compileGroups groups g = Some
        (let st = rendered (groupsByName groups) (graphSuccessors g) (graphShutdownTiers g) ws
           \<lparr>de_indegree = initialIndegree groups (graphSuccessors g), de_waves = [], de_steps = [],
            de_cumulative = 0, de_stepIndex = 0, de_waveIndex = 0\<rparr>
         in (de_steps st, de_waves st, de_cumulative st, []))"
  | (stalled) T where "\<not> acyclic (edge_rel (gr_Edges g))" and "T \<noteq> {}" and "T \<subseteq> g_Name ` set groups"
      and "\<forall>v \<in> T. \<exists>u \<in> T. (u, v) \<in> edge_rel (gr_Edges g)"
      and "compileGroups groups g = Some ([], [], 0, sorted_list_of_set T)"
proof -
  let ?R = "edge_rel (gr_Edges g)" and ?N = "g_Name ` set groups" and ?by = "groupsByName groups"
  let ?st = "\<lparr>de_indegree = initialIndegree groups (graphSuccessors g), de_waves = [], de_steps = [],
            de_cumulative = 0, de_stepIndex = 0, de_waveIndex = 0\<rparr>"
  have w: "waiting (gr_Edges g) ?N (de_indegree ?st)" using initial_waiting [OF assms] by simp
  have fin: "finite ?N" by simp
  from descend_layers [OF fin w known_groups order_refl, of "graphShutdownTiers g"]
  obtain ws T where l: "layered ?R ?N ws T" and src: "sources ?R T = {}" and d: "descend ?by (graphSuccessors g) (graphShutdownTiers g) ?st =
    Some (if T = {} then (de_steps (rendered ?by (graphSuccessors g) (graphShutdownTiers g) ws ?st),
          de_waves (rendered ?by (graphSuccessors g) (graphShutdownTiers g) ws ?st),
          de_cumulative (rendered ?by (graphSuccessors g) (graphShutdownTiers g) ws ?st), [])
       else ([], [], 0, sorted_list_of_set T))" by blast
  have restr: "?R \<inter> ?N \<times> ?N = ?R" using assms by blast
  have iff: "T = {} \<longleftrightarrow> acyclic ?R" using layered_complete_iff [OF fin l src] restr by simp
  show thesis
  proof (cases "T = {}")
    case True
    then show ?thesis using l d iff by (intro scheduled) (simp_all add: compileGroups_def Let_def)
  next
    case False
    moreover have "T \<subseteq> ?N" using layered_partition [OF fin l] by blast
    ultimately show ?thesis using src d iff by (intro stalled) (simp_all add: compileGroups_def sources_empty)
  qed
qed

section \<open>What a schedule guarantees\<close>

definition eager_waves :: "(string \<times> string) set \<Rightarrow> string list list \<Rightarrow> bool" where
  "eager_waves R ws \<longleftrightarrow> (\<forall>i. Suc i < length ws \<longrightarrow> (\<forall>v \<in> set (ws ! Suc i). \<exists>u \<in> set (ws ! i). (u, v) \<in> R))"

lemma compileGroups_scheduled:
  assumes sub: "edge_rel (gr_Edges g) \<subseteq> g_Name ` set groups \<times> g_Name ` set groups" and acyc: "acyclic (edge_rel (gr_Edges g))"
  obtains steps waves total where "compileGroups groups g = Some (steps, waves, total, [])"
    and "layered (edge_rel (gr_Edges g)) (g_Name ` set groups) (map w_Groups waves) {}"
    and "map cst_ID steps = concat (map w_Groups waves)"
    and "map w_Duration waves = map (\<lambda>w. waveDuration (layer_groups (groupsByName groups) w)) (map w_Groups waves)"
    and "map w_CumulativeDuration waves = wave_ends (groupsByName groups) 0 (map w_Groups waves)"
    and "total = last (0 # map w_CumulativeDuration waves)"
  using sub
proof (cases rule: compileGroups_descends)
  case (scheduled ws)
  let ?by = "groupsByName groups"
  let ?st = "\<lparr>de_indegree = initialIndegree groups (graphSuccessors g), de_waves = [], de_steps = [],
            de_cumulative = 0, de_stepIndex = 0, de_waveIndex = 0\<rparr>"
  let ?out = "rendered ?by (graphSuccessors g) (graphShutdownTiers g) ws ?st"
  have "set (concat ws) = g_Name ` set groups" using layered_partition [OF _ scheduled(2)] by simp
  then have names: "map w_Groups (de_waves ?out) = ws" "map cst_ID (de_steps ?out) = concat ws"
    using rendered_names [OF known_groups, of ws groups "graphSuccessors g" "graphShutdownTiers g" ?st] by simp_all
  have d: "map w_Duration (de_waves ?out) = map (\<lambda>w. waveDuration (layer_groups ?by w)) ws"
    "map w_CumulativeDuration (de_waves ?out) = wave_ends ?by 0 ws" "de_cumulative ?out = last (0 # wave_ends ?by 0 ws)"
    using rendered_durations [of ?by "graphSuccessors g" "graphShutdownTiers g" ws ?st] by simp_all
  show ?thesis
    by (rule that [of "de_steps ?out" "de_waves ?out" "de_cumulative ?out"])
      (use scheduled(2,3) names d in \<open>simp_all add: Let_def\<close>)
qed (use acyc in blast)

lemma layered_waves:
  assumes "layered R N ws {}" and "finite N" and "R \<subseteq> N \<times> N"
  shows "distinct (concat ws)" and "set (concat ws) = N" and "\<forall>(u, v) \<in> R. precedes ws u v" and "eager_waves R ws"
    and "\<forall>w \<in> set ws. sorted w \<and> w \<noteq> []"
proof -
  show "distinct (concat ws)" "set (concat ws) = N" using layered_partition [OF assms(2,1)] by auto
  show "\<forall>(u, v) \<in> R. precedes ws u v"
  proof (rule ballI, clarify)
    fix u v assume "(u, v) \<in> R"
    then show "precedes ws u v" using assms(3) by (intro layered_order [OF assms(2,1)]) auto
  qed
  show "eager_waves R ws" unfolding eager_waves_def using layered_eager [OF assms(2,1)] by blast
  show "\<forall>w \<in> set ws. sorted w \<and> w \<noteq> []" using assms(1,2) by (induction ws arbitrary: N) auto
qed

text \<open>Durations: a wave lasts as long as its slowest group, waves run one after the other.\<close>

lemma Max_insert_max: "finite A \<Longrightarrow> Max (insert (max x s) A) = Max (insert s (insert x A))" for x s :: int
  by (cases "A = {}") (simp_all add: ac_simps)

lemma waveDuration_fold:
  "fold (\<lambda>g d. if declaredGroupDuration g > d then declaredGroupDuration g else d) groups d =
     Max (insert d (declaredGroupDuration ` set groups))"
proof (induction groups arbitrary: d)
  case (Cons g groups)
  let ?d = "if declaredGroupDuration g > d then declaredGroupDuration g else d"
  have "?d = max (declaredGroupDuration g) d" by (simp add: max_def)
  then show ?case using Cons.IH [of ?d] by (simp only: fold_simps Max_insert_max list.set image_insert finite_imageI finite_set)
qed simp

lemma waveDuration_Max: "waveDuration groups = Max (insert 0 (declaredGroupDuration ` set groups))"
  by (simp only: waveDuration_def waveDuration_fold)

lemma wave_ends_last:
  "last (wrap64 c # wave_ends byName (wrap64 c) ws) = wrap64 (c + sum_list (map (\<lambda>w. waveDuration (layer_groups byName w)) ws))"
proof (induction ws arbitrary: c)
  case (Cons w ws)
  have "add64 (wrap64 c) (waveDuration (layer_groups byName w)) = wrap64 (c + waveDuration (layer_groups byName w))"
    by (simp add: add64_def wrap64_add_left)
  then show ?case using Cons.IH [of "c + waveDuration (layer_groups byName w)"] by (simp add: Let_def add.assoc)
qed simp

text \<open>Startup waves are the shutdown waves backwards.\<close>

lemma startup_groups: "map w_Groups (startup_loop i c ws) = map (sort \<circ> w_Groups) ws"
  by (induction ws arbitrary: i c) (simp_all add: Let_def)

lemma advisory_groups:
  assumes "\<forall>w \<in> set waves. sorted (w_Groups w)"
  shows "map w_Groups (advisoryStartupWaves waves) = rev (map w_Groups waves)"
  using assms by (simp add: advisoryStartupWaves_def startup_groups rev_map [symmetric] sort_key_id_if_sorted)

lemma precedes_rev: "precedes ws u v \<Longrightarrow> precedes (rev ws) v u"
proof -
  assume "precedes ws u v"
  then obtain i j where ij: "i < j" "j < length ws" "u \<in> set (ws ! i)" "v \<in> set (ws ! j)" by (auto simp: precedes_def)
  have "rev ws ! (length ws - Suc j) = ws ! j" "rev ws ! (length ws - Suc i) = ws ! i" using ij by (simp_all add: rev_nth)
  then show "precedes (rev ws) v u" unfolding precedes_def using ij
    by (intro exI [of _ "length ws - Suc j"] exI [of _ "length ws - Suc i"]) auto
qed

text \<open>Estimates.\<close>

lemma countSample_fold:
  "fold countSample samples (n, s) =
     (n + int (length (filter (\<lambda>x. 0 < x) samples)), Max (insert s {x \<in> set samples. 0 < x}))" if "0 \<le> s"
  using that
proof (induction samples arbitrary: n s)
  case (Cons x samples)
  show ?case
  proof (cases "x \<le> 0")
    case True
    then have "{y \<in> set (x # samples). 0 < y} = {y \<in> set samples. 0 < y}" by auto
    then show ?thesis using True Cons.IH [OF Cons.prems] by (simp add: countSample_def)
  next
    case False
    let ?s = "if x > s then x else s"
    have "countSample x (n, s) = (n + 1, ?s)" using False by (simp add: countSample_def)
    moreover have "0 \<le> ?s" using False Cons.prems by simp
    moreover have "{y \<in> set (x # samples). 0 < y} = insert x {y \<in> set samples. 0 < y}" using False by auto
    moreover have "?s = max x s" by (simp add: max_def)
    moreover have "Max (insert (max x s) {y \<in> set samples. 0 < y}) = Max (insert s (insert x {y \<in> set samples. 0 < y}))"
      by (rule Max_insert_max) simp
    ultimately show ?thesis using Cons.IH [of ?s "n + 1"] False
      by (simp only: fold_simps) simp
  qed
qed simp

lemma estimate_observed:
  assumes "\<exists>x \<in> set samples. 0 < x"
  shows "estimateGroupDuration g samples =
    \<lparr>et_Group = g_Name g, et_Duration = Max {x \<in> set samples. 0 < x}, et_Source = EstimateObserved,
     et_Samples = int (length (filter (\<lambda>x. 0 < x) samples)), et_Declared = declaredGroupDuration g\<rparr>"
proof -
  have ne: "{x \<in> set samples. 0 < x} \<noteq> {}" and fin: "finite {x \<in> set samples. 0 < x}" using assms by auto
  have "Max {x \<in> set samples. 0 < x} \<in> {x \<in> set samples. 0 < x}" by (rule Max_in [OF fin ne])
  then have "Max (insert 0 {x \<in> set samples. 0 < x}) = Max {x \<in> set samples. 0 < x}"
    using Max_insert [OF fin ne] by simp
  moreover have "filter (\<lambda>x. 0 < x) samples \<noteq> []" using assms by (auto simp: filter_empty_conv)
  ultimately show ?thesis using countSample_fold [of 0 samples 0] by (simp add: estimateGroupDuration_def Let_def)
qed

lemma estimate_declared:
  assumes "\<forall>x \<in> set samples. x \<le> 0"
  shows "estimateGroupDuration g samples =
    \<lparr>et_Group = g_Name g, et_Duration = declaredGroupDuration g, et_Source = EstimateDeclared,
     et_Samples = 0, et_Declared = declaredGroupDuration g\<rparr>"
proof -
  have "filter (\<lambda>x. 0 < x) samples = []" using assms by (auto simp: filter_empty_conv)
  then show ?thesis using countSample_fold [of 0 samples 0] by (simp add: estimateGroupDuration_def Let_def)
qed

section \<open>Properties of scheduling\<close>

definition schedule_group :: "string \<Rightarrow> int \<Rightarrow> Group" where
  "schedule_group name seconds = zeroGroup\<lparr>g_Name := name, g_Action := ''ScaleDown'', g_Timeout := seconds * 1000000000\<rparr>"

definition schedule_groups :: "Group list" where
  "schedule_groups = [schedule_group ''a'' 30, schedule_group ''b'' 120, schedule_group ''c'' 60, schedule_group ''d'' 10]"

definition schedule_graph :: Graph where
  "schedule_graph = \<lparr>gr_Vertices = [],
     gr_Edges = map (\<lambda>(a, b). declaredEdge a b GraphEdgeRelationBefore a ''spec.groups[].before'' [])
       [(''a'', ''b''), (''a'', ''c''), (''b'', ''c'')]\<rparr>"

definition cyclic_graph :: Graph where
  "cyclic_graph = \<lparr>gr_Vertices = [],
     gr_Edges = map (\<lambda>(a, b). declaredEdge a b GraphEdgeRelationBefore a ''spec.groups[].before'' [])
       [(''a'', ''b''), (''b'', ''a''), (''b'', ''c'')]\<rparr>"

lemma schedule_edges: "edge_rel (gr_Edges schedule_graph) = {(''a'', ''b''), (''a'', ''c''), (''b'', ''c'')}"
  by (simp add: schedule_graph_def edge_rel_def)

lemma schedule_inside: "edge_rel (gr_Edges schedule_graph) \<subseteq> g_Name ` set schedule_groups \<times> g_Name ` set schedule_groups"
  by (simp add: schedule_edges schedule_groups_def schedule_group_def)

lemma schedule_acyclic: "acyclic (edge_rel (gr_Edges schedule_graph))"
  unfolding schedule_edges by code_simp

lemma schedule_run:
  "map_option (\<lambda>(steps, waves, total, stalled). map (\<lambda>w. (w_Groups w, w_Duration w)) waves) (compileGroups schedule_groups schedule_graph) =
     Some [([''a'', ''d''], 30000000000), ([''b''], 120000000000), ([''c''], 60000000000)]"
  by code_simp

text \<open>Wave descent always ends when the ordering edges join declared groups, although its loop
  is not bounded: it schedules everything exactly when the edges have no cycle, and otherwise
  publishes no step and no wave but the groups it could not schedule, each of which waits for
  another of them.\<close>

theorem descent_returns:
  assumes "edge_rel (gr_Edges g) \<subseteq> g_Name ` set groups \<times> g_Name ` set groups"
  shows "\<exists>steps waves total stalled. compileGroups groups g = Some (steps, waves, total, stalled) \<and>
    (stalled = [] \<longleftrightarrow> acyclic (edge_rel (gr_Edges g))) \<and>
    (stalled \<noteq> [] \<longrightarrow> steps = [] \<and> waves = [] \<and> set stalled \<subseteq> g_Name ` set groups \<and>
       (\<forall>v \<in> set stalled. \<exists>u \<in> set stalled. (u, v) \<in> edge_rel (gr_Edges g)))"
  using assms
proof (cases rule: compileGroups_descends)
  case (scheduled ws)
  then show ?thesis by (simp add: Let_def)
next
  case (stalled T)
  have fin: "finite T" using stalled(3) by (rule finite_subset) simp
  have T: "set (sorted_list_of_set T) = T" "sorted_list_of_set T \<noteq> []" using fin stalled(2) by simp_all
  show ?thesis using stalled(1) stalled(3,4,5) T by auto
qed

lemma descent_returns_witness:
  "compileGroups schedule_groups cyclic_graph = Some ([], [], 0, [''a'', ''b'', ''c'']) \<and>
   \<not> acyclic (edge_rel (gr_Edges cyclic_graph))"
proof -
  have "edge_rel (gr_Edges cyclic_graph) \<subseteq> g_Name ` set schedule_groups \<times> g_Name ` set schedule_groups"
    by (simp add: cyclic_graph_def schedule_groups_def schedule_group_def edge_rel_def)
  moreover have "compileGroups schedule_groups cyclic_graph = Some ([], [], 0, [''a'', ''b'', ''c''])" by code_simp
  ultimately show ?thesis using descent_returns [of cyclic_graph schedule_groups] by simp
qed

text \<open>C21. On acyclic edges between declared groups the waves contain every group exactly once, every
  edge leads from an earlier to a strictly later wave, no group is later than the wave after one of
  its predecessors, and the flattened steps list the groups wave by wave.\<close>

theorem waves_respect_order:
  assumes "edge_rel (gr_Edges g) \<subseteq> g_Name ` set groups \<times> g_Name ` set groups" and "acyclic (edge_rel (gr_Edges g))"
  shows "\<exists>steps waves total. compileGroups groups g = Some (steps, waves, total, []) \<and>
    distinct (concat (map w_Groups waves)) \<and> set (concat (map w_Groups waves)) = g_Name ` set groups \<and>
    (\<forall>(u, v) \<in> edge_rel (gr_Edges g). precedes (map w_Groups waves) u v) \<and>
    eager_waves (edge_rel (gr_Edges g)) (map w_Groups waves) \<and> map cst_ID steps = concat (map w_Groups waves)"
proof -
  from assms obtain steps waves total where c: "compileGroups groups g = Some (steps, waves, total, [])"
    and l: "layered (edge_rel (gr_Edges g)) (g_Name ` set groups) (map w_Groups waves) {}"
    and s: "map cst_ID steps = concat (map w_Groups waves)" by (rule compileGroups_scheduled)
  show ?thesis
    by (intro exI [of _ steps] exI [of _ waves] exI [of _ total] conjI c s layered_waves [OF l _ assms(1)]) simp_all
qed

lemma waves_respect_order_witness:
  "\<exists>steps waves total. compileGroups schedule_groups schedule_graph = Some (steps, waves, total, []) \<and>
     map w_Groups waves = [[''a'', ''d''], [''b''], [''c'']] \<and> precedes (map w_Groups waves) ''a'' ''c''"
proof -
  from waves_respect_order [OF schedule_inside schedule_acyclic] obtain steps waves total where
    c: "compileGroups schedule_groups schedule_graph = Some (steps, waves, total, [])"
    and p: "\<forall>(u, v) \<in> edge_rel (gr_Edges schedule_graph). precedes (map w_Groups waves) u v" by blast
  have "map w_Groups waves = map fst (map (\<lambda>w. (w_Groups w, w_Duration w)) waves)" by simp
  also have "\<dots> = [[''a'', ''d''], [''b''], [''c'']]" using schedule_run c by simp
  finally show ?thesis using c p by (auto simp: schedule_edges)
qed

text \<open>The planned duration: a wave lasts as long as the longest declared duration of its groups
  and never less than zero, and the total is the sum over the waves, in 64-bit arithmetic.\<close>

theorem schedule_durations:
  assumes "edge_rel (gr_Edges g) \<subseteq> g_Name ` set groups \<times> g_Name ` set groups" and "acyclic (edge_rel (gr_Edges g))"
    and "distinct (map g_Name groups)"
  shows "\<exists>steps waves total. compileGroups groups g = Some (steps, waves, total, []) \<and>
    (\<forall>w \<in> set waves. w_Duration w = Max (insert 0 {declaredGroupDuration x |x. x \<in> set groups \<and> g_Name x \<in> set (w_Groups w)})) \<and>
    total = wrap64 (sum_list (map w_Duration waves)) \<and>
    (sum_list (map w_Duration waves) < 2 ^ 63 \<longrightarrow> total = sum_list (map w_Duration waves))"
proof -
  let ?by = "groupsByName groups"
  from assms(1,2) obtain steps waves total where c: "compileGroups groups g = Some (steps, waves, total, [])"
    and l: "layered (edge_rel (gr_Edges g)) (g_Name ` set groups) (map w_Groups waves) {}"
    and d: "map w_Duration waves = map (\<lambda>w. waveDuration (layer_groups ?by w)) (map w_Groups waves)"
    and e: "map w_CumulativeDuration waves = wave_ends ?by 0 (map w_Groups waves)"
    and t: "total = last (0 # map w_CumulativeDuration waves)" by (rule compileGroups_scheduled)
  have lookup: "gm_group ?by (g_Name x) = x" if "x \<in> set groups" for x
  proof -
    show ?thesis using that filter_unique [OF assms(3) that] by (simp add: gm_group_def groupsByName_def gm.get_fold_put)
  qed
  have wave: "w_Duration w = Max (insert 0 {declaredGroupDuration x |x. x \<in> set groups \<and> g_Name x \<in> set (w_Groups w)})"
    if "w \<in> set waves" for w
  proof -
    have "set (w_Groups w) \<subseteq> g_Name ` set groups" using layered_waves(2) [OF l _ assms(1)] that by auto
    then have sub: "\<exists>x \<in> set groups. n = g_Name x" if "n \<in> set (w_Groups w)" for n using that by blast
    have "set (layer_groups ?by (w_Groups w)) = {x \<in> set groups. g_Name x \<in> set (w_Groups w)}"
      unfolding layer_groups_def set_map using sub lookup by (force simp: image_iff)
    then have "declaredGroupDuration ` set (layer_groups ?by (w_Groups w)) =
        {declaredGroupDuration x |x. x \<in> set groups \<and> g_Name x \<in> set (w_Groups w)}" by auto
    moreover have "w_Duration w = waveDuration (layer_groups ?by (w_Groups w))" using d that by (auto simp: map_eq_conv)
    ultimately show ?thesis by (simp only: waveDuration_Max)
  qed
  then have nonneg: "0 \<le> sum_list (map w_Duration waves)" by (intro sum_list_nonneg) auto
  have "total = wrap64 (sum_list (map w_Duration waves))"
    using wave_ends_last [of 0 ?by "map w_Groups waves"] unfolding t e d by (simp add: int64_def)
  then show ?thesis using c wave nonneg by (intro exI conjI) (auto simp: int64_def)
qed

lemma schedule_durations_witness:
  "\<exists>steps waves. compileGroups schedule_groups schedule_graph = Some (steps, waves, 210000000000, []) \<and>
     map w_Duration waves = [30000000000, 120000000000, 60000000000]"
proof -
  have "distinct (map g_Name schedule_groups)" by (simp add: schedule_groups_def schedule_group_def)
  from schedule_durations [OF schedule_inside schedule_acyclic this] obtain steps waves total where
    c: "compileGroups schedule_groups schedule_graph = Some (steps, waves, total, [])"
    and t: "total = wrap64 (sum_list (map w_Duration waves))" by blast
  have "map w_Duration waves = map snd (map (\<lambda>w. (w_Groups w, w_Duration w)) waves)" by simp
  also have "\<dots> = [30000000000, 120000000000, 60000000000]" using schedule_run c by simp
  finally show ?thesis using c t by (simp add: int64_def)
qed

text \<open>An estimate from history: with a positive sample the slowest observation is planned with,
  so no recorded run exceeds the estimate, and without one the declared duration stands.\<close>

theorem estimates_conservative:
  "let e = estimateGroupDuration g samples in
     et_Group e = g_Name g \<and> et_Declared e = declaredGroupDuration g \<and>
     et_Samples e = int (length (filter (\<lambda>x. 0 < x) samples)) \<and>
     (if \<exists>x \<in> set samples. 0 < x
      then et_Source e = EstimateObserved \<and> et_Duration e \<in> set samples \<and> (\<forall>x \<in> set samples. x \<le> et_Duration e)
      else et_Source e = EstimateDeclared \<and> et_Duration e = declaredGroupDuration g)"
proof (cases "\<exists>x \<in> set samples. 0 < x")
  case True
  let ?A = "{x \<in> set samples. 0 < x}"
  have "Max ?A \<in> ?A" using True by (intro Max_in) auto
  moreover have "x \<le> Max ?A" if "x \<in> set samples" for x
  proof (cases "0 < x")
    case False
    with \<open>Max ?A \<in> ?A\<close> show ?thesis by auto
  qed (use that in \<open>simp add: Max_ge\<close>)
  ultimately show ?thesis using True by (simp add: estimate_observed [OF True])
next
  case False
  then have "\<forall>x \<in> set samples. x \<le> 0" by auto
  then show ?thesis using False by (simp add: estimate_declared [OF \<open>\<forall>x \<in> set samples. x \<le> 0\<close>] filter_empty_conv)
qed

lemma estimates_conservative_witness:
  "et_Duration (estimateGroupDuration (schedule_group ''b'' 120) [90, 0, 150]) = 150 \<and>
   et_Samples (estimateGroupDuration (schedule_group ''b'' 120) [90, 0, 150]) = 2 \<and>
   et_Declared (estimateGroupDuration (schedule_group ''b'' 120) [90, 0, 150]) = declaredGroupDuration (schedule_group ''b'' 120)"
proof -
  have "et_Duration (estimateGroupDuration (schedule_group ''b'' 120) [90, 0, 150]) = 150" by code_simp
  then show ?thesis
    using estimates_conservative [where g = "schedule_group ''b'' 120" and samples = "[90, 0, 150]"]
    by (simp add: Let_def)
qed

text \<open>The advisory startup order is the shutdown order backwards: whatever is shut down strictly
  before a group is started strictly after it.\<close>

theorem startup_reverses_shutdown:
  assumes "compileSchedule index inp = Some (plan, [])"
    and "si_Groups inp \<noteq> []" and "edge_rel (gr_Edges (pl_Graph plan)) \<subseteq> g_Name ` set (si_Groups inp) \<times> g_Name ` set (si_Groups inp)"
    and "precedes (map w_Groups (pl_Waves plan)) u v"
  shows "precedes (map w_Groups (pl_StartupWaves plan)) v u"
proof -
  from assms(1,2) obtain steps waves d where c: "compileGroups (si_Groups inp) (buildGroupGraphForInputs index inp) = Some (steps, waves, d, [])"
    and p: "pl_Waves plan = waves" "pl_StartupWaves plan = advisoryStartupWaves waves" "pl_Graph plan = buildGroupGraphForInputs index inp"
    by (auto simp: compileSchedule_def Let_def split: option.splits if_splits)
  let ?R = "edge_rel (gr_Edges (pl_Graph plan))"
  have "\<forall>w \<in> set waves. sorted (w_Groups w)" using assms(3)
  proof (cases rule: compileGroups_descends)
    case (scheduled ws)
    then obtain steps' waves' total' where c': "compileGroups (si_Groups inp) (pl_Graph plan) = Some (steps', waves', total', [])"
      and l: "layered ?R (g_Name ` set (si_Groups inp)) (map w_Groups waves') {}"
      using compileGroups_scheduled [OF assms(3)] by metis
    have "waves' = waves" using c c' p(3) by simp
    then show ?thesis using layered_waves(5) [OF l _ assms(3)] by auto
  qed (use c p(3) in auto)
  from advisory_groups [OF this] show ?thesis using precedes_rev [OF assms(4)] by (simp add: p)
qed

definition startup_inputs :: StructuralInputs where
  "startup_inputs = zeroInputs\<lparr>si_Groups := [(schedule_group ''b'' 120)\<lparr>g_After := [''a'']\<rparr>, schedule_group ''a'' 30]\<rparr>"

lemma startup_reverses_shutdown_witness:
  "\<exists>plan. compileSchedule (newCommunicationIndex startup_inputs) startup_inputs = Some (plan, []) \<and>
     precedes (map w_Groups (pl_StartupWaves plan)) ''b'' ''a''"
proof -
  have "map_option (\<lambda>(p, ds). (ds, map (\<lambda>e. (ge_From e, ge_To e)) (gr_Edges (pl_Graph p)), map w_Groups (pl_Waves p)))
      (compileSchedule (newCommunicationIndex startup_inputs) startup_inputs) = Some ([], [(''a'', ''b'')], [[''a''], [''b'']])"
    by code_simp
  then obtain plan where run: "compileSchedule (newCommunicationIndex startup_inputs) startup_inputs = Some (plan, [])"
    and e: "map (\<lambda>e. (ge_From e, ge_To e)) (gr_Edges (pl_Graph plan)) = [(''a'', ''b'')]"
    and w: "map w_Groups (pl_Waves plan) = [[''a''], [''b'']]" by auto
  have "edge_rel (gr_Edges (pl_Graph plan)) = {(''a'', ''b'')}" using arg_cong [OF e, of set] by (simp add: edge_rel_def)
  moreover have "g_Name ` set (si_Groups startup_inputs) = {''a'', ''b''}" "si_Groups startup_inputs \<noteq> []"
    by (auto simp: startup_inputs_def schedule_group_def)
  moreover have "precedes (map w_Groups (pl_Waves plan)) ''a'' ''b''" by (simp add: w precedes_Cons)
  ultimately show ?thesis using run startup_reverses_shutdown [OF run] by simp
qed

end
