(* ===== verification/CapabilityTriggers.thy ===== *)
theory CapabilityTriggers
  imports Prelude
begin

text \<open>
  The trigger classes of \<open>src/internal/capability/types.go\<close> and the tables of
  \<open>src/internal/capability/matcher.go\<close> that say which telemetry a class needs and which
  coarser class may stand in for it.
\<close>

definition TriggerOnBattery :: string where "TriggerOnBattery = ''OnBattery''"
definition TriggerLowBattery :: string where "TriggerLowBattery = ''LowBattery''"
definition TriggerRuntimeBelow :: string where "TriggerRuntimeBelow = ''RuntimeBelow''"
definition TriggerChargeBelow :: string where "TriggerChargeBelow = ''ChargeBelow''"
definition TriggerTelemetryStale :: string where "TriggerTelemetryStale = ''TelemetryStale''"

lemmas trigger_names = TriggerOnBattery_def TriggerLowBattery_def TriggerRuntimeBelow_def TriggerChargeBelow_def
  TriggerTelemetryStale_def

definition CoarserTriggerForFallback :: "string \<Rightarrow> string option" where
  "CoarserTriggerForFallback t =
     (if t = TriggerRuntimeBelow \<or> t = TriggerChargeBelow then Some TriggerLowBattery else None)"

definition RequiredVariablesForTrigger :: "string \<Rightarrow> string list" where
  "RequiredVariablesForTrigger t =
     (if t = TriggerOnBattery \<or> t = TriggerLowBattery then [''ups.status'']
      else if t = TriggerRuntimeBelow then [''battery.runtime'']
      else if t = TriggerChargeBelow then [''battery.charge'']
      else if t = TriggerTelemetryStale then []
      else [''__unsupported_trigger__''])"

definition satisfiesTrigger :: "string list \<Rightarrow> string \<Rightarrow> bool" where
  "satisfiesTrigger declared t \<longleftrightarrow>
     RequiredVariablesForTrigger t = [] \<or> list_all (\<lambda>v. v \<in> set declared) (RequiredVariablesForTrigger t)"

lemma satisfiesTrigger_iff: "satisfiesTrigger declared t \<longleftrightarrow> set (RequiredVariablesForTrigger t) \<subseteq> set declared"
  by (auto simp: satisfiesTrigger_def list_all_iff)

text \<open>A substitute always exists at the floor: it needs only the status every driver reports.\<close>

lemma fallback_at_floor:
  "CoarserTriggerForFallback t = Some f \<Longrightarrow> RequiredVariablesForTrigger f = [''ups.status''] \<and> CoarserTriggerForFallback f = None"
  by (auto simp: CoarserTriggerForFallback_def RequiredVariablesForTrigger_def trigger_names split: if_splits)

end
