(* ===== verification/PlannerValidate.thy ===== *)
theory PlannerValidate
  imports PlannerSchedule CapabilityTriggers
begin

text \<open>
  Structural validation of planner inputs: \<open>src/internal/planner/compiler_validation.go\<close>,
  trigger capabilities (\<open>triggers.go\<close>) and control-plane handoff (\<open>control_plane.go\<close>).

  The depth-first cycle search returns as soon as it meets a group on its stack.  It is modelled
  with fuel for the recursion depth; \<open>visit_total\<close> shows that the fuel of
  \<open>hasGroupCycle\<close> is never used up, and \<open>hasGroupCycle_iff\<close> that the search answers
  whether the ordering edges have a cycle.
\<close>

section \<open>Trigger capabilities\<close>

definition triggerTargetDevices :: "Trigger \<Rightarrow> (string, string list) gmap \<Rightarrow> string list \<Rightarrow> string list \<times> string" where
  "triggerTargetDevices t domains allDevices =
     (if tr_UPSDevices t \<noteq> [] then (sort (tr_UPSDevices t), ''the devices it names'')
      else if tr_PowerDomains t \<noteq> []
      then (sort (rev (fold (\<lambda>device seen. if device \<in> set seen then seen else device # seen)
              (concat (map (gm_list domains) (tr_PowerDomains t))) [])),
            ''power domain '' @ join '', '' (sort (tr_PowerDomains t)))
      else (allDevices, ''any power domain''))"

definition coversVariables :: "string list \<Rightarrow> string list \<Rightarrow> bool" where
  "coversVariables declared required = list_all (\<lambda>v. v \<in> set declared) required"

definition variableList :: "string list \<Rightarrow> string" where
  "variableList variables = (case variables of [v] \<Rightarrow> v | _ \<Rightarrow> join '' and '' variables)"

definition fallbackHint :: "string option \<Rightarrow> string" where
  "fallbackHint suggested =
     (case suggested of None \<Rightarrow> [] | Some s \<Rightarrow> ''. Declaring fallbackType: '' @ s @ '' would cover them'')"

definition coarserAdvice :: "string option \<Rightarrow> string \<Rightarrow> string" where
  "coarserAdvice suggested triggerType =
     (case suggested of
        None \<Rightarrow> quote triggerType @
          '' already needs only the telemetry every device reports, so no coarser class exists and fallbackType must be unset''
      | Some s \<Rightarrow> ''the only coarser class is '' @ quote s)"

definition uncovered :: "(string, string list) gmap \<Rightarrow> string list \<Rightarrow> string list \<Rightarrow> string list" where
  "uncovered declared required devices =
     filter (\<lambda>d. case map_of declared d of None \<Rightarrow> False | Some variables \<Rightarrow> \<not> coversVariables variables required) devices"

definition evaluateTriggerFallback ::
    "Trigger \<Rightarrow> string list \<Rightarrow> string \<Rightarrow> string list \<Rightarrow> (string, string list) gmap \<Rightarrow> bool \<Rightarrow> Diagnostic list" where
  "evaluateTriggerFallback t unsupported scope required declared everyDevice =
     (let devices = join '', '' unsupported; suggested = CoarserTriggerForFallback (tr_Type t) in
      if tr_FallbackType t = '''' then
        if everyDevice then [diag DiagnosticError ''TriggerUnsupportedByAllDevices'' (tr_Type t)
          (''trigger '' @ quote (tr_Type t) @ '' requires NUT '' @ variableList required @ '', which no device in '' @ scope @
           '' declares ('' @ devices @ ''); this plan can never fire'' @ fallbackHint suggested)]
        else [diag DiagnosticWarning ''TriggerDegradedByDeviceCapability'' (tr_Type t)
          (''trigger '' @ quote (tr_Type t) @ '' requires NUT '' @ variableList required @ '', which '' @ devices @ '' in '' @ scope @
           '' does not declare; the trigger still fires for the remaining devices and this plan is degraded for those it cannot cover'' @
           fallbackHint suggested)]
      else case suggested of
        None \<Rightarrow> [diag DiagnosticError ''TriggerFallbackNotCoarser'' (tr_Type t)
          (''trigger '' @ quote (tr_Type t) @ '' declares fallback '' @ quote (tr_FallbackType t) @
           '', which is not a coarser class for it; '' @ coarserAdvice suggested (tr_Type t))]
      | Some s \<Rightarrow>
          if tr_FallbackType t \<noteq> s then [diag DiagnosticError ''TriggerFallbackNotCoarser'' (tr_Type t)
            (''trigger '' @ quote (tr_Type t) @ '' declares fallback '' @ quote (tr_FallbackType t) @
             '', which is not a coarser class for it; '' @ coarserAdvice suggested (tr_Type t))]
          else
            let fallbackRequired = RequiredVariablesForTrigger s;
                stillUncovered = uncovered declared fallbackRequired unsupported
            in if stillUncovered \<noteq> [] then [diag DiagnosticError ''TriggerFallbackUnsatisfiable'' (tr_Type t)
                 (''trigger '' @ quote (tr_Type t) @ '' declares fallback '' @ quote (tr_FallbackType t) @ '', which requires NUT '' @
                  variableList fallbackRequired @ '' that '' @ join '', '' (sort stillUncovered) @
                  '' still does not declare; the fallback covers nothing for those devices'')]
               else [diag DiagnosticInfo ''TriggerSubstituted'' (tr_Type t)
                 (''trigger '' @ quote (tr_Type t) @ '' cannot be satisfied by '' @ devices @ '' in '' @ scope @
                  '', so the declared fallback '' @ quote (tr_FallbackType t) @ '' applies to those devices; they act on '' @
                  variableList fallbackRequired @ '' rather than '' @ variableList required)])"

definition declaredVariables :: "DeviceCapability list \<Rightarrow> (string, string list) gmap" where
  "declaredVariables devices =
     fold (\<lambda>d. gm_put (dc_DeviceID d) (dc_TelemetryVariables d)) (filter (\<lambda>d. dc_DeviceID d \<noteq> '''') devices) []"

definition validateTrigger ::
    "(string, string list) gmap \<Rightarrow> (string, string list) gmap \<Rightarrow> string list \<Rightarrow> Trigger \<Rightarrow> Diagnostic list" where
  "validateTrigger declared domains allDevices t =
     (case triggerTargetDevices t domains allDevices of (targets, scope) \<Rightarrow>
        let required = RequiredVariablesForTrigger (tr_Type t); unsupported = uncovered declared required targets in
        if targets = [] \<or> required = [] \<or> unsupported = [] then []
        else evaluateTriggerFallback t (sort unsupported) scope required declared (length unsupported = length targets))"

definition validateTriggerCapabilities :: "StructuralInputs \<Rightarrow> Diagnostic list" where
  "validateTriggerCapabilities inp =
     (if si_DeviceCapabilities inp = [] \<or> si_Triggers inp = [] then []
      else
        let declared = declaredVariables (si_DeviceCapabilities inp);
            allDevices = sort (filter (\<lambda>i. i \<noteq> '''') (map dc_DeviceID (si_DeviceCapabilities inp)));
            domains = fold (\<lambda>d. gm_put (pm_Name d) (pm_UPSDevices d)) (si_PowerDomains inp) []
        in concat (map (validateTrigger declared domains allDevices) (si_Triggers inp)))"

section \<open>The cycle search\<close>

fun visit :: "nat \<Rightarrow> (string, string list) gmap \<Rightarrow> string \<Rightarrow> string set \<times> string set \<Rightarrow> (bool \<times> string set \<times> string set) option"
  and visits :: "nat \<Rightarrow> (string, string list) gmap \<Rightarrow> string list \<Rightarrow> string set \<times> string set \<Rightarrow> (bool \<times> string set \<times> string set) option" where
  "visit 0 edges v st = None"
| "visit (Suc n) edges v st =
     (if v \<in> fst st then Some (True, st)
      else if v \<in> snd st then Some (False, st)
      else case visits n edges (gm_list edges v) (insert v (fst st), snd st) of
             None \<Rightarrow> None
           | Some (found, st') \<Rightarrow>
               if found then Some (True, st') else Some (False, fst st' - {v}, insert v (snd st')))"
| "visits n edges [] st = Some (False, st)"
| "visits n edges (x # xs) st =
     (case visit n edges x st of
        None \<Rightarrow> None
      | Some (found, st') \<Rightarrow> if found then Some (True, st') else visits n edges xs st')"

definition visit_fuel :: "(string, string list) gmap \<Rightarrow> nat" where
  "visit_fuel edges = length (concat (map snd edges)) + 2"

definition hasGroupCycle :: "communicationIndex \<Rightarrow> StructuralInputs \<Rightarrow> bool" where
  "hasGroupCycle index inp =
     (let edges = graphSuccessors (buildGroupGraphForInputs index inp) in
      case visits (visit_fuel edges) edges (map g_Name (si_Groups inp)) ({}, {}) of
        None \<Rightarrow> False
      | Some (found, _) \<Rightarrow> found)"

section \<open>Structural validation\<close>

definition reportOnce :: "string \<Rightarrow> Diagnostic \<Rightarrow> string set \<times> string set \<times> Diagnostic list \<Rightarrow> string set \<times> string set \<times> Diagnostic list" where
  "reportOnce name d acc =
     (case acc of (seen, reported, ds) \<Rightarrow>
        if name \<in> seen \<and> name \<notin> reported then (insert name seen, insert name reported, ds @ [d])
        else (insert name seen, reported, ds))"

definition validateStep :: "Step \<Rightarrow> string set \<times> string set \<times> Diagnostic list \<Rightarrow> string set \<times> string set \<times> Diagnostic list" where
  "validateStep s acc =
     (case acc of (seen, reported, ds) \<Rightarrow>
        let ds1 = ds @ (if st_ContinueOnError s then [diag DiagnosticError ''ContinueOnErrorUnsupported'' (st_ID s)
              ''v1 stops after action failure; continueOnError must be false''] else [])
        in if st_ID s = '''' then (seen, reported, ds1 @ [diag DiagnosticError ''StepIDRequired'' '''' ''every shutdown step requires an id''])
           else reportOnce (st_ID s) (diag DiagnosticError ''DuplicateStepID'' (st_ID s)
                  (''shutdown step id '' @ quote (st_ID s) @ '' is duplicated'')) (seen, reported, ds1))"

definition validateGroupName :: "Group \<Rightarrow> string set \<times> string set \<times> Diagnostic list \<Rightarrow> string set \<times> string set \<times> Diagnostic list" where
  "validateGroupName g acc =
     (case acc of (seen, reported, ds) \<Rightarrow>
        if g_Name g = '''' then (seen, reported, ds @ [diag DiagnosticError ''GroupNameRequired'' '''' ''every shutdown group requires a name''])
        else reportOnce (g_Name g) (diag DiagnosticError ''DuplicateGroupName'' (g_Name g)
               (''shutdown group name '' @ quote (g_Name g) @ '' is duplicated'')) acc)"

definition unknownDependencies :: "string set \<Rightarrow> Group \<Rightarrow> Diagnostic list" where
  "unknownDependencies groupNames g =
     map (\<lambda>d. diag DiagnosticError ''UnknownDependency'' (g_Name g)
            (''shutdown group '' @ quote (g_Name g) @ '' references unknown dependency '' @ quote d))
       (filter (\<lambda>d. d \<notin> groupNames) (g_Requires g @ g_Before g @ g_After g))"

definition validateStructuralInputs :: "communicationIndex \<Rightarrow> StructuralInputs \<Rightarrow> Diagnostic list" where
  "validateStructuralInputs index inp =
     (case (fold validateStep (si_Steps inp) ({}, {}, []), fold validateGroupName (si_Groups inp) ({}, {}, [])) of
        ((_, _, stepDiagnostics), (groupNames, _, nameDiagnostics)) \<Rightarrow>
          (if si_AbortBehavior inp \<noteq> '''' \<and> si_AbortBehavior inp \<noteq> ''HaltAndSurface''
           then [diag DiagnosticError ''AbortBehaviorUnsupported'' '''' ''v1 supports only HaltAndSurface abort behavior''] else []) @
          (if si_AbortNotify inp
           then [diag DiagnosticError ''AbortNotifyUnsupported'' '''' ''abort-only notifications are unsupported; set abortPolicy.notify to false''] else []) @
          validateTierPolicy (si_TierPolicy inp) @
          validateTriggerCapabilities inp @
          (if si_Triggers inp = []
           then [diag DiagnosticError ''TriggersRequired'' '''' ''at least one trigger definition is required''] else []) @
          (if si_Groups inp = [] \<and> si_Steps inp = []
           then [diag DiagnosticError ''PlanRequired'' '''' ''groups or steps require at least one shutdown action''] else []) @
          (if si_Groups inp \<noteq> [] \<and> si_Steps inp \<noteq> []
           then [diag DiagnosticWarning ''GroupsPreferred'' '''' ''groups are present, so linear steps are ignored''] else []) @
          stepDiagnostics @ nameDiagnostics @
          validateGroupShutdownTiers (si_Groups inp) @
          reportDefaultedShutdownTiers inp @
          validateTierInversion inp @
          concat (map (unknownDependencies groupNames) (si_Groups inp)) @
          (if hasGroupCycle index inp
           then [diag DiagnosticError ''DependencyCycle'' '''' ''shutdown groups contain a dependency cycle''] else []))"

section \<open>Control-plane handoff\<close>

definition terminalChannelDiagnostics :: "StructuralInputs \<Rightarrow> string \<Rightarrow> Diagnostic list" where
  "terminalChannelDiagnostics inp name =
     (let counts = (if si_Groups inp = []
                    then fold (\<lambda>s. gm_put (st_ID s) (ta_AgentRefCount (st_Target s))) (si_Steps inp) []
                    else fold (\<lambda>g. gm_put (g_Name g) (ta_AgentRefCount (g_Target g))) (si_Groups inp) [])
      in if gm_int counts name > 1 then [diag DiagnosticError ''TerminalControlPlaneMultipleChannels'' name
           ''terminal control-plane handoff requires one NodePowerAgent so every signal can be published in one Secret update'']
         else [])"

definition controlPlaneLateDiagnostics :: "StructuralInputs \<Rightarrow> (string, string list) gmap \<Rightarrow> string set \<Rightarrow> Diagnostic list" where
  "controlPlaneLateDiagnostics inp releases members =
     map (\<lambda>g. diag DiagnosticWarning ''ControlPlaneLateDependencyMissing'' (g_Name g)
            ''control-plane release should declare explicit late dependencies, not rely only on its tier'')
       (filter (\<lambda>g. list_ex (\<lambda>n. n \<in> members) (gm_list releases (g_Name g)) \<and>
          \<not> (g_Requires g \<noteq> [] \<or> g_After g \<noteq> [] \<or> list_ex (\<lambda>p. g_Name g \<in> set (g_Before p)) (si_Groups inp)))
         (si_Groups inp))"

definition releasedMembers :: "(string, string list) gmap \<Rightarrow> string set \<Rightarrow> string list \<Rightarrow> string set" where
  "releasedMembers releases members names = set (concat (map (gm_list releases) names)) \<inter> members"

fun handoff_loop :: "StructuralInputs \<Rightarrow> (string, string list) gmap \<Rightarrow> (string, bool) gmap \<Rightarrow> int \<Rightarrow> nat \<Rightarrow> string set
    \<Rightarrow> string list list \<Rightarrow> Diagnostic list" where
  "handoff_loop inp releases members quorum wi released [] = []"
| "handoff_loop inp releases members quorum wi released (names # ws) =
     (let inMembers = set (gm_keys members);
          released' = released \<union> releasedMembers releases inMembers names;
          remaining = int (length members) - int (card released');
          voters = quorum - int (card {n \<in> released'. map_of members n = Some True});
          terminal = (ws = [] \<and> length names = 1);
          channel = (if terminal \<and> releasedMembers releases inMembers [hd names] \<noteq> {}
                     then terminalChannelDiagnostics inp (hd names) else [])
      in if \<not> terminal \<and> released' \<noteq> {} \<and> length members > 1 \<and> quorum = 0
         then channel @ [diag DiagnosticError ''ControlPlaneQuorumUnknown'' ''''
           ''declare control-plane quorum members before releasing an HA control-plane node ahead of terminal handoff'']
         else if \<not> terminal \<and> (remaining = 0 \<or> (quorum > 0 \<and> voters < quorum div 2 + 1))
         then channel @ [diag DiagnosticError ''ControlPlaneQuorumLost'' ''''
           (''wave '' @ show_int (int wi) @ '' leaves '' @ show_int remaining @ '' control-plane nodes and '' @ show_int voters @
            '' quorum members before orchestration completes'')]
         else channel @ handoff_loop inp releases members quorum (Suc wi) released' ws)"

definition controlPlaneMembers :: "StructuralInputs \<Rightarrow> (string, bool) gmap" where
  "controlPlaneMembers inp = fold (\<lambda>n. gm_put (cp_Name n) (cp_QuorumMember n)) (si_ControlPlaneNodes inp) []"

definition controlPlaneReleases :: "StructuralInputs \<Rightarrow> (string, string list) gmap" where
  "controlPlaneReleases inp = fold (\<lambda>e. gm_put (gn_Group e) (gn_Releases e)) (si_GroupNodes inp) []"

definition controlPlaneWaves :: "Plan \<Rightarrow> string list list" where
  "controlPlaneWaves plan =
     (if pl_Waves plan = [] then map (\<lambda>s. [cst_ID s]) (pl_Steps plan) else map w_Groups (pl_Waves plan))"

definition controlPlaneDiagnostics :: "StructuralInputs \<Rightarrow> Plan \<Rightarrow> Diagnostic list" where
  "controlPlaneDiagnostics inp plan =
     (if si_ControlPlaneNodes inp = [] then []
      else if \<not> distinct (map cp_Name (si_ControlPlaneNodes inp)) \<or> '''' \<in> set (map cp_Name (si_ControlPlaneNodes inp))
      then [diag DiagnosticError ''ControlPlaneMembershipInvalid'' '''' ''control-plane membership requires unique nonempty node names'']
      else
        let members = controlPlaneMembers inp; releases = controlPlaneReleases inp
        in handoff_loop inp releases members (int (length (filter snd members))) 0 {} (controlPlaneWaves plan) @
           controlPlaneLateDiagnostics inp releases (set (gm_keys members)))"

section \<open>The cycle search decides acyclicity\<close>

definition settled :: "(string, string list) gmap \<Rightarrow> string set \<times> string set \<Rightarrow> bool" where
  "settled edges st \<longleftrightarrow> closed_under (gm_list edges) (snd st) \<and> cycle_free_on (gm_list edges) (snd st) \<and> fst st \<inter> snd st = {}"

lemma visit_frame:
  "visit n edges v st = Some (False, st') \<Longrightarrow> fst st' = fst st \<and> snd st \<subseteq> snd st'"
  "visits n edges vs st = Some (False, st') \<Longrightarrow> fst st' = fst st \<and> snd st \<subseteq> snd st'"
proof (induction n edges v st and n edges vs st arbitrary: st' and st' rule: visit_visits.induct)
  case (2 n edges v st)
  show ?case
  proof (cases "v \<in> fst st \<or> v \<in> snd st")
    case True
    then show ?thesis using 2(2) by (auto split: if_splits)
  next
    case False
    then obtain st1 where w: "visits n edges (gm_list edges v) (insert v (fst st), snd st) = Some (False, st1)"
      and st': "st' = (fst st1 - {v}, insert v (snd st1))"
      using 2(2) by (auto split: option.splits if_splits)
    have "fst st1 = insert v (fst st) \<and> snd st \<subseteq> snd st1" using 2(1) [OF _ _ w] False by simp
    then show ?thesis using st' False by auto
  qed
next
  case (4 n edges x xs st)
  then obtain st1 where a: "visit n edges x st = Some (False, st1)" and b: "visits n edges xs st1 = Some (False, st')"
    by (auto split: option.splits if_splits)
  show ?case using 4(1) [OF a] 4(2) [OF a refl _ b] by auto
qed auto

lemma settled_leave:
  assumes "settled edges st" and "v \<in> fst st" and "set (gm_list edges v) \<subseteq> snd st"
  shows "settled edges (fst st - {v}, insert v (snd st))"
proof -
  have "v \<notin> snd st" using assms(1,2) by (auto simp: settled_def)
  then show ?thesis using assms by (auto simp: settled_def intro: closed_under_insert cycle_free_on_insert)
qed

lemma visit_settles:
  "visit n edges v st = Some (False, st') \<Longrightarrow> settled edges st \<Longrightarrow> settled edges st' \<and> v \<in> snd st'"
  "visits n edges vs st = Some (False, st') \<Longrightarrow> settled edges st \<Longrightarrow> settled edges st' \<and> set vs \<subseteq> snd st'"
proof (induction n edges v st and n edges vs st arbitrary: st' and st' rule: visit_visits.induct)
  case (2 n edges v st)
  show ?case
  proof (cases "v \<in> fst st \<or> v \<in> snd st")
    case True
    then show ?thesis using 2(2,3) by (auto split: if_splits)
  next
    case False
    then obtain st1 where w: "visits n edges (gm_list edges v) (insert v (fst st), snd st) = Some (False, st1)"
      and st': "st' = (fst st1 - {v}, insert v (snd st1))"
      using 2(2) by (auto split: option.splits if_splits)
    have "settled edges (insert v (fst st), snd st)" using 2(3) False by (auto simp: settled_def)
    then have "settled edges st1 \<and> set (gm_list edges v) \<subseteq> snd st1" using 2(1) [OF _ _ w] False by simp
    moreover have "v \<in> fst st1" using visit_frame(2) [OF w] by simp
    ultimately show ?thesis using settled_leave [of edges st1 v] st' by simp
  qed
next
  case (4 n edges x xs st)
  then obtain st1 where a: "visit n edges x st = Some (False, st1)" and b: "visits n edges xs st1 = Some (False, st')"
    by (auto split: option.splits if_splits)
  show ?case using 4(1) [OF a 4(4)] 4(2) [OF a refl _ b] visit_frame(2) [OF b] by auto
qed auto

lemma visit_found:
  "visit n edges v st = Some (True, st') \<Longrightarrow> \<forall>u \<in> fst st. (u, v) \<in> (succ_rel (gm_list edges))\<^sup>+ \<Longrightarrow>
     \<not> acyclic (succ_rel (gm_list edges))"
  "visits n edges vs st = Some (True, st') \<Longrightarrow> \<forall>v \<in> set vs. \<forall>u \<in> fst st. (u, v) \<in> (succ_rel (gm_list edges))\<^sup>+ \<Longrightarrow>
     \<not> acyclic (succ_rel (gm_list edges))"
proof (induction n edges v st and n edges vs st arbitrary: st' and st' rule: visit_visits.induct)
  case (2 n edges v st)
  let ?R = "succ_rel (gm_list edges)"
  show ?case
  proof (cases "v \<in> fst st \<or> v \<in> snd st")
    case True
    then have "v \<in> fst st" using 2(2) by (auto split: if_splits)
    then have "(v, v) \<in> ?R\<^sup>+" using 2(3) by blast
    then show ?thesis unfolding acyclic_def by blast
  next
    case False
    then have w: "visits n edges (gm_list edges v) (insert v (fst st), snd st) = Some (True, st')"
      using 2(2) by (auto split: option.splits if_splits)
    have "(u, y) \<in> ?R\<^sup>+" if y: "y \<in> set (gm_list edges v)" and u: "u \<in> insert v (fst st)" for y u
    proof -
      have vy: "(v, y) \<in> ?R" using y by simp
      show ?thesis
      proof (cases "u = v")
        case True
        then show ?thesis using vy by (metis r_into_trancl)
      next
        case False
        then have "(u, v) \<in> ?R\<^sup>+" using u 2(3) by blast
        then show ?thesis using vy by (rule trancl_into_trancl)
      qed
    qed
    then show ?thesis using 2(1) [OF _ _ w] False by simp
  qed
next
  case (4 n edges x xs st)
  obtain found st1 where a: "visit n edges x st = Some (found, st1)" using 4(3) by (auto split: option.splits)
  show ?case
  proof (cases found)
    case True
    then show ?thesis using 4(1) a 4(4) by simp
  next
    case False
    then have b: "visits n edges xs st1 = Some (True, st')" using 4(3) a by simp
    have "fst st1 = fst st" using visit_frame(1) a False by simp
    then show ?thesis using 4(2) [OF _ refl _ b] a False 4(4) by simp
  qed
qed auto

lemma visit_total:
  "card (insert v (all_dependents edges) - fst st) < n \<Longrightarrow> visit n edges v st \<noteq> None"
  "(\<forall>v \<in> set vs. card (insert v (all_dependents edges) - fst st) < n) \<Longrightarrow> visits n edges vs st \<noteq> None"
proof (induction n edges v st and n edges vs st rule: visit_visits.induct)
  case (2 n edges v st)
  show ?case
  proof (cases "v \<in> fst st \<or> v \<in> snd st")
    case False
    have "card (insert w (all_dependents edges) - insert v (fst st)) < n" if "w \<in> set (gm_list edges v)" for w
    proof -
      have "card (insert w (all_dependents edges) - insert v (fst st)) \<le> card (insert v (all_dependents edges) - insert v (fst st))"
        using dependents_graph.fresh_succ [OF that] by (intro card_mono) (simp_all add: dependents_graph.finite_V)
      then show ?thesis using dependents_graph.fresh_decreases [of v "fst st" edges] False 2(2) by simp
    qed
    then obtain r where "visits n edges (gm_list edges v) (insert v (fst st), snd st) = Some r"
      using 2(1) False by (fastforce simp: not_None_eq)
    then show ?thesis using False by (cases r) (auto split: if_splits)
  qed auto
next
  case (4 n edges x xs st)
  then obtain found st1 where a: "visit n edges x st = Some (found, st1)" by auto
  show ?case
  proof (cases found)
    case False
    then have "fst st1 = fst st" using visit_frame(1) a by simp
    then show ?thesis using 4(2) [OF a refl] 4(3) a False by simp
  qed (use a in simp)
qed auto

lemma visit_fuel_enough: "card (insert v (all_dependents edges) - S) < visit_fuel edges"
proof -
  have "card (insert v (all_dependents edges) - S) \<le> card (insert v (all_dependents edges))"
    by (intro card_mono) (simp_all add: dependents_graph.finite_V)
  also have "\<dots> \<le> Suc (card (all_dependents edges))" by (simp add: card_insert_if dependents_graph.finite_V)
  also have "\<dots> \<le> Suc (length (concat (map snd edges)))" unfolding all_dependents_def by (simp only: Suc_le_mono card_length)
  finally show ?thesis by (simp add: visit_fuel_def)
qed

lemma visits_acyclic:
  assumes "fst ` edge_rel (gr_Edges g) \<subseteq> set names"
  shows "\<exists>found st. visits (visit_fuel (graphSuccessors g)) (graphSuccessors g) names ({}, {}) = Some (found, st) \<and>
    (found \<longleftrightarrow> \<not> acyclic (edge_rel (gr_Edges g)))"
proof -
  let ?edges = "graphSuccessors g"
  have R: "succ_rel (gm_list ?edges) = edge_rel (gr_Edges g)" by (auto simp: succ_rel_def set_graphSuccessors)
  obtain found st where w: "visits (visit_fuel ?edges) ?edges names ({}, {}) = Some (found, st)"
    using visit_total(2) [of names ?edges "({}, {})"] visit_fuel_enough by (metis fst_conv not_None_eq prod.collapse)
  show ?thesis
  proof (cases found)
    case True
    then have "\<not> acyclic (edge_rel (gr_Edges g))" using visit_found(2) w R by fastforce
    with True w show ?thesis by blast
  next
    case False
    have "settled ?edges ({}, {})" by (simp add: settled_def)
    then have s: "settled ?edges st" "set names \<subseteq> snd st" using visit_settles(2) w False by auto
    have "edge_rel (gr_Edges g) \<subseteq> succ_rel (gm_list ?edges) \<inter> snd st \<times> snd st"
    proof (rule subrelI)
      fix u v assume e: "(u, v) \<in> edge_rel (gr_Edges g)"
      then have "u \<in> snd st" using assms s(2) by force
      moreover from this have "v \<in> snd st" using s(1) e by (auto simp: settled_def closed_under_def set_graphSuccessors)
      ultimately show "(u, v) \<in> succ_rel (gm_list ?edges) \<inter> snd st \<times> snd st" using e R by blast
    qed
    moreover have "acyclic (succ_rel (gm_list ?edges) \<inter> snd st \<times> snd st)" using s(1) by (simp add: settled_def cycle_free_on_def)
    ultimately have "acyclic (edge_rel (gr_Edges g))" by (rule acyclic_subset [rotated])
    with False w show ?thesis by blast
  qed
qed

lemma hasGroupCycle_iff:
  assumes "fst ` edge_rel (gr_Edges (buildGroupGraphForInputs index inp)) \<subseteq> g_Name ` set (si_Groups inp)"
  shows "hasGroupCycle index inp \<longleftrightarrow> \<not> acyclic (edge_rel (gr_Edges (buildGroupGraphForInputs index inp)))"
  using visits_acyclic [of "buildGroupGraphForInputs index inp" "map g_Name (si_Groups inp)"] assms
  by (auto simp: hasGroupCycle_def Let_def)

section \<open>What validation accepts\<close>

lemma reportOnce_eq:
  "reportOnce name d (seen, reported, ds) =
     (insert name seen, if name \<in> seen \<and> name \<notin> reported then insert name reported else reported,
      if name \<in> seen \<and> name \<notin> reported then ds @ [d] else ds)"
  by (simp add: reportOnce_def)

lemma validateGroupName_eq:
  "g_Name g = '''' \<Longrightarrow> validateGroupName g (seen, reported, ds) =
     (seen, reported, ds @ [diag DiagnosticError ''GroupNameRequired'' '''' ''every shutdown group requires a name''])"
  "g_Name g \<noteq> '''' \<Longrightarrow> validateGroupName g acc = reportOnce (g_Name g) (diag DiagnosticError ''DuplicateGroupName'' (g_Name g)
     (''shutdown group name '' @ quote (g_Name g) @ '' is duplicated'')) acc"
  by (simp_all add: validateGroupName_def split: prod.splits)

definition stepReports :: "Step \<Rightarrow> Diagnostic list" where
  "stepReports s = (if st_ContinueOnError s then [diag DiagnosticError ''ContinueOnErrorUnsupported'' (st_ID s)
      ''v1 stops after action failure; continueOnError must be false''] else [])"

lemma validateStep_eq:
  "st_ID s = '''' \<Longrightarrow> validateStep s (seen, reported, ds) =
     (seen, reported, (ds @ stepReports s) @ [diag DiagnosticError ''StepIDRequired'' '''' ''every shutdown step requires an id''])"
  "st_ID s \<noteq> '''' \<Longrightarrow> validateStep s (seen, reported, ds) =
     reportOnce (st_ID s) (diag DiagnosticError ''DuplicateStepID'' (st_ID s)
       (''shutdown step id '' @ quote (st_ID s) @ '' is duplicated'')) (seen, reported, ds @ stepReports s)"
  by (simp_all add: validateStep_def stepReports_def)

text \<open>Names are reported when they are empty or seen before; an earlier report is already an error.\<close>

lemma validateGroupName_fold:
  assumes "fold validateGroupName gs (seen, reported, ds) = (seen', reported', ds')" and "reported \<noteq> {} \<Longrightarrow> hasError ds"
  shows "seen' = seen \<union> (g_Name ` set gs - {''''}) \<and>
    (\<not> hasError ds' \<longleftrightarrow> \<not> hasError ds \<and> '''' \<notin> g_Name ` set gs \<and> distinct (map g_Name gs) \<and> g_Name ` set gs \<inter> seen = {})"
  using assms
proof (induction gs arbitrary: seen reported ds)
  case (Cons g gs)
  show ?case
  proof (cases "g_Name g = ''''")
    case True
    let ?ds = "ds @ [diag DiagnosticError ''GroupNameRequired'' '''' ''every shutdown group requires a name'']"
    have "fold validateGroupName gs (seen, reported, ?ds) = (seen', reported', ds')"
      using Cons.prems(1) True by (simp only: fold_simps validateGroupName_eq)
    from Cons.IH [OF this] show ?thesis using True by auto
  next
    case False
    let ?d = "diag DiagnosticError ''DuplicateGroupName'' (g_Name g) (''shutdown group name '' @ quote (g_Name g) @ '' is duplicated'')"
    let ?new = "g_Name g \<in> seen \<and> g_Name g \<notin> reported"
    have f: "fold validateGroupName gs (insert (g_Name g) seen, if ?new then insert (g_Name g) reported else reported,
        if ?new then ds @ [?d] else ds) = (seen', reported', ds')"
      using Cons.prems(1) False by (simp only: fold_simps validateGroupName_eq(2) reportOnce_eq not_False_eq_True)
    have "hasError (if ?new then ds @ [?d] else ds) \<longleftrightarrow> hasError ds \<or> g_Name g \<in> seen"
      using Cons.prems(2) by auto
    with Cons.IH [OF f] Cons.prems(2) False show ?thesis by (auto split: if_splits)
  qed
qed auto

lemma validateStep_fold:
  assumes "fold validateStep ss (seen, reported, ds) = (seen', reported', ds')" and "reported \<noteq> {} \<Longrightarrow> hasError ds"
  shows "\<not> hasError ds' \<longleftrightarrow> \<not> hasError ds \<and> (\<forall>s \<in> set ss. \<not> st_ContinueOnError s) \<and> '''' \<notin> st_ID ` set ss \<and>
    distinct (map st_ID ss) \<and> st_ID ` set ss \<inter> seen = {}"
  using assms
proof (induction ss arbitrary: seen reported ds)
  case (Cons s ss)
  let ?ds = "ds @ stepReports s"
  have cont: "hasError ?ds \<longleftrightarrow> hasError ds \<or> st_ContinueOnError s" by (simp add: stepReports_def)
  show ?case
  proof (cases "st_ID s = ''''")
    case True
    let ?ds' = "?ds @ [diag DiagnosticError ''StepIDRequired'' '''' ''every shutdown step requires an id'']"
    have "fold validateStep ss (seen, reported, ?ds') = (seen', reported', ds')"
      using Cons.prems(1) True by (simp only: fold_simps validateStep_eq)
    from Cons.IH [OF this] show ?thesis using True by simp
  next
    case False
    let ?d = "diag DiagnosticError ''DuplicateStepID'' (st_ID s) (''shutdown step id '' @ quote (st_ID s) @ '' is duplicated'')"
    let ?new = "st_ID s \<in> seen \<and> st_ID s \<notin> reported"
    have f: "fold validateStep ss (insert (st_ID s) seen, if ?new then insert (st_ID s) reported else reported,
        if ?new then ?ds @ [?d] else ?ds) = (seen', reported', ds')"
      using Cons.prems(1) False by (simp only: fold_simps validateStep_eq(2) reportOnce_eq not_False_eq_True)
    have "hasError (if ?new then ?ds @ [?d] else ?ds) \<longleftrightarrow> hasError ds \<or> st_ContinueOnError s \<or> st_ID s \<in> seen"
      using Cons.prems(2) cont by auto
    with Cons.IH [OF f] Cons.prems(2) False show ?thesis by (auto split: if_splits)
  qed
qed auto

lemma unknownDependencies_ok:
  "hasError (concat (map (unknownDependencies names) gs)) \<longleftrightarrow>
     \<not> (\<forall>g \<in> set gs. set (g_Requires g) \<union> set (g_Before g) \<union> set (g_After g) \<subseteq> names)"
  unfolding unknownDependencies_def hasError_concat by (simp only: set_map bex_simps hasError_map diag_sel set_filter set_append) auto

lemma declared_known:
  "(\<forall>g \<in> set gs. set (g_Requires g) \<union> set (g_Before g) \<union> set (g_After g) \<subseteq> g_Name ` set gs) \<longleftrightarrow>
     declared_order gs \<subseteq> g_Name ` set gs \<times> g_Name ` set gs"
proof
  assume "\<forall>g \<in> set gs. set (g_Requires g) \<union> set (g_Before g) \<union> set (g_After g) \<subseteq> g_Name ` set gs"
  then show "declared_order gs \<subseteq> g_Name ` set gs \<times> g_Name ` set gs" unfolding declared_order_def by blast
next
  assume sub: "declared_order gs \<subseteq> g_Name ` set gs \<times> g_Name ` set gs"
  show "\<forall>g \<in> set gs. set (g_Requires g) \<union> set (g_Before g) \<union> set (g_After g) \<subseteq> g_Name ` set gs"
  proof (intro ballI subsetI)
    fix g d assume g: "g \<in> set gs" and d: "d \<in> set (g_Requires g) \<union> set (g_Before g) \<union> set (g_After g)"
    then have "(g_Name g, d) \<in> declared_order gs \<or> (d, g_Name g) \<in> declared_order gs" unfolding declared_order_def by blast
    then show "d \<in> g_Name ` set gs" using sub by blast
  qed
qed

lemma warnings_only:
  "\<not> hasError (reportDefaultedShutdownTiers inp)" "\<not> hasError (validateTierInversion inp)"
  by (auto simp: hasError_iff reportDefaultedShutdownTiers_def validateTierInversion_def inversionDiagnostic_def split: option.splits)

lemma validateGroupShutdownTiers_ok:
  "hasError (validateGroupShutdownTiers gs) \<longleftrightarrow> \<not> (\<forall>g \<in> set gs. \<forall>t. g_ShutdownTier g = Some t \<longrightarrow> 0 < t)"
proof -
  have "hasError (validateGroupShutdownTier g) \<longleftrightarrow> (\<exists>t. g_ShutdownTier g = Some t \<and> t \<le> 0)" for g
    by (auto simp: validateGroupShutdownTier_def split: option.splits)
  then show ?thesis by (auto simp: validateGroupShutdownTiers_def hasError_concat not_less)
qed

lemma validateTierDefinitions_ok:
  "hasError (validateTierDefinitions ds seen) \<longleftrightarrow>
     \<not> ((\<forall>d \<in> set ds. 0 \<le> td_Tier d) \<and> distinct (map td_Tier ds) \<and> td_Tier ` set ds \<inter> seen = {})"
  by (induction ds seen rule: validateTierDefinitions.induct) auto

lemma validateTierRules_ok:
  "'''' \<notin> seen \<Longrightarrow> hasError (validateTierRules rs seen) \<longleftrightarrow>
     \<not> ((\<forall>r \<in> set rs. ts_Name r \<noteq> '''' \<and> 0 \<le> ts_Tier r) \<and> distinct (map ts_Name rs) \<and> ts_Name ` set rs \<inter> seen = {})"
proof (induction rs seen rule: validateTierRules.induct)
  case (2 r rs seen)
  then show ?case by (cases "ts_Name r = ''''") auto
qed simp

definition tier_policy_ok :: "TierPolicy \<Rightarrow> bool" where
  "tier_policy_ok p \<longleftrightarrow> (\<forall>t. tp_DefaultTier p = Some t \<longrightarrow> 2 \<le> t) \<and>
     (\<forall>d \<in> set (tp_Definitions p). 0 \<le> td_Tier d) \<and> distinct (map td_Tier (tp_Definitions p)) \<and>
     (\<forall>r \<in> set (tp_SelectorRules p). ts_Name r \<noteq> '''' \<and> 0 \<le> ts_Tier r) \<and> distinct (map ts_Name (tp_SelectorRules p))"

lemma validateTierPolicy_ok: "hasError (validateTierPolicy p) \<longleftrightarrow> \<not> tier_policy_ok p"
  by (auto simp: validateTierPolicy_def tier_policy_ok_def validateTierDefinitions_ok validateTierRules_ok split: option.splits)

text \<open>What a flow has to satisfy, stated on the inputs alone.\<close>

definition names_ok :: "StructuralInputs \<Rightarrow> bool" where
  "names_ok inp \<longleftrightarrow> '''' \<notin> g_Name ` set (si_Groups inp) \<and> distinct (map g_Name (si_Groups inp)) \<and>
     '''' \<notin> st_ID ` set (si_Steps inp) \<and> distinct (map st_ID (si_Steps inp)) \<and>
     declared_order (si_Groups inp) \<subseteq> g_Name ` set (si_Groups inp) \<times> g_Name ` set (si_Groups inp)"

definition policy_ok :: "StructuralInputs \<Rightarrow> bool" where
  "policy_ok inp \<longleftrightarrow> si_AbortBehavior inp \<in> {'''', ''HaltAndSurface''} \<and> \<not> si_AbortNotify inp \<and>
     (\<forall>s \<in> set (si_Steps inp). \<not> st_ContinueOnError s) \<and> tier_policy_ok (si_TierPolicy inp) \<and>
     (\<forall>g \<in> set (si_Groups inp). \<forall>t. g_ShutdownTier g = Some t \<longrightarrow> 0 < t)"

definition structural_ok :: "communicationIndex \<Rightarrow> StructuralInputs \<Rightarrow> bool" where
  "structural_ok index inp \<longleftrightarrow> si_Triggers inp \<noteq> [] \<and> (si_Groups inp \<noteq> [] \<or> si_Steps inp \<noteq> []) \<and>
     names_ok inp \<and> policy_ok inp \<and> \<not> hasError (validateTriggerCapabilities inp) \<and>
     acyclic (edge_rel (gr_Edges (buildGroupGraphForInputs index inp)))"

lemma graph_inside:
  assumes "declared_order (si_Groups inp) \<subseteq> g_Name ` set (si_Groups inp) \<times> g_Name ` set (si_Groups inp)"
  shows "edge_rel (gr_Edges (buildGroupGraphForInputs index inp)) \<subseteq> g_Name ` set (si_Groups inp) \<times> g_Name ` set (si_Groups inp)"
  using group_graph_bound [of index inp] plan_order_names [OF assms, of index] by blast

lemma validateStructuralInputs_ok: "\<not> hasError (validateStructuralInputs index inp) \<longleftrightarrow> structural_ok index inp"
proof -
  obtain s1 s2 stepDs where s: "fold validateStep (si_Steps inp) ({}, {}, []) = (s1, s2, stepDs)" by (metis prod.collapse)
  obtain names g2 nameDs where g: "fold validateGroupName (si_Groups inp) ({}, {}, []) = (names, g2, nameDs)" by (metis prod.collapse)
  let ?N = "g_Name ` set (si_Groups inp)"
  let ?deps = "\<forall>g \<in> set (si_Groups inp). set (g_Requires g) \<union> set (g_Before g) \<union> set (g_After g) \<subseteq> names"
  have steps: "\<not> hasError stepDs \<longleftrightarrow> (\<forall>s \<in> set (si_Steps inp). \<not> st_ContinueOnError s) \<and> '''' \<notin> st_ID ` set (si_Steps inp) \<and>
      distinct (map st_ID (si_Steps inp))" using validateStep_fold [OF s] by simp
  have groups: "\<not> hasError nameDs \<longleftrightarrow> '''' \<notin> ?N \<and> distinct (map g_Name (si_Groups inp))" and names: "names = ?N - {''''}"
    using validateGroupName_fold [OF g] by simp_all
  have split: "\<not> hasError (validateStructuralInputs index inp) \<longleftrightarrow>
      si_AbortBehavior inp \<in> {'''', ''HaltAndSurface''} \<and> \<not> si_AbortNotify inp \<and> tier_policy_ok (si_TierPolicy inp) \<and>
      \<not> hasError (validateTriggerCapabilities inp) \<and> si_Triggers inp \<noteq> [] \<and> (si_Groups inp \<noteq> [] \<or> si_Steps inp \<noteq> []) \<and>
      \<not> hasError stepDs \<and> \<not> hasError nameDs \<and>
      (\<forall>g \<in> set (si_Groups inp). \<forall>t. g_ShutdownTier g = Some t \<longrightarrow> 0 < t) \<and> ?deps \<and> \<not> hasGroupCycle index inp"
    unfolding validateStructuralInputs_def s g prod.case hasError_append validateTierPolicy_ok unknownDependencies_ok
      validateGroupShutdownTiers_ok using warnings_only by (auto split: if_splits)
  have deps: "?deps \<longleftrightarrow> declared_order (si_Groups inp) \<subseteq> ?N \<times> ?N" if "'''' \<notin> ?N"
    using declared_known [of "si_Groups inp"] that by (simp add: names)
  have cyc: "hasGroupCycle index inp \<longleftrightarrow> \<not> acyclic (edge_rel (gr_Edges (buildGroupGraphForInputs index inp)))"
    if "declared_order (si_Groups inp) \<subseteq> ?N \<times> ?N" using graph_inside [OF that, of index] by (intro hasGroupCycle_iff) fastforce
  show ?thesis unfolding split structural_ok_def names_ok_def policy_ok_def steps groups using deps cyc by blast
qed

section \<open>Trigger capabilities\<close>











section \<open>The control plane keeps its quorum\<close>

definition released_by :: "(string, string list) gmap \<Rightarrow> string list list \<Rightarrow> string set" where
  "released_by releases ws = (\<Union>w \<in> set ws. \<Union>n \<in> set w. set (gm_list releases n))"

definition voters :: "(string, bool) gmap \<Rightarrow> string set" where
  "voters members = {n. map_of members n = Some True}"

lemma card_keys: "gm_wf m \<Longrightarrow> card (set (gm_keys m)) = length m"
  using gm_wf_distinct [of m] distinct_card [of "gm_keys m"] by (simp add: gm_keys_def)

lemma card_voters: "gm_wf m \<Longrightarrow> length (filter snd m) = card (voters m)"
proof -
  assume wf: "gm_wf m"
  have "distinct (map fst (filter snd m))"
    using gm_wf_distinct [OF wf] unfolding gm_keys_def by (induction m) auto
  then have "card (fst ` set (filter snd m)) = length (filter snd m)" by (metis distinct_card length_map set_map)
  moreover have "fst ` set (filter snd m) = voters m"
    using gm_lookup_entry [OF wf] by (force simp: voters_def dest: map_of_SomeD)
  ultimately show ?thesis by simp
qed

lemma voters_members: "voters m \<subseteq> set (gm_keys m)" and finite_voters: "finite (voters m)"
proof -
  show "voters m \<subseteq> set (gm_keys m)" by (force simp: voters_def gm_keys_def dest: map_of_SomeD)
  then show "finite (voters m)" by (rule finite_subset) simp
qed

text \<open>What the walk over the waves guarantees at each wave that is not the terminal handoff.\<close>

definition handoff_safe :: "(string, bool) gmap \<Rightarrow> string set \<Rightarrow> bool" where
  "handoff_safe members gone \<longleftrightarrow>
     set (gm_keys members) - gone \<noteq> {} \<and>
     (voters members \<noteq> {} \<longrightarrow> card (voters members) < 2 * card (voters members - gone)) \<and>
     (voters members = {} \<and> card (set (gm_keys members)) > 1 \<longrightarrow> set (gm_keys members) \<inter> gone = {})"

lemma released_step:
  "releasedMembers releases M names = released_by releases [names] \<inter> M"
  by (auto simp: releasedMembers_def released_by_def)

lemma handoff_wave:
  assumes wf: "gm_wf members" and gone: "gone \<subseteq> set (gm_keys members)" and members: "members \<noteq> []"
    and unknown: "\<not> (gone \<noteq> {} \<and> length members > 1 \<and> int (length (filter snd members)) = 0)"
    and lost: "\<not> (int (length members) - int (card gone) = 0 \<or> (int (length (filter snd members)) > 0 \<and>
      int (length (filter snd members)) - int (card {n \<in> gone. map_of members n = Some True}) < int (length (filter snd members)) div 2 + 1))"
  shows "handoff_safe members gone"
proof -
  let ?M = "set (gm_keys members)" and ?V = "voters members"
  have fin: "finite gone" using gone by (rule finite_subset) simp
  have "card gone \<noteq> card ?M" using lost card_keys [OF wf] by simp
  then have left: "?M - gone \<noteq> {}" using gone by auto
  have "{n \<in> gone. map_of members n = Some True} = ?V \<inter> gone" by (auto simp: voters_def)
  then have "card (?V - gone) = card ?V - card {n \<in> gone. map_of members n = Some True}"
    by (simp add: card_Diff_subset_Int fin)
  moreover have "card {n \<in> gone. map_of members n = Some True} \<le> card ?V"
    by (rule card_mono [OF finite_voters]) (auto simp: voters_def)
  ultimately have "card ?V < 2 * card (?V - gone)" if "?V \<noteq> {}"
    using lost that finite_voters [of members] by (simp add: card_voters [OF wf] card_gt_0_iff) linarith
  moreover have "?M \<inter> gone = {}" if "?V = {}" "card ?M > 1"
    using unknown that gone card_voters [OF wf] card_keys [OF wf] by auto
  ultimately show ?thesis using left by (simp add: handoff_safe_def)
qed

lemma handoff_loop_safe:
  assumes "\<not> hasError (handoff_loop inp releases members (int (length (filter snd members))) wi gone ws)"
    and wf: "gm_wf members" and "members \<noteq> []" and "gone \<subseteq> set (gm_keys members)"
    and "i < length ws" and "\<not> (Suc i = length ws \<and> length (ws ! i) = 1)"
  shows "handoff_safe members (gone \<union> released_by releases (take (Suc i) ws) \<inter> set (gm_keys members))"
  using assms(1,4-6)
proof (induction ws arbitrary: wi gone i)
  case (Cons names ws)
  let ?M = "set (gm_keys members)" and ?q = "int (length (filter snd members))"
  let ?gone = "gone \<union> releasedMembers releases ?M names"
  have sub: "?gone \<subseteq> ?M" using Cons.prems(2) by (auto simp: releasedMembers_def)
  let ?terminal = "ws = [] \<and> length names = 1"
  have ok: "\<not> (\<not> ?terminal \<and> ?gone \<noteq> {} \<and> length members > 1 \<and> ?q = 0)"
    "\<not> (\<not> ?terminal \<and> (int (length members) - int (card ?gone) = 0 \<or>
        (?q > 0 \<and> ?q - int (card {n \<in> ?gone. map_of members n = Some True}) < ?q div 2 + 1)))"
    "\<not> hasError (handoff_loop inp releases members ?q (Suc wi) ?gone ws)"
    using Cons.prems(1) by (simp_all only: handoff_loop.simps Let_def hasError_append hasError_Cons diag_sel split: if_splits) auto
  show ?case
  proof (cases i)
    case 0
    then have "\<not> ?terminal" using Cons.prems(4) by auto
    then have "handoff_safe members ?gone" using ok(1,2) by (intro handoff_wave [OF wf sub assms(3)]) blast+
    then show ?thesis using 0 by (simp add: released_step)
  next
    case (Suc k)
    then have "handoff_safe members (?gone \<union> released_by releases (take (Suc k) ws) \<inter> ?M)"
      using Cons.IH [OF ok(3) sub, of k] Cons.prems(3,4) by simp
    moreover have "?gone \<union> released_by releases (take (Suc k) ws) \<inter> ?M =
        gone \<union> released_by releases (take (Suc i) (names # ws)) \<inter> ?M"
      unfolding released_step Suc by (auto simp: released_by_def)
    ultimately show ?thesis by (simp only:)
  qed
qed simp

lemma controlPlane_safe:
  assumes ok: "\<not> hasError (controlPlaneDiagnostics inp plan)" and cp: "si_ControlPlaneNodes inp \<noteq> []"
    and i: "i < length (controlPlaneWaves plan)"
    and early: "\<not> (Suc i = length (controlPlaneWaves plan) \<and> length (controlPlaneWaves plan ! i) = 1)"
  shows "handoff_safe (controlPlaneMembers inp)
    (released_by (controlPlaneReleases inp) (take (Suc i) (controlPlaneWaves plan)) \<inter> set (gm_keys (controlPlaneMembers inp)))"
proof -
  have wf: "gm_wf (controlPlaneMembers inp)" by (simp add: controlPlaneMembers_def gm.inv_fold_put)
  have "dom (map_of (controlPlaneMembers inp)) = cp_Name ` set (si_ControlPlaneNodes inp)"
    by (simp add: controlPlaneMembers_def gm.dom_fold_put)
  then have ne: "controlPlaneMembers inp \<noteq> []" using cp by auto
  have "\<not> hasError (handoff_loop inp (controlPlaneReleases inp) (controlPlaneMembers inp)
      (int (length (filter snd (controlPlaneMembers inp)))) 0 {} (controlPlaneWaves plan))"
    using ok cp by (auto simp: controlPlaneDiagnostics_def Let_def split: if_splits)
  from handoff_loop_safe [OF this wf ne _ i early] show ?thesis by simp
qed

section \<open>Properties of validation\<close>

text \<open>C25. Structural validation accepts exactly the flows that have a trigger and an action, unique
  nonempty names, known dependencies, a supported abort and tier policy, triggers their devices can
  fire, and ordering edges without a cycle; the depth-first search agrees with acyclicity and always
  ends.\<close>

theorem validation_accepts_exactly:
  "\<not> hasError (validateStructuralInputs index inp) \<longleftrightarrow> structural_ok index inp"
  by (rule validateStructuralInputs_ok)


lemma controlPlane_members:
  assumes "distinct (map cp_Name (si_ControlPlaneNodes inp))"
  shows "set (gm_keys (controlPlaneMembers inp)) = cp_Name ` set (si_ControlPlaneNodes inp)"
    and "voters (controlPlaneMembers inp) = cp_Name ` {n \<in> set (si_ControlPlaneNodes inp). cp_QuorumMember n}"
proof -
  let ?ns = "si_ControlPlaneNodes inp"
  have wf: "gm_wf (controlPlaneMembers inp)" by (simp add: controlPlaneMembers_def gm.inv_fold_put)
  show "set (gm_keys (controlPlaneMembers inp)) = cp_Name ` set ?ns"
    unfolding gm.set_keys [OF wf] by (simp add: controlPlaneMembers_def gm.dom_fold_put)
  have get: "map_of (controlPlaneMembers inp) (cp_Name n) = Some (cp_QuorumMember n)" if "n \<in> set ?ns" for n
    using that filter_unique [OF assms that] by (simp add: controlPlaneMembers_def gm.get_fold_put)
  have "dom (map_of (controlPlaneMembers inp)) = cp_Name ` set ?ns" by (simp add: controlPlaneMembers_def gm.dom_fold_put)
  then show "voters (controlPlaneMembers inp) = cp_Name ` {n \<in> set ?ns. cp_QuorumMember n}"
    unfolding voters_def using get by force
qed

text \<open>C9. A plan that passes the control-plane check keeps the orchestrator alive until the terminal
  handoff: after every wave that is not a single final group, a control-plane node is still up, a
  strict majority of the quorum members is, and with no declared quorum members no control-plane node
  of a multi-node control plane has been released.\<close>

theorem control_plane_survives:
  assumes "\<not> hasError (controlPlaneDiagnostics inp plan)" and "si_ControlPlaneNodes inp \<noteq> []"
    and "i < length (controlPlaneWaves plan)"
    and "\<not> (Suc i = length (controlPlaneWaves plan) \<and> length (controlPlaneWaves plan ! i) = 1)"
  shows "let nodes = cp_Name ` set (si_ControlPlaneNodes inp);
             quorum = cp_Name ` {n \<in> set (si_ControlPlaneNodes inp). cp_QuorumMember n};
             gone = released_by (controlPlaneReleases inp) (take (Suc i) (controlPlaneWaves plan))
         in nodes - gone \<noteq> {} \<and>
            (quorum \<noteq> {} \<longrightarrow> card quorum < 2 * card (quorum - gone)) \<and>
            (quorum = {} \<and> card nodes > 1 \<longrightarrow> nodes \<inter> gone = {})"
proof -
  let ?gone = "released_by (controlPlaneReleases inp) (take (Suc i) (controlPlaneWaves plan))"
  have "distinct (map cp_Name (si_ControlPlaneNodes inp))"
    using assms(1,2) by (auto simp: controlPlaneDiagnostics_def split: if_splits)
  note mem = controlPlane_members [OF this]
  have quorum: "voters (controlPlaneMembers inp) - ?gone \<inter> set (gm_keys (controlPlaneMembers inp)) = voters (controlPlaneMembers inp) - ?gone"
    using voters_members by fastforce
  show ?thesis using controlPlane_safe [OF assms] unfolding handoff_safe_def quorum
    by (simp add: mem Let_def Diff_Int2) (metis Int_left_absorb inf_commute)
qed

definition quorum_inputs :: StructuralInputs where
  "quorum_inputs = zeroInputs\<lparr>
     si_ControlPlaneNodes := map (\<lambda>n. \<lparr>cp_Name = n, cp_QuorumMember = True\<rparr>) [''x'', ''y'', ''z''],
     si_GroupNodes := [\<lparr>gn_Group = ''a'', gn_Unresolved = False, gn_Acts = [], gn_Releases = [''x'', ''w'']\<rparr>,
                       \<lparr>gn_Group = ''b'', gn_Unresolved = False, gn_Acts = [], gn_Releases = [''y'', ''z'']\<rparr>]\<rparr>"

definition quorum_plan :: Plan where
  "quorum_plan = zeroPlan\<lparr>pl_Steps := map (\<lambda>n. \<lparr>cst_ID = n, cst_Index = 0, cst_Action = [], cst_ShutdownTier = None,
     cst_TargetSummary = [], cst_CumulativeDuration = 0\<rparr>) [''a'', ''b'']\<rparr>"

lemma control_plane_survives_witness:
  "\<not> hasError (controlPlaneDiagnostics quorum_inputs quorum_plan) \<and>
   card {''x'', ''y'', ''z''} < 2 * card ({''x'', ''y'', ''z''} - {''x'', ''w''})"
proof -
  have ok: "\<not> hasError (controlPlaneDiagnostics quorum_inputs quorum_plan)" by code_simp
  have nodes: "cp_Name ` set (si_ControlPlaneNodes quorum_inputs) = {''x'', ''y'', ''z''}" "si_ControlPlaneNodes quorum_inputs \<noteq> []"
    and quorum: "cp_Name ` {n \<in> set (si_ControlPlaneNodes quorum_inputs). cp_QuorumMember n} = {''x'', ''y'', ''z''}"
    by (force simp: quorum_inputs_def)+
  have waves: "controlPlaneWaves quorum_plan = [[''a''], [''b'']]"
    by (simp add: quorum_plan_def controlPlaneWaves_def zeroPlan_def)
  have "released_by (controlPlaneReleases quorum_inputs) (take (Suc 0) (controlPlaneWaves quorum_plan)) = {''x'', ''w''}"
    by (simp add: waves released_by_def controlPlaneReleases_def quorum_inputs_def gm_list_def)
  then show ?thesis using control_plane_survives [OF ok nodes(2), of 0] ok
    by (simp only: nodes(1) quorum Let_def waves) (simp add: waves)
qed

end
