(* ===== verification/PlannerScope.thy ===== *)
theory PlannerScope
  imports PlannerValidate
begin

text \<open>
  Scoping a plan to the power domains an outage affects: \<open>src/internal/planner/scope.go\<close>.
  A group is omitted only when its membership is resolved, nonempty and wholly outside the nodes
  that are affected directly, through a communication carrier, or because nothing is known about
  their supply.  The lemmas turn this into a statement about inventory relations alone.
\<close>

definition executionRootsMapped :: "string list \<Rightarrow> PowerDomainMembership list \<Rightarrow> bool" where
  "executionRootsMapped roots domains =
     (let known = set (concat (map pm_UPSDevices (filter (\<lambda>d. pm_Name d \<noteq> '''') domains)))
      in list_all (\<lambda>r. r \<noteq> '''' \<and> r \<in> known) roots)"

definition affectedPowerDomains :: "Trigger list \<Rightarrow> PowerDomainMembership list \<Rightarrow> string set option" where
  "affectedPowerDomains triggers domains =
     (if triggers = [] then None
      else
        let named = filter (\<lambda>d. pm_Name d \<noteq> '''') domains;
            knownDomains = set (map pm_Name named);
            domainsByUPS = fold (\<lambda>(device, name). gm_append device name)
              (concat (map (\<lambda>d. map (\<lambda>device. (device, pm_Name d)) (pm_UPSDevices d)) named)) []
        in if list_ex (\<lambda>t. tr_PowerDomains t = [] \<and> tr_UPSDevices t = []) triggers then None
           else Some (set (concat (map (\<lambda>t. filter (\<lambda>d. d \<in> knownDomains) (tr_PowerDomains t) @
                                          concat (map (gm_list domainsByUPS) (tr_UPSDevices t))) triggers))))"

definition omitStrings :: "string list \<Rightarrow> string set \<Rightarrow> string list" where
  "omitStrings values omitted = filter (\<lambda>v. v \<notin> omitted) values"

definition scrubPrunedDependencies :: "string set \<Rightarrow> Group \<Rightarrow> Group" where
  "scrubPrunedDependencies pruned g =
     g\<lparr>g_Requires := omitStrings (g_Requires g) pruned, g_Before := omitStrings (g_Before g) pruned,
       g_After := omitStrings (g_After g) pruned\<rparr>"

definition filterPrunedGroupNodes :: "GroupNodeMembership list \<Rightarrow> string set \<Rightarrow> GroupNodeMembership list" where
  "filterPrunedGroupNodes ms pruned = filter (\<lambda>m. gn_Group m \<notin> pruned) ms"

definition scopeWork :: "StructuralInputs \<Rightarrow> StructuralInputs" where
  "scopeWork inp =
     (if si_Groups inp = [] then inp\<lparr>si_Groups := map (\<lambda>s. zeroGroup\<lparr>g_Name := st_ID s\<rparr>) (si_Steps inp)\<rparr> else inp)"

definition scopeAffectedNodes :: "communicationIndex \<Rightarrow> StructuralInputs \<Rightarrow> string set \<Rightarrow> string set" where
  "scopeAffectedNodes index inp affectedDomains =
     (let membership = groupNodeSets (si_GroupNodes inp)
      in retainReleasedCarrierConsumers index (scopeWork inp) membership
           (includeUnmappedNodes index membership
              (nodesForPowerDomains (si_PowerDomains inp) affectedDomains \<union> communicationDependents index inp affectedDomains)))"

definition prunable :: "communicationIndex \<Rightarrow> StructuralInputs \<Rightarrow> string set \<Rightarrow> string \<Rightarrow> bool" where
  "prunable index inp affectedDomains name \<longleftrightarrow>
     (case map_of (groupNodeSets (si_GroupNodes inp)) name of
        None \<Rightarrow> False
      | Some nodes \<Rightarrow> name \<notin> unresolvedGroupMembership (si_GroupNodes inp) \<and> nodes \<noteq> {} \<and>
          outsideNodeSet nodes (scopeAffectedNodes index inp affectedDomains))"

definition scopeToDomains :: "communicationIndex \<Rightarrow> StructuralInputs \<Rightarrow> string set \<Rightarrow> StructuralInputs \<times> Diagnostic list" where
  "scopeToDomains index inp affectedDomains =
     (let work = scopeWork inp;
          pruned = set (filter (prunable index inp affectedDomains) (map g_Name (si_Groups work)));
          groups = map (scrubPrunedDependencies pruned) (filter (\<lambda>g. \<not> prunable index inp affectedDomains (g_Name g)) (si_Groups work));
          scoped = (if si_Groups inp \<noteq> [] then inp\<lparr>si_Groups := groups, si_Steps := []\<rparr>
                    else inp\<lparr>si_Steps := filter (\<lambda>s. st_ID s \<notin> pruned) (si_Steps inp)\<rparr>);
          domainNames = sortedSetKeys affectedDomains
      in if sharedCommunicationAffected index work affectedDomains
         then (inp, [diag DiagnosticInfo ''CommunicationServiceScopeRetained'' ''''
           ''all actions remain in scope because a shared service path is affected or released''])
         else if pruned = {} then (inp, [])
         else (scoped\<lparr>si_GroupNodes := filterPrunedGroupNodes (si_GroupNodes inp) pruned\<rparr>,
               [diag DiagnosticInfo ''PowerDomainScopeApplied'' (join '','' domainNames)
                 (''shutdown plan scoped to power domain(s) '' @ join '', '' domainNames @ ''; '' @ show_nat (card pruned) @
                  '' action(s) wholly outside the affected node set were omitted'')]))"

definition scopeTriggers :: "StructuralInputs \<Rightarrow> Trigger list" where
  "scopeTriggers inp =
     (case si_ExecutionScope inp of None \<Rightarrow> si_Triggers inp | Some sc \<Rightarrow> [zeroTrigger\<lparr>tr_UPSDevices := es_UPSDevices sc\<rparr>])"

definition scopeStructuralInputs :: "communicationIndex \<Rightarrow> StructuralInputs \<Rightarrow> StructuralInputs \<times> Diagnostic list" where
  "scopeStructuralInputs index inp =
     (if (case si_ExecutionScope inp of None \<Rightarrow> False | Some sc \<Rightarrow> \<not> executionRootsMapped (es_UPSDevices sc) (si_PowerDomains inp))
      then (inp, [diag DiagnosticWarning ''ExecutionPowerDomainUnknown'' ''''
        ''an eligible UPS has no resolved power domain; work cannot safely be pruned''])
      else case affectedPowerDomains (scopeTriggers inp) (si_PowerDomains inp) of
        None \<Rightarrow> (inp, [])
      | Some affectedDomains \<Rightarrow>
          if affectedDomains = {} \<or> si_GroupNodes inp = [] then (inp, [])
          else scopeToDomains index inp affectedDomains)"

section \<open>The index as relations\<close>

definition carries :: "StructuralInputs \<Rightarrow> (string \<times> string) set" where
  "carries inp = (\<lambda>d. (cd_Carrier d, cd_Dependent d)) ` set (si_CommunicationDependencies inp)"

lemma set_normalizeCommunicationDependencies [simp]: "set (normalizeCommunicationDependencies ds) = set ds"
  by (simp add: normalizeCommunicationDependencies_def)

lemma index_sel:
  "ix_dependents (newCommunicationIndex inp) =
     fold (\<lambda>d. gm_append (cd_Carrier d) (cd_Dependent d)) (normalizeCommunicationDependencies (si_CommunicationDependencies inp)) []"
  "ix_upstream (newCommunicationIndex inp) =
     fold (\<lambda>d. gm_append (cd_Dependent d) d) (normalizeCommunicationDependencies (si_CommunicationDependencies inp)) []"
  by (simp_all add: newCommunicationIndex_def Let_def split: prod.splits)

lemma dependents_carries: "succ_rel (gm_list (ix_dependents (newCommunicationIndex inp))) = carries inp"
  by (auto simp: succ_rel_def index_sel gm_list_group_by carries_def)

lemma upstream_carries: "succ_rel (carrier_succ (ix_upstream (newCommunicationIndex inp))) = (carries inp)\<inverse>"
proof -
  have "gm_list (ix_upstream (newCommunicationIndex inp)) u =
      filter (\<lambda>d. cd_Dependent d = u) (normalizeCommunicationDependencies (si_CommunicationDependencies inp))" for u
    using gm_list_group_by [of cd_Dependent "\<lambda>d. d" "normalizeCommunicationDependencies (si_CommunicationDependencies inp)" u]
    by (simp add: index_sel)
  then show ?thesis by (force simp: succ_rel_def carrier_succ_def carries_def)
qed

text \<open>The carriers a node is planned to need are exactly those it depends on, directly or not.\<close>

lemma communicationPaths_reach:
  "set (gm_keys (communicationPathsFrom (ix_upstream (newCommunicationIndex inp)) node)) =
     {c. c \<noteq> node \<and> (c, node) \<in> (carries inp)\<^sup>+}"
  by (simp add: dom_communicationPathsFrom upstream_carries trancl_converse)

lemma consumers_reach: "consumersOf (newCommunicationIndex inp) seeds = (carries inp)\<^sup>+ `` set seeds"
  by (simp add: consumersOf_reach dependents_carries)

definition supplied :: "StructuralInputs \<Rightarrow> string \<Rightarrow> bool" where
  "supplied inp entity \<longleftrightarrow> (\<exists>d \<in> set (si_PowerDomains inp). entity \<in> set (domainEntities d))"

lemma indexSupply_step:
  "\<exists>ds' us'. indexSupply (d, e) (ds, us) = (ds', us') \<and> dom (map_of ds') = insert e (dom (map_of ds))"
  by (simp add: indexSupply_def)

lemma map_of_map_values: "map_of (map (\<lambda>(k, v). (k, f k v)) m) k = map_option (f k) (map_of m k)"
  by (induction m) auto

lemma indexSupply_dom: "dom (map_of (fst (fold indexSupply ps (ds, us)))) = dom (map_of ds) \<union> snd ` set ps"
proof (induction ps arbitrary: ds us)
  case (Cons p ps)
  obtain d e where p: "p = (d, e)" by (cases p)
  obtain ds' us' where s: "indexSupply (d, e) (ds, us) = (ds', us')" "dom (map_of ds') = insert e (dom (map_of ds))"
    using indexSupply_step [of d e ds us] by blast
  show ?case using Cons.IH [of ds' us'] s by (auto simp: p)
qed simp

lemma supplies_known: "map_of (ix_supplies (newCommunicationIndex inp)) entity \<noteq> None \<longleftrightarrow> supplied inp entity"
proof -
  obtain ds us where f: "fold indexSupply (domainPairs (si_PowerDomains inp)) ([], []) = (ds, us)" by fastforce
  have "dom (map_of ds) = snd ` set (domainPairs (si_PowerDomains inp))"
    using indexSupply_dom [of "domainPairs (si_PowerDomains inp)" "[]" "[]"] f by simp
  moreover have "map_of (ix_supplies (newCommunicationIndex inp)) entity \<noteq> None \<longleftrightarrow> entity \<in> dom (map_of ds)"
    by (simp add: newCommunicationIndex_def f Let_def map_of_map_values domIff)
  ultimately show ?thesis by (force simp: supplied_def domainPairs_def)
qed

section \<open>What scoping omits\<close>

definition nodes_of :: "GroupNodeMembership list \<Rightarrow> string \<Rightarrow> string set" where
  "nodes_of ms name = {n. acts_on ms name n \<or> releases_node ms name n}"

lemma groupNodeSets_snoc:
  "groupNodeSets (ms @ [m]) =
     (if gn_Group m = '''' then groupNodeSets ms
      else gm_put (gn_Group m) (gm_set (groupNodeSets ms) (gn_Group m) \<union> set (gn_Acts m) \<union> set (gn_Releases m)) (groupNodeSets ms))"
  by (simp add: groupNodeSets_def)

lemma nodes_of_snoc: "nodes_of (ms @ [m]) name = nodes_of ms name \<union> (if gn_Group m = name then set (gn_Acts m) \<union> set (gn_Releases m) else {})"
  by (auto simp: nodes_of_def acts_on_def releases_node_def)

lemma groupNodeSets_get:
  "map_of (groupNodeSets ms) name = (if name \<noteq> '''' \<and> name \<in> gn_Group ` set ms then Some (nodes_of ms name) else None)"
proof (induction ms rule: rev_induct)
  case Nil
  then show ?case by (simp add: groupNodeSets_def)
next
  case (snoc m ms)
  have "gm_set (groupNodeSets ms) name = nodes_of ms name" if "name \<noteq> ''''"
    using snoc.IH that by (auto simp: gm_set_def nodes_of_def acts_on_def releases_node_def split: if_splits)
  then show ?case unfolding groupNodeSets_snoc nodes_of_snoc using snoc.IH by (auto simp: Un_assoc)
qed

lemma retain_loop_fixed:
  "affected \<subseteq> retain_loop index inp membership affected \<and>
   consumersOf index (releasedNodes inp (set (filter (groupRetained (unresolvedGroupMembership (si_GroupNodes inp)) membership
     (retain_loop index inp membership affected)) (map g_Name (si_Groups inp))))) \<subseteq> retain_loop index inp membership affected"
proof (induction index inp membership affected rule: retain_loop.induct)
  case (1 index inp membership affected)
  let ?grown = "consumersOf index (releasedNodes inp (set (filter (groupRetained (unresolvedGroupMembership (si_GroupNodes inp)) membership
     affected) (map g_Name (si_Groups inp)))))"
  show ?case
  proof (cases "?grown \<subseteq> affected")
    case True
    then have "retain_loop index inp membership affected = affected" by (simp add: retain_loop.simps)
    then show ?thesis using True by simp
  next
    case False
    then have "retain_loop index inp membership affected = retain_loop index inp membership (affected \<union> ?grown)"
      by (subst retain_loop.simps) (simp add: Let_def)
    then show ?thesis using 1 [OF refl refl refl False] by auto
  qed
qed

lemma scopeAffected_facts:
  fixes inp affectedDomains
  defines "index \<equiv> newCommunicationIndex inp" and "A \<equiv> scopeAffectedNodes (newCommunicationIndex inp) inp affectedDomains"
  shows "nodesForPowerDomains (si_PowerDomains inp) affectedDomains \<subseteq> A"
    and "communicationDependents index inp affectedDomains \<subseteq> A"
    and "{n \<in> \<Union> (snd ` set (groupNodeSets (si_GroupNodes inp))). map_of (ix_supplies index) n = None} \<subseteq> A"
    and "h \<in> set (si_Groups (scopeWork inp)) \<Longrightarrow> \<not> prunable index inp affectedDomains (g_Name h) \<Longrightarrow>
      releases_node (si_GroupNodes inp) (g_Name h) c \<Longrightarrow> (carries inp)\<^sup>+ `` {c} \<subseteq> A"
proof -
  let ?m = "groupNodeSets (si_GroupNodes inp)"
  let ?start = "includeUnmappedNodes index ?m (nodesForPowerDomains (si_PowerDomains inp) affectedDomains \<union> communicationDependents index inp affectedDomains)"
  have A: "A = retainReleasedCarrierConsumers index (scopeWork inp) ?m ?start" by (simp add: A_def index_def scopeAffectedNodes_def Let_def)
  have start: "?start \<subseteq> A" using retain_loop_fixed [of ?start index "scopeWork inp" ?m] unfolding A retainReleasedCarrierConsumers_def by auto
  show "nodesForPowerDomains (si_PowerDomains inp) affectedDomains \<subseteq> A" "communicationDependents index inp affectedDomains \<subseteq> A"
    "{n \<in> \<Union> (snd ` set ?m). map_of (ix_supplies index) n = None} \<subseteq> A"
    using start by (auto simp: includeUnmappedNodes_def)
  assume h: "h \<in> set (si_Groups (scopeWork inp))" and keep: "\<not> prunable index inp affectedDomains (g_Name h)"
    and rel: "releases_node (si_GroupNodes inp) (g_Name h) c"
  have work: "si_GroupNodes (scopeWork inp) = si_GroupNodes inp" "si_CommunicationDependencies (scopeWork inp) = si_CommunicationDependencies inp"
    by (simp_all add: scopeWork_def)
  show "(carries inp)\<^sup>+ `` {c} \<subseteq> A"
  proof (cases "si_CommunicationDependencies inp = []")
    case True
    then have "carries inp = {}" by (simp add: carries_def)
    then show ?thesis by simp
  next
    case False
    then have AL: "A = retain_loop index (scopeWork inp) ?m ?start" using work(2) by (simp add: A retainReleasedCarrierConsumers_def)
    let ?retained = "set (filter (groupRetained (unresolvedGroupMembership (si_GroupNodes inp)) ?m A) (map g_Name (si_Groups (scopeWork inp))))"
    have "groupRetained (unresolvedGroupMembership (si_GroupNodes inp)) ?m A (g_Name h)"
      using keep by (auto simp: prunable_def groupRetained_def A_def index_def split: option.splits)
    then have "c \<in> set (releasedNodes (scopeWork inp) ?retained)"
      using h rel by (auto simp: releasedNodes_def releases_node_def work)
    moreover have "consumersOf index (releasedNodes (scopeWork inp) ?retained) \<subseteq> A"
      using retain_loop_fixed [of ?start index "scopeWork inp" ?m] by (simp add: AL work)
    ultimately show ?thesis unfolding index_def consumers_reach by blast
  qed
qed

lemma scope_cases:
  assumes "scopeStructuralInputs index inp = (scoped, ds)"
  obtains "scoped = inp"
  | affected where "affectedPowerDomains (scopeTriggers inp) (si_PowerDomains inp) = Some affected"
      and "si_Groups inp \<noteq> [] \<Longrightarrow> si_Groups scoped =
        map (scrubPrunedDependencies (set (filter (prunable index inp affected) (map g_Name (si_Groups inp)))))
          (filter (\<lambda>g. \<not> prunable index inp affected (g_Name g)) (si_Groups inp))"
      and "si_Groups inp = [] \<Longrightarrow> si_Groups scoped = [] \<and> si_Steps scoped =
        filter (\<lambda>s. \<not> prunable index inp affected (st_ID s)) (si_Steps inp)"
      and "si_GroupNodes scoped = filterPrunedGroupNodes (si_GroupNodes inp)
        (set (filter (prunable index inp affected) (map g_Name (si_Groups (scopeWork inp)))))"
proof (cases "scoped = inp")
  case True
  then show ?thesis by (rule that(1))
next
  case False
  then obtain affected where aff: "affectedPowerDomains (scopeTriggers inp) (si_PowerDomains inp) = Some affected"
    and sc: "scopeToDomains index inp affected = (scoped, ds)"
    using assms by (auto simp: scopeStructuralInputs_def split: if_splits option.splits)
  let ?p = "set (filter (prunable index inp affected) (map g_Name (si_Groups (scopeWork inp))))"
  have scoped: "scoped = (if si_Groups inp \<noteq> []
      then inp\<lparr>si_Groups := map (scrubPrunedDependencies ?p) (filter (\<lambda>g. \<not> prunable index inp affected (g_Name g)) (si_Groups (scopeWork inp))), si_Steps := []\<rparr>
      else inp\<lparr>si_Steps := filter (\<lambda>s. st_ID s \<notin> ?p) (si_Steps inp)\<rparr>)\<lparr>si_GroupNodes := filterPrunedGroupNodes (si_GroupNodes inp) ?p\<rparr>"
    using sc False by (auto simp: scopeToDomains_def Let_def split: if_splits)
  have steps: "filter (\<lambda>s. st_ID s \<notin> ?p) (si_Steps inp) = filter (\<lambda>s. \<not> prunable index inp affected (st_ID s)) (si_Steps inp)"
    if "si_Groups inp = []" using that by (intro filter_cong) (auto simp: scopeWork_def)
  show ?thesis
    by (rule that(2) [OF aff]) (use steps in \<open>simp_all add: scoped scopeWork_def\<close>)
qed

lemma scrub_name [simp]: "g_Name (scrubPrunedDependencies p g) = g_Name g"
  by (simp add: scrubPrunedDependencies_def)

section \<open>Properties of scoping\<close>

text \<open>C11. Scoping omits a group only when nothing it acts on can be affected: its membership is
  resolved and nonempty, every node of it has a known supply outside the affected domains, is not
  reached over communication carriers from an affected or unsupplied carrier, and does not depend on
  a carrier that a remaining group powers off.\<close>

theorem scope_omits_only_unaffected:
  assumes "scopeStructuralInputs (newCommunicationIndex inp) inp = (scoped, ds)"
    and "g \<in> set (si_Groups inp)" and "g_Name g \<notin> g_Name ` set (si_Groups scoped)"
  shows "\<exists>affected. affectedPowerDomains (scopeTriggers inp) (si_PowerDomains inp) = Some affected \<and>
    g_Name g \<notin> unresolvedGroupMembership (si_GroupNodes inp) \<and> nodes_of (si_GroupNodes inp) (g_Name g) \<noteq> {} \<and>
    (\<forall>n \<in> nodes_of (si_GroupNodes inp) (g_Name g).
       supplied inp n \<and>
       (\<forall>d \<in> set (si_PowerDomains inp). pm_Name d \<in> affected \<longrightarrow>
          n \<notin> set (pm_Nodes d) \<and> (\<forall>e \<in> set (domainEntities d). (e, n) \<notin> (carries inp)\<^sup>+)) \<and>
       (\<forall>c. \<not> supplied inp c \<longrightarrow> (c, n) \<notin> (carries inp)\<^sup>+) \<and>
       (\<forall>h \<in> set (si_Groups scoped). \<forall>c. releases_node (si_GroupNodes inp) (g_Name h) c \<longrightarrow> (c, n) \<notin> (carries inp)\<^sup>+))"
  using assms(1)
proof (cases rule: scope_cases)
  case 1
  then show ?thesis using assms(2,3) by blast
next
  case (2 affected)
  let ?index = "newCommunicationIndex inp" and ?ms = "si_GroupNodes inp"
  let ?A = "scopeAffectedNodes ?index inp affected"
  have ne: "si_Groups inp \<noteq> []" using assms(2) by auto
  have groups: "si_Groups scoped = map (scrubPrunedDependencies (set (filter (prunable ?index inp affected) (map g_Name (si_Groups inp)))))
      (filter (\<lambda>g. \<not> prunable ?index inp affected (g_Name g)) (si_Groups inp))" by (rule 2(2) [OF ne])
  have work: "si_Groups (scopeWork inp) = si_Groups inp" using ne by (simp add: scopeWork_def)
  have p: "prunable ?index inp affected (g_Name g)" using assms(2,3) unfolding groups by (auto simp: image_iff)
  then have m: "map_of (groupNodeSets ?ms) (g_Name g) = Some (nodes_of ?ms (g_Name g))"
    and un: "g_Name g \<notin> unresolvedGroupMembership ?ms" "nodes_of ?ms (g_Name g) \<noteq> {}" "nodes_of ?ms (g_Name g) \<inter> ?A = {}"
    by (auto simp: prunable_def groupNodeSets_get outsideNodeSet_def split: option.splits if_splits)
  note facts = scopeAffected_facts [where inp = inp and affectedDomains = affected]
  have nodes: "supplied inp n \<and>
       (\<forall>d \<in> set (si_PowerDomains inp). pm_Name d \<in> affected \<longrightarrow>
          n \<notin> set (pm_Nodes d) \<and> (\<forall>e \<in> set (domainEntities d). (e, n) \<notin> (carries inp)\<^sup>+)) \<and>
       (\<forall>c. \<not> supplied inp c \<longrightarrow> (c, n) \<notin> (carries inp)\<^sup>+) \<and>
       (\<forall>h \<in> set (si_Groups scoped). \<forall>c. releases_node ?ms (g_Name h) c \<longrightarrow> (c, n) \<notin> (carries inp)\<^sup>+)"
    if n: "n \<in> nodes_of ?ms (g_Name g)" for n
  proof (intro conjI ballI allI impI)
    have out: "n \<notin> ?A" using n un(3) by blast
    have "(g_Name g, nodes_of ?ms (g_Name g)) \<in> set (groupNodeSets ?ms)" using m by (rule map_of_SomeD)
    then have "n \<in> \<Union> (snd ` set (groupNodeSets ?ms))" using n by force
    then show "supplied inp n" using facts(3) out supplies_known by blast
    have deps: "n \<notin> (carries inp)\<^sup>+ `` set (map cd_Carrier (filter (\<lambda>d. supplyDomains ?index (cd_Carrier d) = []) (si_CommunicationDependencies inp)) @
        concat (map domainEntities (filter (\<lambda>d. pm_Name d \<in> affected) (si_PowerDomains inp))))"
      using facts(2) out unfolding communicationDependents_def consumers_reach by blast
    {
      fix d assume d: "d \<in> set (si_PowerDomains inp)" "pm_Name d \<in> affected"
      show "n \<notin> set (pm_Nodes d)" using facts(1) out d by (auto simp: nodesForPowerDomains_def)
      fix e assume "e \<in> set (domainEntities d)"
      then show "(e, n) \<notin> (carries inp)\<^sup>+" using deps d by auto
    }
    {
      fix c assume c: "\<not> supplied inp c"
      show "(c, n) \<notin> (carries inp)\<^sup>+"
      proof
        assume r: "(c, n) \<in> (carries inp)\<^sup>+"
        then obtain x where "(c, x) \<in> carries inp" by (meson tranclD)
        then obtain d where d: "d \<in> set (si_CommunicationDependencies inp)" "cd_Carrier d = c" by (auto simp: carries_def)
        have "supplyDomains ?index c = []" using c supplies_known [of inp c] by (auto simp: supplyDomains_def split: option.splits)
        then show False using deps d r by auto
      qed
    }
    fix h c assume h: "h \<in> set (si_Groups scoped)" and c: "releases_node ?ms (g_Name h) c"
    then obtain h' where h': "h' \<in> set (si_Groups inp)" "\<not> prunable ?index inp affected (g_Name h')" "g_Name h' = g_Name h"
      unfolding groups by auto
    then show "(c, n) \<notin> (carries inp)\<^sup>+" using facts(4) [of h' c] c out work by fastforce
  qed
  show ?thesis using 2(1) un(1,2) nodes by blast
qed

definition scope_inputs :: StructuralInputs where
  "scope_inputs = zeroInputs\<lparr>
     si_Triggers := [zeroTrigger\<lparr>tr_Type := ''OnBattery'', tr_PowerDomains := [''p'']\<rparr>],
     si_Groups := [zeroGroup\<lparr>g_Name := ''a'', g_Before := [''b'', ''c'']\<rparr>, zeroGroup\<lparr>g_Name := ''b''\<rparr>, zeroGroup\<lparr>g_Name := ''c''\<rparr>],
     si_PowerDomains := [\<lparr>pm_Name = ''p'', pm_UPSDevices = [''u''], pm_Members = [], pm_Nodes = [''x''], pm_Infrastructure = []\<rparr>,
                         \<lparr>pm_Name = ''q'', pm_UPSDevices = [''v''], pm_Members = [], pm_Nodes = [''y'', ''z''], pm_Infrastructure = []\<rparr>],
     si_CommunicationDependencies := [\<lparr>cd_Dependent = ''z'', cd_Carrier = ''x'', cd_Source = []\<rparr>],
     si_GroupNodes := map (\<lambda>(k, n). \<lparr>gn_Group = k, gn_Unresolved = False, gn_Acts = [n], gn_Releases = []\<rparr>)
       [(''a'', ''x''), (''b'', ''y''), (''c'', ''z'')]\<rparr>"

text \<open>The group on \<open>y\<close> goes, the one on \<open>z\<close> stays because it communicates over \<open>x\<close>.\<close>

lemma scope_run:
  "map (\<lambda>g. (g_Name g, g_Before g)) (si_Groups (fst (scopeStructuralInputs (newCommunicationIndex scope_inputs) scope_inputs))) =
     [(''a'', [''c'']), (''c'', [])]"
  by code_simp

lemma scope_names:
  "g_Name ` set (si_Groups (fst (scopeStructuralInputs (newCommunicationIndex scope_inputs) scope_inputs))) = {''a'', ''c''}"
proof -
  let ?gs = "si_Groups (fst (scopeStructuralInputs (newCommunicationIndex scope_inputs) scope_inputs))"
  have "map g_Name ?gs = map fst (map (\<lambda>g. (g_Name g, g_Before g)) ?gs)" by simp
  also have "\<dots> = [''a'', ''c'']" by (simp only: scope_run list.map fst_conv)
  finally show ?thesis by (metis list.set_map list.simps(15) empty_set)
qed

lemma scope_omits_only_unaffected_witness:
  "''b'' \<notin> unresolvedGroupMembership (si_GroupNodes scope_inputs) \<and> supplied scope_inputs ''y'' \<and> (''x'', ''y'') \<notin> (carries scope_inputs)\<^sup>+"
proof -
  let ?out = "scopeStructuralInputs (newCommunicationIndex scope_inputs) scope_inputs"
  have out: "?out = (fst ?out, snd ?out)" by simp
  have b: "zeroGroup\<lparr>g_Name := ''b''\<rparr> \<in> set (si_Groups scope_inputs)" by (simp add: scope_inputs_def)
  have gone: "g_Name (zeroGroup\<lparr>g_Name := ''b''\<rparr>) \<notin> g_Name ` set (si_Groups (fst ?out))" by (simp only: scope_names) simp
  have y: "''y'' \<in> nodes_of (si_GroupNodes scope_inputs) ''b''" by (simp add: scope_inputs_def nodes_of_def acts_on_def)
  obtain affected where aff: "affectedPowerDomains (scopeTriggers scope_inputs) (si_PowerDomains scope_inputs) = Some affected"
    and facts: "''b'' \<notin> unresolvedGroupMembership (si_GroupNodes scope_inputs)" "supplied scope_inputs ''y''"
      "\<forall>d \<in> set (si_PowerDomains scope_inputs). pm_Name d \<in> affected \<longrightarrow> (\<forall>e \<in> set (domainEntities d). (e, ''y'') \<notin> (carries scope_inputs)\<^sup>+)"
    using scope_omits_only_unaffected [OF out b gone] y by auto
  have "affected = {''p''}"
    using aff by (simp add: affectedPowerDomains_def scopeTriggers_def scope_inputs_def zeroInputs_def zeroTrigger_def gm_list_def)
  moreover have "\<exists>d \<in> set (si_PowerDomains scope_inputs). pm_Name d = ''p'' \<and> ''x'' \<in> set (domainEntities d)"
    by (simp add: scope_inputs_def domainEntities_def)
  ultimately show ?thesis using facts by auto
qed

lemma declared_order_iff:
  "(u, v) \<in> declared_order gs \<longleftrightarrow>
     (\<exists>g \<in> set gs. g_Name g = u \<and> (v \<in> set (g_Requires g) \<or> v \<in> set (g_Before g)) \<or> g_Name g = v \<and> u \<in> set (g_After g))"
  by (auto simp: declared_order_def)

lemma declared_order_scrub:
  assumes "declared_order gs \<subseteq> g_Name ` set gs \<times> g_Name ` set gs"
  shows "declared_order (map (scrubPrunedDependencies (set (filter P (map g_Name gs)))) (filter (\<lambda>g. \<not> P (g_Name g)) gs)) =
    declared_order gs \<inter> {n \<in> g_Name ` set gs. \<not> P n} \<times> {n \<in> g_Name ` set gs. \<not> P n}" (is "?L = ?R")
proof (rule set_eqI)
  fix p :: "string \<times> string"
  obtain u v where p: "p = (u, v)" by (cases p)
  have known: "u \<in> g_Name ` set gs \<and> v \<in> g_Name ` set gs" if "(u, v) \<in> declared_order gs" using that assms by blast
  have "(u, v) \<in> ?L \<longleftrightarrow> (\<exists>g \<in> set gs. \<not> P (g_Name g) \<and>
      (g_Name g = u \<and> (v \<in> set (g_Requires g) \<or> v \<in> set (g_Before g)) \<and> v \<notin> set (filter P (map g_Name gs)) \<or>
       g_Name g = v \<and> u \<in> set (g_After g) \<and> u \<notin> set (filter P (map g_Name gs))))"
    unfolding declared_order_iff by (auto simp: scrubPrunedDependencies_def omitStrings_def)
  also have "\<dots> \<longleftrightarrow> (u, v) \<in> declared_order gs \<and> \<not> P u \<and> \<not> P v"
    using known unfolding declared_order_iff by auto
  also have "\<dots> \<longleftrightarrow> (u, v) \<in> ?R" using known by auto
  finally show "p \<in> ?L \<longleftrightarrow> p \<in> ?R" by (simp only: p)
qed

text \<open>C29. Scoping keeps the declared order of what remains: the remaining groups are ones of the
  flow, every dependency left over names a remaining group, and two remaining groups are ordered
  exactly when the flow declared it.\<close>

theorem scope_preserves_order:
  assumes "scopeStructuralInputs index inp = (scoped, ds)"
    and "declared_order (si_Groups inp) \<subseteq> g_Name ` set (si_Groups inp) \<times> g_Name ` set (si_Groups inp)"
  shows "g_Name ` set (si_Groups scoped) \<subseteq> g_Name ` set (si_Groups inp) \<and>
    declared_order (si_Groups scoped) =
      declared_order (si_Groups inp) \<inter> g_Name ` set (si_Groups scoped) \<times> g_Name ` set (si_Groups scoped)"
  using assms(1)
proof (cases rule: scope_cases)
  case 1
  then show ?thesis using assms(2) by auto
next
  case (2 affected)
  show ?thesis
  proof (cases "si_Groups inp = []")
    case True
    then show ?thesis using 2(3) [OF True] by (simp add: declared_order_def)
  next
    case False
    have "g_Name ` set (si_Groups scoped) = {n \<in> g_Name ` set (si_Groups inp). \<not> prunable index inp affected n}"
      unfolding 2(2) [OF False] by (auto simp: image_iff)
    then show ?thesis using declared_order_scrub [OF assms(2), of "prunable index inp affected"] unfolding 2(2) [OF False] by auto
  qed
qed

lemma scope_preserves_order_witness:
  "declared_order (si_Groups (fst (scopeStructuralInputs (newCommunicationIndex scope_inputs) scope_inputs))) = {(''a'', ''c'')}"
proof -
  let ?out = "scopeStructuralInputs (newCommunicationIndex scope_inputs) scope_inputs"
  have out: "?out = (fst ?out, snd ?out)" by simp
  have order: "declared_order (si_Groups scope_inputs) = {(''a'', ''b''), (''a'', ''c'')}"
    and names: "g_Name ` set (si_Groups scope_inputs) = {''a'', ''b'', ''c''}"
    by (auto simp: scope_inputs_def declared_order_def zeroGroup_def)
  have "declared_order (si_Groups scope_inputs) \<subseteq> g_Name ` set (si_Groups scope_inputs) \<times> g_Name ` set (si_Groups scope_inputs)"
    unfolding order names by simp
  from scope_preserves_order [OF out this] show ?thesis unfolding scope_names order by auto
qed

end
