(* ===== verification/PlannerCompile.thy ===== *)
theory PlannerCompile
  imports PlannerScope
begin

text \<open>
  The planner's entry points: normalization (\<open>src/internal/planner/compiler_normalization.go\<close>),
  plan hashing (\<open>compiler_hashing.go\<close>) and \<open>Compile\<close> (\<open>compiler.go\<close>).

  Hashes are SHA-256 over the JSON encoding.  Encoding and digest are a parameter of the model, a
  record with one function per type that is hashed; each may fail, as \<open>json.Marshal\<close> may.  The
  compiler is a value of option type because wave descent is, and it is shown to
  return on every input.  Sorting control-plane nodes by name is not stable in the code; equal names are
  rejected later, so the model sorts them stably.
\<close>

section \<open>Normalization\<close>

record planHashes =
  ph_trigger :: "Trigger \<Rightarrow> string + string"
  ph_structural :: "StructuralInputs \<Rightarrow> string + string"
  ph_plan :: "string \<times> CompiledStep list \<times> Wave list \<times> Wave list \<times> Graph \<times> duration \<Rightarrow> string + string"

fun hashTriggers :: "(Trigger \<Rightarrow> string + string) \<Rightarrow> nat \<Rightarrow> Trigger list \<Rightarrow> string + (string \<times> Trigger) list" where
  "hashTriggers h i [] = Inr []"
| "hashTriggers h i (t # ts) =
     (case h t of
        Inl err \<Rightarrow> Inl (''hash trigger '' @ show_nat i @ '' for deterministic ordering: '' @ err)
      | Inr hash \<Rightarrow> (case hashTriggers h (Suc i) ts of Inl err \<Rightarrow> Inl err | Inr rest \<Rightarrow> Inr ((hash, t) # rest)))"

definition sortTriggers :: "(Trigger \<Rightarrow> string + string) \<Rightarrow> Trigger list \<Rightarrow> string + Trigger list" where
  "sortTriggers h triggers =
     (case hashTriggers h 0 triggers of Inl err \<Rightarrow> Inl err | Inr decorated \<Rightarrow> Inr (map snd (sort_key fst decorated)))"

definition sortGroups :: "Group list \<Rightarrow> Group list" where
  "sortGroups groups = sort_key g_Name groups"

definition normalizeGroup :: "Group \<Rightarrow> Group" where
  "normalizeGroup g = g\<lparr>g_Requires := sort (g_Requires g), g_Before := sort (g_Before g), g_After := sort (g_After g)\<rparr>"

definition normalizeTrigger :: "Trigger \<Rightarrow> Trigger" where
  "normalizeTrigger t = t\<lparr>tr_UPSDevices := sort (tr_UPSDevices t), tr_PowerDomains := sort (tr_PowerDomains t)\<rparr>"

definition normalizeDomain :: "PowerDomainMembership \<Rightarrow> PowerDomainMembership" where
  "normalizeDomain d =
     d\<lparr>pm_UPSDevices := sort (pm_UPSDevices d), pm_Members := sort (pm_Members d), pm_Nodes := sort (pm_Nodes d),
       pm_Infrastructure := sort (pm_Infrastructure d)\<rparr>"

definition normalizeStructuralInputs :: "planHashes \<Rightarrow> StructuralInputs \<Rightarrow> string + StructuralInputs" where
  "normalizeStructuralInputs h inp =
     (case sortTriggers (ph_trigger h) (map normalizeTrigger (si_Triggers inp)) of
        Inl err \<Rightarrow> Inl err
      | Inr triggers \<Rightarrow> Inr
          \<lparr>si_SourceID = si_SourceID inp, si_ObservedAt = si_ObservedAt inp, si_ResolvedInputHash = si_ResolvedInputHash inp,
           si_TierPolicy = normalizeTierPolicy (si_TierPolicy inp),
           si_Triggers = triggers,
           si_ExecutionScope = map_option (\<lambda>sc. \<lparr>es_UPSDevices = sortedUnique (es_UPSDevices sc)\<rparr>) (si_ExecutionScope inp),
           si_Groups = sortGroups (map normalizeGroup (si_Groups inp)),
           si_Steps = si_Steps inp,
           si_AbortBehavior = si_AbortBehavior inp, si_AbortNotify = si_AbortNotify inp,
           si_TierOverrunPolicy = si_TierOverrunPolicy inp,
           si_DeviceCapabilities = sort_key dc_DeviceID
             (map (\<lambda>d. d\<lparr>dc_TelemetryVariables := sort (dc_TelemetryVariables d)\<rparr>) (si_DeviceCapabilities inp)),
           si_PowerDomains = sort_key pm_Name (map normalizeDomain (si_PowerDomains inp)),
           si_CommunicationDependencies = normalizeCommunicationDependencies (si_CommunicationDependencies inp),
           si_CommunicationServices = normalizeCommunicationServices (si_CommunicationServices inp),
           si_CommunicationExemptNodes = sortedUnique (si_CommunicationExemptNodes inp),
           si_InventoryEntities = map_option sortedUnique (si_InventoryEntities inp),
           si_GroupNodes = sort_key gn_Group
             (map (\<lambda>m. m\<lparr>gn_Acts := sort (gn_Acts m), gn_Releases := sort (gn_Releases m)\<rparr>) (si_GroupNodes inp)),
           si_NodeTiers = sort_key nt_Name (si_NodeTiers inp),
           si_ControlPlaneNodes = sort_key cp_Name (si_ControlPlaneNodes inp),
           si_HookDigests = sort_key (\<lambda>d. (hd_Namespace d, hd_Name d)) (si_HookDigests inp)\<rparr>)"

definition prepareStructuralInputs :: "planHashes \<Rightarrow> StructuralInputs \<Rightarrow> Diagnostic list + StructuralInputs" where
  "prepareStructuralInputs h inp =
     (case normalizeStructuralInputs h inp of
        Inl err \<Rightarrow> Inl [diag DiagnosticError ''TriggerEncodingFailed'' ''''
          (''triggers could not be hashed for deterministic ordering: '' @ err)]
      | Inr normalized \<Rightarrow>
          (case si_ExecutionScope normalized of
             None \<Rightarrow> Inr normalized
           | Some sc \<Rightarrow>
               if es_UPSDevices sc = []
               then Inl [diag DiagnosticError ''ExecutionScopeEmpty'' '''' ''an execution scope must name eligible UPS devices'']
               else Inr normalized))"

section \<open>Artifacts, feasibility and hashes\<close>

definition powerDomainArtifacts :: "PowerDomainMembership list \<Rightarrow> PowerDomainArtifact list" where
  "powerDomainArtifacts domains =
     map (\<lambda>d. \<lparr>pa_Name = pm_Name d, pa_UPSDevices = pm_UPSDevices d, pa_Members = pm_Members d, pa_Nodes = pm_Nodes d,
               pa_Infrastructure = pm_Infrastructure d\<rparr>) domains"

definition RuntimeEstimateStatic :: string where "RuntimeEstimateStatic = ''Static''"

definition firstStaticRuntimeEstimate :: "DeviceCapability list \<Rightarrow> string option" where
  "firstStaticRuntimeEstimate devices =
     map_option dc_DeviceID (find (\<lambda>d. dc_RuntimeEstimate d = RuntimeEstimateStatic) devices)"

definition snapshotIncomplete :: "PowerDomainSnapshot \<Rightarrow> bool" where
  "snapshotIncomplete s \<longleftrightarrow>
     ps_Stale s \<or> ps_RuntimeRemainingSeconds s = None \<or> ps_ChargePercent s = None \<or> ps_OnBattery s = None"

definition FeasibilityAdvisoryUnknown :: string where "FeasibilityAdvisoryUnknown = ''Unknown''"
definition FeasibilityAdvisoryOK :: string where "FeasibilityAdvisoryOK = ''OK''"

definition advisoryFeasibility :: "TelemetryInputs \<Rightarrow> DeviceCapability list \<Rightarrow> Feasibility" where
  "advisoryFeasibility telemetry devices =
     (if ti_PowerDomains telemetry = []
      then \<lparr>fe_Verdict = FeasibilityAdvisoryUnknown, fe_Reason = ''TelemetryUnavailable'', fe_Detail = ''''\<rparr>
      else if list_ex snapshotIncomplete (ti_PowerDomains telemetry)
      then \<lparr>fe_Verdict = FeasibilityAdvisoryUnknown, fe_Reason = ''TelemetryIncomplete'', fe_Detail = ''''\<rparr>
      else case firstStaticRuntimeEstimate devices of
        Some device \<Rightarrow> \<lparr>fe_Verdict = FeasibilityAdvisoryUnknown, fe_Reason = ''RuntimeEstimateStatic'', fe_Detail = device\<rparr>
      | None \<Rightarrow> \<lparr>fe_Verdict = FeasibilityAdvisoryOK, fe_Reason = ''TelemetryPresent'', fe_Detail = ''''\<rparr>)"

definition hashPlan :: "planHashes \<Rightarrow> StructuralInputs \<Rightarrow> Plan \<Rightarrow> Plan \<times> Diagnostic list" where
  "hashPlan h scoped plan =
     (case ph_structural h scoped of
        Inl err \<Rightarrow> (plan\<lparr>pl_StructuralHash := ''''\<rparr>, [diag DiagnosticError ''PlanHashEncodingFailed'' ''''
          (''plan structural hash could not be computed: '' @ err)])
      | Inr structural \<Rightarrow>
          let plan1 = plan\<lparr>pl_StructuralHash := structural\<rparr> in
          (case ph_plan h (structural, pl_Steps plan1, pl_Waves plan1, pl_StartupWaves plan1, pl_Graph plan1, pl_EstimatedDuration plan1) of
             Inl err \<Rightarrow> (plan1\<lparr>pl_Hash := ''''\<rparr>, [diag DiagnosticError ''PlanHashEncodingFailed'' ''''
               (''plan hash could not be computed: '' @ err)])
           | Inr hash \<Rightarrow> (plan1\<lparr>pl_Hash := hash\<rparr>, [])))"

section \<open>Compile\<close>

datatype plannerError = ErrRejected

type_synonym compiled = "Diagnostic list \<times> (plannerError + Plan)"

definition publishPlan :: "planHashes \<Rightarrow> communicationIndex \<Rightarrow> StructuralInputs \<Rightarrow> TelemetryInputs \<Rightarrow> Plan \<Rightarrow> Plan \<times> Diagnostic list" where
  "publishPlan h index scoped telemetry plan =
     hashPlan h scoped
       (plan\<lparr>pl_CommunicationBudget := communicationBudget index scoped,
             pl_BlockedNodes := blockedNodesFromInversions (detectTierInversions scoped),
             pl_Explanations := graphExplanations (pl_Graph plan) (length (pl_Waves plan)) (length (pl_StartupWaves plan)) @
               communicationExplanations index scoped,
             pl_Diagrams := renderDiagramExports (pl_Graph plan),
             pl_Feasibility := advisoryFeasibility telemetry (si_DeviceCapabilities scoped)\<rparr>)"

definition estimatedPlan :: "StructuralInputs \<Rightarrow> HistoryInputs \<Rightarrow> Plan \<Rightarrow> Plan" where
  "estimatedPlan scoped history plan =
     (if si_Groups scoped \<noteq> [] then applyGroupEstimates (si_Groups scoped) history plan else plan)
       \<lparr>pl_PowerDomains := powerDomainArtifacts (si_PowerDomains scoped)\<rparr>"

definition CompileWithHistory :: "planHashes \<Rightarrow> StructuralInputs \<Rightarrow> TelemetryInputs \<Rightarrow> HistoryInputs \<Rightarrow> compiled option" where
  "CompileWithHistory h structural telemetry history =
     (case prepareStructuralInputs h structural of
        Inl diagnostics \<Rightarrow> Some (diagnostics, Inl ErrRejected)
      | Inr normalized \<Rightarrow>
          let index = newCommunicationIndex normalized;
              (scoped, scopeDiagnostics) = scopeStructuralInputs index normalized;
              ds1 = validateStructuralInputs index scoped @ communicationDiagnostics index scoped @ scopeDiagnostics
          in if hasError ds1 then Some (ds1, Inl ErrRejected)
             else (case compileSchedule index scoped of
                None \<Rightarrow> None
              | Some (scheduled, schedulingDiagnostics) \<Rightarrow>
                  let ds2 = ds1 @ schedulingDiagnostics in
                  if hasError ds2 then Some (ds2, Inl ErrRejected)
                  else
                    let plan = estimatedPlan scoped history scheduled;
                        ds3 = ds2 @ controlPlaneDiagnostics scoped plan
                    in if hasError ds3 then Some (ds3, Inl ErrRejected)
                       else (case publishPlan h index scoped telemetry plan of (published, hashDiagnostics) \<Rightarrow>
                               let ds4 = ds3 @ hashDiagnostics in
                               if hasError ds4 then Some (ds4, Inl ErrRejected) else Some (ds4, Inr published))))"


section \<open>Compilation returns\<close>

lemma compileSchedule_ok:
  assumes "structural_ok index inp"
  obtains plan where "compileSchedule index inp = Some (plan, [])"
    and "si_Groups inp \<noteq> [] \<Longrightarrow> layered (edge_rel (gr_Edges (buildGroupGraphForInputs index inp))) (g_Name ` set (si_Groups inp))
      (map w_Groups (pl_Waves plan)) {}"
    and "si_Groups inp \<noteq> [] \<Longrightarrow> pl_Graph plan = buildGroupGraphForInputs index inp \<and>
      pl_StartupWaves plan = advisoryStartupWaves (pl_Waves plan) \<and> map cst_ID (pl_Steps plan) = concat (map w_Groups (pl_Waves plan))"
proof (cases "si_Groups inp = []")
  case True
  obtain steps d where "compileSteps (si_Steps inp) = (steps, d)" by fastforce
  then have "\<exists>plan. compileSchedule index inp = Some (plan, [])" using True by (simp add: compileSchedule_def Let_def)
  then show ?thesis using that True by blast
next
  case False
  let ?g = "buildGroupGraphForInputs index inp"
  have sub: "edge_rel (gr_Edges ?g) \<subseteq> g_Name ` set (si_Groups inp) \<times> g_Name ` set (si_Groups inp)" and acyc: "acyclic (edge_rel (gr_Edges ?g))"
    using assms graph_inside [of inp index] by (simp_all add: structural_ok_def names_ok_def)
  from sub acyc obtain steps waves total where c: "compileGroups (si_Groups inp) ?g = Some (steps, waves, total, [])"
    and l: "layered (edge_rel (gr_Edges ?g)) (g_Name ` set (si_Groups inp)) (map w_Groups waves) {}"
    and s: "map cst_ID steps = concat (map w_Groups waves)" by (rule compileGroups_scheduled)
  show ?thesis
    by (rule that [of "zeroPlan\<lparr>pl_Graph := ?g, pl_Steps := steps, pl_Waves := waves,
        pl_StartupWaves := advisoryStartupWaves waves, pl_EstimatedDuration := total\<rparr>"])
      (use False c l s in \<open>simp_all add: compileSchedule_def Let_def\<close>)
qed

lemma applyGroupEstimates_sel [simp]:
  "pl_Waves (applyGroupEstimates gs history plan) = pl_Waves plan" "pl_Steps (applyGroupEstimates gs history plan) = pl_Steps plan"
  "pl_StartupWaves (applyGroupEstimates gs history plan) = pl_StartupWaves plan" "pl_Graph (applyGroupEstimates gs history plan) = pl_Graph plan"
  "pl_EstimatedDuration (applyGroupEstimates gs history plan) = pl_EstimatedDuration plan"
  by (simp_all add: applyGroupEstimates_def Let_def split: option.splits)

lemma estimatedPlan_sel [simp]:
  "pl_Waves (estimatedPlan sc history plan) = pl_Waves plan" "pl_Steps (estimatedPlan sc history plan) = pl_Steps plan"
  "pl_StartupWaves (estimatedPlan sc history plan) = pl_StartupWaves plan" "pl_Graph (estimatedPlan sc history plan) = pl_Graph plan"
  "pl_EstimatedDuration (estimatedPlan sc history plan) = pl_EstimatedDuration plan"
  by (simp_all add: estimatedPlan_def)

lemma hashPlan_sel [simp]:
  "pl_Waves (fst (hashPlan h sc plan)) = pl_Waves plan" "pl_Steps (fst (hashPlan h sc plan)) = pl_Steps plan"
  "pl_StartupWaves (fst (hashPlan h sc plan)) = pl_StartupWaves plan" "pl_Graph (fst (hashPlan h sc plan)) = pl_Graph plan"
  "pl_BlockedNodes (fst (hashPlan h sc plan)) = pl_BlockedNodes plan" "pl_Feasibility (fst (hashPlan h sc plan)) = pl_Feasibility plan"
  "pl_EstimatedDuration (fst (hashPlan h sc plan)) = pl_EstimatedDuration plan"
  by (simp_all add: hashPlan_def Let_def split: sum.splits)

lemma publishPlan_sel [simp]:
  "pl_Waves (fst (publishPlan h index sc t plan)) = pl_Waves plan" "pl_Steps (fst (publishPlan h index sc t plan)) = pl_Steps plan"
  "pl_StartupWaves (fst (publishPlan h index sc t plan)) = pl_StartupWaves plan" "pl_Graph (fst (publishPlan h index sc t plan)) = pl_Graph plan"
  "pl_BlockedNodes (fst (publishPlan h index sc t plan)) = blockedNodesFromInversions (detectTierInversions sc)"
  "pl_Feasibility (fst (publishPlan h index sc t plan)) = advisoryFeasibility t (si_DeviceCapabilities sc)"
  "pl_EstimatedDuration (fst (publishPlan h index sc t plan)) = pl_EstimatedDuration plan"
  by (simp_all add: publishPlan_def)

text \<open>The three ways a compilation can go, once the inputs are prepared.\<close>

definition scopedInputs :: "planHashes \<Rightarrow> StructuralInputs \<Rightarrow> (communicationIndex \<times> StructuralInputs \<times> Diagnostic list) option" where
  "scopedInputs h structural =
     (case prepareStructuralInputs h structural of
        Inl _ \<Rightarrow> None
      | Inr normalized \<Rightarrow>
          Some (newCommunicationIndex normalized, scopeStructuralInputs (newCommunicationIndex normalized) normalized))"

lemma compile_unfold:
  assumes "scopedInputs h structural = Some (index, scoped, sds)"
  shows "CompileWithHistory h structural telemetry history =
    (let ds1 = validateStructuralInputs index scoped @ communicationDiagnostics index scoped @ sds
     in if hasError ds1 then Some (ds1, Inl ErrRejected)
        else case compileSchedule index scoped of
            None \<Rightarrow> None
          | Some (scheduled, sd) \<Rightarrow>
              let ds2 = ds1 @ sd in
              if hasError ds2 then Some (ds2, Inl ErrRejected)
              else let plan = estimatedPlan scoped history scheduled; ds3 = ds2 @ controlPlaneDiagnostics scoped plan
                   in if hasError ds3 then Some (ds3, Inl ErrRejected)
                      else (case publishPlan h index scoped telemetry plan of (published, hds) \<Rightarrow>
                              let ds4 = ds3 @ hds in if hasError ds4 then Some (ds4, Inl ErrRejected) else Some (ds4, Inr published)))"
  using assms by (auto simp: CompileWithHistory_def scopedInputs_def Let_def split: sum.splits)

lemma compile_rejected_early:
  "scopedInputs h structural = None \<Longrightarrow> \<exists>ds. CompileWithHistory h structural telemetry history = Some (ds, Inl ErrRejected)"
  by (auto simp: CompileWithHistory_def scopedInputs_def split: sum.splits)

lemma compile_accepted:
  assumes "CompileWithHistory h structural telemetry history = Some (ds, Inr plan)"
  obtains index scoped sds scheduled where "scopedInputs h structural = Some (index, scoped, sds)"
    and "structural_ok index scoped" and "compileSchedule index scoped = Some (scheduled, [])"
    and "\<not> hasError (controlPlaneDiagnostics scoped (estimatedPlan scoped history scheduled))"
    and "plan = fst (publishPlan h index scoped telemetry (estimatedPlan scoped history scheduled))"
    and "\<not> hasError ds"
proof (cases "scopedInputs h structural")
  case None
  then show ?thesis using compile_rejected_early [OF None, of telemetry history] assms by auto
next
  case (Some p)
  obtain index scoped sds where sc: "scopedInputs h structural = Some (index, scoped, sds)" using Some by (cases p) auto
  let ?ds1 = "validateStructuralInputs index scoped @ communicationDiagnostics index scoped @ sds"
  have ok: "\<not> hasError ?ds1" using assms unfolding compile_unfold [OF sc] by (auto simp: Let_def split: if_splits)
  then have st: "structural_ok index scoped" by (simp add: validateStructuralInputs_ok [symmetric])
  then obtain scheduled where s: "compileSchedule index scoped = Some (scheduled, [])" by (rule compileSchedule_ok)
  let ?plan = "estimatedPlan scoped history scheduled"
  have cp: "\<not> hasError (controlPlaneDiagnostics scoped ?plan)" and p: "plan = fst (publishPlan h index scoped telemetry ?plan)" and d: "\<not> hasError ds"
    using assms ok unfolding compile_unfold [OF sc] s by (auto simp: Let_def split: if_splits prod.splits)
  show ?thesis by (rule that [OF sc st s cp p d])
qed

section \<open>The order a plan guarantees\<close>

lemma accepted_waves:
  assumes "structural_ok index scoped" and "compileSchedule index scoped = Some (scheduled, [])" and "si_Groups scoped \<noteq> []"
  shows "layered (edge_rel (gr_Edges (buildGroupGraphForInputs index scoped))) (g_Name ` set (si_Groups scoped))
      (map w_Groups (pl_Waves scheduled)) {}"
  by (rule compileSchedule_ok [OF assms(1)]) (use assms(2,3) in simp)

lemma accepted_order:
  assumes "structural_ok index scoped" and "compileSchedule index scoped = Some (scheduled, [])" and "si_Groups scoped \<noteq> []"
    and "inj_on safeGraphID (g_Name ` set (si_Groups scoped))" and "(u, v) \<in> (plan_order index scoped)\<^sup>+"
  shows "precedes (map w_Groups (pl_Waves scheduled)) u v"
proof -
  let ?N = "g_Name ` set (si_Groups scoped)"
  have decl: "declared_order (si_Groups scoped) \<subseteq> ?N \<times> ?N" using assms(1) by (simp add: structural_ok_def names_ok_def)
  have R: "edge_rel (gr_Edges (buildGroupGraphForInputs index scoped)) = plan_order index scoped"
    by (rule group_graph_edges [OF assms(4) decl])
  have "plan_order index scoped \<inter> ?N \<times> ?N = plan_order index scoped" using plan_order_names [OF decl, of index] by blast
  then have "(u, v) \<in> (edge_rel (gr_Edges (buildGroupGraphForInputs index scoped)) \<inter> ?N \<times> ?N)\<^sup>+" using assms(5) by (simp only: R)
  then show ?thesis by (rule layered_order_trancl [OF _ accepted_waves [OF assms(1-3)], rotated]) simp
qed




section \<open>Properties of the compiler\<close>

text \<open>C19. Compilation always returns, on every input, history and hash function: the wave descent it
  runs cannot diverge after validation.  It rejects exactly when it reports an error diagnostic.\<close>

theorem compile_returns:
  "\<exists>ds r. CompileWithHistory h structural telemetry history = Some (ds, r) \<and> (hasError ds \<longleftrightarrow> r = Inl ErrRejected)"
proof (cases "scopedInputs h structural")
  case None
  then show ?thesis by (auto simp: CompileWithHistory_def scopedInputs_def prepareStructuralInputs_def split: sum.splits option.splits if_splits)
next
  case (Some p)
  obtain index scoped sds where sc: "scopedInputs h structural = Some (index, scoped, sds)" using Some by (cases p) auto
  let ?ds1 = "validateStructuralInputs index scoped @ communicationDiagnostics index scoped @ sds"
  show ?thesis
  proof (cases "hasError ?ds1")
    case True
    then show ?thesis unfolding compile_unfold [OF sc] by (auto simp: Let_def)
  next
    case False
    then have "structural_ok index scoped" by (simp add: validateStructuralInputs_ok [symmetric])
    then obtain scheduled where s: "compileSchedule index scoped = Some (scheduled, [])" by (rule compileSchedule_ok)
    show ?thesis unfolding compile_unfold [OF sc] s using False by (auto simp: Let_def split: prod.splits)
  qed
qed


lemma accepted_precedes:
  assumes "scopedInputs h structural = Some (index, scoped, sds)"
    and "CompileWithHistory h structural telemetry history = Some (ds, Inr plan)"
    and "si_Groups scoped \<noteq> []" and "inj_on safeGraphID (g_Name ` set (si_Groups scoped))"
    and "(u, v) \<in> (plan_order index scoped)\<^sup>+"
  shows "precedes (map w_Groups (pl_Waves plan)) u v"
  using assms(2)
proof (rule compile_accepted)
  fix index' scoped' sds' scheduled
  assume sc: "scopedInputs h structural = Some (index', scoped', sds')" and ok: "structural_ok index' scoped'"
    and s: "compileSchedule index' scoped' = Some (scheduled, [])"
    and p: "plan = fst (publishPlan h index' scoped' telemetry (estimatedPlan scoped' history scheduled))"
  have same: "index' = index" "scoped' = scoped" using sc assms(1) by simp_all
  show ?thesis using accepted_order [OF ok s, unfolded same, OF assms(3-5)] by (simp add: p)
qed

lemma plan_order_parts:
  "edge_rel (collectShutdownTierGraphEdges (si_Groups inp) (si_TierPolicy inp)) \<subseteq> plan_order index inp"
  "clearance_order (g_Name ` set (si_Groups inp)) (si_GroupNodes inp) \<subseteq> plan_order index inp"
  "carrier_order index (g_Name ` set (si_Groups inp)) (si_GroupNodes inp) \<subseteq> plan_order index inp"
  by (auto simp: plan_order_def Let_def)

text \<open>Higher shutdown tiers stop first: when the effective tiers of two groups of an accepted plan
  differ, the group of the higher tier is in a strictly earlier wave.\<close>

theorem higher_tiers_first:
  assumes "scopedInputs h structural = Some (index, scoped, sds)"
    and "CompileWithHistory h structural telemetry history = Some (ds, Inr plan)"
    and "inj_on safeGraphID (g_Name ` set (si_Groups scoped))"
    and "x \<in> set (si_Groups scoped)" and "y \<in> set (si_Groups scoped)"
    and "map_of (effectiveShutdownTiers (si_Groups scoped) (si_TierPolicy scoped)) (g_Name x) = Some tx"
    and "map_of (effectiveShutdownTiers (si_Groups scoped) (si_TierPolicy scoped)) (g_Name y) = Some ty" and "ty < tx"
  shows "precedes (map w_Groups (pl_Waves plan)) (g_Name x) (g_Name y)"
proof -
  let ?tiers = "effectiveShutdownTiers (si_Groups scoped) (si_TierPolicy scoped)"
  have "g_Name x \<in> at_tier (si_Groups scoped) ?tiers tx" "g_Name y \<in> at_tier (si_Groups scoped) ?tiers ty"
    using assms(4-7) by (auto simp: at_tier_def)
  then have "(g_Name x, g_Name y) \<in> (edge_rel (collectShutdownTierGraphEdges (si_Groups scoped) (si_TierPolicy scoped)))\<^sup>+"
    using assms(8) by (rule tier_path)
  then have "(g_Name x, g_Name y) \<in> (plan_order index scoped)\<^sup>+" using plan_order_parts(1) by (rule trancl_mono)
  moreover have "si_Groups scoped \<noteq> []" using assms(4) by auto
  ultimately show ?thesis using accepted_precedes [OF assms(1,2) _ assms(3)] by blast
qed



definition withoutAdvice :: "Plan \<Rightarrow> Plan" where
  "withoutAdvice plan = plan\<lparr>pl_Feasibility := pl_Feasibility zeroPlan, pl_ObservedDuration := 0, pl_GroupEstimates := [],
     pl_EstimateConfidence := pl_EstimateConfidence zeroPlan\<rparr>"

lemma controlPlane_estimated:
  "controlPlaneDiagnostics sc (estimatedPlan sc history plan) = controlPlaneDiagnostics sc plan"
  by (simp add: controlPlaneDiagnostics_def controlPlaneWaves_def)

lemma estimated_advice: "withoutAdvice (estimatedPlan sc history plan) = withoutAdvice (estimatedPlan sc history' plan)"
proof -
  have "withoutAdvice (estimatedPlan sc history plan) = withoutAdvice (plan\<lparr>pl_PowerDomains := powerDomainArtifacts (si_PowerDomains sc)\<rparr>)" for history
    by (simp add: estimatedPlan_def applyGroupEstimates_def withoutAdvice_def Let_def split: option.splits)
  then show ?thesis by simp
qed

lemma hash_advice:
  "withoutAdvice (fst (hashPlan h sc p)) = fst (hashPlan h sc (withoutAdvice p))" "snd (hashPlan h sc p) = snd (hashPlan h sc (withoutAdvice p))"
  by (simp_all add: hashPlan_def withoutAdvice_def Let_def split: sum.splits)

lemma publish_advice:
  "withoutAdvice (fst (publishPlan h index sc t (estimatedPlan sc history plan))) =
   withoutAdvice (fst (publishPlan h index sc t' (estimatedPlan sc history' plan)))"
  "snd (publishPlan h index sc t (estimatedPlan sc history plan)) = snd (publishPlan h index sc t' (estimatedPlan sc history' plan))"
proof -
  define dress :: "Plan \<Rightarrow> Plan" where "dress = (\<lambda>p. p\<lparr>pl_CommunicationBudget := communicationBudget index sc,
      pl_BlockedNodes := blockedNodesFromInversions (detectTierInversions sc),
      pl_Explanations := graphExplanations (pl_Graph p) (length (pl_Waves p)) (length (pl_StartupWaves p)) @ communicationExplanations index sc,
      pl_Diagrams := renderDiagramExports (pl_Graph p)\<rparr>)"
  have "publishPlan h index sc t p = hashPlan h sc ((dress p)\<lparr>pl_Feasibility := advisoryFeasibility t (si_DeviceCapabilities sc)\<rparr>)" for t p
    by (simp add: publishPlan_def dress_def)
  moreover have "withoutAdvice ((dress p)\<lparr>pl_Feasibility := f\<rparr>) = dress (withoutAdvice p)" for p f
    by (simp add: withoutAdvice_def dress_def)
  ultimately have "withoutAdvice (fst (publishPlan h index sc t p)) = fst (hashPlan h sc (dress (withoutAdvice p)))"
    "snd (publishPlan h index sc t p) = snd (hashPlan h sc (dress (withoutAdvice p)))" for t p
    by (metis hash_advice(1), metis hash_advice(2))
  then show "withoutAdvice (fst (publishPlan h index sc t (estimatedPlan sc history plan))) =
      withoutAdvice (fst (publishPlan h index sc t' (estimatedPlan sc history' plan)))"
    "snd (publishPlan h index sc t (estimatedPlan sc history plan)) = snd (publishPlan h index sc t' (estimatedPlan sc history' plan))"
    using estimated_advice [of sc history plan history'] by simp_all
qed

text \<open>C35. Plan identity: telemetry and execution history change neither the diagnostics nor the
  decision nor the hashes, the waves, the steps or any other structural part of the plan, only the
  feasibility advice and the estimates published beside it.\<close>

theorem identity_ignores_advice:
  "map_option (\<lambda>(ds, r). (ds, map_sum id withoutAdvice r)) (CompileWithHistory h structural telemetry history) =
   map_option (\<lambda>(ds, r). (ds, map_sum id withoutAdvice r)) (CompileWithHistory h structural telemetry' history')"
proof (cases "scopedInputs h structural")
  case None
  then show ?thesis by (auto simp: CompileWithHistory_def scopedInputs_def split: sum.splits)
next
  case (Some p)
  obtain index scoped sds where sc: "scopedInputs h structural = Some (index, scoped, sds)" using Some by (cases p) auto
  show ?thesis unfolding compile_unfold [OF sc] controlPlane_estimated Let_def case_prod_beta
    using publish_advice [of h index scoped telemetry history _ telemetry' history'] by (auto split: option.splits)
qed

section \<open>An example flow\<close>

definition example_hashes :: planHashes where
  "example_hashes = \<lparr>ph_trigger = (\<lambda>t. Inr (tr_Type t)), ph_structural = (\<lambda>s. Inr (concat (map g_Name (si_Groups s)))),
     ph_plan = (\<lambda>(s, steps, _). Inr (concat (map cst_ID steps)))\<rparr>"

definition example_group :: "string \<Rightarrow> int \<Rightarrow> Group" where
  "example_group name tier = zeroGroup\<lparr>g_Name := name, g_ShutdownTier := Some tier, g_Timeout := 1\<rparr>"

definition example_inputs :: StructuralInputs where
  "example_inputs = zeroInputs\<lparr>
     si_Triggers := [zeroTrigger\<lparr>tr_Type := ''OnBattery''\<rparr>],
     si_Groups := [example_group ''d'' 1, example_group ''c'' 1, example_group ''b'' 1, example_group ''a'' 2],
     si_PowerDomains := [\<lparr>pm_Name = ''p'', pm_UPSDevices = [''u''], pm_Members = [], pm_Nodes = [''w'', ''x'', ''y''], pm_Infrastructure = []\<rparr>],
     si_CommunicationDependencies := [\<lparr>cd_Dependent = ''y'', cd_Carrier = ''w'', cd_Source = ''s''\<rparr>],
     si_GroupNodes := map (\<lambda>(k, acts, rels). \<lparr>gn_Group = k, gn_Unresolved = False, gn_Acts = acts, gn_Releases = rels\<rparr>)
       [(''a'', [''x''], []), (''b'', [''y''], []), (''c'', [], [''x'']), (''d'', [], [''w''])]\<rparr>"

lemma compile_run:
  "map_option (\<lambda>(ds, r). map_sum (\<lambda>_. map Reason ds) (\<lambda>p. map w_Groups (pl_Waves p)) r)
     (CompileWithHistory example_hashes example_inputs \<lparr>ti_PowerDomains = []\<rparr> []) = Some (Inr [[''a''], [''b'', ''c''], [''d'']])"
  by code_simp

definition example_plan :: Plan where
  "example_plan = (case CompileWithHistory example_hashes example_inputs \<lparr>ti_PowerDomains = []\<rparr> [] of
     Some (_, Inr p) \<Rightarrow> p | _ \<Rightarrow> zeroPlan)"

definition example_scoped :: StructuralInputs where
  "example_scoped = (case scopedInputs example_hashes example_inputs of Some (_, s, _) \<Rightarrow> s | None \<Rightarrow> zeroInputs)"

lemma example_compiled:
  "\<exists>ds. CompileWithHistory example_hashes example_inputs \<lparr>ti_PowerDomains = []\<rparr> [] = Some (ds, Inr example_plan)"
  "map w_Groups (pl_Waves example_plan) = [[''a''], [''b'', ''c''], [''d'']]"
proof -
  obtain ds r where c: "CompileWithHistory example_hashes example_inputs \<lparr>ti_PowerDomains = []\<rparr> [] = Some (ds, r)"
    using compile_run by (cases "CompileWithHistory example_hashes example_inputs \<lparr>ti_PowerDomains = []\<rparr> []") auto
  then obtain p where r: "r = Inr p" using compile_run by (cases r) auto
  then have "example_plan = p" using c by (simp add: example_plan_def)
  then show "\<exists>ds. CompileWithHistory example_hashes example_inputs \<lparr>ti_PowerDomains = []\<rparr> [] = Some (ds, Inr example_plan)"
    "map w_Groups (pl_Waves example_plan) = [[''a''], [''b'', ''c''], [''d'']]" using c r compile_run by auto
qed

lemma example_scope_run:
  "map_option (\<lambda>(_, s, _). (map (\<lambda>g. (g_Name g, g_ShutdownTier g)) (si_Groups s),
       map (\<lambda>m. (gn_Group m, gn_Acts m, gn_Releases m)) (si_GroupNodes s),
       map (\<lambda>d. (cd_Carrier d, cd_Dependent d)) (si_CommunicationDependencies s), effectiveShutdownTiers (si_Groups s) (si_TierPolicy s)))
     (scopedInputs example_hashes example_inputs) =
   Some ([(''a'', Some 2), (''b'', Some 1), (''c'', Some 1), (''d'', Some 1)],
     [(''a'', [''x''], []), (''b'', [''y''], []), (''c'', [], [''x'']), (''d'', [], [''w''])], [(''w'', ''y'')],
     [(''a'', 2), (''b'', 1), (''c'', 1), (''d'', 1)])"
  by code_simp

lemma example_scope:
  "\<exists>index sds. scopedInputs example_hashes example_inputs = Some (index, example_scoped, sds)"
  "map (\<lambda>g. (g_Name g, g_ShutdownTier g)) (si_Groups example_scoped) = [(''a'', Some 2), (''b'', Some 1), (''c'', Some 1), (''d'', Some 1)]"
  "map (\<lambda>m. (gn_Group m, gn_Acts m, gn_Releases m)) (si_GroupNodes example_scoped) =
     [(''a'', [''x''], []), (''b'', [''y''], []), (''c'', [], [''x'']), (''d'', [], [''w''])]"
  "map (\<lambda>d. (cd_Carrier d, cd_Dependent d)) (si_CommunicationDependencies example_scoped) = [(''w'', ''y'')]"
  "effectiveShutdownTiers (si_Groups example_scoped) (si_TierPolicy example_scoped) = [(''a'', 2), (''b'', 1), (''c'', 1), (''d'', 1)]"
proof -
  obtain index s sds where c: "scopedInputs example_hashes example_inputs = Some (index, s, sds)"
    using example_scope_run by (cases "scopedInputs example_hashes example_inputs") auto
  then have s: "s = example_scoped" by (simp add: example_scoped_def)
  show "\<exists>index sds. scopedInputs example_hashes example_inputs = Some (index, example_scoped, sds)" using c s by blast
  show "map (\<lambda>g. (g_Name g, g_ShutdownTier g)) (si_Groups example_scoped) = [(''a'', Some 2), (''b'', Some 1), (''c'', Some 1), (''d'', Some 1)]"
    "map (\<lambda>m. (gn_Group m, gn_Acts m, gn_Releases m)) (si_GroupNodes example_scoped) =
     [(''a'', [''x''], []), (''b'', [''y''], []), (''c'', [], [''x'']), (''d'', [], [''w''])]"
    "map (\<lambda>d. (cd_Carrier d, cd_Dependent d)) (si_CommunicationDependencies example_scoped) = [(''w'', ''y'')]"
    "effectiveShutdownTiers (si_Groups example_scoped) (si_TierPolicy example_scoped) = [(''a'', 2), (''b'', 1), (''c'', 1), (''d'', 1)]"
    using example_scope_run unfolding c by (simp_all only: option.map prod.case option.inject prod.inject s)
qed

lemma example_names: "map g_Name (si_Groups example_scoped) = [''a'', ''b'', ''c'', ''d'']" "g_Name ` set (si_Groups example_scoped) = {''a'', ''b'', ''c'', ''d''}"
proof -
  have "map g_Name (si_Groups example_scoped) = map fst (map (\<lambda>g. (g_Name g, g_ShutdownTier g)) (si_Groups example_scoped))" by simp
  also have "\<dots> = [''a'', ''b'', ''c'', ''d'']" by (simp only: example_scope(2) list.map fst_conv)
  finally show n: "map g_Name (si_Groups example_scoped) = [''a'', ''b'', ''c'', ''d'']" .
  show "g_Name ` set (si_Groups example_scoped) = {''a'', ''b'', ''c'', ''d''}" using arg_cong [OF n, of set] by simp
qed

lemma example_inj: "inj_on safeGraphID (g_Name ` set (si_Groups example_scoped))"
  unfolding example_names by (simp add: inj_on_def safeGraphID_def graph_alnum_def utf8_continuation_def)



section \<open>Witnesses and further properties\<close>


lemma higher_tiers_first_witness: "precedes (map w_Groups (pl_Waves example_plan)) ''a'' ''b''"
proof -
  obtain index sds where sc: "scopedInputs example_hashes example_inputs = Some (index, example_scoped, sds)" using example_scope(1) by blast
  obtain ds where c: "CompileWithHistory example_hashes example_inputs \<lparr>ti_PowerDomains = []\<rparr> [] = Some (ds, Inr example_plan)"
    using example_compiled(1) by blast
  have "''a'' \<in> g_Name ` set (si_Groups example_scoped)" "''b'' \<in> g_Name ` set (si_Groups example_scoped)" by (simp_all add: example_names)
  then obtain x y where xy: "x \<in> set (si_Groups example_scoped)" "g_Name x = ''a''" "y \<in> set (si_Groups example_scoped)" "g_Name y = ''b''"
    by (metis imageE)
  show ?thesis using higher_tiers_first [OF sc c example_inj xy(1,3), of 2 1] xy(2,4) by (simp add: example_scope(5))
qed











text \<open>Feasibility is never optimistic: the advice is OK exactly when telemetry is present, no
  snapshot is stale or incomplete, and no device reports a static runtime estimate.\<close>

theorem feasibility_never_optimistic:
  "fe_Verdict (advisoryFeasibility telemetry devices) = FeasibilityAdvisoryOK \<longleftrightarrow>
     ti_PowerDomains telemetry \<noteq> [] \<and> \<not> (\<exists>s \<in> set (ti_PowerDomains telemetry). snapshotIncomplete s) \<and>
     \<not> (\<exists>d \<in> set devices. dc_RuntimeEstimate d = RuntimeEstimateStatic)"
  by (auto simp: advisoryFeasibility_def firstStaticRuntimeEstimate_def FeasibilityAdvisoryOK_def FeasibilityAdvisoryUnknown_def
      list_ex_iff find_None_iff find_Some_iff split: option.splits)



end
