(* ===== verification/GoFloat.thy ===== *)
theory GoFloat
  imports Complex_Main GoTime
begin

text \<open>
  IEEE 754 binary64 arithmetic as Go's \<open>float64\<close> has it.  A finite value is the rational it
  stands for, so addition, multiplication and division are the exact rational operation followed by
  rounding to the nearest representable value, ties to even, with the gradual underflow and overflow
  of the format.  The two zeros are one value; the sources never divide by a zero and never look at
  its sign.  Converting a value outside of the range to \<open>int64\<close> is left to the implementation by
  the language; the model has the amd64 result.
\<close>

section \<open>Rounding\<close>

definition pow2 :: "int \<Rightarrow> rat" where
  "pow2 e = (if 0 \<le> e then of_int (2 ^ nat e) else 1 / of_int (2 ^ nat (- e)))"

definition ilog2 :: "rat \<Rightarrow> int" where
  "ilog2 x =
     (case quotient_of x of (p, q) \<Rightarrow>
        let k = int (bitLength p) - int (bitLength q) in if pow2 k \<le> x then k else k - 1)"

definition roundEven :: "rat \<Rightarrow> int" where
  "roundEven x =
     (let q = \<lfloor>x\<rfloor>; r = x - of_int q in if r > 1 / 2 \<or> (r = 1 / 2 \<and> odd q) then q + 1 else q)"

definition ulp :: "rat \<Rightarrow> rat" where
  "ulp x = pow2 (max (ilog2 \<bar>x\<bar> - 52) (- 1074))"

definition round64 :: "rat \<Rightarrow> rat" where
  "round64 x = (if x = 0 then 0 else of_int (roundEven (x / ulp x)) * ulp x)"

section \<open>Values and operations\<close>

datatype float64 = Finite rat | Infinite bool | NotANumber

definition fromRat :: "rat \<Rightarrow> float64" where
  "fromRat x = (let r = round64 x in if r \<noteq> 0 \<and> ilog2 \<bar>r\<bar> \<ge> 1024 then Infinite (r < 0) else Finite r)"

definition fromInt :: "int \<Rightarrow> float64" where
  "fromInt i = fromRat (of_int i)"

fun fneg :: "float64 \<Rightarrow> float64" where
  "fneg (Finite x) = Finite (- x)"
| "fneg (Infinite s) = Infinite (\<not> s)"
| "fneg NotANumber = NotANumber"

fun fadd :: "float64 \<Rightarrow> float64 \<Rightarrow> float64" where
  "fadd (Finite x) (Finite y) = fromRat (x + y)"
| "fadd (Infinite s) (Finite y) = Infinite s"
| "fadd (Finite x) (Infinite s) = Infinite s"
| "fadd (Infinite s) (Infinite t) = (if s = t then Infinite s else NotANumber)"
| "fadd NotANumber y = NotANumber"
| "fadd x NotANumber = NotANumber"

definition fsub :: "float64 \<Rightarrow> float64 \<Rightarrow> float64" where
  "fsub x y = fadd x (fneg y)"

fun fmul :: "float64 \<Rightarrow> float64 \<Rightarrow> float64" where
  "fmul (Finite x) (Finite y) = fromRat (x * y)"
| "fmul (Infinite s) (Finite y) = (if y = 0 then NotANumber else Infinite (s \<noteq> (y < 0)))"
| "fmul (Finite x) (Infinite s) = (if x = 0 then NotANumber else Infinite (s \<noteq> (x < 0)))"
| "fmul (Infinite s) (Infinite t) = Infinite (s \<noteq> t)"
| "fmul NotANumber y = NotANumber"
| "fmul x NotANumber = NotANumber"

fun fdiv :: "float64 \<Rightarrow> float64 \<Rightarrow> float64" where
  "fdiv (Finite x) (Finite y) = (if y = 0 then (if x = 0 then NotANumber else Infinite (x < 0)) else fromRat (x / y))"
| "fdiv (Infinite s) (Finite y) = Infinite (s \<noteq> (y < 0))"
| "fdiv (Finite x) (Infinite s) = Finite 0"
| "fdiv (Infinite s) (Infinite t) = NotANumber"
| "fdiv NotANumber y = NotANumber"
| "fdiv x NotANumber = NotANumber"

fun fless :: "float64 \<Rightarrow> float64 \<Rightarrow> bool" where
  "fless (Finite x) (Finite y) \<longleftrightarrow> x < y"
| "fless (Infinite s) (Finite y) \<longleftrightarrow> s"
| "fless (Finite x) (Infinite s) \<longleftrightarrow> \<not> s"
| "fless (Infinite s) (Infinite t) \<longleftrightarrow> s \<and> \<not> t"
| "fless NotANumber y \<longleftrightarrow> False"
| "fless x NotANumber \<longleftrightarrow> False"

fun fleq :: "float64 \<Rightarrow> float64 \<Rightarrow> bool" where
  "fleq (Finite x) (Finite y) \<longleftrightarrow> x \<le> y"
| "fleq (Infinite s) (Finite y) \<longleftrightarrow> s"
| "fleq (Finite x) (Infinite s) \<longleftrightarrow> \<not> s"
| "fleq (Infinite s) (Infinite t) \<longleftrightarrow> s \<or> \<not> t"
| "fleq NotANumber y \<longleftrightarrow> False"
| "fleq x NotANumber \<longleftrightarrow> False"

definition truncRat :: "rat \<Rightarrow> int" where
  "truncRat x = (if 0 \<le> x then \<lfloor>x\<rfloor> else \<lceil>x\<rceil>)"

fun toInt64 :: "float64 \<Rightarrow> int" where
  "toInt64 (Finite x) = (if int64 (truncRat x) then truncRat x else - (2 ^ 63))"
| "toInt64 (Infinite s) = - (2 ^ 63)"
| "toInt64 NotANumber = - (2 ^ 63)"

text \<open>The verb \<open>%.2f\<close>.\<close>

fun fixed2 :: "float64 \<Rightarrow> string" where
  "fixed2 (Finite x) =
     (let n = roundEven (\<bar>x\<bar> * 100) in (if x < 0 then ''-'' else '''') @ show_digits (n div 100) @ ''.'' @ padDigits 2 (n mod 100))"
| "fixed2 (Infinite s) = (if s then ''-Inf'' else ''+Inf'')"
| "fixed2 NotANumber = ''NaN''"

section \<open>Rounding is monotone and bounded\<close>

lemma pow2_pos [simp]: "0 < pow2 e"
  by (simp add: pow2_def)

lemma pow2_add: "pow2 (a + b) = pow2 a * pow2 b"
proof -
  have "pow2 e = 2 powi e" for e
    by (simp only: pow2_def power_int_def power_inverse inverse_eq_divide power_one_over of_int_power of_int_numeral)
  then show ?thesis by (simp add: power_int_add)
qed

lemma pow2_mono: "a \<le> b \<Longrightarrow> pow2 a \<le> pow2 b"
proof -
  assume "a \<le> b"
  then have "pow2 b = pow2 a * 2 ^ nat (b - a)" using pow2_add [of a "b - a"] by (simp add: pow2_def)
  moreover have "(1::rat) \<le> 2 ^ nat (b - a)" by simp
  ultimately show ?thesis by (metis mult.right_neutral mult_left_mono less_imp_le pow2_pos)
qed

lemma pow2_Suc: "pow2 (e + 1) = 2 * pow2 e"
  using pow2_add [of e 1] by (simp add: pow2_def [of 1])

lemma pow2_multiple: "a \<le> b \<Longrightarrow> \<exists>n::int. pow2 b = of_int n * pow2 a \<and> 0 < n"
proof -
  assume "a \<le> b"
  then have "pow2 b = of_int (2 ^ nat (b - a)) * pow2 a" using pow2_add [of "b - a" a] by (simp add: pow2_def)
  then show ?thesis by (intro exI [of _ "2 ^ nat (b - a)"]) simp
qed

lemma bitLength_bounds: "0 < n \<Longrightarrow> 2 ^ (bitLength n - 1) \<le> n \<and> n < 2 ^ bitLength n \<and> 0 < bitLength n"
proof (induction n rule: bitLength.induct)
  case (1 n)
  show ?case
  proof (cases "n = 1")
    case True
    then show ?thesis by (simp add: bitLength.simps [of 1] bitLength.simps [of 0])
  next
    case False
    then have n: "1 < n" using 1(2) by simp
    then have ih: "2 ^ (bitLength (n div 2) - 1) \<le> n div 2 \<and> n div 2 < 2 ^ bitLength (n div 2) \<and> 0 < bitLength (n div 2)"
      using 1(1) by simp
    have b: "bitLength n = Suc (bitLength (n div 2))" using n by (subst bitLength.simps) simp
    obtain k where k: "bitLength (n div 2) = Suc k" using ih by (cases "bitLength (n div 2)") auto
    show ?thesis using ih by (simp add: b k) linarith
  qed
qed

lemma bitLength_rat_bounds:
  assumes "0 < n"
  shows "(2::rat) ^ (bitLength n - 1) \<le> of_int n" "of_int n < (2::rat) ^ bitLength n" "0 < bitLength n"
proof -
  have "of_int (2 ^ (bitLength n - 1)) \<le> (of_int n :: rat)" "(of_int n :: rat) < of_int (2 ^ bitLength n)"
    using bitLength_bounds [OF assms] by (simp_all only: of_int_le_iff of_int_less_iff)
  then show "(2::rat) ^ (bitLength n - 1) \<le> of_int n" "of_int n < (2::rat) ^ bitLength n" by simp_all
  show "0 < bitLength n" using bitLength_bounds [OF assms] by simp
qed

lemma pow2_nat: "pow2 (int n) = 2 ^ n"
  by (simp add: pow2_def)

lemma pow2_diff: "pow2 (int a - int b) = 2 ^ a / 2 ^ b"
proof -
  have "pow2 (int a) = pow2 (int a - int b) * pow2 (int b)" using pow2_add [of "int a - int b" "int b"] by simp
  then show ?thesis by (simp add: pow2_nat)
qed

lemma ilog2_bounds:
  assumes x: "0 < x"
  shows "pow2 (ilog2 x) \<le> x \<and> x < pow2 (ilog2 x + 1)"
proof -
  obtain p q where pq: "quotient_of x = (p, q)" by (rule prod.exhaust)
  have q: "0 < q" by (rule quotient_of_denom_pos [OF pq])
  have xe: "x = of_int p / of_int q" by (rule quotient_of_div [OF pq])
  have p: "0 < p" using x q xe by (simp add: zero_less_divide_iff)
  define P Q :: rat where "P = of_int p" and "Q = of_int q"
  define a b where "a = bitLength p" and "b = bitLength q"
  have bp: "2 ^ (a - 1) \<le> P" "P < 2 ^ a" "0 < a" using bitLength_rat_bounds [OF p] unfolding P_def a_def by blast+
  have bq: "2 ^ (b - 1) \<le> Q" "Q < 2 ^ b" "0 < b" using bitLength_rat_bounds [OF q] unfolding Q_def b_def by blast+
  have PQ: "0 < P" "0 < Q" using p q by (simp_all add: P_def Q_def)
  have xq: "x = P / Q" using xe by (simp only: P_def Q_def)
  have up: "x < pow2 (int a - int b + 1)"
  proof -
    have "x < 2 ^ a / 2 ^ (b - 1)" unfolding xq by (rule frac_less) (use bp bq PQ in \<open>simp_all add: less_imp_le\<close>)
    also have "\<dots> = pow2 (int a - int (b - 1))" by (rule pow2_diff [symmetric])
    also have "int a - int (b - 1) = int a - int b + 1" using bq(3) by simp
    finally show ?thesis .
  qed
  have lo: "pow2 (int a - int b - 1) \<le> x"
  proof -
    have "int a - int b - 1 = int (a - 1) - int b" using bp(3) by simp
    then have "pow2 (int a - int b - 1) = 2 ^ (a - 1) / 2 ^ b" by (simp only: pow2_diff)
    also have "\<dots> \<le> P / Q" by (rule frac_le) (use bp bq PQ in \<open>simp_all add: less_imp_le\<close>)
    finally show ?thesis by (simp only: xq)
  qed
  have "ilog2 x = (if pow2 (int a - int b) \<le> x then int a - int b else int a - int b - 1)"
    by (simp only: ilog2_def pq Let_def prod.case a_def b_def)
  then show ?thesis using up lo by (cases "pow2 (int a - int b) \<le> x") (simp_all only: if_True if_False diff_add_cancel not_le)
qed

lemma roundEven_of_int [simp]: "roundEven (of_int n) = n"
  by (simp add: roundEven_def Let_def)

lemma roundEven_bounds: "\<lfloor>x\<rfloor> \<le> roundEven x \<and> roundEven x \<le> \<lfloor>x\<rfloor> + 1"
  by (simp add: roundEven_def Let_def)

lemma roundEven_near: "\<bar>of_int (roundEven x) - x\<bar> \<le> 1 / 2"
proof -
  define q r where "q = \<lfloor>x\<rfloor>" and "r = x - of_int \<lfloor>x\<rfloor>"
  have "0 \<le> r" "r < 1" "x = of_int q + r" by (simp_all add: q_def r_def) linarith
  moreover have "roundEven x = (if r > 1 / 2 \<or> (r = 1 / 2 \<and> odd q) then q + 1 else q)"
    by (simp add: roundEven_def Let_def q_def r_def)
  ultimately show ?thesis by (auto simp: abs_if split: if_splits)
qed

lemma roundEven_mono: "x \<le> y \<Longrightarrow> roundEven x \<le> roundEven y"
proof (rule ccontr)
  assume le: "x \<le> y" and "\<not> roundEven x \<le> roundEven y"
  then have lt: "roundEven y + 1 \<le> roundEven x" by simp
  have nx: "of_int (roundEven x) - x \<le> 1 / 2" and ny: "y - of_int (roundEven y) \<le> 1 / 2"
    using roundEven_near [of x] roundEven_near [of y] by linarith+
  have "of_int (roundEven y) + 1 \<le> (of_int (roundEven x) :: rat)" using lt by (metis of_int_1 of_int_add of_int_le_iff)
  then have "x = y" using nx ny le by linarith
  then show False using lt by simp
qed

lemma roundEven_le_int: "x \<le> of_int n \<Longrightarrow> roundEven x \<le> n"
  using roundEven_mono [of x "of_int n"] by simp

lemma roundEven_ge_int: "of_int n \<le> x \<Longrightarrow> n \<le> roundEven x"
  using roundEven_mono [of "of_int n" x] by simp

lemma ulp_pos [simp]: "0 < ulp x"
  by (simp add: ulp_def)

lemma ulp_nonzero [simp]: "ulp x \<noteq> 0"
  using ulp_pos [of x] by linarith

lemma abs_ulp [simp]: "\<bar>ulp x\<bar> = ulp x"
  using ulp_pos [of x] by linarith

lemma round64_scaled: "x \<noteq> 0 \<Longrightarrow> round64 x = of_int (roundEven (x / ulp x)) * ulp x"
  by (simp add: round64_def)

lemma round64_0 [simp]: "round64 0 = 0"
  by (simp add: round64_def)

lemma round64_nonneg: "0 \<le> x \<Longrightarrow> 0 \<le> round64 x"
proof (cases "x = 0")
  case False
  assume "0 \<le> x"
  then have "of_int 0 \<le> x / ulp x" by (simp add: less_imp_le [OF ulp_pos])
  then have "0 \<le> roundEven (x / ulp x)" by (rule roundEven_ge_int)
  then show ?thesis using False by (simp add: round64_scaled less_imp_le [OF ulp_pos])
qed simp

text \<open>Multiples of the spacing bound the rounded value.\<close>

lemma round64_le_multiple: "x \<noteq> 0 \<Longrightarrow> x \<le> of_int n * ulp x \<Longrightarrow> round64 x \<le> of_int n * ulp x"
proof -
  assume "x \<noteq> 0" and "x \<le> of_int n * ulp x"
  then have "roundEven (x / ulp x) \<le> n" by (intro roundEven_le_int) (simp add: pos_divide_le_eq)
  then have "(of_int (roundEven (x / ulp x)) :: rat) \<le> of_int n" by (simp only: of_int_le_iff)
  then show ?thesis using \<open>x \<noteq> 0\<close> by (simp add: round64_scaled mult_right_mono less_imp_le [OF ulp_pos])
qed

lemma round64_ge_multiple: "x \<noteq> 0 \<Longrightarrow> of_int n * ulp x \<le> x \<Longrightarrow> of_int n * ulp x \<le> round64 x"
proof -
  assume "x \<noteq> 0" and "of_int n * ulp x \<le> x"
  then have "n \<le> roundEven (x / ulp x)" by (intro roundEven_ge_int) (simp add: pos_le_divide_eq)
  then have "(of_int n :: rat) \<le> of_int (roundEven (x / ulp x))" by (simp only: of_int_le_iff)
  then show ?thesis using \<open>x \<noteq> 0\<close> by (simp add: round64_scaled mult_right_mono less_imp_le [OF ulp_pos])
qed

lemma round64_multiple: "x \<noteq> 0 \<Longrightarrow> x = of_int n * ulp x \<Longrightarrow> round64 x = x"
  using round64_le_multiple [of x n] round64_ge_multiple [of x n] by simp

lemma round64_near: "\<bar>round64 x - x\<bar> \<le> ulp x / 2"
proof (cases "x = 0")
  case False
  have "round64 x - x = (of_int (roundEven (x / ulp x)) - x / ulp x) * ulp x"
    using False ulp_pos [of x] by (simp add: round64_scaled left_diff_distrib)
  then have "\<bar>round64 x - x\<bar> = \<bar>of_int (roundEven (x / ulp x)) - x / ulp x\<bar> * ulp x"
    by (simp add: abs_mult)
  also have "\<dots> \<le> 1 / 2 * ulp x" by (rule mult_right_mono [OF roundEven_near]) (simp add: less_imp_le)
  finally show ?thesis by simp
qed (simp add: less_imp_le)

lemma pow2_less_cancel: "pow2 a < pow2 b \<Longrightarrow> a < b"
  using pow2_mono [of b a] by linarith

lemma ilog2_mono: "0 < x \<Longrightarrow> x \<le> y \<Longrightarrow> ilog2 x \<le> ilog2 y"
proof -
  assume "0 < x" and "x \<le> y"
  then have "pow2 (ilog2 x) < pow2 (ilog2 y + 1)" using ilog2_bounds [of x] ilog2_bounds [of y] by linarith
  then show ?thesis using pow2_less_cancel by fastforce
qed

lemma ilog2_unique: "pow2 k \<le> x \<Longrightarrow> x < pow2 (k + 1) \<Longrightarrow> ilog2 x = k"
proof -
  assume "pow2 k \<le> x" and "x < pow2 (k + 1)"
  moreover from this have "0 < x" using pow2_pos [of k] by linarith
  ultimately have "pow2 k < pow2 (ilog2 x + 1)" "pow2 (ilog2 x) < pow2 (k + 1)" using ilog2_bounds [of x] by linarith+
  then have "k < ilog2 x + 1" "ilog2 x < k + 1" by (blast intro: pow2_less_cancel)+
  then show ?thesis by simp
qed

lemma ulp_mono: "0 < x \<Longrightarrow> x \<le> y \<Longrightarrow> ulp x \<le> ulp y"
  unfolding ulp_def by (intro pow2_mono) (use ilog2_mono [of x y] in auto)

lemma round64_mono:
  assumes "0 \<le> x" and "x \<le> y"
  shows "round64 x \<le> round64 y"
proof (cases "x = 0")
  case True
  then show ?thesis using assms round64_nonneg [of y] by simp
next
  case False
  then have x: "0 < x" and y: "0 < y" using assms by linarith+
  show ?thesis
  proof (cases "ulp x = ulp y")
    case True
    have "x / ulp y \<le> y / ulp y" using assms(2) by (intro divide_right_mono) (simp_all add: less_imp_le)
    then have "(of_int (roundEven (x / ulp y)) :: rat) \<le> of_int (roundEven (y / ulp y))"
      by (simp only: of_int_le_iff roundEven_mono)
    then show ?thesis using x y by (simp add: round64_scaled True mult_right_mono less_imp_le)
  next
    case False
    let ?k = "ilog2 y"
    have "ilog2 x \<noteq> ?k" using False x y by (auto simp: ulp_def)
    then have k: "ilog2 x < ?k" "- 1074 < ?k - 52" "max (ilog2 x - 52) (- 1074) \<le> ?k"
      using False ilog2_mono [OF x assms(2)] x y by (auto simp: ulp_def max_def split: if_splits)
    obtain n where n: "pow2 ?k = of_int n * ulp x" using pow2_multiple [OF k(3)] x by (auto simp: ulp_def)
    have "x < pow2 (ilog2 x + 1)" using ilog2_bounds [OF x] by simp
    also have "\<dots> \<le> pow2 ?k" using k(1) by (intro pow2_mono) simp
    finally have 1: "round64 x \<le> pow2 ?k" using round64_le_multiple [of x n] x n by simp
    have "ulp y = pow2 (?k - 52)" using k(2) y by (simp add: ulp_def max_def)
    moreover obtain m where "pow2 ?k = of_int m * pow2 (?k - 52)" using pow2_multiple [of "?k - 52" ?k] by auto
    ultimately have "pow2 ?k \<le> round64 y" using round64_ge_multiple [of y m] ilog2_bounds [OF y] y by simp
    with 1 show ?thesis by simp
  qed
qed

lemma round64_pow2: "- 1022 \<le> k \<Longrightarrow> round64 (pow2 k) = pow2 k"
proof -
  assume k: "- 1022 \<le> k"
  have l: "ilog2 (pow2 k) = k" by (rule ilog2_unique) (simp_all add: pow2_Suc)
  then have "ulp (pow2 k) = pow2 (k - 52)" using k by (cases "k = - 1022") (simp_all add: ulp_def max_def abs_of_pos)
  moreover obtain m where "pow2 k = of_int m * pow2 (k - 52)" using pow2_multiple [of "k - 52" k] by auto
  moreover have "pow2 k \<noteq> 0" using pow2_pos [of k] by linarith
  ultimately show ?thesis using round64_multiple [of "pow2 k" m] by simp
qed

lemma pow2_numeral_simps: "pow2 53 = 9007199254740992" "pow2 (- 53) = 1 / 9007199254740992" "pow2 0 = 1" "pow2 (- 1) = 1 / 2"
  by (simp_all add: pow2_def)

lemma round64_int:
  assumes "0 \<le> n" and "n \<le> 2 ^ 53"
  shows "round64 (of_int n) = of_int n"
proof (cases "n = 0 \<or> n = 2 ^ 53")
  case True
  then show ?thesis using round64_pow2 [of 53] by (auto simp: pow2_numeral_simps)
next
  case False
  then have n: "0 < n" "n < 2 ^ 53" using assms by auto
  then have x: "(0::rat) < of_int n" "(of_int n::rat) < pow2 53" by (simp_all add: pow2_numeral_simps)
  have "pow2 (ilog2 (of_int n)) < pow2 53" using ilog2_bounds [OF x(1)] x(2) by linarith
  then have "max (ilog2 (of_int n) - 52) (- 1074) \<le> 0" using pow2_less_cancel [of "ilog2 (of_int n)" 53] by simp
  then obtain m where "pow2 0 = of_int m * ulp (of_int n)" using pow2_multiple x(1) by (fastforce simp: ulp_def)
  then have "(of_int n :: rat) = of_int (n * m) * ulp (of_int n)" by (simp add: pow2_numeral_simps)
  then show ?thesis using round64_multiple [of "of_int n" "n * m"] n(1) by simp
qed

fun is_float :: "float64 \<Rightarrow> bool" where
  "is_float (Finite x) \<longleftrightarrow> round64 x = x \<and> (x = 0 \<or> ilog2 \<bar>x\<bar> < 1024)"
| "is_float (Infinite s) \<longleftrightarrow> True"
| "is_float NotANumber \<longleftrightarrow> True"

text \<open>The largest float below one is \<open>1 - 2^-53\<close>.\<close>

lemma float_below_one:
  assumes "0 \<le> c" and "round64 c = c" and "c < 1"
  shows "c \<le> 1 - pow2 (- 53)"
proof (cases "c < 1 / 2")
  case True
  then show ?thesis by (simp add: pow2_numeral_simps)
next
  case False
  have "ilog2 c = - 1" by (rule ilog2_unique) (use False assms(3) in \<open>simp_all add: pow2_numeral_simps\<close>)
  then have u: "ulp c = pow2 (- 53)" using assms(1) by (simp add: ulp_def)
  define n where "n = roundEven (c / ulp c)"
  have c: "c = of_int n * pow2 (- 53)" using assms(2) False by (simp add: round64_def n_def u split: if_splits)
  with assms(3) have "(of_int n :: rat) < of_int (2 ^ 53)" by (simp add: pow2_numeral_simps)
  then have "(of_int n :: rat) \<le> of_int (2 ^ 53 - 1)" by (simp only: of_int_less_iff of_int_le_iff)
  then show ?thesis by (simp add: c pow2_numeral_simps)
qed

text \<open>Multiplying an integer, rounded to a float, by a float below one never exceeds the integer, at
  any magnitude.\<close>

lemma scaled_below:
  assumes d: "0 < d" and c: "0 \<le> c" "round64 c = c" "c < 1"
  shows "round64 (round64 (of_int d) * c) \<le> of_int d"
proof (cases "d \<le> 2 ^ 53")
  case True
  then have "round64 (of_int d) = of_int d" using d round64_int [of d] by simp
  moreover have "round64 (of_int d * c) \<le> round64 (of_int d)"
    by (rule round64_mono) (use d c in \<open>simp_all add: mult_left_le\<close>)
  ultimately show ?thesis by simp
next
  case False
  define D F u x :: rat where "D = of_int d" and "F = round64 D" and "u = ulp D" and "x = F * c"
  let ?k = "ilog2 D"
  have D: "0 < D" "pow2 53 \<le> D"
    using d False of_int_le_iff [of "2 ^ 53" d, where ?'a = rat] by (simp_all add: D_def pow2_numeral_simps)
  have k: "53 \<le> ?k" using ilog2_mono [OF pow2_pos D(2)] ilog2_unique [of 53 "pow2 53"] pow2_Suc [of 53] pow2_pos [of 53] by simp
  have u: "u = pow2 (?k - 52)" using k D by (simp add: u_def ulp_def)
  have kb: "pow2 ?k \<le> D" "D < pow2 (?k + 1)" using ilog2_bounds [OF D(1)] by simp_all
  have Fk: "pow2 ?k \<le> F" using round64_mono [OF _ kb(1)] round64_pow2 [of ?k] k by (simp add: F_def less_imp_le)
  have half: "pow2 ?k * pow2 (- 53) = u / 2" using pow2_add [of ?k "- 53"] pow2_Suc [of "?k - 53"] by (simp add: u)
  have "x \<le> F * (1 - pow2 (- 53))"
    unfolding x_def using float_below_one [OF c] Fk pow2_pos [of ?k] by (intro mult_left_mono) linarith+
  then have x: "x \<le> F - F * pow2 (- 53)" by (simp add: right_diff_distrib)
  have F0: "0 < F" using Fk pow2_pos [of ?k] by linarith
  then have x0: "0 \<le> x" using c by (simp add: x_def)
  have near: "F - D \<le> u / 2" using round64_near [of D] unfolding F_def u_def by linarith
  have xF: "round64 x \<le> F"
  proof -
    have "x \<le> D" using x near half mult_right_mono [OF Fk less_imp_le [OF pow2_pos [of "- 53"]]] by linarith
    then show ?thesis using round64_mono [OF x0] by (simp add: F_def)
  qed
  show ?thesis
  proof (cases "F \<le> D")
    case True
    then show ?thesis using xF by (simp add: x_def F_def D_def)
  next
    case FD: False
    have strict: "x < F - u / 2" using x half mult_strict_right_mono [of "pow2 ?k" F "pow2 (- 53)", OF _ pow2_pos] FD kb by linarith
    show ?thesis
    proof (cases "x < pow2 ?k")
      case True
      then have "round64 x \<le> pow2 ?k" using round64_mono [OF x0, of "pow2 ?k"] round64_pow2 [of ?k] k by simp
      then show ?thesis using kb by (simp add: x_def F_def D_def)
    next
      case ge: False
      define n where "n = roundEven (D / u)"
      have F: "F = of_int n * u" using D by (simp add: F_def round64_scaled n_def u_def)
      have "x < pow2 (?k + 1)" using strict near kb u by linarith
      then have "ilog2 x = ?k" using ge by (intro ilog2_unique) simp_all
      then have ux: "ulp x = u" using x0 k by (simp add: ulp_def u)
      have u0: "0 < u" by (simp add: u_def)
      have "x / u < of_int n - 1 / 2" using strict u0 by (simp add: F pos_divide_less_eq left_diff_distrib)
      then have "roundEven (x / u) \<le> n - 1" using roundEven_near [of "x / u"] by linarith
      then have "(of_int (roundEven (x / u)) :: rat) \<le> of_int n - 1" by (metis of_int_1 of_int_diff of_int_le_iff)
      moreover have "x \<noteq> 0" using ge pow2_pos [of ?k] by linarith
      ultimately have "round64 x \<le> (of_int n - 1) * u" using u0 by (simp add: round64_scaled ux mult_right_mono less_imp_le)
      then have "round64 x \<le> F - u" by (simp add: F left_diff_distrib)
      then have "round64 x \<le> D" using near u0 by linarith
      then show ?thesis by (simp add: x_def F_def D_def)
    qed
  qed
qed

lemma round64_grid: "max (ilog2 \<bar>r\<bar> - 52) (- 1074) \<le> e \<Longrightarrow> r = of_int n * pow2 e \<Longrightarrow> round64 r = r"
proof (cases "r = 0")
  case False
  assume e: "max (ilog2 \<bar>r\<bar> - 52) (- 1074) \<le> e" and r: "r = of_int n * pow2 e"
  obtain m where "pow2 e = of_int m * ulp r" using pow2_multiple [OF e] by (auto simp: ulp_def)
  then have "r = of_int (n * m) * ulp r" using r by simp
  then show ?thesis by (rule round64_multiple [OF False])
qed simp

lemma round64_idem:
  assumes "0 \<le> x"
  shows "round64 (round64 x) = round64 x"
proof (cases "round64 x = 0")
  case False
  then have x: "0 < x" using assms by (cases "x = 0") auto
  define k e r n where "k = ilog2 x" and "e = max (k - 52) (- 1074)" and "r = round64 x" and "n = roundEven (x / ulp x)"
  have u: "ulp x = pow2 e" using x by (simp add: ulp_def e_def k_def)
  have r: "r = of_int n * pow2 e" using x by (simp add: r_def round64_scaled n_def u)
  have r0: "0 < r" using False round64_nonneg [OF assms] by (simp add: r_def)
  define K where "K = max (k + 1) (- 1074)"
  obtain m where m: "pow2 K = of_int m * pow2 e" using pow2_multiple [of e K] by (force simp: K_def e_def max_def)
  have "x \<le> pow2 K" using ilog2_bounds [OF x] pow2_mono [of "k + 1" K] by (simp add: K_def k_def)
  then have rK: "r \<le> pow2 K" using round64_le_multiple [of x m] x m u by (simp add: r_def)
  have kr: "ilog2 r \<le> K" using ilog2_mono [OF r0 rK] ilog2_unique [of K "pow2 K"] by (simp add: pow2_Suc)
  show ?thesis
  proof (cases "ilog2 r = K \<and> - 1022 \<le> K")
    case True
    then have "r = pow2 K" using ilog2_bounds [OF r0] rK by simp
    then show ?thesis using round64_pow2 [of K] True by (simp add: r_def)
  next
    case not: False
    have "max (ilog2 \<bar>r\<bar> - 52) (- 1074) \<le> e" using kr not r0 by (auto simp: K_def e_def)
    then show ?thesis using round64_grid r by (simp add: r_def)
  qed
qed simp

lemma round64_nonpos: "x \<le> 0 \<Longrightarrow> round64 x \<le> 0"
proof (cases "x = 0")
  case False
  assume "x \<le> 0"
  then have "x \<le> of_int 0 * ulp x" by simp
  then show ?thesis using round64_le_multiple [OF False, of 0] by simp
qed simp

lemma in_range: "0 \<le> y \<Longrightarrow> y \<le> pow2 63 \<Longrightarrow> y \<noteq> 0 \<Longrightarrow> ilog2 \<bar>y\<bar> < 1024"
  using ilog2_mono [of y "pow2 63"] ilog2_unique [of 63 "pow2 63"] pow2_Suc [of 63] by simp

lemma is_float_fromRat: "0 \<le> x \<Longrightarrow> is_float (fromRat x)"
  using round64_idem [of x] by (simp add: fromRat_def Let_def)

lemma fleq_Finite_cases: "fleq a (Finite y) \<or> fleq (Finite y) a \<or> a = NotANumber"
  by (cases a) auto

text \<open>Scaling a duration by a proper fraction stays between zero and the duration.\<close>

lemma toInt64_scaled:
  assumes "0 < d" and "int64 d" and "is_float (Finite c)" and "0 \<le> c" and "c < 1"
  shows "0 \<le> toInt64 (fmul (fromInt d) (Finite c)) \<and> toInt64 (fmul (fromInt d) (Finite c)) \<le> d"
proof -
  define y where "y = round64 (round64 (of_int d) * c)"
  have y: "y \<le> of_int d" unfolding y_def by (rule scaled_below) (use assms in auto)
  have y0: "0 \<le> y" unfolding y_def using assms round64_nonneg by simp
  have big: "(of_int d :: rat) \<le> pow2 63" using assms(2) of_int_less_iff [of d "2 ^ 63", where ?'a = rat]
    by (simp add: int64_def pow2_def)
  have "round64 (of_int d) \<le> pow2 63" using round64_mono [OF _ big] round64_pow2 [of 63] assms(1) by simp
  moreover have "0 \<le> round64 (of_int d)" using round64_nonneg assms(1) by simp
  ultimately have F: "fromInt d = Finite (round64 (of_int d))"
    using in_range [of "round64 (of_int d)"] by (auto simp: fromInt_def fromRat_def Let_def)
  have "y \<le> pow2 63" using y big by linarith
  then have Y: "fmul (fromInt d) (Finite c) = Finite y" using in_range [of y] y0 by (auto simp: F fromRat_def Let_def y_def)
  have "0 \<le> truncRat y \<and> truncRat y \<le> d" using y y0 by (simp add: truncRat_def floor_le_iff le_floor_iff)
  then show ?thesis using assms(2) by (simp add: Y int64_def)
qed

lemma fixed2_examples: "fixed2 (Finite (1 / 3)) = ''0.33''" "fixed2 (fromRat (1 / 10)) = ''0.10''" "fixed2 (Finite 1) = ''1.00''"
  by code_simp+

end
