(* ===== verification/Adaptive.thy ===== *)
theory Adaptive
  imports GoFloat
begin

text \<open>
  Adaptive execution, \<open>src/internal/adaptive\<close>: the tunables (\<open>parameters.go\<close>), the tier
  pointer (\<open>pointer.go\<close>) and the timing mode with its hysteresis and budget (\<open>timing.go\<close>).
  The package is pure; every method takes a state and returns the next one.  Fractions are
  \<open>float64\<close>, durations 64-bit nanoseconds, tiers 32-bit.  Modes and directions are the strings
  the package declares, because a zero-valued state has the empty mode.
\<close>

section \<open>Parameters\<close>

record Parameters =
  EscalateAfterObservations :: int
  RelaxAfterObservations :: int
  RelaxImprovementMargin :: float64
  UrgentRuntimeSeconds :: int
  NominalRuntimeSeconds :: int
  IdleCadence :: duration
  ActiveCadence :: duration
  ReserveFraction :: float64
  MinimumCompression :: float64
  AssumedRuntimeUnknown :: duration

definition second :: duration where
  "second = 1000000000"

definition DefaultParameters :: Parameters where
  "DefaultParameters =
     \<lparr>EscalateAfterObservations = 1, RelaxAfterObservations = 3, RelaxImprovementMargin = fromRat (10 / 100),
      UrgentRuntimeSeconds = 300, NominalRuntimeSeconds = 900, IdleCadence = 60 * second, ActiveCadence = 10 * second,
      ReserveFraction = fromRat (20 / 100), MinimumCompression = fromRat (10 / 100), AssumedRuntimeUnknown = 300 * second\<rparr>"

definition WithDefaults :: "Parameters \<Rightarrow> Parameters" where
  "WithDefaults p =
     (let d = DefaultParameters;
          urgent = (if UrgentRuntimeSeconds p \<le> 0 then UrgentRuntimeSeconds d else UrgentRuntimeSeconds p) in
      \<lparr>EscalateAfterObservations = (if EscalateAfterObservations p \<le> 0 then EscalateAfterObservations d else EscalateAfterObservations p),
       RelaxAfterObservations = (if RelaxAfterObservations p \<le> 0 then RelaxAfterObservations d else RelaxAfterObservations p),
       RelaxImprovementMargin =
         (if fleq (RelaxImprovementMargin p) (Finite 0) then RelaxImprovementMargin d else RelaxImprovementMargin p),
       UrgentRuntimeSeconds = urgent,
       NominalRuntimeSeconds = (if NominalRuntimeSeconds p \<le> 0 then NominalRuntimeSeconds d else NominalRuntimeSeconds p),
       IdleCadence = (if IdleCadence p \<le> 0 then IdleCadence d else IdleCadence p),
       ActiveCadence = (if ActiveCadence p \<le> 0 then ActiveCadence d else ActiveCadence p),
       ReserveFraction = (if fleq (ReserveFraction p) (Finite 0) then ReserveFraction d else ReserveFraction p),
       MinimumCompression = (if fleq (MinimumCompression p) (Finite 0) then MinimumCompression d else MinimumCompression p),
       AssumedRuntimeUnknown = (if AssumedRuntimeUnknown p \<le> 0 then wrap64 (urgent * second) else AssumedRuntimeUnknown p)\<rparr>)"

definition ValidateParameters :: "Parameters \<Rightarrow> Diagnostic list" where
  "ValidateParameters p =
     (if UrgentRuntimeSeconds p \<ge> NominalRuntimeSeconds p
      then [diag DiagnosticError ''TimingThresholdsInverted'' ''''
        ''urgent runtime threshold must be below the nominal one; otherwise no reading can ever select Nominal''] else []) @
     (if RelaxAfterObservations p \<le> EscalateAfterObservations p
      then [diag DiagnosticWarning ''HysteresisNotAsymmetric'' ''''
        ''relaxing should need more observations than escalating; symmetric thresholds let the mode oscillate on ordinary telemetry jitter'']
      else []) @
     (if fleq (Finite 1) (RelaxImprovementMargin p)
      then [diag DiagnosticError ''ImprovementMarginUnreachable'' ''''
        ''an improvement margin of 100% or more can never be met, so the flow would never relax once escalated''] else []) @
     (if ActiveCadence p > IdleCadence p
      then [diag DiagnosticWarning ''CadenceSlowerDuringFlow'' ''''
        ''publishing more slowly during a flow than at rest inverts EX-29: the active period is when subscribers most need current state'']
      else []) @
     (if fleq (Finite 1) (ReserveFraction p)
      then [diag DiagnosticError ''ReserveConsumesAllRuntime'' ''''
        ''reserving all remaining runtime leaves the plan no time to run in; the reserve covers the handoff tail, not the shutdown itself'']
      else []) @
     (if fleq (Finite 1) (MinimumCompression p)
      then [diag DiagnosticError ''MinimumCompressionRejectsEveryPlan'' ''''
        ''a minimum compression of 1 or more means no plan may ever be shortened, so every plan that does not already fit is reported as not fitting'']
      else [])"

section \<open>The tier pointer\<close>

record PowerObservation =
  OnBattery :: bool
  LowBattery :: bool
  RuntimeSeconds :: "int option"
  RuntimeTrusted :: bool

record PointerState =
  Tier :: int
  Deepest :: int
  Started :: bool
  Halted :: bool

record PointerMovement =
  pm_From :: int
  pm_To :: int
  pm_Direction :: string
  pm_Reexecution :: bool

definition DirectionDescend :: string where "DirectionDescend = ''Descend''"
definition DirectionAscend :: string where "DirectionAscend = ''Ascend''"
definition DirectionHold :: string where "DirectionHold = ''Hold''"

lemmas directions = DirectionDescend_def DirectionAscend_def DirectionHold_def

definition normalizePointer :: "PointerState \<Rightarrow> PointerState" where
  "normalizePointer s =
     (if \<not> Started s then s\<lparr>Deepest := 0\<rparr>
      else if Deepest s \<le> 0 \<or> Deepest s > Tier s then s\<lparr>Deepest := Tier s\<rparr>
      else s)"

definition hold :: "PointerState \<Rightarrow> PointerMovement" where
  "hold s = \<lparr>pm_From = Tier s, pm_To = Tier s, pm_Direction = DirectionHold, pm_Reexecution = False\<rparr>"

definition Descend :: "PointerState \<Rightarrow> int \<Rightarrow> PointerState \<times> PointerMovement" where
  "Descend s0 finalTier =
     (let s = normalizePointer s0 in
      if Halted s then (s, hold s)
      else if \<not> Started s
      then (s\<lparr>Started := True, Deepest := Tier s\<rparr>,
            \<lparr>pm_From = Tier s, pm_To = Tier s, pm_Direction = DirectionDescend, pm_Reexecution = False\<rparr>)
      else if Tier s \<le> finalTier then (s, hold s)
      else let tier = wrap32 (Tier s - 1) in
        (s\<lparr>Tier := tier, Deepest := (if tier < Deepest s then tier else Deepest s)\<rparr>,
         \<lparr>pm_From = Tier s, pm_To = tier, pm_Direction = DirectionDescend, pm_Reexecution = tier \<ge> Deepest s\<rparr>))"

definition Ascend :: "PointerState \<Rightarrow> int \<Rightarrow> PointerState \<times> PointerMovement" where
  "Ascend s0 startTier =
     (let s = normalizePointer s0 in
      if Halted s \<or> \<not> Started s \<or> Tier s \<ge> startTier then (s, hold s)
      else let tier = wrap32 (Tier s + 1) in
        (s\<lparr>Tier := tier\<rparr>, \<lparr>pm_From = Tier s, pm_To = tier, pm_Direction = DirectionAscend, pm_Reexecution = False\<rparr>))"

definition Halt :: "PointerState \<Rightarrow> PointerState" where
  "Halt s = s\<lparr>Halted := True\<rparr>"

definition ShouldDescend :: "PowerObservation \<Rightarrow> bool" where
  "ShouldDescend ob \<longleftrightarrow> OnBattery ob \<or> LowBattery ob"

definition ShouldAscend :: "PowerObservation \<Rightarrow> bool" where
  "ShouldAscend ob \<longleftrightarrow> \<not> OnBattery ob \<and> \<not> LowBattery ob"

definition describeMovement :: "PointerMovement \<Rightarrow> PowerObservation \<Rightarrow> string" where
  "describeMovement m ob =
     (let power = (if LowBattery ob then ''OB LB'' else if OnBattery ob then ''OB'' else ''OL'');
          runtime = (case RuntimeSeconds ob of None \<Rightarrow> ''runtime unknown'' | Some s \<Rightarrow> ''runtime '' @ show_int s @ ''s'');
          rest = show_int (pm_To m) @ ''  power: '' @ power @ '', '' @ runtime in
      if pm_Direction m = DirectionDescend
      then (if pm_Reexecution m then ''re-entered tier '' @ rest else ''entered tier '' @ rest)
      else if pm_Direction m = DirectionAscend then ''ascended to tier '' @ rest
      else ''held at tier '' @ rest)"

section \<open>The timing mode\<close>

definition ModeRelaxed :: string where "ModeRelaxed = ''Relaxed''"
definition ModeNominal :: string where "ModeNominal = ''Nominal''"
definition ModeUrgent :: string where "ModeUrgent = ''Urgent''"

lemmas modes = ModeRelaxed_def ModeNominal_def ModeUrgent_def

definition urgency :: "string \<Rightarrow> int" where
  "urgency m = (if m = ModeUrgent then 2 else if m = ModeNominal then 1 else 0)"

record TimingState =
  Mode :: string
  PendingMode :: string
  PendingCount :: int

record TimingTransition =
  tt_From :: string
  tt_To :: string
  tt_Changed :: bool
  tt_Reason :: string

definition IndicatedMode :: "PowerObservation \<Rightarrow> Parameters \<Rightarrow> string" where
  "IndicatedMode ob p0 =
     (let p = WithDefaults p0 in
      if \<not> OnBattery ob \<and> \<not> LowBattery ob then ModeRelaxed
      else if LowBattery ob then ModeUrgent
      else case RuntimeSeconds ob of
        None \<Rightarrow> ModeUrgent
      | Some s \<Rightarrow>
          if \<not> RuntimeTrusted ob then ModeUrgent
          else if s \<le> UrgentRuntimeSeconds p then ModeUrgent
          else if s \<le> NominalRuntimeSeconds p then ModeNominal
          else ModeRelaxed)"

definition accumulate :: "TimingState \<Rightarrow> string \<Rightarrow> int \<Rightarrow> string \<Rightarrow> TimingState \<times> TimingTransition" where
  "accumulate s indicated threshold reason =
     (let next = (if PendingMode s \<noteq> indicated then s\<lparr>PendingMode := indicated, PendingCount := 1\<rparr>
                  else s\<lparr>PendingCount := add64 (PendingCount s) 1\<rparr>) in
      if PendingCount next < threshold
      then (next, \<lparr>tt_From = Mode s, tt_To = Mode s, tt_Changed = False, tt_Reason = reason @ ''Pending''\<rparr>)
      else (next\<lparr>Mode := indicated, PendingMode := '''', PendingCount := 0\<rparr>,
            \<lparr>tt_From = Mode s, tt_To = indicated, tt_Changed = True, tt_Reason = reason\<rparr>))"

definition relaxationEarned :: "PowerObservation \<Rightarrow> string \<Rightarrow> Parameters \<Rightarrow> bool" where
  "relaxationEarned ob indicated p \<longleftrightarrow>
     (if \<not> OnBattery ob \<and> \<not> LowBattery ob then True
      else case RuntimeSeconds ob of
        None \<Rightarrow> False
      | Some s \<Rightarrow>
          if \<not> RuntimeTrusted ob then False
          else if indicated \<noteq> ModeNominal \<and> indicated \<noteq> ModeRelaxed then False
          else let threshold = (if indicated = ModeNominal then UrgentRuntimeSeconds p else NominalRuntimeSeconds p);
                   required = fmul (fromInt threshold) (fadd (Finite 1) (RelaxImprovementMargin p)) in
            fleq required (fromInt s))"

definition Observe :: "TimingState \<Rightarrow> PowerObservation \<Rightarrow> Parameters \<Rightarrow> TimingState \<times> TimingTransition" where
  "Observe s0 ob p0 =
     (let p = WithDefaults p0;
          s = (if Mode s0 = '''' then s0\<lparr>Mode := ModeRelaxed\<rparr> else s0);
          indicated = IndicatedMode ob p;
          cleared = s\<lparr>PendingMode := '''', PendingCount := 0\<rparr> in
      if indicated = Mode s
      then (cleared, \<lparr>tt_From = Mode s, tt_To = Mode s, tt_Changed = False, tt_Reason = ''ModeUnchanged''\<rparr>)
      else if urgency indicated > urgency (Mode s)
      then (if EscalateAfterObservations p \<le> 1
            then (cleared\<lparr>Mode := indicated\<rparr>,
                  \<lparr>tt_From = Mode s, tt_To = indicated, tt_Changed = True, tt_Reason = ''Escalated''\<rparr>)
            else accumulate s indicated (EscalateAfterObservations p) ''Escalated'')
      else if \<not> relaxationEarned ob indicated p
      then (cleared, \<lparr>tt_From = Mode s, tt_To = Mode s, tt_Changed = False, tt_Reason = ''ImprovementWithinMargin''\<rparr>)
      else accumulate s indicated (RelaxAfterObservations p) ''Relaxed'')"

section \<open>The timing budget\<close>

record TimingBudget =
  Compression :: float64
  Available :: duration
  Required :: duration
  Fits :: bool
  RuntimeMeasured :: bool

definition measuredRuntime :: "Parameters \<Rightarrow> PowerObservation \<Rightarrow> bool \<times> duration" where
  "measuredRuntime p ob =
     (case RuntimeSeconds ob of
        Some s \<Rightarrow> if RuntimeTrusted ob then (True, wrap64 (s * second)) else (False, AssumedRuntimeUnknown p)
      | None \<Rightarrow> (False, AssumedRuntimeUnknown p))"

definition Budget :: "Parameters \<Rightarrow> PowerObservation \<Rightarrow> duration \<Rightarrow> TimingBudget" where
  "Budget p0 ob remainingPlan =
     (let p = WithDefaults p0 in case measuredRuntime p ob of (measured, runtime) \<Rightarrow>
      if \<not> OnBattery ob \<and> \<not> LowBattery ob
      then \<lparr>Compression = Finite 1, Available = runtime, Required = remainingPlan, Fits = True, RuntimeMeasured = measured\<rparr>
      else let available = toInt64 (fmul (fromInt runtime) (fsub (Finite 1) (ReserveFraction p))) in
        if remainingPlan \<le> 0
        then \<lparr>Compression = Finite 1, Available = available, Required = remainingPlan, Fits = True, RuntimeMeasured = measured\<rparr>
        else let ratio = fdiv (fromInt available) (fromInt remainingPlan);
                 fits = fleq (MinimumCompression p) ratio;
                 compression = (if fless (Finite 1) ratio then Finite 1 else if \<not> fits then MinimumCompression p else ratio) in
          \<lparr>Compression = compression, Available = available, Required = remainingPlan, Fits = fits, RuntimeMeasured = measured\<rparr>)"

definition ScaleDuration :: "duration \<Rightarrow> TimingBudget \<Rightarrow> duration" where
  "ScaleDuration declared budget =
     (if declared \<le> 0 then 0
      else if fleq (Compression budget) (Finite 0) \<or> fleq (Finite 1) (Compression budget) then declared
      else toInt64 (fmul (fromInt declared) (Compression budget)))"

definition describeBudget :: "TimingBudget \<Rightarrow> string" where
  "describeBudget b =
     (if RuntimeMeasured b then ''runtime measured'' else ''runtime assumed'') @ '' '' @ durationString (Available b) @
     '', plan needs '' @ durationString (Required b) @ '', compression '' @ fixed2 (Compression b) @ '' ('' @
     (if Fits b then ''plan fits'' else ''plan does not fit'') @ '')''"

definition Cadence :: "Parameters \<Rightarrow> bool \<Rightarrow> duration" where
  "Cadence p flowActive = (if flowActive then ActiveCadence (WithDefaults p) else IdleCadence (WithDefaults p))"

definition describeTransition :: "TimingTransition \<Rightarrow> string" where
  "describeTransition t =
     (if \<not> tt_Changed t then ''timing mode '' @ tt_To t @ '' held ('' @ tt_Reason t @ '')''
      else ''timing mode '' @ tt_From t @ '' -> '' @ tt_To t @ '' ('' @ tt_Reason t @ '')'')"

section \<open>Adaptation only shortens\<close>

lemma fromRat_not_NaN [simp]: "fromRat x \<noteq> NotANumber"
  by (simp add: fromRat_def Let_def)

lemma ScaleDuration_bounds:
  assumes "int64 d" and "is_float (Compression b)" and "Compression b \<noteq> NotANumber"
  shows "0 \<le> ScaleDuration d b \<and> ScaleDuration d b \<le> max 0 d"
proof (cases "d \<le> 0 \<or> fleq (Compression b) (Finite 0) \<or> fleq (Finite 1) (Compression b)")
  case True
  then show ?thesis by (auto simp: ScaleDuration_def)
next
  case False
  then obtain c where c: "Compression b = Finite c" "0 < c" "c < 1"
    using assms(3) by (cases "Compression b") auto
  then show ?thesis using False toInt64_scaled [of d c] assms by (simp add: ScaleDuration_def)
qed

lemma fdiv_positive_float: "fleq m (fdiv a b) \<Longrightarrow> \<not> fleq m (Finite 0) \<Longrightarrow> is_float (fdiv a b) \<and> fdiv a b \<noteq> NotANumber"
proof (cases "fdiv a b")
  case (Finite x)
  assume le: "fleq m (fdiv a b)" and pos: "\<not> fleq m (Finite 0)"
  then have x: "0 < x" using Finite by (cases m) auto
  show ?thesis
  proof (cases a; cases b)
    fix u v
    assume ab: "a = Finite u" "b = Finite v"
    then have v: "v \<noteq> 0" using Finite by (auto split: if_splits)
    then have f: "Finite x = fromRat (u / v)" using Finite ab by simp
    then have r: "round64 (u / v) = x" by (simp add: fromRat_def Let_def split: if_splits)
    then have "0 \<le> u / v" using x round64_nonpos [of "u / v"] by linarith
    then show ?thesis using is_float_fromRat [of "u / v"] ab v by simp
  qed (use Finite x in auto)
next
  case NotANumber
  then show "fleq m (fdiv a b) \<Longrightarrow> ?thesis" by (cases m) auto
qed auto

lemma default_fractions: "\<not> fleq (fromRat (10 / 100)) (Finite 0)" "\<not> fleq (fromRat (20 / 100)) (Finite 0)"
  by code_simp+

lemma WithDefaults_sel:
  "EscalateAfterObservations (WithDefaults p) = (if EscalateAfterObservations p \<le> 0 then 1 else EscalateAfterObservations p)"
  "RelaxAfterObservations (WithDefaults p) = (if RelaxAfterObservations p \<le> 0 then 3 else RelaxAfterObservations p)"
  "RelaxImprovementMargin (WithDefaults p) =
    (if fleq (RelaxImprovementMargin p) (Finite 0) then fromRat (10 / 100) else RelaxImprovementMargin p)"
  "UrgentRuntimeSeconds (WithDefaults p) = (if UrgentRuntimeSeconds p \<le> 0 then 300 else UrgentRuntimeSeconds p)"
  "NominalRuntimeSeconds (WithDefaults p) = (if NominalRuntimeSeconds p \<le> 0 then 900 else NominalRuntimeSeconds p)"
  "IdleCadence (WithDefaults p) = (if IdleCadence p \<le> 0 then 60 * second else IdleCadence p)"
  "ActiveCadence (WithDefaults p) = (if ActiveCadence p \<le> 0 then 10 * second else ActiveCadence p)"
  "ReserveFraction (WithDefaults p) = (if fleq (ReserveFraction p) (Finite 0) then fromRat (20 / 100) else ReserveFraction p)"
  "MinimumCompression (WithDefaults p) =
    (if fleq (MinimumCompression p) (Finite 0) then fromRat (10 / 100) else MinimumCompression p)"
  "AssumedRuntimeUnknown (WithDefaults p) =
    (if AssumedRuntimeUnknown p \<le> 0 then wrap64 ((if UrgentRuntimeSeconds p \<le> 0 then 300 else UrgentRuntimeSeconds p) * second)
     else AssumedRuntimeUnknown p)"
  by (simp_all only: WithDefaults_def DefaultParameters_def Let_def Parameters.simps)

lemma WithDefaults_compression:
  assumes "is_float (MinimumCompression p)" and "MinimumCompression p \<noteq> NotANumber"
  shows "is_float (MinimumCompression (WithDefaults p))" "MinimumCompression (WithDefaults p) \<noteq> NotANumber"
    "\<not> fleq (MinimumCompression (WithDefaults p)) (Finite 0)"
proof -
  show "is_float (MinimumCompression (WithDefaults p))" "MinimumCompression (WithDefaults p) \<noteq> NotANumber"
    "\<not> fleq (MinimumCompression (WithDefaults p)) (Finite 0)"
    using assms default_fractions is_float_fromRat [of "10 / 100"] by (simp_all add: WithDefaults_sel del: is_float.simps)
qed

lemma Budget_compression:
  assumes "is_float (MinimumCompression p)" and "MinimumCompression p \<noteq> NotANumber"
  shows "is_float (Compression (Budget p ob plan)) \<and> Compression (Budget p ob plan) \<noteq> NotANumber"
proof -
  note m = WithDefaults_compression [OF assms]
  have one: "is_float (Finite 1)" by code_simp
  define ratio where "ratio = fdiv (fromInt (Available (Budget p ob plan))) (fromInt plan)"
  have "Compression (Budget p ob plan) \<in> {Finite 1, MinimumCompression (WithDefaults p)} \<or>
      (Compression (Budget p ob plan) = ratio \<and> fleq (MinimumCompression (WithDefaults p)) ratio)"
    by (simp add: Budget_def ratio_def Let_def split: prod.splits)
  then show ?thesis using m one fdiv_positive_float [OF _ m(3)] unfolding ratio_def by (smt (verit) insert_iff singletonD float64.distinct(3))
qed

text \<open>C31. Timing adaptation only ever shortens: whatever the power observation and the remaining plan, the
  duration the executor allows is never negative and never longer than the declared one, to the bit,
  and on mains power it is the declared one.\<close>

theorem adaptation_only_shortens:
  assumes "int64 declared" and "is_float (MinimumCompression p)" and "MinimumCompression p \<noteq> NotANumber"
  shows "0 \<le> ScaleDuration declared (Budget p ob plan) \<and> ScaleDuration declared (Budget p ob plan) \<le> max 0 declared \<and>
    (\<not> OnBattery ob \<and> \<not> LowBattery ob \<longrightarrow> ScaleDuration declared (Budget p ob plan) = max 0 declared)"
proof -
  have "Compression (Budget p ob plan) = Finite 1" if "\<not> OnBattery ob \<and> \<not> LowBattery ob"
    using that by (simp add: Budget_def Let_def split: prod.splits)
  then show ?thesis using ScaleDuration_bounds [OF assms(1), of "Budget p ob plan"] Budget_compression [OF assms(2,3)]
    by (auto simp: ScaleDuration_def)
qed

definition racing :: PowerObservation where
  "racing = \<lparr>OnBattery = True, LowBattery = False, RuntimeSeconds = Some 120, RuntimeTrusted = True\<rparr>"

definition half_reserve :: Parameters where
  "half_reserve = DefaultParameters\<lparr>ReserveFraction := Finite (1 / 2), MinimumCompression := Finite (1 / 4)\<rparr>"

lemma racing_budget: "Compression (Budget half_reserve racing 120000000000) = Finite (1 / 2)"
proof -
  have "ReserveFraction (WithDefaults half_reserve) = Finite (1 / 2)" "MinimumCompression (WithDefaults half_reserve) = Finite (1 / 4)"
    by (simp_all add: WithDefaults_sel half_reserve_def)
  moreover have "toInt64 (fmul (fromInt 120000000000) (fsub (Finite 1) (Finite (1 / 2)))) = 60000000000" by code_simp
  moreover have "fdiv (fromInt 60000000000) (fromInt 120000000000) = Finite (1 / 2)" by code_simp
  ultimately show ?thesis
    by (simp add: Budget_def racing_def measuredRuntime_def second_def wrap64_def Let_def del: fdiv.simps fmul.simps)
qed

theorem adaptation_only_shortens_witness:
  "int64 90000000000 \<and> is_float (MinimumCompression half_reserve) \<and> MinimumCompression half_reserve \<noteq> NotANumber \<and>
   ScaleDuration 90000000000 (Budget half_reserve racing 120000000000) = 45000000000 \<and>
   ScaleDuration 90000000000 (Budget half_reserve racing 120000000000) \<le> max 0 90000000000"
proof -
  have m: "MinimumCompression half_reserve = Finite (1 / 4)" by (simp add: half_reserve_def)
  have "int64 90000000000" "is_float (Finite (1 / 4))" by code_simp+
  then have p: "int64 90000000000" "is_float (MinimumCompression half_reserve)" "MinimumCompression half_reserve \<noteq> NotANumber"
    by (simp_all only: m float64.distinct not_False_eq_True)
  have "toInt64 (fmul (fromInt 90000000000) (Finite (1 / 2))) = 45000000000" by code_simp
  then have "ScaleDuration 90000000000 (Budget half_reserve racing 120000000000) = 45000000000"
    by (simp add: ScaleDuration_def racing_budget del: fmul.simps)
  then show ?thesis using p adaptation_only_shortens [OF p, of racing 120000000000] by blast
qed

section \<open>Hysteresis\<close>

definition observeAll :: "Parameters \<Rightarrow> TimingState \<Rightarrow> PowerObservation list \<Rightarrow> TimingState" where
  "observeAll p s obs = foldl (\<lambda>s ob. fst (Observe s ob p)) s obs"

text \<open>What one observation can do to a state.\<close>

definition current :: "TimingState \<Rightarrow> string" where
  "current s = (if Mode s = '''' then ModeRelaxed else Mode s)"

definition supports :: "Parameters \<Rightarrow> string \<Rightarrow> string \<Rightarrow> PowerObservation \<Rightarrow> bool" where
  "supports p m target ob \<longleftrightarrow> IndicatedMode ob p = target \<and> (urgency target \<le> urgency m \<longrightarrow> relaxationEarned ob target (WithDefaults p))"

lemma WithDefaults_idem: "WithDefaults (WithDefaults p) = WithDefaults p"
proof -
  have s: "60 * second > 0" "10 * second > 0" by (simp_all add: second_def)
  show ?thesis by (rule Parameters.equality) (use default_fractions s in \<open>simp_all add: WithDefaults_sel not_le del: fleq.simps\<close>)
qed

lemma IndicatedMode_defaults [simp]: "IndicatedMode ob (WithDefaults p) = IndicatedMode ob p"
  by (simp add: IndicatedMode_def WithDefaults_idem)

lemma IndicatedMode_nonempty [simp]: "IndicatedMode ob p \<noteq> ''''"
  by (simp add: IndicatedMode_def modes Let_def split: option.splits)

text \<open>The evidence a state carries: its pending count is the length of the streak of observations, up to
  the present, that support the pending mode.\<close>

definition streak :: "Parameters \<Rightarrow> TimingState \<Rightarrow> PowerObservation list \<Rightarrow> bool" where
  "streak p s obs \<longleftrightarrow> (PendingMode s = '''' \<and> PendingCount s = 0) \<or>
     (PendingMode s \<noteq> '''' \<and> 1 \<le> PendingCount s \<and> PendingCount s \<le> int (length obs) \<and> PendingCount s < 2 ^ 63 - 1 \<and>
      (\<forall>ob \<in> set (drop (length obs - nat (PendingCount s)) obs). supports p (current s) (PendingMode s) ob))"

definition thresholds_ok :: "Parameters \<Rightarrow> bool" where
  "thresholds_ok p \<longleftrightarrow> int64 (EscalateAfterObservations p) \<and> int64 (RelaxAfterObservations p)"

lemma drop_snoc_suffix: "n \<le> length xs \<Longrightarrow> set (drop (length (xs @ [x]) - Suc n) (xs @ [x])) = insert x (set (drop (length xs - n) xs))"
  by (simp add: Suc_diff_le)

lemma accumulate_streak:
  assumes "streak p s obs" and "supports p (current s) m ob" and "m \<noteq> ''''" and "Mode s \<noteq> ''''" and "int64 k"
    and "accumulate s m k r = (s', t)"
  shows "streak p s' (obs @ [ob]) \<and>
    (Mode s' \<noteq> Mode s \<longrightarrow> Mode s' = m \<and> nat k \<le> Suc (length obs) \<and>
      (\<forall>o' \<in> set (drop (Suc (length obs) - nat k) (obs @ [ob])). supports p (current s) m o'))"
proof -
  define c where "c = (if PendingMode s \<noteq> m then 0 else PendingCount s)"
  have c: "0 \<le> c" "c \<le> int (length obs)" "c < 2 ^ 63 - 1"
    and sup: "\<forall>ob \<in> set (drop (length obs - nat c) obs). supports p (current s) m ob"
    using assms(1,3) by (auto simp: streak_def c_def)
  have "int64 (c + 1)" using c by (simp add: int64_def)
  then have acc: "accumulate s m k r = (if c + 1 < k
      then (s\<lparr>PendingMode := m, PendingCount := c + 1\<rparr>, \<lparr>tt_From = Mode s, tt_To = Mode s, tt_Changed = False, tt_Reason = r @ ''Pending''\<rparr>)
      else (s\<lparr>PendingMode := '''', PendingCount := 0, Mode := m\<rparr>, \<lparr>tt_From = Mode s, tt_To = m, tt_Changed = True, tt_Reason = r\<rparr>))"
    by (auto simp: accumulate_def Let_def c_def add64_def)
  have nc: "nat (c + 1) = Suc (nat c)" "nat c \<le> length obs" using c by auto
  have all: "\<forall>o' \<in> set (drop (length (obs @ [ob]) - nat (c + 1)) (obs @ [ob])). supports p (current s) m o'"
    using sup assms(2) unfolding nc(1) drop_snoc_suffix [OF nc(2)] by simp
  show ?thesis
  proof (cases "c + 1 < k")
    case True
    then have s': "s' = s\<lparr>PendingMode := m, PendingCount := c + 1\<rparr>" using assms(6) acc by simp
    have "c + 1 < 2 ^ 63 - 1" using True assms(5) by (simp add: int64_def)
    moreover have "current s' = current s" by (simp add: s' current_def)
    ultimately show ?thesis using all c assms(3) by (simp add: streak_def del: drop_append set_append) (simp add: s')
  next
    case False
    then have s': "s' = s\<lparr>PendingMode := '''', PendingCount := 0, Mode := m\<rparr>" using assms(6) acc by simp
    have "nat k \<le> nat (c + 1)" using False by simp
    then have "set (drop (Suc (length obs) - nat k) (obs @ [ob])) \<subseteq> set (drop (Suc (length obs) - nat (c + 1)) (obs @ [ob]))"
      by (intro set_drop_subset_set_drop) simp
    then show ?thesis using all nc False by (auto simp: s' streak_def)
  qed
qed

lemma Observe_step:
  assumes "streak p s obs" and "thresholds_ok (WithDefaults p)"
  shows "streak p (fst (Observe s ob p)) (obs @ [ob]) \<and>
    (urgency (Mode (fst (Observe s ob p))) < urgency (current s) \<longrightarrow>
      (let n = nat (RelaxAfterObservations (WithDefaults p)); m = Mode (fst (Observe s ob p)) in
       n \<le> Suc (length obs) \<and> (\<forall>o' \<in> set (drop (Suc (length obs) - n) (obs @ [ob])). supports p (current s) m o')))"
proof -
  define s1 where "s1 = s\<lparr>Mode := current s\<rparr>"
  have s1: "(if Mode s = '''' then s\<lparr>Mode := ModeRelaxed\<rparr> else s) = s1" by (simp add: s1_def current_def)
  have ne: "Mode s1 \<noteq> ''''" "current s1 = current s" "Mode s1 = current s" by (simp_all add: s1_def current_def modes)
  have st: "streak p s1 obs" using assms(1) by (simp add: streak_def ne) (simp add: s1_def)
  let ?m = "IndicatedMode ob p" and ?p = "WithDefaults p"
  have obs: "fst (Observe s ob p) =
    (if ?m = current s then s1\<lparr>PendingMode := '''', PendingCount := 0\<rparr>
     else if urgency ?m > urgency (current s)
     then (if EscalateAfterObservations ?p \<le> 1 then s1\<lparr>PendingMode := '''', PendingCount := 0, Mode := ?m\<rparr>
           else fst (accumulate s1 ?m (EscalateAfterObservations ?p) ''Escalated''))
     else if \<not> relaxationEarned ob ?m ?p then s1\<lparr>PendingMode := '''', PendingCount := 0\<rparr>
     else fst (accumulate s1 ?m (RelaxAfterObservations ?p) ''Relaxed''))"
    by (simp add: Observe_def s1 Let_def ne)
  have clear: "streak p (s1\<lparr>PendingMode := '''', PendingCount := 0\<rparr>) xs" "streak p (s1\<lparr>PendingMode := '''', PendingCount := 0, Mode := m\<rparr>) xs"
    for xs m by (simp_all add: streak_def)
  have acc: "streak p (fst (accumulate s1 ?m k r)) (obs @ [ob]) \<and>
      (Mode (fst (accumulate s1 ?m k r)) \<noteq> current s \<longrightarrow> Mode (fst (accumulate s1 ?m k r)) = ?m \<and> nat k \<le> Suc (length obs) \<and>
        (\<forall>o' \<in> set (drop (Suc (length obs) - nat k) (obs @ [ob])). supports p (current s) ?m o'))"
    if "supports p (current s) ?m ob" "int64 k" for k r
    using accumulate_streak [OF st _ IndicatedMode_nonempty ne(1) that(2)] that(1) unfolding ne by (metis prod.collapse)
  consider (same) "?m = current s" | (up) "urgency ?m > urgency (current s)" "?m \<noteq> current s"
    | (down) "urgency ?m \<le> urgency (current s)" "?m \<noteq> current s" by linarith
  then show ?thesis
  proof cases
    case same
    then show ?thesis using clear by (simp add: obs ne)
  next
    case up
    have "supports p (current s) ?m ob" using up by (simp add: supports_def)
    moreover have "int64 (EscalateAfterObservations ?p)" using assms(2) by (simp add: thresholds_ok_def)
    ultimately have "streak p (fst (accumulate s1 ?m (EscalateAfterObservations ?p) ''Escalated'')) (obs @ [ob]) \<and>
        \<not> urgency (Mode (fst (accumulate s1 ?m (EscalateAfterObservations ?p) ''Escalated''))) < urgency (current s)"
      using acc up(1) by (metis less_asym less_irrefl)
    then show ?thesis using up clear by (simp add: obs)
  next
    case down
    show ?thesis
    proof (cases "relaxationEarned ob ?m ?p")
      case True
      then have "supports p (current s) ?m ob" by (simp add: supports_def)
      moreover have "int64 (RelaxAfterObservations ?p)" using assms(2) by (simp add: thresholds_ok_def)
      ultimately show ?thesis using acc [of "RelaxAfterObservations ?p" "''Relaxed''"] down True
        by (simp add: obs Let_def del: drop_append set_append) (metis less_irrefl)
    next
      case False
      then show ?thesis using down clear by (simp add: obs ne)
    qed
  qed
qed

lemma observeAll_streak:
  "streak p s [] \<Longrightarrow> thresholds_ok (WithDefaults p) \<Longrightarrow> streak p (observeAll p s obs) obs"
  by (induction obs rule: rev_induct) (auto simp: observeAll_def dest: Observe_step)

text \<open>C34. Asymmetric hysteresis: from a fresh state, the timing mode becomes less urgent only when at least
  the configured number of consecutive observations, up to the last, all indicated the mode relaxed to
  and cleared its margin; with the default escalation setting the mode is never less urgent than what the
  last observation indicates.\<close>

theorem relaxation_needs_sustained_improvement:
  assumes "PendingMode s = ''''" and "PendingCount s = 0" and "thresholds_ok (WithDefaults p)"
  shows "(urgency (Mode (observeAll p s (obs @ [ob]))) < urgency (current (observeAll p s obs)) \<longrightarrow>
      (let n = nat (RelaxAfterObservations (WithDefaults p)); m = Mode (observeAll p s (obs @ [ob])) in
       n \<le> length (obs @ [ob]) \<and>
       (\<forall>o' \<in> set (drop (length (obs @ [ob]) - n) (obs @ [ob])).
          IndicatedMode o' p = m \<and> relaxationEarned o' m (WithDefaults p)))) \<and>
    (EscalateAfterObservations p \<le> 1 \<longrightarrow> urgency (IndicatedMode ob p) \<le> urgency (Mode (observeAll p s (obs @ [ob]))))"
proof (intro conjI impI)
  let ?s = "observeAll p s obs"
  have last: "observeAll p s (obs @ [ob]) = fst (Observe ?s ob p)" by (simp add: observeAll_def)
  have "streak p s []" using assms by (simp add: streak_def)
  then have st: "streak p ?s obs" by (rule observeAll_streak [OF _ assms(3)])
  { assume less: "urgency (Mode (observeAll p s (obs @ [ob]))) < urgency (current ?s)"
    then show "let n = nat (RelaxAfterObservations (WithDefaults p)); m = Mode (observeAll p s (obs @ [ob])) in
       n \<le> length (obs @ [ob]) \<and>
       (\<forall>o' \<in> set (drop (length (obs @ [ob]) - n) (obs @ [ob])).
          IndicatedMode o' p = m \<and> relaxationEarned o' m (WithDefaults p))"
      using Observe_step [OF st assms(3), of ob] by (simp add: last Let_def supports_def del: drop_append set_append) }
  assume "EscalateAfterObservations p \<le> 1"
  then have e: "EscalateAfterObservations (WithDefaults p) \<le> 1" by (simp add: WithDefaults_sel)
  have acc: "urgency m \<le> urgency (Mode (fst (accumulate s1 m k r)))" if "urgency m \<le> urgency (Mode s1)" for s1 m k r
    using that by (simp add: accumulate_def Let_def)
  show "urgency (IndicatedMode ob p) \<le> urgency (Mode (observeAll p s (obs @ [ob])))"
    using e acc by (auto simp: last Observe_def Let_def not_less)
qed

definition low_power :: PowerObservation where
  "low_power = \<lparr>OnBattery = True, LowBattery = True, RuntimeSeconds = None, RuntimeTrusted = False\<rparr>"

definition mains_power :: PowerObservation where
  "mains_power = \<lparr>OnBattery = False, LowBattery = False, RuntimeSeconds = None, RuntimeTrusted = False\<rparr>"

definition fresh_timing :: TimingState where
  "fresh_timing = \<lparr>Mode = '''', PendingMode = '''', PendingCount = 0\<rparr>"

lemma relax_run:
  "thresholds_ok (WithDefaults DefaultParameters)"
  "current (observeAll DefaultParameters fresh_timing [low_power, mains_power, mains_power]) = ModeUrgent"
  "Mode (observeAll DefaultParameters fresh_timing ([low_power, mains_power, mains_power] @ [mains_power])) = ModeRelaxed"
  by (simp_all add: thresholds_ok_def WithDefaults_sel DefaultParameters_def int64_def observeAll_def fresh_timing_def low_power_def
      mains_power_def Observe_def IndicatedMode_def relaxationEarned_def accumulate_def current_def modes urgency_def add64_def
      wrap64_def Let_def del: fleq.simps)

theorem relaxation_needs_sustained_improvement_witness:
  "PendingMode fresh_timing = '''' \<and> PendingCount fresh_timing = 0 \<and> thresholds_ok (WithDefaults DefaultParameters) \<and>
   Mode (observeAll DefaultParameters fresh_timing ([low_power, mains_power, mains_power] @ [mains_power])) = ModeRelaxed \<and>
   IndicatedMode mains_power DefaultParameters = ModeRelaxed \<and> nat (RelaxAfterObservations (WithDefaults DefaultParameters)) \<le> 4"
proof -
  have f: "PendingMode fresh_timing = ''''" "PendingCount fresh_timing = 0" by (simp_all add: fresh_timing_def)
  have less: "urgency ModeRelaxed < urgency ModeUrgent" and "RelaxAfterObservations (WithDefaults DefaultParameters) = 3"
    by (simp_all add: urgency_def modes WithDefaults_sel DefaultParameters_def)
  then show ?thesis
    using relaxation_needs_sustained_improvement [OF f relax_run(1), of "[low_power, mains_power, mains_power]" mains_power] f relax_run
    by (simp add: Let_def)
qed

section \<open>The pointer stays in range and remembers how far it got\<close>

inductive pointer_run :: "int \<Rightarrow> int \<Rightarrow> PointerState \<Rightarrow> int set \<Rightarrow> bool" for final start where
  fresh: "pointer_run final start \<lparr>Tier = start, Deepest = 0, Started = False, Halted = False\<rparr> {}"
| descend: "pointer_run final start s V \<Longrightarrow> s' = fst (Descend s final) \<Longrightarrow>
    pointer_run final start s' (if Started s' then insert (Tier s') V else V)"
| ascend: "pointer_run final start s V \<Longrightarrow> s' = fst (Ascend s start) \<Longrightarrow>
    pointer_run final start s' (if Started s' then insert (Tier s') V else V)"
| halt: "pointer_run final start s V \<Longrightarrow> pointer_run final start (Halt s) V"

definition pointer_ok :: "int \<Rightarrow> int \<Rightarrow> PointerState \<Rightarrow> int set \<Rightarrow> bool" where
  "pointer_ok final start s V \<longleftrightarrow>
     (if Started s then final \<le> Deepest s \<and> Deepest s \<le> Tier s \<and> Tier s \<le> start \<and> V = {Deepest s..start}
      else Tier s = start \<and> V = {})"

lemma normalizePointer_ok: "pointer_ok final start s V \<Longrightarrow> 1 \<le> final \<Longrightarrow> Started s \<Longrightarrow> normalizePointer s = s"
  by (simp add: pointer_ok_def normalizePointer_def)

lemma normalizePointer_fresh: "\<not> Started s \<Longrightarrow> normalizePointer s = s\<lparr>Deepest := 0\<rparr>"
  by (simp add: normalizePointer_def)

lemma Descend_ok:
  assumes "pointer_ok final start s V" and "1 \<le> final" and "final \<le> start" and "int32 start"
  shows "pointer_ok final start (fst (Descend s final))
      (if Started (fst (Descend s final)) then insert (Tier (fst (Descend s final))) V else V) \<and>
    (pm_Direction (snd (Descend s final)) = DirectionDescend \<longrightarrow>
      (pm_Reexecution (snd (Descend s final)) \<longleftrightarrow> pm_To (snd (Descend s final)) \<in> V))"
proof (cases "Started s")
  case True
  have t: "final \<le> Deepest s" "Deepest s \<le> Tier s" "Tier s \<le> start" "V = {Deepest s..start}"
    using assms(1) True by (simp_all add: pointer_ok_def)
  then have "int32 (Tier s - 1)" using assms by (auto simp: int32_def)
  then show ?thesis using t True assms
    by (auto simp: Descend_def normalizePointer_ok [OF assms(1,2) True] pointer_ok_def hold_def directions Let_def)
next
  case False
  then show ?thesis using assms by (auto simp: Descend_def normalizePointer_fresh pointer_ok_def hold_def directions Let_def)
qed

lemma Ascend_ok:
  assumes "pointer_ok final start s V" and "1 \<le> final" and "final \<le> start" and "int32 start"
  shows "pointer_ok final start (fst (Ascend s start))
      (if Started (fst (Ascend s start)) then insert (Tier (fst (Ascend s start))) V else V)"
proof (cases "Started s")
  case True
  have t: "final \<le> Deepest s" "Deepest s \<le> Tier s" "Tier s \<le> start" "V = {Deepest s..start}"
    using assms(1) True by (simp_all add: pointer_ok_def)
  then have "Tier s < start \<Longrightarrow> int32 (Tier s + 1)" using assms by (auto simp: int32_def)
  then show ?thesis using t True
    by (auto simp: Ascend_def normalizePointer_ok [OF assms(1,2) True] pointer_ok_def Let_def)
next
  case False
  then show ?thesis using assms by (auto simp: Ascend_def normalizePointer_fresh pointer_ok_def Let_def)
qed

lemma pointer_run_ok:
  assumes "pointer_run final start s V" and "1 \<le> final" and "final \<le> start" and "int32 start"
  shows "pointer_ok final start s V"
  using assms(1)
proof induction
  case fresh
  show ?case by (simp add: pointer_ok_def)
next
  case descend
  then show ?case using Descend_ok [OF _ assms(2-)] by blast
next
  case ascend
  then show ?case using Ascend_ok [OF _ assms(2-)] by blast
next
  case halt
  then show ?case by (simp add: pointer_ok_def Halt_def)
qed

text \<open>C32. The tier pointer, over every sequence of descents, ascents and halts: it never leaves the range
  between the final and the starting tier, its record of the deepest tier is the least tier entered, the
  tiers entered are exactly those from there up to the start, and a descent is reported as
  re-execution exactly when the tier it enters was entered before.  A halted pointer never moves.\<close>

theorem pointer_in_range:
  assumes "pointer_run final start s V" and "1 \<le> final" and "final \<le> start" and "int32 start"
  shows "(if Started s then final \<le> Deepest s \<and> Deepest s \<le> Tier s \<and> Tier s \<le> start \<and> V = {Deepest s..start}
      else Tier s = start \<and> V = {}) \<and>
    (pm_Direction (snd (Descend s final)) = DirectionDescend \<longrightarrow>
      (pm_Reexecution (snd (Descend s final)) \<longleftrightarrow> pm_To (snd (Descend s final)) \<in> V)) \<and>
    (Halted s \<longrightarrow> Tier (fst (Descend s final)) = Tier s \<and> Tier (fst (Ascend s start)) = Tier s)"
proof -
  have ok: "pointer_ok final start s V" by (rule pointer_run_ok [OF assms])
  have "Tier (normalizePointer s) = Tier s \<and> (Halted s \<longrightarrow> Halted (normalizePointer s))" by (simp add: normalizePointer_def)
  then have "Halted s \<longrightarrow> Tier (fst (Descend s final)) = Tier s \<and> Tier (fst (Ascend s start)) = Tier s"
    by (simp add: Descend_def Ascend_def Let_def)
  then show ?thesis using ok Descend_ok [OF ok assms(2-)] by (simp add: pointer_ok_def)
qed

theorem pointer_in_range_witness:
  "let s0 = \<lparr>Tier = 5, Deepest = 0, Started = False, Halted = False\<rparr>;
       s1 = fst (Descend s0 1); s2 = fst (Descend s1 1); s3 = fst (Ascend s2 5) in
   Tier s3 = 5 \<and> Deepest s3 = 4 \<and> pm_Reexecution (snd (Descend s3 1)) \<and> pm_To (snd (Descend s3 1)) = 4"
proof -
  define s0 s1 s2 s3 :: PointerState where
    "s0 = \<lparr>Tier = 5, Deepest = 0, Started = False, Halted = False\<rparr>" and
    "s1 = fst (Descend s0 1)" and "s2 = fst (Descend s1 1)" and "s3 = fst (Ascend s2 5)"
  note eval = Descend_def Ascend_def normalizePointer_def hold_def wrap32_def Let_def
  have 1: "s1 = \<lparr>Tier = 5, Deepest = 5, Started = True, Halted = False\<rparr>" by (simp add: s1_def s0_def eval)
  have 2: "s2 = \<lparr>Tier = 4, Deepest = 4, Started = True, Halted = False\<rparr>" by (simp add: s2_def 1 eval)
  have 3: "s3 = \<lparr>Tier = 5, Deepest = 4, Started = True, Halted = False\<rparr>" by (simp add: s3_def 2 eval)
  have "pointer_run 1 5 s0 {}" unfolding s0_def by (rule fresh)
  then have "pointer_run 1 5 s1 (if Started s1 then {Tier s1} else {})" by (rule descend) (rule s1_def)
  then have "pointer_run 1 5 s2 (if Started s2 then insert (Tier s2) (if Started s1 then {Tier s1} else {}) else (if Started s1 then {Tier s1} else {}))"
    by (rule descend) (rule s2_def)
  then have "pointer_run 1 5 s2 {4, 5}" by (simp add: 1 2)
  then have "pointer_run 1 5 s3 (if Started s3 then insert (Tier s3) {4, 5} else {4, 5})" by (rule ascend) (rule s3_def)
  then have run: "pointer_run 1 5 s3 {5, 4}" by (simp add: 3 insert_commute)
  have move: "pm_Direction (snd (Descend s3 1)) = DirectionDescend" "pm_To (snd (Descend s3 1)) = 4" by (simp_all add: 3 eval)
  have "pm_Reexecution (snd (Descend s3 1))"
    using pointer_in_range [OF run] move by (simp add: int32_def)
  with move 3 show ?thesis by (simp add: Let_def s0_def [symmetric] s1_def [symmetric] s2_def [symmetric] s3_def [symmetric])
qed

end
