(* ===== verification/GoStrconv.thy ===== *)
theory GoStrconv
  imports GoFloat
begin

text \<open>
  \<open>strconv.ParseInt\<close> in base ten (and \<open>strconv.Atoi\<close>, which agrees with it), and
  \<open>strconv.ParseFloat\<close>: decimal and hexadecimal literals with underscores between digits, the special
  names, and exact rounding of the literal to the nearest \<open>float64\<close>.  The result is
  \<open>None\<close> where the Go function returns an error, syntax and range errors alike.
\<close>

section \<open>Integers\<close>

definition splitSign :: "string \<Rightarrow> bool \<times> string" where
  "splitSign s = (case s of
      c # r \<Rightarrow> if c = CHR ''-'' then (True, r) else if c = CHR ''+'' then (False, r) else (False, s)
    | [] \<Rightarrow> (False, []))"

definition digitsValue :: "string \<Rightarrow> int" where
  "digitsValue s = foldl (\<lambda>n c. n * 10 + digitValue c) 0 s"

definition ParseInt :: "string \<Rightarrow> int option" where
  "ParseInt s =
     (case splitSign s of (neg, ds) \<Rightarrow>
        if ds = [] \<or> \<not> list_all isDigit ds then None
        else let n = (if neg then - digitsValue ds else digitsValue ds) in if int64 n then Some n else None)"

section \<open>Floating point literals\<close>

definition isHexLetter :: "char \<Rightarrow> bool" where
  "isHexLetter c \<longleftrightarrow> CHR ''a'' \<le> lower_char c \<and> lower_char c \<le> CHR ''f''"

fun scanMantissa :: "bool \<Rightarrow> int \<Rightarrow> int \<Rightarrow> bool \<Rightarrow> bool \<Rightarrow> bool \<Rightarrow> string \<Rightarrow> int \<times> int \<times> bool \<times> bool \<times> string" where
  "scanMantissa hex mant places sawdot sawdigits unders [] = (mant, places, sawdigits, unders, [])"
| "scanMantissa hex mant places sawdot sawdigits unders (c # s) =
     (if c = CHR ''_'' then scanMantissa hex mant places sawdot sawdigits True s
      else if c = CHR ''.''
      then (if sawdot then (mant, places, sawdigits, unders, c # s) else scanMantissa hex mant places True sawdigits unders s)
      else if isDigit c
      then scanMantissa hex (mant * (if hex then 16 else 10) + digitValue c) (if sawdot then places + 1 else places) sawdot True unders s
      else if hex \<and> isHexLetter c
      then scanMantissa hex (mant * 16 + (of_char (lower_char c) - 87)) (if sawdot then places + 1 else places) sawdot True unders s
      else (mant, places, sawdigits, unders, c # s))"

fun scanExponent :: "int \<Rightarrow> bool \<Rightarrow> string \<Rightarrow> int \<times> bool \<times> string" where
  "scanExponent e unders [] = (e, unders, [])"
| "scanExponent e unders (c # s) =
     (if c = CHR ''_'' then scanExponent e True s
      else if isDigit c then scanExponent (if e < 10000 then e * 10 + digitValue c else e) unders s
      else (e, unders, c # s))"

fun underscore_loop :: "bool \<Rightarrow> char \<Rightarrow> string \<Rightarrow> bool" where
  "underscore_loop hex saw [] \<longleftrightarrow> saw \<noteq> CHR ''_''"
| "underscore_loop hex saw (c # s) \<longleftrightarrow>
     (if isDigit c \<or> (hex \<and> isHexLetter c) then underscore_loop hex (CHR ''0'') s
      else if c = CHR ''_'' then saw = CHR ''0'' \<and> underscore_loop hex (CHR ''_'') s
      else saw \<noteq> CHR ''_'' \<and> underscore_loop hex (CHR ''!'') s)"

definition basePrefix :: "string \<Rightarrow> char option" where
  "basePrefix s = (case s of c # d # _ \<Rightarrow> if c = CHR ''0'' \<and> lower_char d \<in> {CHR ''b'', CHR ''o'', CHR ''x''} then Some (lower_char d) else None
    | _ \<Rightarrow> None)"

definition underscoreOK :: "string \<Rightarrow> bool" where
  "underscoreOK s =
     (let body = snd (splitSign s) in
      case basePrefix body of
        None \<Rightarrow> underscore_loop False (CHR ''^'') body
      | Some b \<Rightarrow> underscore_loop (b = CHR ''x'') (CHR ''0'') (drop 2 body))"

definition exponentPart :: "bool \<Rightarrow> bool \<Rightarrow> string \<Rightarrow> (int \<times> bool \<times> string) option" where
  "exponentPart hex unders s =
     (case s of
        c # r \<Rightarrow>
          if lower_char c = (if hex then CHR ''p'' else CHR ''e'')
          then (case splitSign r of (neg, ds) \<Rightarrow>
                  if ds = [] \<or> \<not> isDigit (hd ds) then None
                  else case scanExponent 0 unders ds of (e, unders', rest) \<Rightarrow> Some (if neg then - e else e, unders', rest))
          else if hex then None else Some (0, unders, s)
      | [] \<Rightarrow> if hex then None else Some (0, unders, []))"

definition scaleLiteral :: "bool \<Rightarrow> int \<Rightarrow> int \<Rightarrow> int \<Rightarrow> rat" where
  "scaleLiteral hex mant places e =
     (let base = (if hex then 2 else 10) :: int; shift = e - (if hex then 4 * places else places) in
      if 0 \<le> shift then of_int (mant * base ^ nat shift) else of_int mant / of_int (base ^ nat (- shift)))"

definition readFloat :: "string \<Rightarrow> (rat \<times> string) option" where
  "readFloat s =
     (case splitSign s of (neg, body) \<Rightarrow>
        let hex = (length body > 2 \<and> basePrefix body = Some (CHR ''x'')) in
        case scanMantissa hex 0 0 False False False (if hex then drop 2 body else body) of (mant, places, sawdigits, unders, rest) \<Rightarrow>
          if \<not> sawdigits then None
          else case exponentPart hex unders rest of
            None \<Rightarrow> None
          | Some (e, unders', rest') \<Rightarrow>
              if unders' \<and> \<not> underscoreOK (take (length s - length rest') s) then None
              else Some ((if neg then -1 else 1) * scaleLiteral hex mant places e, rest'))"

definition ParseFloat :: "string \<Rightarrow> float64 option" where
  "ParseFloat s =
     (case splitSign s of (neg, body) \<Rightarrow>
        if toLower body = ''inf'' \<or> toLower body = ''infinity'' then Some (Infinite neg)
        else if toLower s = ''nan'' then Some NotANumber
        else case readFloat s of
          Some (v, []) \<Rightarrow> (case fromRat v of Finite x \<Rightarrow> Some (Finite x) | _ \<Rightarrow> None)
        | _ \<Rightarrow> None)"

lemma ParseInt_int64: "ParseInt s = Some n \<Longrightarrow> int64 n"
  by (auto simp: ParseInt_def Let_def split: prod.splits if_splits)

lemma parse_examples:
  "ParseInt ''-42'' = Some (- 42)" "ParseInt ''9223372036854775808'' = None" "ParseInt ''1_0'' = None"
  "ParseFloat ''12.5'' = Some (Finite (25 / 2))" "ParseFloat ''1_0e-1'' = Some (Finite 1)" "ParseFloat ''0x1p-2'' = Some (Finite (1 / 4))"
  "ParseFloat ''1e'' = None" "ParseFloat ''-Inf'' = Some (Infinite True)"
  by code_simp+

end
