(* ===== verification/GoStrings.thy ===== *)
theory GoStrings
  imports Prelude "HOL-Library.Sublist"
begin

text \<open>
  White space as Go's \<open>strings\<close> package sees it.  \<open>strings.TrimSpace\<close> and
  \<open>strings.Fields\<close> treat the runes of \<open>unicode.IsSpace\<close> as space; here each such rune is its
  UTF-8 encoding.  Scanning bytewise agrees with scanning runewise, because none of these encodings
  starts with a continuation byte.
\<close>

definition space_runes :: "string list" where
  "space_runes =
     [[CHR '' ''], [CHR 0x09], [CHR 0x0A], [CHR 0x0B], [CHR 0x0C], [CHR 0x0D], [CHR 0xC2, CHR 0x85], [CHR 0xC2, CHR 0xA0],
      [CHR 0xE1, CHR 0x9A, CHR 0x80], [CHR 0xE2, CHR 0x80, CHR 0x80], [CHR 0xE2, CHR 0x80, CHR 0x81], [CHR 0xE2, CHR 0x80, CHR 0x82],
      [CHR 0xE2, CHR 0x80, CHR 0x83], [CHR 0xE2, CHR 0x80, CHR 0x84], [CHR 0xE2, CHR 0x80, CHR 0x85], [CHR 0xE2, CHR 0x80, CHR 0x86],
      [CHR 0xE2, CHR 0x80, CHR 0x87], [CHR 0xE2, CHR 0x80, CHR 0x88], [CHR 0xE2, CHR 0x80, CHR 0x89], [CHR 0xE2, CHR 0x80, CHR 0x8A],
      [CHR 0xE2, CHR 0x80, CHR 0xA8], [CHR 0xE2, CHR 0x80, CHR 0xA9], [CHR 0xE2, CHR 0x80, CHR 0xAF], [CHR 0xE2, CHR 0x81, CHR 0x9F],
      [CHR 0xE3, CHR 0x80, CHR 0x80]]"

definition leadingRune :: "string list \<Rightarrow> string \<Rightarrow> string option" where
  "leadingRune rs s = find (\<lambda>r. r \<noteq> [] \<and> prefix r s) rs"

lemma leadingRune_shorter: "leadingRune rs s = Some r \<Longrightarrow> length (drop (length r) s) < length s"
  by (auto simp: leadingRune_def find_Some_iff dest!: prefix_length_le) (meson diff_less length_greater_0_conv order_less_le_trans)

function trimRunes :: "string list \<Rightarrow> string \<Rightarrow> string" where
  "trimRunes rs s = (case leadingRune rs s of None \<Rightarrow> s | Some r \<Rightarrow> trimRunes rs (drop (length r) s))"
  by pat_completeness auto
termination
  by (relation "measure (\<lambda>(rs, s). length s)") (auto dest: leadingRune_shorter)

declare trimRunes.simps [simp del]

definition trimSpace :: "string \<Rightarrow> string" where
  "trimSpace s = rev (trimRunes (map rev space_runes) (rev (trimRunes space_runes s)))"

function fields_loop :: "string \<Rightarrow> string \<Rightarrow> string list" where
  "fields_loop acc [] = (if acc = [] then [] else [rev acc])"
| "fields_loop acc (c # s) =
     (case leadingRune space_runes (c # s) of
        None \<Rightarrow> fields_loop (c # acc) s
      | Some r \<Rightarrow> (if acc = [] then [] else [rev acc]) @ fields_loop [] (drop (length r) (c # s)))"
  by pat_completeness auto
termination
  by (relation "measure (\<lambda>(acc, s). length s)") (auto dest: leadingRune_shorter)

definition splitFields :: "string \<Rightarrow> string list" where
  "splitFields s = fields_loop [] s"

lemma trimSpace_empty [simp]: "trimSpace [] = []"
  by code_simp

text \<open>Trimming leaves strings alone that neither begin nor end with white space.\<close>

lemma trimRunes_id: "leadingRune rs s = None \<Longrightarrow> trimRunes rs s = s"
  by (subst trimRunes.simps) simp

lemma trimRunes_done: "leadingRune rs (trimRunes rs s) = None"
  by (induction rs s rule: trimRunes.induct) (subst trimRunes.simps, auto split: option.splits)

lemma trimRunes_suffix: "suffix (trimRunes rs s) s"
proof (induction rs s rule: trimRunes.induct)
  case (1 rs s)
  show ?case
  proof (cases "leadingRune rs s")
    case (Some r)
    then have "suffix (trimRunes rs s) (drop (length r) s)" using 1 [OF Some] by (subst trimRunes.simps) simp
    then show ?thesis using suffix_drop suffix_order.trans by blast
  qed (simp add: trimRunes_id)
qed

definition trimmed :: "string \<Rightarrow> bool" where
  "trimmed s \<longleftrightarrow> leadingRune space_runes s = None \<and> leadingRune (map rev space_runes) (rev s) = None"

lemma trimSpace_trimmed: "trimmed s \<Longrightarrow> trimSpace s = s"
  by (simp add: trimmed_def trimSpace_def trimRunes_id)

lemma leadingRune_prefix: "leadingRune rs s = None \<Longrightarrow> prefix t s \<Longrightarrow> leadingRune rs t = None"
  by (auto simp: leadingRune_def find_None_iff intro: prefix_order.trans)

lemma trimmed_trimSpace: "trimmed (trimSpace s)"
proof -
  let ?l = "trimRunes space_runes s"
  have "prefix (trimSpace s) ?l"
    using trimRunes_suffix [of "map rev space_runes" "rev ?l"] by (simp add: trimSpace_def suffix_to_prefix)
  then have "leadingRune space_runes (trimSpace s) = None" using leadingRune_prefix trimRunes_done by blast
  then show ?thesis using trimRunes_done [of "map rev space_runes" "rev ?l"] by (simp add: trimmed_def trimSpace_def)
qed

lemma trimSpace_idem [simp]: "trimSpace (trimSpace s) = trimSpace s"
  by (rule trimSpace_trimmed) (rule trimmed_trimSpace)

end
