(* ===== verification/Telemetry.thy ===== *)
theory Telemetry
  imports GoStrconv GoStrings GoMap
begin

text \<open>
  Telemetry normalization, \<open>src/internal/telemetry/normalize.go\<close>: a raw NUT variable snapshot
  with the aliases of the matched capability profile becomes the facts that status, trigger evaluation
  and audit read.  Variables and aliases are maps sorted by name.
\<close>

definition PhaseUnknown :: string where "PhaseUnknown = ''Unknown''"
definition PhaseOnline :: string where "PhaseOnline = ''Online''"
definition PhaseOnBattery :: string where "PhaseOnBattery = ''OnBattery''"
definition PhaseLowBattery :: string where "PhaseLowBattery = ''LowBattery''"
definition PhaseStale :: string where "PhaseStale = ''Stale''"
definition PhaseUnavailable :: string where "PhaseUnavailable = ''Unavailable''"

lemmas phases = PhaseUnknown_def PhaseOnline_def PhaseOnBattery_def PhaseLowBattery_def PhaseStale_def PhaseUnavailable_def

definition VariableUPSStatus :: string where "VariableUPSStatus = ''ups.status''"
definition VariableBatteryCharge :: string where "VariableBatteryCharge = ''battery.charge''"
definition VariableBatteryRuntime :: string where "VariableBatteryRuntime = ''battery.runtime''"
definition VariableUPSLoad :: string where "VariableUPSLoad = ''ups.load''"

lemmas variable_names = VariableUPSStatus_def VariableBatteryCharge_def VariableBatteryRuntime_def VariableUPSLoad_def

definition knownStatusSymbols :: "string list" where
  "knownStatusSymbols =
     [''ALARM'', ''BOOST'', ''BYPASS'', ''CAL'', ''CHRG'', ''COMM'', ''DISCHRG'', ''FSD'', ''LB'', ''NOCOMM'', ''OB'', ''OFF'',
      ''OL'', ''OVER'', ''RB'', ''TEST'', ''TICK'', ''TOCK'', ''TRIM'']"

record TelemetrySample =
  sa_UPSDevice :: string
  sa_NUTServer :: string
  sa_NUTName :: string
  sa_ObservedAt :: int
  sa_Variables :: "(string, string) gmap"
  sa_Aliases :: "(string, string) gmap"

record TelemetrySnapshot =
  tn_UPSDevice :: string
  tn_NUTServer :: string
  tn_NUTName :: string
  tn_ObservedAt :: int
  tn_Variables :: "(string, string) gmap"
  tn_UPSStatus :: string
  tn_StatusSymbols :: "string list"
  tn_Phase :: string
  tn_Online :: bool
  tn_OnBattery :: bool
  tn_LowBattery :: bool
  tn_ForcedShutdown :: bool
  tn_ReplaceBattery :: bool
  tn_NoCommunication :: bool
  tn_Alarm :: bool
  tn_Overloaded :: bool
  tn_BatteryChargePercent :: "float64 option"
  tn_RuntimeSeconds :: "int option"
  tn_LoadPercent :: "float64 option"
  tn_Diagnostics :: "Diagnostic list"

definition addSymbol :: "string \<Rightarrow> string list \<times> Diagnostic list \<Rightarrow> string list \<times> Diagnostic list" where
  "addSymbol token acc =
     (case acc of (symbols, ds) \<Rightarrow>
        let symbol = toUpper token in
        if symbol \<in> set symbols then acc
        else (symbols @ [symbol],
              if symbol \<in> set knownStatusSymbols then ds
              else ds @ [diag DiagnosticWarning ''UnknownStatusSymbol'' VariableUPSStatus
                (''NUT status symbol '' @ quote symbol @ '' is not known to this normalizer'')]))"

definition normalizeStatusSymbols :: "string \<Rightarrow> string list \<times> Diagnostic list" where
  "normalizeStatusSymbols status =
     (if status = ''''
      then ([], [diag DiagnosticWarning ''StatusMissing'' VariableUPSStatus ''NUT variable ups.status is missing or empty''])
      else fold addSymbol (splitFields status) ([], []))"

definition telemetry_phase :: "string list \<Rightarrow> string \<Rightarrow> string" where
  "telemetry_phase flags status =
     (if status = '''' \<or> ''NOCOMM'' \<in> set flags then PhaseStale
      else if ''OFF'' \<in> set flags then PhaseUnavailable
      else if ''FSD'' \<in> set flags \<or> ''LB'' \<in> set flags then PhaseLowBattery
      else if ''OB'' \<in> set flags then PhaseOnBattery
      else if ''OL'' \<in> set flags then PhaseOnline
      else PhaseUnknown)"

definition finiteFloat :: "float64 \<Rightarrow> bool" where
  "finiteFloat v = (case v of Finite x \<Rightarrow> True | _ \<Rightarrow> False)"

definition parseFloatVariable :: "(string, string) gmap \<Rightarrow> string \<Rightarrow> float64 option \<times> Diagnostic list" where
  "parseFloatVariable variables name =
     (let raw = trimSpace (gm_string variables name);
          failed = (None, [diag DiagnosticWarning ''VariableParseFailed'' name
            (''NUT variable '' @ name @ '' value '' @ quote raw @ '' is not a number'')]) in
      if raw = '''' then (None, [])
      else case ParseFloat raw of None \<Rightarrow> failed | Some v \<Rightarrow> if finiteFloat v then (Some v, []) else failed)"

definition parseRuntimeSeconds :: "(string, string) gmap \<Rightarrow> string \<Rightarrow> int option \<times> Diagnostic list" where
  "parseRuntimeSeconds variables name =
     (let raw = trimSpace (gm_string variables name);
          failed = (None, [diag DiagnosticWarning ''VariableParseFailed'' name
            (''NUT variable '' @ name @ '' value '' @ quote raw @ '' is not a duration in seconds'')]) in
      if raw = '''' then (None, [])
      else case ParseInt raw of
        Some n \<Rightarrow> (Some n, [])
      | None \<Rightarrow> (case ParseFloat raw of None \<Rightarrow> failed | Some v \<Rightarrow> if finiteFloat v then (Some (toInt64 v), []) else failed))"

type_synonym aliasing = "(string, string) gmap \<times> (string, string) gmap \<times> Diagnostic list"

definition applyAlias :: "(string, string) gmap \<Rightarrow> string \<Rightarrow> aliasing \<Rightarrow> aliasing" where
  "applyAlias aliases source acc =
     (case acc of (variables, applied, ds) \<Rightarrow>
        let target = gm_string aliases source in
        if source = '''' \<or> target = '''' \<or> source = target then acc
        else case map_of variables source of
          None \<Rightarrow> acc
        | Some reported \<Rightarrow>
            if map_of variables target \<noteq> None
            then (variables, applied, ds @ [diag DiagnosticWarning ''AliasShadowedByNativeVariable'' target
              (''NUT variable '' @ target @ '' is reported natively, so the profile alias from '' @ source @ '' was not applied'')])
            else case map_of applied target of
              Some previous \<Rightarrow>
                (variables, applied, ds @ [diag DiagnosticWarning ''AliasCollision'' target
                  (''NUT variable '' @ target @ '' was already aliased from '' @ previous @ '', so the alias from '' @ source @
                   '' was not applied'')])
            | None \<Rightarrow>
                (gm_put target reported variables, gm_put target source applied,
                 ds @ [diag DiagnosticWarning ''AliasApplied'' target
                  (''NUT variable '' @ target @ '' arrived under the non-standard name '' @ source @
                   '' and was resolved by the matched capability profile'')]))"

definition applyAliases :: "(string, string) gmap \<Rightarrow> (string, string) gmap \<Rightarrow> (string, string) gmap \<times> Diagnostic list" where
  "applyAliases variables aliases =
     (if variables = [] \<or> aliases = [] then (variables, [])
      else case fold (applyAlias aliases) (sort (gm_keys aliases)) (variables, [], []) of (vs, _, ds) \<Rightarrow> (vs, ds))"

definition Normalize :: "TelemetrySample \<Rightarrow> TelemetrySnapshot" where
  "Normalize sample =
     (case applyAliases (sa_Variables sample) (sa_Aliases sample) of (variables, aliasDiagnostics) \<Rightarrow>
      let status = trimSpace (gm_string variables VariableUPSStatus) in
      case normalizeStatusSymbols status of (symbols, statusDiagnostics) \<Rightarrow>
      case parseFloatVariable variables VariableBatteryCharge of (charge, chargeDiagnostics) \<Rightarrow>
      case parseRuntimeSeconds variables VariableBatteryRuntime of (runtimeSeconds, runtimeDiagnostics) \<Rightarrow>
      case parseFloatVariable variables VariableUPSLoad of (load, loadDiagnostics) \<Rightarrow>
      \<lparr>tn_UPSDevice = sa_UPSDevice sample, tn_NUTServer = sa_NUTServer sample, tn_NUTName = sa_NUTName sample,
       tn_ObservedAt = sa_ObservedAt sample, tn_Variables = variables, tn_UPSStatus = status, tn_StatusSymbols = symbols,
       tn_Phase = telemetry_phase symbols status, tn_Online = (''OL'' \<in> set symbols), tn_OnBattery = (''OB'' \<in> set symbols),
       tn_LowBattery = (''LB'' \<in> set symbols), tn_ForcedShutdown = (''FSD'' \<in> set symbols),
       tn_ReplaceBattery = (''RB'' \<in> set symbols), tn_NoCommunication = (''NOCOMM'' \<in> set symbols),
       tn_Alarm = (''ALARM'' \<in> set symbols), tn_Overloaded = (''OVER'' \<in> set symbols), tn_BatteryChargePercent = charge,
       tn_RuntimeSeconds = runtimeSeconds, tn_LoadPercent = load,
       tn_Diagnostics = aliasDiagnostics @ statusDiagnostics @ chargeDiagnostics @ runtimeDiagnostics @ loadDiagnostics\<rparr>)"

section \<open>Aliases\<close>

text \<open>An alias is usable when it renames a reported variable to a different nonempty name.\<close>

definition usable :: "(string, string) gmap \<Rightarrow> (string, string) gmap \<Rightarrow> string \<Rightarrow> bool" where
  "usable aliases variables source \<longleftrightarrow>
     source \<noteq> '''' \<and> gm_string aliases source \<noteq> '''' \<and> source \<noteq> gm_string aliases source \<and> map_of variables source \<noteq> None"

text \<open>Every write of the loop also records the target as reported, so the collision branch never runs.\<close>

lemma applyAlias_eq:
  assumes "dom (map_of applied) \<subseteq> dom (map_of variables)"
  shows "applyAlias aliases source (variables, applied, ds) =
    (let target = gm_string aliases source in
     if \<not> usable aliases variables source then (variables, applied, ds)
     else if map_of variables target \<noteq> None
     then (variables, applied, ds @ [diag DiagnosticWarning ''AliasShadowedByNativeVariable'' target
       (''NUT variable '' @ target @ '' is reported natively, so the profile alias from '' @ source @ '' was not applied'')])
     else (gm_put target (the (map_of variables source)) variables, gm_put target source applied,
       ds @ [diag DiagnosticWarning ''AliasApplied'' target
         (''NUT variable '' @ target @ '' arrived under the non-standard name '' @ source @
          '' and was resolved by the matched capability profile'')]))"
proof -
  have "map_of applied t = None" if "map_of variables t = None" for t
    using assms that by (metis domIff subsetD)
  then show ?thesis by (simp add: applyAlias_def usable_def Let_def split: option.splits)
qed

definition aliasing_ok :: "(string, string) gmap \<Rightarrow> (string, string) gmap \<Rightarrow> aliasing \<Rightarrow> bool" where
  "aliasing_ok aliases variables acc \<longleftrightarrow>
     (case acc of (vs, applied, ds) \<Rightarrow>
        (\<forall>k v. map_of variables k = Some v \<longrightarrow> map_of vs k = Some v) \<and>
        (\<forall>k. map_of vs k \<noteq> None \<longrightarrow> map_of variables k \<noteq> None \<or> map_of applied k \<noteq> None) \<and>
        (\<forall>t s. map_of applied t = Some s \<longrightarrow> gm_string aliases s = t \<and> map_of vs s \<noteq> None \<and> map_of vs t = map_of vs s) \<and>
        ''AliasCollision'' \<notin> Reason ` set ds)"

lemma aliasing_put:
  assumes ok: "aliasing_ok aliases variables (vs, applied, ds)" and s: "map_of vs source = Some v"
    and t: "map_of vs (gm_string aliases source) = None" and r: "Reason d \<noteq> ''AliasCollision''"
  shows "aliasing_ok aliases variables (gm_put (gm_string aliases source) v vs, gm_put (gm_string aliases source) source applied, ds @ [d])"
proof -
  let ?t = "gm_string aliases source"
  have ne: "k \<noteq> ?t" if "map_of vs k \<noteq> None" for k using that t by auto
  have st: "source \<noteq> ?t" using ne s by blast
  have keep: "map_of vs k = Some w" if "map_of variables k = Some w" for k w
    using ok that unfolding aliasing_ok_def case_prod_conv by blast
  then have nat: "map_of variables ?t = None" using t by (cases "map_of variables ?t") auto
  have ap: "gm_string aliases b = a \<and> map_of vs b \<noteq> None \<and> map_of vs a = map_of vs b" if "map_of applied a = Some b" for a b
    using ok that by (simp add: aliasing_ok_def)
  have apne: "a \<noteq> ?t \<and> b \<noteq> ?t" if "map_of applied a = Some b" for a b
    using ap [OF that] ne [of a] ne [of b] by metis
  show ?thesis
    unfolding aliasing_ok_def case_prod_conv map_of_gm_put
  proof (intro conjI allI impI)
    fix k w assume "map_of variables k = Some w"
    then show "((map_of vs)(?t \<mapsto> v)) k = Some w" using keep nat by auto
  next
    fix k assume "((map_of vs)(?t \<mapsto> v)) k \<noteq> None"
    then show "map_of variables k \<noteq> None \<or> ((map_of applied)(?t \<mapsto> source)) k \<noteq> None"
      using ok by (cases "k = ?t") (simp_all add: aliasing_ok_def)
  next
    fix a b assume ab: "((map_of applied)(?t \<mapsto> source)) a = Some b"
    show "gm_string aliases b = a" using ab ap by (cases "a = ?t") auto
    show "((map_of vs)(?t \<mapsto> v)) b \<noteq> None" using ab ap s by (cases "a = ?t") auto
    show "((map_of vs)(?t \<mapsto> v)) a = ((map_of vs)(?t \<mapsto> v)) b"
      using ab ap apne s st by (cases "a = ?t") auto
  next
    show "''AliasCollision'' \<notin> Reason ` set (ds @ [d])" using ok r by (auto simp: aliasing_ok_def)
  qed
qed

lemma aliasing_note:
  "aliasing_ok aliases variables (vs, applied, ds) \<Longrightarrow> Reason d \<noteq> ''AliasCollision'' \<Longrightarrow> aliasing_ok aliases variables (vs, applied, ds @ [d])"
  by (auto simp: aliasing_ok_def)

lemma aliasing_step:
  assumes "aliasing_ok aliases variables acc"
  shows "aliasing_ok aliases variables (applyAlias aliases source acc)"
proof -
  obtain vs applied ds where acc: "acc = (vs, applied, ds)" by (cases acc) auto
  have dom: "dom (map_of applied) \<subseteq> dom (map_of vs)" using assms by (auto simp: aliasing_ok_def acc)
  have eq: "applyAlias aliases source (vs, applied, ds) = (if \<not> usable aliases vs source then (vs, applied, ds)
      else if map_of vs (gm_string aliases source) \<noteq> None
      then (vs, applied, ds @ [diag DiagnosticWarning ''AliasShadowedByNativeVariable'' (gm_string aliases source)
        (''NUT variable '' @ gm_string aliases source @ '' is reported natively, so the profile alias from '' @ source @ '' was not applied'')])
      else (gm_put (gm_string aliases source) (the (map_of vs source)) vs, gm_put (gm_string aliases source) source applied,
        ds @ [diag DiagnosticWarning ''AliasApplied'' (gm_string aliases source)
         (''NUT variable '' @ gm_string aliases source @ '' arrived under the non-standard name '' @ source @
          '' and was resolved by the matched capability profile'')]))"
    unfolding applyAlias_eq [OF dom] Let_def by (rule refl)
  show ?thesis
  proof (cases "usable aliases vs source")
    case True
    then obtain v where "map_of vs source = Some v" by (auto simp: usable_def)
    then show ?thesis using assms True unfolding acc eq by (simp add: aliasing_put aliasing_note)
  qed (use assms in \<open>simp add: acc eq\<close>)
qed

lemma aliasing_fold: "aliasing_ok aliases variables acc \<Longrightarrow> aliasing_ok aliases variables (fold (applyAlias aliases) sources acc)"
  by (induction sources arbitrary: acc) (simp_all only: fold_simps aliasing_step)

lemma applyAliases_ok:
  assumes "applyAliases variables aliases = (vs, ds)"
  shows "\<exists>applied. aliasing_ok aliases variables (vs, applied, ds)"
proof (cases "variables = [] \<or> aliases = []")
  case True
  then have "aliasing_ok aliases variables (vs, [], ds)" using assms by (auto simp: applyAliases_def aliasing_ok_def)
  then show ?thesis by blast
next
  case False
  have "aliasing_ok aliases variables (fold (applyAlias aliases) (sort (gm_keys aliases)) (variables, [], []))"
    by (rule aliasing_fold) (simp add: aliasing_ok_def)
  then show ?thesis using assms False by (auto simp: applyAliases_def split: prod.splits)
qed

lemma Normalize_aliases:
  "\<exists>ds rest. applyAliases (sa_Variables sample) (sa_Aliases sample) = (tn_Variables (Normalize sample), ds) \<and>
     tn_Diagnostics (Normalize sample) = ds @ rest \<and> ''AliasCollision'' \<notin> Reason ` set rest"
proof -
  obtain vs ds where a: "applyAliases (sa_Variables sample) (sa_Aliases sample) = (vs, ds)" by (rule prod.exhaust)
  have syms: "''AliasCollision'' \<notin> Reason ` set (snd (fold addSymbol tokens acc))" if "''AliasCollision'' \<notin> Reason ` set (snd acc)" for tokens acc
    using that
  proof (induction tokens arbitrary: acc)
    case (Cons tok tokens)
    have "''AliasCollision'' \<notin> Reason ` set (snd (addSymbol tok acc))"
      using Cons.prems by (auto simp: addSymbol_def Let_def split: prod.splits)
    then show ?case using Cons.IH by simp
  qed simp
  have "''AliasCollision'' \<notin> Reason ` set (snd (normalizeStatusSymbols status))" for status
    using syms [of "([], [])"] by (simp add: normalizeStatusSymbols_def)
  moreover have "''AliasCollision'' \<notin> Reason ` set (snd (parseFloatVariable vs name))" for name
    by (auto simp: parseFloatVariable_def Let_def split: option.splits)
  moreover have "''AliasCollision'' \<notin> Reason ` set (snd (parseRuntimeSeconds vs name))" for name
    by (auto simp: parseRuntimeSeconds_def Let_def split: option.splits)
  ultimately show ?thesis by (simp add: Normalize_def a Let_def split_beta image_Un)
qed

text \<open>Aliases never hide or lose a reading: every variable the device reports keeps its value, every
  further variable is the declared target of an alias and carries the value of the alias's source, and
  the collision diagnostic is never emitted.\<close>

theorem aliases_never_mask:
  "(\<forall>k v. map_of (sa_Variables sample) k = Some v \<longrightarrow> map_of (tn_Variables (Normalize sample)) k = Some v) \<and>
   (\<forall>k v. map_of (tn_Variables (Normalize sample)) k = Some v \<longrightarrow>
      map_of (sa_Variables sample) k = Some v \<or>
      (map_of (sa_Variables sample) k = None \<and>
       (\<exists>source. gm_string (sa_Aliases sample) source = k \<and> map_of (tn_Variables (Normalize sample)) source = Some v))) \<and>
   ''AliasCollision'' \<notin> Reason ` set (tn_Diagnostics (Normalize sample))"
proof -
  obtain ds rest where n: "applyAliases (sa_Variables sample) (sa_Aliases sample) = (tn_Variables (Normalize sample), ds)"
      "tn_Diagnostics (Normalize sample) = ds @ rest" "''AliasCollision'' \<notin> Reason ` set rest"
    using Normalize_aliases by blast
  obtain applied where ok: "aliasing_ok (sa_Aliases sample) (sa_Variables sample) (tn_Variables (Normalize sample), applied, ds)"
    using applyAliases_ok [OF n(1)] by blast
  let ?vs = "tn_Variables (Normalize sample)"
  have keep: "map_of (sa_Variables sample) k = Some v \<Longrightarrow> map_of ?vs k = Some v" for k v
    using ok unfolding aliasing_ok_def case_prod_conv by blast
  have extra: "\<exists>source. gm_string (sa_Aliases sample) source = k \<and> map_of ?vs source = Some v"
    if kv: "map_of ?vs k = Some v" and none: "map_of (sa_Variables sample) k = None" for k v
  proof -
    have "map_of (sa_Variables sample) k \<noteq> None \<or> map_of applied k \<noteq> None"
      using ok kv unfolding aliasing_ok_def case_prod_conv by blast
    then obtain s where "map_of applied k = Some s" using none by auto
    then have "gm_string (sa_Aliases sample) s = k" "map_of ?vs k = map_of ?vs s"
      using ok unfolding aliasing_ok_def case_prod_conv by blast+
    then show ?thesis using kv by (intro exI [of _ s]) simp
  qed
  have "''AliasCollision'' \<notin> Reason ` set (tn_Diagnostics (Normalize sample))"
    using ok n by (auto simp: aliasing_ok_def)
  moreover have "map_of (sa_Variables sample) k = Some v \<or> (map_of (sa_Variables sample) k = None \<and>
      (\<exists>source. gm_string (sa_Aliases sample) source = k \<and> map_of ?vs source = Some v))" if "map_of ?vs k = Some v" for k v
  proof (cases "map_of (sa_Variables sample) k")
    case None
    then show ?thesis using extra [OF that] by blast
  next
    case (Some w)
    then show ?thesis using keep [OF Some] that by simp
  qed
  ultimately show ?thesis using keep by blast
qed

definition aliased_sample :: TelemetrySample where
  "aliased_sample =
     \<lparr>sa_UPSDevice = ''u'', sa_NUTServer = ''n'', sa_NUTName = ''u'', sa_ObservedAt = 0,
      sa_Variables = [(''a'', ''1''), (''b'', ''2''), (''ups.status'', ''ob lb'')],
      sa_Aliases = [(''a'', ''c''), (''b'', ''c'')]\<rparr>"

lemma aliased_run:
  "map_of (tn_Variables (Normalize aliased_sample)) ''c'' = Some ''1''" "map_of (tn_Variables (Normalize aliased_sample)) ''b'' = Some ''2''"
  "map Reason (tn_Diagnostics (Normalize aliased_sample)) = [''AliasApplied'', ''AliasShadowedByNativeVariable'']"
  by code_simp+

theorem aliases_never_mask_witness:
  "map_of (sa_Variables aliased_sample) ''b'' = Some ''2'' \<and> map_of (tn_Variables (Normalize aliased_sample)) ''b'' = Some ''2'' \<and>
   map_of (tn_Variables (Normalize aliased_sample)) ''c'' = Some ''1'' \<and>
   map Reason (tn_Diagnostics (Normalize aliased_sample)) = [''AliasApplied'', ''AliasShadowedByNativeVariable'']"
proof -
  have "map_of (sa_Variables aliased_sample) ''b'' = Some ''2''" by code_simp
  then show ?thesis using aliases_never_mask [of aliased_sample] aliased_run by blast
qed

section \<open>Phases\<close>

text \<open>The symbols of a snapshot are the distinct upper-cased words of the status.\<close>

lemma addSymbol_symbol: "set (fst (addSymbol t acc)) = insert (toUpper t) (set (fst acc))"
  by (auto simp: addSymbol_def Let_def split: prod.splits)

lemma addSymbol_symbols: "set (fst (fold addSymbol tokens acc)) = set (fst acc) \<union> toUpper ` set tokens"
  by (induction tokens arbitrary: acc) (simp_all add: addSymbol_symbol)

lemma status_symbols: "set (tn_StatusSymbols (Normalize sample)) = toUpper ` set (splitFields (tn_UPSStatus (Normalize sample)))"
proof -
  have "set (fst (normalizeStatusSymbols status)) = toUpper ` set (splitFields status)" for status
    by (simp add: normalizeStatusSymbols_def addSymbol_symbols splitFields_def)
  then show ?thesis by (simp add: Normalize_def Let_def split_beta)
qed

text \<open>The phase is decided by the status words in a fixed order of precedence: no status or lost
  communication is stale, then off, then forced shutdown or low battery, then on battery, then online.
  In particular a device that reports low battery is never reported as merely on battery or online.\<close>

lemma phase_precedence:
  "tn_Phase (Normalize sample) =
     (let w = toUpper ` set (splitFields (tn_UPSStatus (Normalize sample))) in
      if tn_UPSStatus (Normalize sample) = '''' \<or> ''NOCOMM'' \<in> w then PhaseStale
      else if ''OFF'' \<in> w then PhaseUnavailable
      else if ''FSD'' \<in> w \<or> ''LB'' \<in> w then PhaseLowBattery
      else if ''OB'' \<in> w then PhaseOnBattery
      else if ''OL'' \<in> w then PhaseOnline
      else PhaseUnknown)"
  unfolding status_symbols [symmetric] by (simp add: Normalize_def telemetry_phase_def Let_def split_beta)



end
