(* ===== verification/TriggerEval.thy ===== *)
theory TriggerEval
  imports Telemetry
begin

text \<open>
  Trigger evaluation, \<open>src/internal/trigger/evaluator.go\<close>: at each tick the triggers of a flow are
  matched against the live UPS states, and a trigger with a hold time becomes eligible only after its
  condition has held for that long.  The hold state is an explicit input and output.  Instants are
  integers (nanoseconds), so converting to UTC changes nothing and adding a duration does not wrap.
\<close>

record EvalTrigger =
  tg_ID :: string
  tg_Type :: string
  tg_FallbackType :: string
  tg_UPSDevices :: "string list"
  tg_PowerDomains :: "string list"
  tg_For :: duration
  tg_RuntimeBelowSeconds :: "int option"
  tg_ChargeBelowPercent :: "int option"

record UPSState =
  us_UPSDevice :: string
  us_PowerDomains :: "string list"
  us_ObservedAt :: int
  us_Phase :: string
  us_OnBattery :: bool
  us_LowBattery :: bool
  us_Stale :: bool
  us_RuntimeSeconds :: "int option"
  us_ChargePercent :: "int option"

record HoldState =
  ho_TriggerID :: string
  ho_UPSDevice :: string
  ho_StartedAt :: int

record TriggerInputs =
  in_ObservedAt :: int
  in_Triggers :: "EvalTrigger list"
  in_UPSStates :: "UPSState list"
  in_Holds :: "HoldState list"

record Decision =
  dc_TriggerID :: string
  dc_Type :: string
  dc_Matched :: bool
  dc_Eligible :: bool
  dc_Reason :: string
  dc_SelectedUPSDevices :: "string list"
  dc_HoldStartedAt :: "int option"
  dc_EligibleAt :: "int option"

record Evaluation =
  ev_ObservedAt :: int
  ev_Approved :: bool
  ev_Reason :: string
  ev_SelectedUPSDevices :: "string list"
  ev_Decisions :: "Decision list"
  ev_Holds :: "HoldState list"
  ev_Diagnostics :: "Diagnostic list"
  ev_MatchedTriggerCount :: int

section \<open>Normalization\<close>

definition stringSet :: "string list \<Rightarrow> string list" where
  "stringSet values = filter (\<lambda>v. v \<noteq> '''') (map trimSpace values)"

definition sortedUniqueStrings :: "string list \<Rightarrow> string list" where
  "sortedUniqueStrings values = sortedUnique (stringSet values)"

definition normalizeEvalTrigger :: "nat \<Rightarrow> EvalTrigger \<Rightarrow> EvalTrigger" where
  "normalizeEvalTrigger index t =
     (let ident = trimSpace (tg_ID t); ty = trimSpace (tg_Type t) in
      t\<lparr>tg_ID := (if ident = '''' then ''trigger-'' @ padDigits 3 (int index) @ ''-'' @ toLower ty else ident),
        tg_Type := ty, tg_UPSDevices := sortedUniqueStrings (tg_UPSDevices t),
        tg_PowerDomains := sortedUniqueStrings (tg_PowerDomains t)\<rparr>)"

definition normalizeUPSStates :: "UPSState list \<Rightarrow> UPSState list" where
  "normalizeUPSStates states =
     sort_key us_UPSDevice (filter (\<lambda>s. us_UPSDevice s \<noteq> '''')
       (map (\<lambda>s. s\<lparr>us_UPSDevice := trimSpace (us_UPSDevice s), us_PowerDomains := sortedUniqueStrings (us_PowerDomains s)\<rparr>) states))"

definition holdKey :: "string \<Rightarrow> string \<Rightarrow> string" where
  "holdKey triggerID upsDevice = triggerID @ [CHR 0x00] @ upsDevice"

definition putHold :: "HoldState \<Rightarrow> (string, HoldState) gmap \<Rightarrow> (string, HoldState) gmap" where
  "putHold h index =
     (let h' = h\<lparr>ho_TriggerID := trimSpace (ho_TriggerID h), ho_UPSDevice := trimSpace (ho_UPSDevice h)\<rparr> in
      if ho_TriggerID h' = '''' \<or> ho_UPSDevice h' = '''' then index
      else gm_put (holdKey (ho_TriggerID h') (ho_UPSDevice h')) h' index)"

definition holdIndex :: "HoldState list \<Rightarrow> (string, HoldState) gmap" where
  "holdIndex holds = fold putHold holds []"

section \<open>Conditions\<close>

datatype matchOutcome = outcomeConditionFalse | outcomeMatched | outcomeTelemetryUnavailable

definition boolOutcome :: "bool \<Rightarrow> matchOutcome" where
  "boolOutcome b = (if b then outcomeMatched else outcomeConditionFalse)"

definition missingTriggerValue :: "string \<Rightarrow> string \<Rightarrow> string \<Rightarrow> Diagnostic" where
  "missingTriggerValue ident reason field = diag DiagnosticError reason ident (''trigger '' @ quote ident @ '' requires '' @ field)"

definition missingTelemetryValue :: "string \<Rightarrow> string \<Rightarrow> string \<Rightarrow> string \<Rightarrow> Diagnostic" where
  "missingTelemetryValue ident device reason valueName =
     diag DiagnosticWarning reason device
       (''trigger '' @ quote ident @ '' selected UPSDevice '' @ quote device @ '' but '' @ valueName @ '' telemetry is missing'')"

definition evaluateTriggerClass :: "string \<Rightarrow> EvalTrigger \<Rightarrow> UPSState \<Rightarrow> matchOutcome \<times> Diagnostic list" where
  "evaluateTriggerClass ty t s =
     (if ty = ''OnBattery''
      then (boolOutcome (us_OnBattery s \<or> us_Phase s = PhaseOnBattery \<or> us_Phase s = PhaseLowBattery), [])
      else if ty = ''LowBattery'' then (boolOutcome (us_LowBattery s \<or> us_Phase s = PhaseLowBattery), [])
      else if ty = ''RuntimeBelow''
      then (case tg_RuntimeBelowSeconds t of
          None \<Rightarrow> (outcomeConditionFalse, [missingTriggerValue (tg_ID t) ''RuntimeThresholdMissing'' ''runtimeBelowSeconds''])
        | Some limit \<Rightarrow> (case us_RuntimeSeconds s of
            None \<Rightarrow> (outcomeTelemetryUnavailable,
              [missingTelemetryValue (tg_ID t) (us_UPSDevice s) ''RuntimeTelemetryMissing'' ''runtime remaining''])
          | Some v \<Rightarrow> (boolOutcome (v \<le> limit), [])))
      else if ty = ''ChargeBelow''
      then (case tg_ChargeBelowPercent t of
          None \<Rightarrow> (outcomeConditionFalse, [missingTriggerValue (tg_ID t) ''ChargeThresholdMissing'' ''chargeBelowPercent''])
        | Some limit \<Rightarrow> (case us_ChargePercent s of
            None \<Rightarrow> (outcomeTelemetryUnavailable,
              [missingTelemetryValue (tg_ID t) (us_UPSDevice s) ''ChargeTelemetryMissing'' ''battery charge''])
          | Some v \<Rightarrow> (boolOutcome (v \<le> limit), [])))
      else if ty = ''TelemetryStale''
      then (boolOutcome (us_Stale s \<or> us_Phase s = PhaseStale \<or> us_Phase s = PhaseUnavailable), [])
      else (outcomeConditionFalse,
        [diag DiagnosticError ''TriggerTypeUnsupported'' (tg_ID t)
          (''trigger '' @ quote (tg_ID t) @ '' has unsupported type '' @ quote ty)]))"

definition triggerMatchesState :: "EvalTrigger \<Rightarrow> UPSState \<Rightarrow> bool \<times> Diagnostic list" where
  "triggerMatchesState t s =
     (case evaluateTriggerClass (tg_Type t) t s of (outcome, ds) \<Rightarrow>
      if outcome \<noteq> outcomeTelemetryUnavailable \<or> tg_FallbackType t = '''' then (outcome = outcomeMatched, ds)
      else case evaluateTriggerClass (tg_FallbackType t) t s of (fallback, fds) \<Rightarrow>
        if fallback = outcomeTelemetryUnavailable then (False, ds @ fds)
        else (fallback = outcomeMatched, fds @ [diag DiagnosticInfo ''TriggerFallbackApplied'' (tg_ID t)
          (''trigger '' @ quote (tg_ID t) @ '' evaluated '' @ quote (tg_FallbackType t) @ '' for '' @ quote (us_UPSDevice s) @
           '', which does not report the telemetry '' @ quote (tg_Type t) @ '' needs'')]))"

definition selectUPSStates :: "EvalTrigger \<Rightarrow> UPSState list \<Rightarrow> UPSState list" where
  "selectUPSStates t states =
     (let devices = stringSet (tg_UPSDevices t); domains = stringSet (tg_PowerDomains t) in
      if devices = [] \<and> domains = [] then states
      else filter (\<lambda>s. us_UPSDevice s \<in> set devices \<or> list_ex (\<lambda>d. d \<in> set domains) (us_PowerDomains s)) states)"

section \<open>Decisions\<close>

record triggerScan =
  sc_Matched :: bool
  sc_Eligible :: bool
  sc_Selected :: "string list"
  sc_Holds :: "HoldState list"
  sc_EarliestHold :: "int option"
  sc_EarliestEligible :: "int option"
  sc_Diagnostics :: "Diagnostic list"

definition earliest :: "int \<Rightarrow> int option \<Rightarrow> int option" where
  "earliest t best = (case best of None \<Rightarrow> Some t | Some b \<Rightarrow> if t < b then Some t else best)"

definition holdStart :: "int \<Rightarrow> (string, HoldState) gmap \<Rightarrow> string \<Rightarrow> string \<Rightarrow> int" where
  "holdStart observedAt holds ident device =
     (case map_of holds (holdKey ident device) of None \<Rightarrow> observedAt | Some h \<Rightarrow> ho_StartedAt h)"

definition scanState :: "int \<Rightarrow> EvalTrigger \<Rightarrow> (string, HoldState) gmap \<Rightarrow> UPSState \<Rightarrow> triggerScan \<Rightarrow> triggerScan" where
  "scanState observedAt t holds s acc =
     (case triggerMatchesState t s of (matches, ds) \<Rightarrow>
      let acc1 = acc\<lparr>sc_Diagnostics := sc_Diagnostics acc @ ds\<rparr> in
      if \<not> matches then acc1
      else let started = holdStart observedAt holds (tg_ID t) (us_UPSDevice s); eligibleAt = started + tg_For t;
               eligible = (tg_For t \<le> 0 \<or> \<not> observedAt < eligibleAt) in
        acc1\<lparr>sc_Matched := True,
             sc_Holds := sc_Holds acc @ [\<lparr>ho_TriggerID = tg_ID t, ho_UPSDevice = us_UPSDevice s, ho_StartedAt = started\<rparr>],
             sc_EarliestHold := earliest started (sc_EarliestHold acc),
             sc_EarliestEligible := earliest eligibleAt (sc_EarliestEligible acc),
             sc_Eligible := sc_Eligible acc \<or> eligible,
             sc_Selected := (if eligible then sc_Selected acc @ [us_UPSDevice s] else sc_Selected acc)\<rparr>)"

definition emptyScan :: triggerScan where
  "emptyScan = \<lparr>sc_Matched = False, sc_Eligible = False, sc_Selected = [], sc_Holds = [], sc_EarliestHold = None,
     sc_EarliestEligible = None, sc_Diagnostics = []\<rparr>"

definition evaluateTrigger :: "int \<Rightarrow> EvalTrigger \<Rightarrow> UPSState list \<Rightarrow> (string, HoldState) gmap \<Rightarrow> Decision \<times> HoldState list \<times> Diagnostic list" where
  "evaluateTrigger observedAt t states holds =
     (let candidates = selectUPSStates t states in
      if candidates = []
      then (\<lparr>dc_TriggerID = tg_ID t, dc_Type = tg_Type t, dc_Matched = False, dc_Eligible = False, dc_Reason = ''ConditionFalse'',
             dc_SelectedUPSDevices = [], dc_HoldStartedAt = None, dc_EligibleAt = None\<rparr>, [],
            [diag DiagnosticWarning ''TriggerSelectionEmpty'' (tg_ID t)
              (''trigger '' @ quote (tg_ID t) @ '' selected no UPS telemetry states'')])
      else let r = fold (scanState observedAt t holds) candidates emptyScan in
        (\<lparr>dc_TriggerID = tg_ID t, dc_Type = tg_Type t, dc_Matched = sc_Matched r, dc_Eligible = sc_Eligible r,
          dc_Reason = (if sc_Eligible r then ''TriggerEligible'' else if sc_Matched r then ''TriggerHoldPending'' else ''ConditionFalse''),
          dc_SelectedUPSDevices = sort (sc_Selected r), dc_HoldStartedAt = sc_EarliestHold r, dc_EligibleAt = sc_EarliestEligible r\<rparr>,
         sc_Holds r, sc_Diagnostics r))"

definition evaluationReason :: "bool \<Rightarrow> HoldState list \<Rightarrow> Decision list \<Rightarrow> string" where
  "evaluationReason approved holds decisions =
     (if approved then ''TriggerEligible'' else if holds \<noteq> [] then ''TriggerHoldPending''
      else if decisions = [] then ''NoTriggersConfigured'' else ''NoTriggerMatched'')"

definition sortHolds :: "HoldState list \<Rightarrow> HoldState list" where
  "sortHolds holds = sort_key (\<lambda>h. (ho_TriggerID h, ho_UPSDevice h)) holds"

definition Evaluate :: "TriggerInputs \<Rightarrow> Evaluation" where
  "Evaluate inputs =
     (let states = normalizeUPSStates (in_UPSStates inputs); holds = holdIndex (in_Holds inputs);
          results = map (\<lambda>(i, t). evaluateTrigger (in_ObservedAt inputs) (normalizeEvalTrigger i t) states holds)
            (enumerate 0 (in_Triggers inputs));
          decisions = map fst results; nextHolds = sortHolds (concat (map (\<lambda>(_, hs, _). hs) results));
          approved = list_ex dc_Eligible decisions in
      \<lparr>ev_ObservedAt = in_ObservedAt inputs, ev_Approved = approved, ev_Reason = evaluationReason approved nextHolds decisions,
       ev_SelectedUPSDevices = sortedUnique (concat (map dc_SelectedUPSDevices (filter dc_Eligible decisions))),
       ev_Decisions = decisions, ev_Holds = nextHolds,
       ev_Diagnostics = concat (map (\<lambda>(_, _, ds). ds) results),
       ev_MatchedTriggerCount = int (length (filter dc_Matched decisions))\<rparr>)"

section \<open>What one tick decides\<close>

definition normalizedTriggers :: "EvalTrigger list \<Rightarrow> EvalTrigger list" where
  "normalizedTriggers ts = map (\<lambda>(i, t). normalizeEvalTrigger i t) (enumerate 0 ts)"

definition condition :: "EvalTrigger \<Rightarrow> string \<Rightarrow> UPSState list \<Rightarrow> bool" where
  "condition t d states \<longleftrightarrow>
     (\<exists>s \<in> set (selectUPSStates t (normalizeUPSStates states)). us_UPSDevice s = d \<and> fst (triggerMatchesState t s))"

definition eligible_at :: "int \<Rightarrow> duration \<Rightarrow> int \<Rightarrow> bool" where
  "eligible_at observedAt hold_time started \<longleftrightarrow> hold_time \<le> 0 \<or> started + hold_time \<le> observedAt"

lemma scanState_fields:
  "sc_Holds (scanState now t holds s acc) = sc_Holds acc @ (if fst (triggerMatchesState t s)
     then [\<lparr>ho_TriggerID = tg_ID t, ho_UPSDevice = us_UPSDevice s, ho_StartedAt = holdStart now holds (tg_ID t) (us_UPSDevice s)\<rparr>] else [])"
  "sc_Selected (scanState now t holds s acc) = sc_Selected acc @ (if fst (triggerMatchesState t s) \<and>
     eligible_at now (tg_For t) (holdStart now holds (tg_ID t) (us_UPSDevice s)) then [us_UPSDevice s] else [])"
  "sc_Eligible (scanState now t holds s acc) \<longleftrightarrow> sc_Eligible acc \<or> (fst (triggerMatchesState t s) \<and>
     eligible_at now (tg_For t) (holdStart now holds (tg_ID t) (us_UPSDevice s)))"
  by (auto simp: scanState_def eligible_at_def Let_def not_less split: prod.splits)

lemma scan_fold:
  "sc_Holds (fold (scanState now t holds) ss acc) = sc_Holds acc @
     map (\<lambda>s. \<lparr>ho_TriggerID = tg_ID t, ho_UPSDevice = us_UPSDevice s, ho_StartedAt = holdStart now holds (tg_ID t) (us_UPSDevice s)\<rparr>)
       (filter (\<lambda>s. fst (triggerMatchesState t s)) ss)"
  "set (sc_Selected (fold (scanState now t holds) ss acc)) = set (sc_Selected acc) \<union> us_UPSDevice `
     {s \<in> set ss. fst (triggerMatchesState t s) \<and> eligible_at now (tg_For t) (holdStart now holds (tg_ID t) (us_UPSDevice s))}"
  "sc_Eligible (fold (scanState now t holds) ss acc) \<longleftrightarrow> sc_Eligible acc \<or>
     (\<exists>s \<in> set ss. fst (triggerMatchesState t s) \<and> eligible_at now (tg_For t) (holdStart now holds (tg_ID t) (us_UPSDevice s)))"
  by (induction ss arbitrary: acc) (auto simp: scanState_fields)

lemma emptyScan_fields [simp]: "sc_Holds emptyScan = []" "sc_Selected emptyScan = []" "\<not> sc_Eligible emptyScan"
  by (simp_all add: emptyScan_def)

lemma evaluateTrigger_selected:
  "set (dc_SelectedUPSDevices (fst (evaluateTrigger now t (normalizeUPSStates states) holds))) =
     {d. condition t d states \<and> eligible_at now (tg_For t) (holdStart now holds (tg_ID t) d)}"
  by (auto simp: evaluateTrigger_def condition_def scan_fold Let_def)

lemma evaluateTrigger_eligible:
  "dc_Eligible (fst (evaluateTrigger now t (normalizeUPSStates states) holds)) \<longleftrightarrow>
     (\<exists>d. condition t d states \<and> eligible_at now (tg_For t) (holdStart now holds (tg_ID t) d))"
  by (auto simp: evaluateTrigger_def condition_def scan_fold Let_def)

lemma evaluateTrigger_holds:
  "set (fst (snd (evaluateTrigger now t (normalizeUPSStates states) holds))) =
     {\<lparr>ho_TriggerID = tg_ID t, ho_UPSDevice = d, ho_StartedAt = holdStart now holds (tg_ID t) d\<rparr> |d. condition t d states}"
  by (auto simp: evaluateTrigger_def condition_def scan_fold Let_def)

lemma Evaluate_fields:
  "ev_Decisions (Evaluate inp) = map (\<lambda>t. fst (evaluateTrigger (in_ObservedAt inp) t (normalizeUPSStates (in_UPSStates inp)) (holdIndex (in_Holds inp))))
     (normalizedTriggers (in_Triggers inp))"
  "set (ev_Holds (Evaluate inp)) =
     {\<lparr>ho_TriggerID = tg_ID t, ho_UPSDevice = d, ho_StartedAt = holdStart (in_ObservedAt inp) (holdIndex (in_Holds inp)) (tg_ID t) d\<rparr> |t d.
        t \<in> set (normalizedTriggers (in_Triggers inp)) \<and> condition t d (in_UPSStates inp)}"
  "ev_Approved (Evaluate inp) \<longleftrightarrow> (\<exists>dec \<in> set (ev_Decisions (Evaluate inp)). dc_Eligible dec)"
proof -
  show "ev_Decisions (Evaluate inp) = map (\<lambda>t. fst (evaluateTrigger (in_ObservedAt inp) t (normalizeUPSStates (in_UPSStates inp)) (holdIndex (in_Holds inp))))
     (normalizedTriggers (in_Triggers inp))"
    by (simp add: Evaluate_def normalizedTriggers_def Let_def case_prod_beta)
  have "set (ev_Holds (Evaluate inp)) = (\<Union>t \<in> set (normalizedTriggers (in_Triggers inp)).
      set (fst (snd (evaluateTrigger (in_ObservedAt inp) t (normalizeUPSStates (in_UPSStates inp)) (holdIndex (in_Holds inp))))))"
    by (simp add: Evaluate_def normalizedTriggers_def sortHolds_def Let_def case_prod_beta)
  then show "set (ev_Holds (Evaluate inp)) =
     {\<lparr>ho_TriggerID = tg_ID t, ho_UPSDevice = d, ho_StartedAt = holdStart (in_ObservedAt inp) (holdIndex (in_Holds inp)) (tg_ID t) d\<rparr> |t d.
        t \<in> set (normalizedTriggers (in_Triggers inp)) \<and> condition t d (in_UPSStates inp)}"
    unfolding evaluateTrigger_holds by blast
  show "ev_Approved (Evaluate inp) \<longleftrightarrow> (\<exists>dec \<in> set (ev_Decisions (Evaluate inp)). dc_Eligible dec)"
    by (simp add: Evaluate_def Let_def list_ex_iff)
qed

section \<open>Holds across ticks\<close>

definition ids_ok :: "EvalTrigger list \<Rightarrow> bool" where
  "ids_ok ts \<longleftrightarrow> distinct (map tg_ID ts) \<and> (\<forall>t \<in> set ts. tg_ID t \<noteq> '''' \<and> trimmed (tg_ID t) \<and> CHR 0x00 \<notin> set (tg_ID t))"

lemma holdKey_inject:
  "CHR 0x00 \<notin> set a \<Longrightarrow> CHR 0x00 \<notin> set b \<Longrightarrow> holdKey a d = holdKey b e \<longleftrightarrow> a = b \<and> d = e"
proof
  assume z: "CHR 0x00 \<notin> set a" "CHR 0x00 \<notin> set b" and eq: "holdKey a d = holdKey b e"
  have "takeWhile (\<lambda>c. c \<noteq> CHR 0x00) (x @ CHR 0x00 # y) = x" if "CHR 0x00 \<notin> set x" for x y :: string
    using that by (induction x) auto
  then have "takeWhile (\<lambda>c. c \<noteq> CHR 0x00) (holdKey x y) = x" if "CHR 0x00 \<notin> set x" for x y
    using that by (simp add: holdKey_def)
  then have "a = b" using z eq by metis
  then show "a = b \<and> d = e" using eq by (simp add: holdKey_def)
qed simp

definition clean_hold :: "HoldState \<Rightarrow> bool" where
  "clean_hold h \<longleftrightarrow> trimmed (ho_TriggerID h) \<and> trimmed (ho_UPSDevice h) \<and> ho_TriggerID h \<noteq> '''' \<and> ho_UPSDevice h \<noteq> '''' \<and>
     CHR 0x00 \<notin> set (ho_TriggerID h)"

lemma putHold_clean: "clean_hold h \<Longrightarrow> putHold h m = gm_put (holdKey (ho_TriggerID h) (ho_UPSDevice h)) h m"
  by (simp add: clean_hold_def putHold_def trimSpace_trimmed Let_def)

lemma holdIndex_lookup:
  assumes "\<forall>h \<in> set hs. clean_hold h" and "CHR 0x00 \<notin> set ident"
    and "\<forall>h \<in> set hs. ho_TriggerID h = ident \<and> ho_UPSDevice h = d \<longrightarrow> ho_StartedAt h = v"
  shows "map_option ho_StartedAt (map_of (holdIndex hs) (holdKey ident d)) =
    (if \<exists>h \<in> set hs. ho_TriggerID h = ident \<and> ho_UPSDevice h = d then Some v else None)"
  using assms
proof (induction hs rule: rev_induct)
  case Nil
  then show ?case by (simp add: holdIndex_def)
next
  case (snoc h hs)
  have c: "clean_hold h" using snoc.prems(1) by simp
  then have z: "CHR 0x00 \<notin> set (ho_TriggerID h)" by (simp add: clean_hold_def)
  have "holdIndex (hs @ [h]) = gm_put (holdKey (ho_TriggerID h) (ho_UPSDevice h)) h (holdIndex hs)"
    by (simp add: holdIndex_def putHold_clean [OF c])
  then have "map_of (holdIndex (hs @ [h])) (holdKey ident d) =
      (if ho_TriggerID h = ident \<and> ho_UPSDevice h = d then Some h else map_of (holdIndex hs) (holdKey ident d))"
    using holdKey_inject [OF snoc.prems(2) z, of d "ho_UPSDevice h"] by auto
  moreover have "map_option ho_StartedAt (map_of (holdIndex hs) (holdKey ident d)) =
      (if \<exists>h \<in> set hs. ho_TriggerID h = ident \<and> ho_UPSDevice h = d then Some v else None)"
    by (rule snoc.IH) (use snoc.prems in auto)
  moreover have "ho_TriggerID h = ident \<and> ho_UPSDevice h = d \<Longrightarrow> ho_StartedAt h = v"
    using snoc.prems(3) by simp
  ultimately show ?case by (cases "ho_TriggerID h = ident \<and> ho_UPSDevice h = d") (simp_all only:, auto)
qed
definition tick :: "EvalTrigger list \<Rightarrow> HoldState list \<Rightarrow> int \<times> UPSState list \<Rightarrow> Evaluation" where
  "tick ts holds now = Evaluate \<lparr>in_ObservedAt = fst now, in_Triggers = ts, in_UPSStates = snd now, in_Holds = holds\<rparr>"

definition holdsAfter :: "EvalTrigger list \<Rightarrow> (int \<times> UPSState list) list \<Rightarrow> HoldState list" where
  "holdsAfter ts ticks = foldl (\<lambda>holds now. ev_Holds (tick ts holds now)) [] ticks"

fun heldSince :: "('a \<Rightarrow> bool) \<Rightarrow> (int \<times> 'a) list \<Rightarrow> int option" where
  "heldSince c [] = None"
| "heldSince c ((t, x) # earlier) =
     (if c x then Some (case heldSince c earlier of None \<Rightarrow> t | Some s \<Rightarrow> s) else None)"

lemma condition_device: "condition t d states \<Longrightarrow> trimmed d \<and> d \<noteq> ''''"
  by (auto simp: condition_def selectUPSStates_def normalizeUPSStates_def Let_def trimmed_trimSpace split: if_splits)

lemma normalizedTriggers_length [simp]: "length (normalizedTriggers ts) = length ts"
  by (simp add: normalizedTriggers_def)

lemma ids_ok_unique:
  "ids_ok ts \<Longrightarrow> t \<in> set ts \<Longrightarrow> u \<in> set ts \<Longrightarrow> tg_ID t = tg_ID u \<Longrightarrow> t = u"
  by (auto simp: ids_ok_def distinct_map inj_on_def)

lemma tick_lookup:
  assumes ok: "ids_ok (normalizedTriggers ts)" and t: "t \<in> set (normalizedTriggers ts)"
  shows "map_option ho_StartedAt (map_of (holdIndex (ev_Holds (tick ts holds now))) (holdKey (tg_ID t) d)) =
    (if condition t d (snd now) then Some (holdStart (fst now) (holdIndex holds) (tg_ID t) d) else None)"
proof -
  let ?hs = "ev_Holds (tick ts holds now)"
  have set_hs: "set ?hs = {\<lparr>ho_TriggerID = tg_ID u, ho_UPSDevice = e, ho_StartedAt = holdStart (fst now) (holdIndex holds) (tg_ID u) e\<rparr> |u e.
      u \<in> set (normalizedTriggers ts) \<and> condition u e (snd now)}"
    by (simp add: tick_def Evaluate_fields)
  have found: "(\<exists>h \<in> set ?hs. ho_TriggerID h = tg_ID t \<and> ho_UPSDevice h = d) \<longleftrightarrow> condition t d (snd now)"
    unfolding set_hs using t ids_ok_unique [OF ok _ t] by fastforce
  have "map_option ho_StartedAt (map_of (holdIndex ?hs) (holdKey (tg_ID t) d)) =
      (if \<exists>h \<in> set ?hs. ho_TriggerID h = tg_ID t \<and> ho_UPSDevice h = d
       then Some (holdStart (fst now) (holdIndex holds) (tg_ID t) d) else None)"
  proof (rule holdIndex_lookup)
    show "\<forall>h \<in> set ?hs. clean_hold h"
      unfolding set_hs using ok condition_device by (fastforce simp: ids_ok_def clean_hold_def)
    show "CHR 0x00 \<notin> set (tg_ID t)" using ok t by (simp add: ids_ok_def)
    show "\<forall>h \<in> set ?hs. ho_TriggerID h = tg_ID t \<and> ho_UPSDevice h = d \<longrightarrow>
        ho_StartedAt h = holdStart (fst now) (holdIndex holds) (tg_ID t) d"
      unfolding set_hs by auto
  qed
  then show ?thesis unfolding found .
qed

lemma holdStart_map:
  "holdStart now index ident d = (case map_option ho_StartedAt (map_of index (holdKey ident d)) of None \<Rightarrow> now | Some s \<Rightarrow> s)"
  by (simp add: holdStart_def split: option.splits)

lemma holdsAfter_lookup:
  assumes "ids_ok (normalizedTriggers ts)" and "t \<in> set (normalizedTriggers ts)"
  shows "map_option ho_StartedAt (map_of (holdIndex (holdsAfter ts ticks)) (holdKey (tg_ID t) d)) =
    heldSince (condition t d) (rev ticks)"
proof (induction ticks rule: rev_induct)
  case Nil
  then show ?case by (simp add: holdsAfter_def holdIndex_def)
next
  case (snoc now ticks)
  obtain tm states where now: "now = (tm, states)" by (cases now)
  have "holdsAfter ts (ticks @ [now]) = ev_Holds (tick ts (holdsAfter ts ticks) now)"
    by (simp add: holdsAfter_def)
  then show ?case
    using tick_lookup [OF assms, of "holdsAfter ts ticks" now d] snoc
    by (simp add: now holdStart_map)
qed

lemma heldSince_snoc:
  "heldSince c (rev (ticks @ [now])) =
     (if c (snd now) then Some (case heldSince c (rev ticks) of None \<Rightarrow> fst now | Some s \<Rightarrow> s) else None)"
  by (cases now; cases "heldSince c (rev ticks)") simp_all

lemma heldSince_mem: "heldSince c ticks = Some s \<Longrightarrow> s \<in> fst ` set ticks"
  by (induction c ticks rule: heldSince.induct) (auto split: if_splits option.splits)

lemma streak_Suc:
  "(\<exists>k < Suc n. (\<forall>j. k \<le> j \<and> j < Suc n \<longrightarrow> Q j) \<and> R k) \<longleftrightarrow>
     Q n \<and> (R n \<or> (\<exists>k < n. (\<forall>j. k \<le> j \<and> j < n \<longrightarrow> Q j) \<and> R k))"
proof
  assume "\<exists>k < Suc n. (\<forall>j. k \<le> j \<and> j < Suc n \<longrightarrow> Q j) \<and> R k"
  then obtain k where "k < Suc n" "\<forall>j. k \<le> j \<and> j < Suc n \<longrightarrow> Q j" "R k" by blast
  then show "Q n \<and> (R n \<or> (\<exists>k < n. (\<forall>j. k \<le> j \<and> j < n \<longrightarrow> Q j) \<and> R k))"
    by (metis less_SucE less_SucI lessI less_imp_le order_refl)
next
  assume q: "Q n \<and> (R n \<or> (\<exists>k < n. (\<forall>j. k \<le> j \<and> j < n \<longrightarrow> Q j) \<and> R k))"
  show "\<exists>k < Suc n. (\<forall>j. k \<le> j \<and> j < Suc n \<longrightarrow> Q j) \<and> R k"
  proof (cases "R n")
    case True
    then show ?thesis using q by (intro exI [of _ n]) (auto simp: le_less_Suc_eq)
  next
    case False
    then obtain k where "k < n" "\<forall>j. k \<le> j \<and> j < n \<longrightarrow> Q j" "R k" using q by blast
    then show ?thesis using q by (intro exI [of _ k]) (auto simp: less_Suc_eq)
  qed
qed

lemma heldSince_iff:
  assumes "sorted (map fst ticks)"
  shows "(case heldSince c (rev ticks) of None \<Rightarrow> False | Some s \<Rightarrow> s \<le> bound) \<longleftrightarrow>
    (\<exists>k < length ticks. (\<forall>j. k \<le> j \<and> j < length ticks \<longrightarrow> c (snd (ticks ! j))) \<and> fst (ticks ! k) \<le> bound)"
  using assms
proof (induction ticks rule: rev_induct)
  case Nil
  then show ?case by simp
next
  case (snoc now ticks)
  let ?P = "\<lambda>k. (\<forall>j. k \<le> j \<and> j < length ticks \<longrightarrow> c (snd (ticks ! j))) \<and> fst (ticks ! k) \<le> bound"
  have IH: "(case heldSince c (rev ticks) of None \<Rightarrow> False | Some s \<Rightarrow> s \<le> bound) \<longleftrightarrow> (\<exists>k < length ticks. ?P k)"
    using snoc by (simp add: sorted_append)
  have split: "(\<exists>k < length (ticks @ [now]). (\<forall>j. k \<le> j \<and> j < length (ticks @ [now]) \<longrightarrow> c (snd ((ticks @ [now]) ! j))) \<and>
      fst ((ticks @ [now]) ! k) \<le> bound) \<longleftrightarrow> c (snd now) \<and> (fst now \<le> bound \<or> (\<exists>k < length ticks. ?P k))"
    unfolding length_append_singleton streak_Suc by (simp add: nth_append cong: conj_cong)
  have later: "s \<le> fst now" if "heldSince c (rev ticks) = Some s" for s
    using heldSince_mem [OF that] snoc.prems by (auto simp: sorted_append)
  show ?case unfolding split heldSince_snoc
  proof (cases "heldSince c (rev ticks)")
    case None
    then show "(case if c (snd now) then Some (case heldSince c (rev ticks) of None \<Rightarrow> fst now | Some s \<Rightarrow> s) else None of
        None \<Rightarrow> False | Some s \<Rightarrow> s \<le> bound) = (c (snd now) \<and> (fst now \<le> bound \<or> (\<exists>k < length ticks. ?P k)))"
      unfolding IH [symmetric] by simp
  next
    case (Some s)
    then show "(case if c (snd now) then Some (case heldSince c (rev ticks) of None \<Rightarrow> fst now | Some s \<Rightarrow> s) else None of
        None \<Rightarrow> False | Some s \<Rightarrow> s \<le> bound) = (c (snd now) \<and> (fst now \<le> bound \<or> (\<exists>k < length ticks. ?P k)))"
      unfolding IH [symmetric] using later [OF Some] by auto
  qed
qed

text \<open>C30. A trigger with a hold time fires on a device exactly when its condition has held without a
break for that long.  Evaluation is run tick after tick, each one given the holds the one before it
returned; a tick at which the condition fails drops the hold, so the count starts again.  Provided the
identifiers of the triggers are distinct and free of NUL and time does not run backwards, the device is
selected at the last tick exactly if, for some tick k, the condition held on it at every tick from k to
the last and the time of k plus the hold time has been reached.\<close>
theorem hold_is_continuous:
  assumes "ids_ok (normalizedTriggers ts)" and "i < length ts" and "sorted (map fst (past @ [now]))"
    and "t = normalizedTriggers ts ! i" and "0 < tg_For t"
  shows "d \<in> set (dc_SelectedUPSDevices (ev_Decisions (tick ts (holdsAfter ts past) now) ! i)) \<longleftrightarrow>
    (\<exists>k \<le> length past. (\<forall>j. k \<le> j \<and> j \<le> length past \<longrightarrow> condition t d (snd ((past @ [now]) ! j))) \<and>
       fst ((past @ [now]) ! k) + tg_For t \<le> fst now)"
proof -
  have t: "t \<in> set (normalizedTriggers ts)" using assms by simp
  have start: "holdStart (fst now) (holdIndex (holdsAfter ts past)) (tg_ID t) d =
      (case heldSince (condition t d) (rev past) of None \<Rightarrow> fst now | Some s \<Rightarrow> s)"
    by (simp add: holdStart_map holdsAfter_lookup [OF assms(1) t])
  have since: "heldSince (condition t d) (rev (past @ [now])) =
      (if condition t d (snd now) then Some (holdStart (fst now) (holdIndex (holdsAfter ts past)) (tg_ID t) d) else None)"
    unfolding start by (rule heldSince_snoc)
  have "d \<in> set (dc_SelectedUPSDevices (ev_Decisions (tick ts (holdsAfter ts past) now) ! i)) \<longleftrightarrow>
      condition t d (snd now) \<and> eligible_at (fst now) (tg_For t) (holdStart (fst now) (holdIndex (holdsAfter ts past)) (tg_ID t) d)"
    using assms(2) by (simp add: tick_def Evaluate_fields evaluateTrigger_selected assms(4))
  also have "\<dots> \<longleftrightarrow> (case heldSince (condition t d) (rev (past @ [now])) of None \<Rightarrow> False | Some s \<Rightarrow> s \<le> fst now - tg_For t)"
    unfolding since using assms(5) by (auto simp: eligible_at_def)
  finally show ?thesis
    unfolding heldSince_iff [OF assms(3)] by (auto simp: less_Suc_eq_le algebra_simps)
qed

text \<open>One tick approves the shutdown exactly when some configured trigger has a live, selected UPS
whose state meets the trigger's condition and either the trigger asks for no hold or the hold recorded
for that device (or this tick, if there is none) lies at least that long in the past.\<close>
theorem approval_exact:
  "ev_Approved (Evaluate inputs) \<longleftrightarrow>
     (\<exists>t d. t \<in> set (normalizedTriggers (in_Triggers inputs)) \<and> condition t d (in_UPSStates inputs) \<and>
        (tg_For t \<le> 0 \<or>
         holdStart (in_ObservedAt inputs) (holdIndex (in_Holds inputs)) (tg_ID t) d + tg_For t \<le> in_ObservedAt inputs))"
  by (auto simp: Evaluate_fields evaluateTrigger_eligible eligible_at_def)

definition sample_trigger :: EvalTrigger where
  "sample_trigger = \<lparr>tg_ID = ''t'', tg_Type = ''OnBattery'', tg_FallbackType = '''', tg_UPSDevices = [], tg_PowerDomains = [],
     tg_For = 10, tg_RuntimeBelowSeconds = None, tg_ChargeBelowPercent = None\<rparr>"

definition sample_state :: "bool \<Rightarrow> UPSState" where
  "sample_state b = \<lparr>us_UPSDevice = ''u'', us_PowerDomains = [], us_ObservedAt = 0, us_Phase = '''', us_OnBattery = b,
     us_LowBattery = False, us_Stale = False, us_RuntimeSeconds = None, us_ChargePercent = None\<rparr>"

lemma sample_normalized: "normalizedTriggers [sample_trigger] = [sample_trigger]" by code_simp
lemma sample_ids: "ids_ok [sample_trigger]" by code_simp
lemma sample_condition: "condition sample_trigger ''u'' [sample_state True]" "\<not> condition sample_trigger ''u'' [sample_state False]"
  by code_simp+

theorem hold_is_continuous_witness:
  "''u'' \<in> set (dc_SelectedUPSDevices (ev_Decisions (tick [sample_trigger]
      (holdsAfter [sample_trigger] [(0, [sample_state True]), (5, [sample_state True])]) (10, [sample_state True])) ! 0)) \<and>
   ''u'' \<notin> set (dc_SelectedUPSDevices (ev_Decisions (tick [sample_trigger]
      (holdsAfter [sample_trigger] [(0, [sample_state True]), (5, [sample_state False])]) (10, [sample_state True])) ! 0))"
proof
  have pre: "ids_ok (normalizedTriggers [sample_trigger])" "0 < length [sample_trigger]"
      "sample_trigger = normalizedTriggers [sample_trigger] ! 0" "0 < tg_For sample_trigger"
    by (simp_all only: sample_normalized sample_ids) (simp_all add: sample_trigger_def)
  show "''u'' \<in> set (dc_SelectedUPSDevices (ev_Decisions (tick [sample_trigger]
      (holdsAfter [sample_trigger] [(0, [sample_state True]), (5, [sample_state True])]) (10, [sample_state True])) ! 0))"
    unfolding hold_is_continuous [OF pre(1,2) _ pre(3,4), where past = "[(0, [sample_state True]), (5, [sample_state True])]"
        and now = "(10, [sample_state True])", simplified]
    by (rule exI [of _ 0]) (auto simp: sample_trigger_def less_Suc_eq_le [symmetric] less_Suc_eq sample_condition [unfolded sample_trigger_def])
  show "''u'' \<notin> set (dc_SelectedUPSDevices (ev_Decisions (tick [sample_trigger]
      (holdsAfter [sample_trigger] [(0, [sample_state True]), (5, [sample_state False])]) (10, [sample_state True])) ! 0))"
  proof (subst hold_is_continuous [OF pre(1,2) _ pre(3,4)])
    show "sorted (map fst ([(0, [sample_state True]), (5, [sample_state False])] @ [(10 :: int, [sample_state True])]))" by simp
    show "\<not> (\<exists>k \<le> length [(0, [sample_state True]), (5, [sample_state False])].
      (\<forall>j. k \<le> j \<and> j \<le> length [(0, [sample_state True]), (5, [sample_state False])] \<longrightarrow>
         condition sample_trigger ''u'' (snd (([(0, [sample_state True]), (5, [sample_state False])] @ [(10, [sample_state True])]) ! j))) \<and>
      fst (([(0, [sample_state True]), (5, [sample_state False])] @ [(10, [sample_state True])]) ! k) + tg_For sample_trigger
        \<le> fst (10 :: int, [sample_state True]))"
    proof clarify
      fix k
      assume held: "\<forall>j. k \<le> j \<and> j \<le> length [(0, [sample_state True]), (5, [sample_state False])] \<longrightarrow>
          condition sample_trigger ''u'' (snd (([(0, [sample_state True]), (5, [sample_state False])] @ [(10, [sample_state True])]) ! j))"
        and k: "k \<le> length [(0, [sample_state True]), (5, [sample_state False])]"
        and time: "fst (([(0, [sample_state True]), (5, [sample_state False])] @ [(10, [sample_state True])]) ! k) +
          tg_For sample_trigger \<le> fst (10 :: int, [sample_state True])"
      have "\<not> k \<le> 1" using held [rule_format, of 1] sample_condition(2) by auto
      then have "k = 2" using k by simp
      then show False using time by (simp add: sample_trigger_def)
    qed
  qed
qed
end
