(* ===== verification/ExecutorTypes.thy ===== *)
theory ExecutorTypes
  imports Adaptive GoMap
begin

text \<open>
  The data of the executor, \<open>src/internal/executor\<close>, and of the audit records it writes,
  \<open>src/internal/audit/store.go\<close>: every struct is a record with the source's fields under a short
  prefix.  An instant is a count of nanoseconds since the Unix epoch and the zero \<open>time.Time\<close> is
  the first instant of year one.  An \<open>error\<close> is its message, \<open>None\<close> for nil.  The values of
  the free-form detail maps are the datatype \<open>any\<close>.
\<close>

section \<open>Errors, instants and detail maps\<close>

type_synonym error = "string option"

definition joinErrors :: "error \<Rightarrow> error \<Rightarrow> error" where
  "joinErrors a b = (case a of None \<Rightarrow> b | Some x \<Rightarrow> (case b of None \<Rightarrow> Some x | Some y \<Rightarrow> Some (x @ [CHR 0x0A] @ y)))"

definition zeroTime :: int where
  "zeroTime = - 62135596800000000000"

definition timeSub :: "int \<Rightarrow> int \<Rightarrow> duration" where
  "timeSub t u = max (- (2 ^ 63)) (min (2 ^ 63 - 1) (t - u))"

text \<open>The proleptic Gregorian date of a day counted from 1970-01-01, and \<open>time.RFC3339Nano\<close> in UTC.\<close>

definition civilDate :: "int \<Rightarrow> int \<times> int \<times> int" where
  "civilDate days =
     (let z = days + 719468; era = z div 146097; doe = z mod 146097;
          yoe = (doe - doe div 1460 + doe div 36524 - doe div 146096) div 365;
          doy = doe - (365 * yoe + yoe div 4 - yoe div 100);
          mp = (5 * doy + 2) div 153;
          d = doy - (153 * mp + 2) div 5 + 1;
          m = (if mp < 10 then mp + 3 else mp - 9) in
      (yoe + era * 400 + (if m \<le> 2 then 1 else 0), m, d))"

definition formatYear :: "int \<Rightarrow> string" where
  "formatYear y = (if y < 0 then ''-'' @ padDigits 4 (- y) else padDigits 4 y)"

definition formatRFC3339Nano :: "int \<Rightarrow> string" where
  "formatRFC3339Nano t =
     (let s = t div second; ns = t mod second; tod = s mod 86400 in
      case civilDate (s div 86400) of (y, m, d) \<Rightarrow>
        formatYear y @ ''-'' @ padDigits 2 m @ ''-'' @ padDigits 2 d @ ''T'' @ padDigits 2 (tod div 3600) @ '':'' @
        padDigits 2 (tod div 60 mod 60) @ '':'' @ padDigits 2 (tod mod 60) @ fracDigits 9 ns @ ''Z'')"

lemma formatRFC3339Nano_examples:
  "formatRFC3339Nano 0 = ''1970-01-01T00:00:00Z''"
  "formatRFC3339Nano 1709251199120000000 = ''2024-02-29T23:59:59.12Z''"
  "formatRFC3339Nano zeroTime = ''0001-01-01T00:00:00Z''"
  by code_simp+

datatype any = ANil | ABool bool | AInt int | AFloat float64 | AText string | AStrings "string list"
  | AStringMap "(string \<times> string) list" | AMaps "(string \<times> any) list list" | AMap "(string \<times> any) list"

type_synonym details = "(string, any) gmap"

definition details :: "(string \<times> any) list \<Rightarrow> details" where
  "details entries = fold (\<lambda>(k, v). gm_put k v) entries []"

definition mergeDetails :: "details \<Rightarrow> details \<Rightarrow> details" where
  "mergeDetails base extra = fold (\<lambda>(k, v). gm_put k v) extra (fold (\<lambda>(k, v). gm_put k v) base [])"

section \<open>Executor input\<close>

record ExecHookReference =
  xh_Namespace :: string
  xh_Name :: string

record ExecTarget =
  xt_APIVersion :: string
  xt_Kind :: string
  xt_Namespace :: string
  xt_Name :: string

record NodeRelease =
  nr_TerminalHandoff :: bool
  nr_ControlPlaneNodes :: "string list"
  nr_QuorumMembers :: "string list"
  nr_AgentUID :: string
  nr_AgentGeneration :: int
  nr_ActuatorPolicy :: string
  nr_NodeName :: string
  nr_NodePowerAgent :: string
  nr_SignalPath :: string
  nr_SignalSecretKey :: string
  nr_SignalSecretName :: string
  nr_SignalSecretNamespace :: string
  nr_AgentReady :: bool
  nr_ReadinessReason :: string
  nr_ReadinessMessage :: string
  nr_PodName :: string
  nr_LastHeartbeatTime :: "int option"
  nr_TelemetryFresh :: bool
  nr_TelemetryStaleReason :: string
  nr_Cleared :: bool
  nr_ClearanceReason :: string
  nr_BlockingWorkloads :: "string list"

record ExecGroup =
  xg_Name :: string
  xg_Action :: string
  xg_Params :: "(string, string) gmap"
  xg_HookRef :: "ExecHookReference option"
  xg_SelectedTargets :: "ExecTarget list"
  xg_NodeReleases :: "NodeRelease list"
  xg_Details :: details
  xg_Timeout :: duration
  xg_WaitDuration :: duration

record ExecWave =
  xw_Index :: int
  xw_CommunicationBarrier :: bool
  xw_ShutdownTier :: "int option"
  xw_Duration :: duration
  xw_Groups :: "string list"

record AdaptiveInput =
  ai_Parameters :: Parameters
  ai_Pointer :: PointerState
  ai_Timing :: TimingState
  ai_Observation :: PowerObservation
  ai_FinalTier :: int
  ai_StartTier :: int

record ExecInput =
  xi_ExecutionID :: string
  xi_DeduplicationKey :: string
  xi_ObservedAt :: int
  xi_ShutdownFlow :: string
  xi_TriggerDecisionID :: string
  xi_Mode :: string
  xi_Reason :: string
  xi_PlanConfigHash :: string
  xi_InputHash :: string
  xi_Approved :: bool
  xi_DryRun :: bool
  xi_Rehearsal :: bool
  xi_RehearsalRequest :: string
  xi_RehearsalReason :: string
  xi_SelectedUPSDevices :: "string list"
  xi_SignalTTL :: duration
  xi_TierOverrunPolicy :: string
  xi_Waves :: "ExecWave list"
  xi_Groups :: "ExecGroup list"
  xi_Adaptive :: AdaptiveInput

section \<open>Actions and results\<close>

record ActionPowerObservation =
  ap_OnBattery :: bool
  ap_LowBattery :: bool
  ap_RuntimeSeconds :: "int option"
  ap_RuntimeTrusted :: bool

record Action =
  ac_ExecutionID :: string
  ac_ShutdownFlow :: string
  ac_TriggerReason :: string
  ac_PlanConfigHash :: string
  ac_SelectedUPSDevices :: "string list"
  ac_WaveIndex :: int
  ac_Group :: ExecGroup
  ac_DryRun :: bool
  ac_PowerObservation :: ActionPowerObservation
  ac_TierOverrunning :: bool

record NodeSignalResult =
  ns_NodeName :: string
  ns_NodePowerAgent :: string
  ns_SignalSecretNamespace :: string
  ns_SignalSecretName :: string
  ns_SignalSecretKey :: string
  ns_Published :: bool
  ns_Error :: string
  ns_IssuedAt :: int
  ns_SkipSync :: bool

record ActionOutcome =
  ao_Outcome :: string
  ao_Error :: string
  ao_Details :: details
  ao_SignalResults :: "NodeSignalResult list"

record TierOverrun =
  to_WaveIndex :: int
  to_ShutdownTier :: "int option"
  to_Policy :: string
  to_Action :: string
  to_DeclaredDuration :: duration
  to_EffectiveDuration :: duration
  to_ActualDuration :: duration
  to_OverrunDuration :: duration

record tierOverrunWindow =
  tw_ShutdownTier :: "int option"
  tw_StartedAt :: int
  tw_DeclaredDuration :: duration
  tw_EffectiveDuration :: duration

record AdaptiveResult =
  ar_Pointer :: PointerState
  ar_Timing :: TimingState
  ar_Observation :: PowerObservation
  ar_Events :: "string list"

record waveAdaptiveState =
  was_Mode :: string
  was_Pointer :: PointerState
  was_Timing :: TimingState
  was_Observation :: PowerObservation
  was_Movement :: PointerMovement
  was_Transition :: TimingTransition
  was_Events :: "string list"
  was_Budget :: TimingBudget

record ExecResult =
  rs_ExecutionID :: string
  rs_Phase :: string
  rs_DryRun :: bool
  rs_Rehearsal :: bool
  rs_Waves :: int
  rs_Groups :: int
  rs_ActionAttempts :: int
  rs_NodeReleases :: int
  rs_Degraded :: bool
  rs_DegradedReason :: string
  rs_DegradedMessage :: string
  rs_TierOverruns :: "TierOverrun list"
  rs_RecordError :: error
  rs_Adaptive :: AdaptiveResult

record waveExecutionResult =
  wr_Groups :: int
  wr_ActionAttempts :: int
  wr_NodeReleases :: int
  wr_RecordError :: error
  wr_Err :: error
  wr_FailedGroup :: string
  wr_Degraded :: bool
  wr_DegradedReason :: string
  wr_DegradedMessage :: string
  wr_TierOverrun :: "TierOverrun option"

record groupExecutionResult =
  gr_ActionAttempts :: int
  gr_NodeReleases :: int
  gr_RecordError :: error
  gr_Degraded :: bool
  gr_DegradedReason :: string
  gr_DegradedMessage :: string

record Progress =
  pg_Groups :: int
  pg_ActionAttempts :: int
  pg_NodeReleases :: int
  pg_Adaptive :: "AdaptiveResult option"

section \<open>Audit records\<close>

record ShutdownFlowExecution =
  fe_ExecutionID :: string
  fe_DeduplicationKey :: string
  fe_ObservedAt :: int
  fe_ShutdownFlow :: string
  fe_TriggerDecisionID :: string
  fe_Mode :: string
  fe_Phase :: string
  fe_Reason :: string
  fe_PlanConfigHash :: string
  fe_InputHash :: string
  fe_StartedAt :: "int option"
  fe_CompletedAt :: "int option"
  fe_DryRun :: bool
  fe_Approved :: bool
  fe_ApprovalEvidence :: details
  fe_Revalidation :: details
  fe_Details :: details

record ShutdownFlowExecutionWave =
  fw_WaveRecordID :: string
  fw_ExecutionID :: string
  fw_ObservedAt :: int
  fw_WaveIndex :: int
  fw_Phase :: string
  fw_StartedAt :: "int option"
  fw_CompletedAt :: "int option"
  fw_GroupNames :: "string list"
  fw_Details :: details

record ShutdownFlowExecutionGroup =
  fg_GroupRecordID :: string
  fg_ExecutionID :: string
  fg_ObservedAt :: int
  fg_WaveIndex :: int
  fg_GroupName :: string
  fg_Action :: string
  fg_Phase :: string
  fg_StartedAt :: "int option"
  fg_CompletedAt :: "int option"
  fg_SelectedTargets :: "(string, string) gmap list"
  fg_Details :: details

record ShutdownFlowActionAttempt =
  fa_AttemptID :: string
  fa_ExecutionID :: string
  fa_ObservedAt :: int
  fa_WaveIndex :: "int option"
  fa_GroupName :: string
  fa_Action :: string
  fa_TargetKind :: string
  fa_TargetNamespace :: string
  fa_TargetName :: string
  fa_StartedAt :: "int option"
  fa_CompletedAt :: "int option"
  fa_Outcome :: string
  fa_Error :: string
  fa_DryRun :: bool
  fa_Details :: details

record NodeReleaseRecord =
  rr_ReleaseID :: string
  rr_ExecutionID :: string
  rr_ObservedAt :: int
  rr_NodeName :: string
  rr_NodePowerAgent :: string
  rr_PlanConfigHash :: string
  rr_Approved :: bool
  rr_Released :: bool
  rr_Reason :: string
  rr_Clearance :: details
  rr_Details :: details

record NodeSignalHandoff =
  sh_HandoffID :: string
  sh_ExecutionID :: string
  sh_ObservedAt :: int
  sh_NodeName :: string
  sh_NodePowerAgent :: string
  sh_SignalPath :: string
  sh_SignalPayload :: details
  sh_StaleAfter :: "int option"
  sh_Accepted :: bool
  sh_Reason :: string
  sh_Details :: details

datatype auditRecord = ExecutionRecord ShutdownFlowExecution | WaveRecord ShutdownFlowExecutionWave
  | GroupRecord ShutdownFlowExecutionGroup | AttemptRecord ShutdownFlowActionAttempt
  | ReleaseRecord NodeReleaseRecord | HandoffRecord NodeSignalHandoff

end
