(* ===== verification/Interaction.thy ===== *)
theory Interaction
  imports ExecutorTypes
begin

text \<open>
  The effects of the executor.  Its code is written as a \<open>prog\<close>: a tree of calls to the injected
  dependencies (clock, identifiers, power observer, approval checker, target resolver, release
  refresher, sleeper, action runner, audit writer), to Go contexts, and to goroutines and channels,
  each followed by a continuation that receives the answer.  A run logs every call with its answer in
  a history, newest first, tagged with the thread that made it: 0 for the caller of \<open>Execute\<close> and
  \<open>n + 1\<close> for the \<open>n\<close>-th goroutine.  The dependencies answer as a function of the whole history, so
  quantifying over them covers every behaviour they may have; before each call of the main thread the
  scheduler, again a function of the history, may advance the goroutines in any order and by any
  number of calls.
\<close>

section \<open>Contexts\<close>

datatype ctxError = Canceled | DeadlineExceeded

definition ctxMessage :: "ctxError \<Rightarrow> string" where
  "ctxMessage e = (case e of Canceled \<Rightarrow> ''context canceled'' | DeadlineExceeded \<Rightarrow> ''context deadline exceeded'')"

text \<open>A derived context carries its parent, its deadline if any, and the length of the history when it was
  made, which identifies it.  \<open>DetachedContext\<close> is what \<open>context.WithoutCancel\<close> returns.\<close>

datatype ctx = CallerContext | DetachedContext | CancelContext ctx nat | DeadlineContext ctx int nat

section \<open>Calls and histories\<close>

record waveRunConfig =
  wc_TerminalWave :: bool
  wc_Input :: ExecInput
  wc_Groups :: "(string, ExecGroup) gmap"
  wc_ExecutionID :: string
  wc_Mode :: string
  wc_DryRun :: bool
  wc_TierPolicy :: string
  wc_Window :: tierOverrunWindow
  wc_LowerTierDue :: bool
  wc_WaveStart :: int
  wc_ActionContext :: ctx

record waveJob =
  wj_Context :: ctx
  wj_Config :: waveRunConfig
  wj_Wave :: ExecWave
  wj_State :: waveAdaptiveState

datatype selection = SelectDone | SelectResult waveExecutionResult | SelectTimer

datatype event =
    EvNow int
  | EvNewID string
  | EvContext ctx
  | EvCancel nat
  | EvCtxErr ctx "ctxError option"
  | EvObserve ctx "string + PowerObservation"
  | EvApproval ctx "bool \<times> error"
  | EvResolve ctx ExecGroup "string + ExecTarget list"
  | EvRefresh ctx NodeRelease "string + NodeRelease"
  | EvSleep ctx duration error
  | EvRun ctx Action "ActionOutcome \<times> error"
  | EvRecord ctx auditRecord error
  | EvReport Progress
  | EvSpawn nat waveJob
  | EvReceive nat waveExecutionResult
  | EvWaited ctx nat duration

type_synonym history = "(nat \<times> event) list"

datatype 'a prog =
    Ret 'a
  | Now "int \<Rightarrow> 'a prog"
  | NewID "string \<Rightarrow> 'a prog"
  | MakeCancel ctx "ctx \<Rightarrow> 'a prog"
  | MakeTimeout ctx duration "ctx \<Rightarrow> 'a prog"
  | MakeDeadline ctx int "ctx \<Rightarrow> 'a prog"
  | CancelCtx ctx "'a prog"
  | CtxErr ctx "ctxError option \<Rightarrow> 'a prog"
  | ReadPower ctx "string + PowerObservation \<Rightarrow> 'a prog"
  | CheckApproval ctx "bool \<times> error \<Rightarrow> 'a prog"
  | Resolve ctx ExecGroup "string + ExecTarget list \<Rightarrow> 'a prog"
  | Refresh ctx NodeRelease "string + NodeRelease \<Rightarrow> 'a prog"
  | SleepFor ctx duration "error \<Rightarrow> 'a prog"
  | RunAction ctx Action "ActionOutcome \<times> error \<Rightarrow> 'a prog"
  | Write ctx auditRecord "error \<Rightarrow> 'a prog"
  | Report Progress "'a prog"
  | Spawn waveJob "nat \<Rightarrow> 'a prog"
  | Receive nat "waveExecutionResult \<Rightarrow> 'a prog"
  | Await ctx nat duration "selection \<Rightarrow> 'a prog"

primrec andThen :: "'a prog \<Rightarrow> ('a \<Rightarrow> 'b prog) \<Rightarrow> 'b prog" where
  "andThen (Ret a) f = f a"
| "andThen (Now k) f = Now (\<lambda>x. andThen (k x) f)"
| "andThen (NewID k) f = NewID (\<lambda>x. andThen (k x) f)"
| "andThen (MakeCancel c k) f = MakeCancel c (\<lambda>x. andThen (k x) f)"
| "andThen (MakeTimeout c d k) f = MakeTimeout c d (\<lambda>x. andThen (k x) f)"
| "andThen (MakeDeadline c t k) f = MakeDeadline c t (\<lambda>x. andThen (k x) f)"
| "andThen (CancelCtx c k) f = CancelCtx c (andThen k f)"
| "andThen (CtxErr c k) f = CtxErr c (\<lambda>x. andThen (k x) f)"
| "andThen (ReadPower c k) f = ReadPower c (\<lambda>x. andThen (k x) f)"
| "andThen (CheckApproval c k) f = CheckApproval c (\<lambda>x. andThen (k x) f)"
| "andThen (Resolve c g k) f = Resolve c g (\<lambda>x. andThen (k x) f)"
| "andThen (Refresh c r k) f = Refresh c r (\<lambda>x. andThen (k x) f)"
| "andThen (SleepFor c d k) f = SleepFor c d (\<lambda>x. andThen (k x) f)"
| "andThen (RunAction c a k) f = RunAction c a (\<lambda>x. andThen (k x) f)"
| "andThen (Write c r k) f = Write c r (\<lambda>x. andThen (k x) f)"
| "andThen (Report p k) f = Report p (andThen k f)"
| "andThen (Spawn j k) f = Spawn j (\<lambda>x. andThen (k x) f)"
| "andThen (Receive n k) f = Receive n (\<lambda>x. andThen (k x) f)"
| "andThen (Await c n d k) f = Await c n d (\<lambda>x. andThen (k x) f)"

section \<open>Dependencies and runtime\<close>

record Executor =
  ex_Writer :: "(ctx \<Rightarrow> auditRecord \<Rightarrow> history \<Rightarrow> error) option"
  ex_Runner :: "(ctx \<Rightarrow> Action \<Rightarrow> history \<Rightarrow> ActionOutcome \<times> error) option"
  ex_Clock :: "(history \<Rightarrow> int) option"
  ex_NewID :: "(history \<Rightarrow> string) option"
  ex_Observer :: "(ctx \<Rightarrow> history \<Rightarrow> string + PowerObservation) option"
  ex_ApprovalChecker :: "(ctx \<Rightarrow> history \<Rightarrow> bool \<times> error) option"
  ex_RefreshNodeRelease :: "(ctx \<Rightarrow> NodeRelease \<Rightarrow> history \<Rightarrow> string + NodeRelease) option"
  ex_ResolveTargets :: "(ctx \<Rightarrow> ExecGroup \<Rightarrow> history \<Rightarrow> string + ExecTarget list) option"
  ex_Sleep :: "(ctx \<Rightarrow> duration \<Rightarrow> history \<Rightarrow> error) option"

text \<open>What the Go runtime and the caller contribute: the clock, generated UUIDs, whether the caller's
  context is done, which ready case a \<open>select\<close> takes, and the scheduling of goroutines.\<close>

datatype selectCase = TakeDone | TakeResult | TakeTimer

record Runtime =
  rt_Time :: "history \<Rightarrow> int"
  rt_UUID :: "history \<Rightarrow> string"
  rt_Caller :: "history \<Rightarrow> ctxError option"
  rt_Select :: "history \<Rightarrow> selectCase"
  rt_Schedule :: "history \<Rightarrow> nat list"

text \<open>A context that is done stays done with the same error: the value of \<open>f\<close> at the first history, from
  the length \<open>n\<close> on, at which it has one.\<close>

primrec sticky :: "(history \<Rightarrow> ctxError option) \<Rightarrow> nat \<Rightarrow> history \<Rightarrow> ctxError option" where
  "sticky f n [] = (if n = 0 then f [] else None)"
| "sticky f n (x # h) = (case sticky f n h of Some err \<Rightarrow> Some err | None \<Rightarrow> if n \<le> Suc (length h) then f (x # h) else None)"

definition cancelled :: "nat \<Rightarrow> history \<Rightarrow> bool" where
  "cancelled n h \<longleftrightarrow> list_ex (\<lambda>(_, ev). case ev of EvCancel m \<Rightarrow> m = n | _ \<Rightarrow> False) h"

primrec ctxErr :: "Runtime \<Rightarrow> ctx \<Rightarrow> history \<Rightarrow> ctxError option" where
  "ctxErr rt CallerContext = sticky (rt_Caller rt) 0"
| "ctxErr rt DetachedContext = (\<lambda>_. None)"
| "ctxErr rt (CancelContext c n) = sticky (\<lambda>h. case ctxErr rt c h of Some err \<Rightarrow> Some err
     | None \<Rightarrow> if cancelled n h then Some Canceled else None) n"
| "ctxErr rt (DeadlineContext c t n) = sticky (\<lambda>h. case ctxErr rt c h of Some err \<Rightarrow> Some err
     | None \<Rightarrow> if cancelled n h then Some Canceled else if t \<le> rt_Time rt h then Some DeadlineExceeded else None) n"

definition contextID :: "ctx \<Rightarrow> nat option" where
  "contextID c = (case c of CancelContext _ n \<Rightarrow> Some n | DeadlineContext _ _ n \<Rightarrow> Some n | _ \<Rightarrow> None)"

definition clock :: "Executor \<Rightarrow> Runtime \<Rightarrow> history \<Rightarrow> int" where
  "clock e rt h = (case ex_Clock e of Some f \<Rightarrow> f h | None \<Rightarrow> rt_Time rt h)"

definition newID :: "Executor \<Rightarrow> Runtime \<Rightarrow> history \<Rightarrow> string" where
  "newID e rt h = (case ex_NewID e of Some f \<Rightarrow> f h | None \<Rightarrow> rt_UUID rt h)"

definition sleep :: "Executor \<Rightarrow> Runtime \<Rightarrow> ctx \<Rightarrow> duration \<Rightarrow> history \<Rightarrow> error" where
  "sleep e rt c d h =
     (case ex_Sleep e of Some f \<Rightarrow> f c d h
      | None \<Rightarrow> if rt_Select rt h = TakeDone then map_option ctxMessage (ctxErr rt c h) else None)"

definition writeRecord :: "Executor \<Rightarrow> ctx \<Rightarrow> auditRecord \<Rightarrow> history \<Rightarrow> error" where
  "writeRecord e c r h = (case ex_Writer e of Some f \<Rightarrow> f c r h | None \<Rightarrow> None)"

text \<open>A nil observer, checker, resolver, refresher or runner is never called: the code tests for nil first.\<close>

definition observePower :: "Executor \<Rightarrow> ctx \<Rightarrow> history \<Rightarrow> string + PowerObservation" where
  "observePower e c h = (case ex_Observer e of Some f \<Rightarrow> f c h | None \<Rightarrow> Inl ''nil'')"

definition checkApproval :: "Executor \<Rightarrow> ctx \<Rightarrow> history \<Rightarrow> bool \<times> error" where
  "checkApproval e c h = (case ex_ApprovalChecker e of Some f \<Rightarrow> f c h | None \<Rightarrow> (False, None))"

definition resolveTargets :: "Executor \<Rightarrow> ctx \<Rightarrow> ExecGroup \<Rightarrow> history \<Rightarrow> string + ExecTarget list" where
  "resolveTargets e c g h = (case ex_ResolveTargets e of Some f \<Rightarrow> f c g h | None \<Rightarrow> Inl ''nil'')"

definition refreshRelease :: "Executor \<Rightarrow> ctx \<Rightarrow> NodeRelease \<Rightarrow> history \<Rightarrow> string + NodeRelease" where
  "refreshRelease e c r h = (case ex_RefreshNodeRelease e of Some f \<Rightarrow> f c r h | None \<Rightarrow> Inl ''nil'')"

definition performAction :: "Executor \<Rightarrow> ctx \<Rightarrow> Action \<Rightarrow> history \<Rightarrow> ActionOutcome \<times> error" where
  "performAction e c a h = (case ex_Runner e of Some f \<Rightarrow> f c a h
     | None \<Rightarrow> (\<lparr>ao_Outcome = '''', ao_Error = '''', ao_Details = [], ao_SignalResults = []\<rparr>, Some ''nil''))"

section \<open>Running programs\<close>

record sys =
  sy_Threads :: "waveExecutionResult prog list"
  sy_History :: history

definition logEvent :: "nat \<Rightarrow> event \<Rightarrow> sys \<Rightarrow> sys" where
  "logEvent me ev s = s\<lparr>sy_History := (me, ev) # sy_History s\<rparr>"

text \<open>One call of a program that does not concern goroutines: the rest of the program and the event.\<close>

definition ask :: "Executor \<Rightarrow> Runtime \<Rightarrow> 'a prog \<Rightarrow> history \<Rightarrow> ('a prog \<times> event) option" where
  "ask e rt p h =
     (case p of
        Now k \<Rightarrow> (let x = clock e rt h in Some (k x, EvNow x))
      | NewID k \<Rightarrow> (let x = newID e rt h in Some (k x, EvNewID x))
      | MakeCancel c k \<Rightarrow> (let x = CancelContext c (length h) in Some (k x, EvContext x))
      | MakeTimeout c d k \<Rightarrow> (let x = DeadlineContext c (rt_Time rt h + d) (length h) in Some (k x, EvContext x))
      | MakeDeadline c t k \<Rightarrow> (let x = DeadlineContext c t (length h) in Some (k x, EvContext x))
      | CancelCtx c k \<Rightarrow> Some (k, (case contextID c of Some n \<Rightarrow> EvCancel n | None \<Rightarrow> EvContext c))
      | CtxErr c k \<Rightarrow> (let x = ctxErr rt c h in Some (k x, EvCtxErr c x))
      | ReadPower c k \<Rightarrow> (let x = observePower e c h in Some (k x, EvObserve c x))
      | CheckApproval c k \<Rightarrow> (let x = checkApproval e c h in Some (k x, EvApproval c x))
      | Resolve c g k \<Rightarrow> (let x = resolveTargets e c g h in Some (k x, EvResolve c g x))
      | Refresh c r k \<Rightarrow> (let x = refreshRelease e c r h in Some (k x, EvRefresh c r x))
      | SleepFor c d k \<Rightarrow> (let x = sleep e rt c d h in Some (k x, EvSleep c d x))
      | RunAction c a k \<Rightarrow> (let x = performAction e c a h in Some (k x, EvRun c a x))
      | Write c r k \<Rightarrow> (let x = writeRecord e c r h in Some (k x, EvRecord c r x))
      | Report g k \<Rightarrow> Some (k, EvReport g)
      | _ \<Rightarrow> None)"

text \<open>A goroutine advances by one call; one that has returned stays as it is.\<close>

definition advance :: "Executor \<Rightarrow> Runtime \<Rightarrow> nat \<Rightarrow> sys \<Rightarrow> sys" where
  "advance e rt n s =
     (if n < length (sy_Threads s)
      then case ask e rt (sy_Threads s ! n) (sy_History s) of
          Some (p, ev) \<Rightarrow> logEvent (Suc n) ev (s\<lparr>sy_Threads := (sy_Threads s)[n := p]\<rparr>)
        | None \<Rightarrow> s
      else s)"

definition background :: "Executor \<Rightarrow> Runtime \<Rightarrow> sys \<Rightarrow> sys" where
  "background e rt s = fold (advance e rt) (rt_Schedule rt (sy_History s)) s"

text \<open>\<open>interp\<close> runs a program to its end as thread \<open>me\<close>.  Before each call it lets \<open>before\<close> change the
  state; \<open>receive\<close> waits for a goroutine and \<open>body\<close> is the code a goroutine runs.\<close>

primrec interp :: "Executor \<Rightarrow> Runtime \<Rightarrow> nat \<Rightarrow> (sys \<Rightarrow> sys) \<Rightarrow> (nat \<Rightarrow> sys \<Rightarrow> waveExecutionResult \<times> sys) \<Rightarrow>
    (waveJob \<Rightarrow> waveExecutionResult prog) \<Rightarrow> 'a prog \<Rightarrow> sys \<Rightarrow> 'a \<times> sys" where
  "interp e rt me before receive body (Ret a) s = (a, s)"
| "interp e rt me before receive body (Now k) s = (let s1 = before s; x = clock e rt (sy_History s1) in
     interp e rt me before receive body (k x) (logEvent me (EvNow x) s1))"
| "interp e rt me before receive body (NewID k) s = (let s1 = before s; x = newID e rt (sy_History s1) in
     interp e rt me before receive body (k x) (logEvent me (EvNewID x) s1))"
| "interp e rt me before receive body (MakeCancel c k) s =
     (let s1 = before s; x = CancelContext c (length (sy_History s1)) in
      interp e rt me before receive body (k x) (logEvent me (EvContext x) s1))"
| "interp e rt me before receive body (MakeTimeout c d k) s =
     (let s1 = before s; x = DeadlineContext c (rt_Time rt (sy_History s1) + d) (length (sy_History s1)) in
      interp e rt me before receive body (k x) (logEvent me (EvContext x) s1))"
| "interp e rt me before receive body (MakeDeadline c t k) s =
     (let s1 = before s; x = DeadlineContext c t (length (sy_History s1)) in
      interp e rt me before receive body (k x) (logEvent me (EvContext x) s1))"
| "interp e rt me before receive body (CancelCtx c k) s =
     (let s1 = before s in
      interp e rt me before receive body k (logEvent me (case contextID c of Some n \<Rightarrow> EvCancel n | None \<Rightarrow> EvContext c) s1))"
| "interp e rt me before receive body (CtxErr c k) s = (let s1 = before s; x = ctxErr rt c (sy_History s1) in
     interp e rt me before receive body (k x) (logEvent me (EvCtxErr c x) s1))"
| "interp e rt me before receive body (ReadPower c k) s = (let s1 = before s; x = observePower e c (sy_History s1) in
     interp e rt me before receive body (k x) (logEvent me (EvObserve c x) s1))"
| "interp e rt me before receive body (CheckApproval c k) s = (let s1 = before s; x = checkApproval e c (sy_History s1) in
     interp e rt me before receive body (k x) (logEvent me (EvApproval c x) s1))"
| "interp e rt me before receive body (Resolve c g k) s = (let s1 = before s; x = resolveTargets e c g (sy_History s1) in
     interp e rt me before receive body (k x) (logEvent me (EvResolve c g x) s1))"
| "interp e rt me before receive body (Refresh c r k) s = (let s1 = before s; x = refreshRelease e c r (sy_History s1) in
     interp e rt me before receive body (k x) (logEvent me (EvRefresh c r x) s1))"
| "interp e rt me before receive body (SleepFor c d k) s = (let s1 = before s; x = sleep e rt c d (sy_History s1) in
     interp e rt me before receive body (k x) (logEvent me (EvSleep c d x) s1))"
| "interp e rt me before receive body (RunAction c a k) s = (let s1 = before s; x = performAction e c a (sy_History s1) in
     interp e rt me before receive body (k x) (logEvent me (EvRun c a x) s1))"
| "interp e rt me before receive body (Write c r k) s = (let s1 = before s; x = writeRecord e c r (sy_History s1) in
     interp e rt me before receive body (k x) (logEvent me (EvRecord c r x) s1))"
| "interp e rt me before receive body (Report g k) s = interp e rt me before receive body k (logEvent me (EvReport g) (before s))"
| "interp e rt me before receive body (Spawn j k) s = (let s1 = before s; n = length (sy_Threads s1) in
     interp e rt me before receive body (k n) (logEvent me (EvSpawn n j) (s1\<lparr>sy_Threads := sy_Threads s1 @ [body j]\<rparr>)))"
| "interp e rt me before receive body (Receive n k) s = (case receive n (before s) of (x, s1) \<Rightarrow>
     interp e rt me before receive body (k x) (logEvent me (EvReceive n x) s1))"
| "interp e rt me before receive body (Await c n d k) s =
     (let s1 = before s; due = rt_Time rt (sy_History s1) + d; s2 = before (logEvent me (EvWaited c n d) s1);
          ch = rt_Select rt (sy_History s2) in
      if ch = TakeDone \<and> ctxErr rt c (sy_History s2) \<noteq> None then interp e rt me before receive body (k SelectDone) s2
      else if ch = TakeTimer \<and> due \<le> rt_Time rt (sy_History s2) then interp e rt me before receive body (k SelectTimer) s2
      else case receive n s2 of (x, s3) \<Rightarrow>
        interp e rt me before receive body (k (SelectResult x)) (logEvent me (EvReceive n x) s3))"

text \<open>A goroutine that is waited for runs to its end; what its calls interleave with has been advanced by
  the scheduler before.  Goroutines neither start nor wait for others.\<close>

definition emptyRun :: waveExecutionResult where
  "emptyRun = \<lparr>wr_Groups = 0, wr_ActionAttempts = 0, wr_NodeReleases = 0, wr_RecordError = None, wr_Err = None,
     wr_FailedGroup = '''', wr_Degraded = False, wr_DegradedReason = '''', wr_DegradedMessage = '''', wr_TierOverrun = None\<rparr>"

definition receiveFrom :: "Executor \<Rightarrow> Runtime \<Rightarrow> (waveJob \<Rightarrow> waveExecutionResult prog) \<Rightarrow> nat \<Rightarrow> sys \<Rightarrow> waveExecutionResult \<times> sys" where
  "receiveFrom e rt body n s =
     (if n < length (sy_Threads s)
      then case interp e rt (Suc n) (\<lambda>s. s) (\<lambda>_ s. (emptyRun, s)) body (sy_Threads s ! n) s of
        (x, s1) \<Rightarrow> (x, s1\<lparr>sy_Threads := (sy_Threads s1)[n := Ret x]\<rparr>)
      else (emptyRun, s))"

definition runMain :: "Executor \<Rightarrow> Runtime \<Rightarrow> (waveJob \<Rightarrow> waveExecutionResult prog) \<Rightarrow> 'a prog \<Rightarrow> sys \<Rightarrow> 'a \<times> sys" where
  "runMain e rt body = interp e rt 0 (background e rt) (receiveFrom e rt body) body"

end
