(* ===== verification/InteractionLogic.thy ===== *)
theory InteractionLogic
  imports Interaction
begin

text \<open>
  Reasoning about programs.  \<open>wp R G p es Q\<close> says that along every path of \<open>p\<close>, whatever the
  dependencies answer, each call is allowed by the guard \<open>G\<close> given the thread's own earlier events,
  and the result satisfies \<open>Q\<close>; what a channel delivers may be assumed to satisfy \<open>R\<close>.  The soundness
  theorem carries guards of the main thread and of the goroutines over to every history the
  interpreter can produce, for every scheduler.
\<close>

section \<open>Weakest preconditions\<close>

type_synonym guard = "event list \<Rightarrow> event \<Rightarrow> bool"

primrec wp :: "(event list \<Rightarrow> nat \<Rightarrow> waveExecutionResult \<Rightarrow> bool) \<Rightarrow> guard \<Rightarrow> 'a prog \<Rightarrow> event list \<Rightarrow> ('a \<Rightarrow> event list \<Rightarrow> bool) \<Rightarrow> bool" where
  "wp R G (Ret a) es Q = Q a es"
| "wp R G (Now k) es Q = (\<forall>x. G es (EvNow x) \<and> wp R G (k x) (EvNow x # es) Q)"
| "wp R G (NewID k) es Q = (\<forall>x. G es (EvNewID x) \<and> wp R G (k x) (EvNewID x # es) Q)"
| "wp R G (MakeCancel c k) es Q = (\<forall>n. G es (EvContext (CancelContext c n)) \<and> wp R G (k (CancelContext c n)) (EvContext (CancelContext c n) # es) Q)"
| "wp R G (MakeTimeout c d k) es Q = (\<forall>t n. G es (EvContext (DeadlineContext c t n)) \<and>
     wp R G (k (DeadlineContext c t n)) (EvContext (DeadlineContext c t n) # es) Q)"
| "wp R G (MakeDeadline c t k) es Q = (\<forall>n. G es (EvContext (DeadlineContext c t n)) \<and>
     wp R G (k (DeadlineContext c t n)) (EvContext (DeadlineContext c t n) # es) Q)"
| "wp R G (CancelCtx c k) es Q = (let ev = (case contextID c of Some n \<Rightarrow> EvCancel n | None \<Rightarrow> EvContext c) in G es ev \<and> wp R G k (ev # es) Q)"
| "wp R G (CtxErr c k) es Q = (\<forall>x. G es (EvCtxErr c x) \<and> wp R G (k x) (EvCtxErr c x # es) Q)"
| "wp R G (ReadPower c k) es Q = (\<forall>x. G es (EvObserve c x) \<and> wp R G (k x) (EvObserve c x # es) Q)"
| "wp R G (CheckApproval c k) es Q = (\<forall>x. G es (EvApproval c x) \<and> wp R G (k x) (EvApproval c x # es) Q)"
| "wp R G (Resolve c g k) es Q = (\<forall>x. G es (EvResolve c g x) \<and> wp R G (k x) (EvResolve c g x # es) Q)"
| "wp R G (Refresh c r k) es Q = (\<forall>x. G es (EvRefresh c r x) \<and> wp R G (k x) (EvRefresh c r x # es) Q)"
| "wp R G (SleepFor c d k) es Q = (\<forall>x. G es (EvSleep c d x) \<and> wp R G (k x) (EvSleep c d x # es) Q)"
| "wp R G (RunAction c a k) es Q = (\<forall>x. G es (EvRun c a x) \<and> wp R G (k x) (EvRun c a x # es) Q)"
| "wp R G (Write c r k) es Q = (\<forall>x. G es (EvRecord c r x) \<and> wp R G (k x) (EvRecord c r x # es) Q)"
| "wp R G (Report g k) es Q = (G es (EvReport g) \<and> wp R G k (EvReport g # es) Q)"
| "wp R G (Spawn j k) es Q = (\<forall>n. G es (EvSpawn n j) \<and> wp R G (k n) (EvSpawn n j # es) Q)"
| "wp R G (Receive n k) es Q = (\<forall>x. R es n x \<longrightarrow> G es (EvReceive n x) \<and> wp R G (k x) (EvReceive n x # es) Q)"
| "wp R G (Await c n d k) es Q = (G es (EvWaited c n d) \<and>
     (let es1 = EvWaited c n d # es in wp R G (k SelectDone) es1 Q \<and> wp R G (k SelectTimer) es1 Q \<and>
       (\<forall>x. R es1 n x \<longrightarrow> G es1 (EvReceive n x) \<and> wp R G (k (SelectResult x)) (EvReceive n x # es1) Q)))"

lemma wp_andThen [simp]: "wp R G (andThen p f) es Q = wp R G p es (\<lambda>a es'. wp R G (f a) es' Q)"
  by (induction p arbitrary: es) (simp_all add: Let_def)

lemma wp_mono: "wp R G p es Q \<Longrightarrow> (\<And>a es'. Q a es' \<Longrightarrow> Q' a es') \<Longrightarrow> wp R G p es Q'"
  by (induction p arbitrary: es) (auto simp: Let_def)

lemma wp_conj: "wp R G p es Q \<Longrightarrow> wp R G' p es Q' \<Longrightarrow> wp R (\<lambda>es ev. G es ev \<and> G' es ev) p es (\<lambda>a es'. Q a es' \<and> Q' a es')"
  by (induction p arbitrary: es) (auto simp: Let_def)

lemma wp_weaken: "wp R G p es Q \<Longrightarrow> (\<And>es ev. G es ev \<Longrightarrow> G' es ev) \<Longrightarrow> wp R G' p es Q"
  by (induction p arbitrary: es) (auto simp: Let_def)

lemma wp_ask:
  "wp R G p es Q \<Longrightarrow> ask e rt p h = Some (p', ev) \<Longrightarrow> G es ev \<and> wp R G p' (ev # es) Q"
  by (cases p) (auto simp: ask_def Let_def simp del: split_paired_All)

section \<open>Runs\<close>

definition own :: "nat \<Rightarrow> history \<Rightarrow> event list" where
  "own me h = map snd (filter (\<lambda>(t, _). t = me) h)"

lemma own_Nil [simp]: "own me [] = []" by (simp add: own_def)
lemma own_Cons [simp]: "own me ((t, ev) # h) = (if t = me then ev # own me h else own me h)" by (simp add: own_def)
lemma logEvent_sel [simp]: "sy_Threads (logEvent me ev s) = sy_Threads s" "sy_History (logEvent me ev s) = (me, ev) # sy_History s"
  by (simp_all add: logEvent_def)

lemma logEvent_threads [simp]: "(logEvent me ev s)\<lparr>sy_Threads := ts\<rparr> = logEvent me ev (s\<lparr>sy_Threads := ts\<rparr>)"
  by (simp add: logEvent_def)

lemma interp_ask:
  "ask e rt p (sy_History (before s)) = Some (p', ev) \<Longrightarrow>
     interp e rt me before receive body p s = interp e rt me before receive body p' (logEvent me ev (before s))"
  by (cases p) (auto simp: ask_def Let_def)

text \<open>Induction over the course of a run.\<close>

lemma interp_induct [case_names Return Step Start Join Choose]:
  assumes "\<And>a s. P (Ret a) s"
    and "\<And>p s p' ev. ask e rt p (sy_History (before s)) = Some (p', ev) \<Longrightarrow> P p' (logEvent me ev (before s)) \<Longrightarrow> P p s"
    and "\<And>j k s. (\<And>n s'. P (k n) s') \<Longrightarrow> P (Spawn j k) s"
    and "\<And>n k s. (\<And>x s'. P (k x) s') \<Longrightarrow> P (Receive n k) s"
    and "\<And>c n d k s. (\<And>x s'. P (k x) s') \<Longrightarrow> P (Await c n d k) s"
  shows "P p s"
proof (induction p arbitrary: s)
  case (Ret a) show ?case by (rule assms(1))
next
  case (Spawn j k) then show ?case by (intro assms(3)) simp
next
  case (Receive n k) then show ?case by (intro assms(4)) simp
next
  case (Await c n d k) then show ?case by (intro assms(5)) simp
qed (rule assms(2), simp add: ask_def Let_def, simp)+

section \<open>Guards hold in every history\<close>

definition goroutine_call :: "event \<Rightarrow> bool" where
  "goroutine_call ev \<longleftrightarrow> (case ev of EvSpawn _ _ \<Rightarrow> True | EvReceive _ _ \<Rightarrow> True | EvWaited _ _ _ \<Rightarrow> True | _ \<Rightarrow> False)"

locale guarded =
  fixes e :: Executor and rt :: Runtime and body :: "waveJob \<Rightarrow> waveExecutionResult prog"
    and main_guard :: guard and job_guard :: "waveJob \<Rightarrow> guard"
    and job_result :: "waveJob \<Rightarrow> waveExecutionResult \<Rightarrow> event list \<Rightarrow> bool"
  assumes job_ok: "main_guard es (EvSpawn n job) \<Longrightarrow> wp (\<lambda>_ _ _. True) (job_guard job) (body job) [] (job_result job)"
    and receive_known: "main_guard es (EvReceive n x) \<Longrightarrow> \<exists>job. EvSpawn n job \<in> set es"
    and job_sequential: "job_guard job es ev \<Longrightarrow> \<not> goroutine_call ev"
begin

definition delivered :: "event list \<Rightarrow> nat \<Rightarrow> waveExecutionResult \<Rightarrow> bool" where
  "delivered es n x \<longleftrightarrow> (\<forall>job. EvSpawn n job \<in> set es \<longrightarrow> (\<exists>es'. job_result job x es'))"

definition main_event_ok :: "history \<Rightarrow> event \<Rightarrow> bool" where
  "main_event_ok h ev \<longleftrightarrow> main_guard (own 0 h) ev \<and>
     (\<forall>n x job. ev = EvReceive n x \<longrightarrow> (0, EvSpawn n job) \<in> set h \<longrightarrow> job_result job x (own (Suc n) h))"

definition job_event_ok :: "history \<Rightarrow> nat \<Rightarrow> event \<Rightarrow> bool" where
  "job_event_ok h n ev \<longleftrightarrow>
     (\<exists>job. (0, EvSpawn n job) \<in> set h \<and> job_guard job (own (Suc n) h) ev) \<and> (\<forall>x. (0, EvReceive n x) \<notin> set h)"

definition event_ok :: "history \<Rightarrow> nat \<times> event \<Rightarrow> bool" where
  "event_ok h x \<longleftrightarrow> (case fst x of 0 \<Rightarrow> main_event_ok h (snd x) | Suc n \<Rightarrow> job_event_ok h n (snd x))"

primrec good :: "history \<Rightarrow> bool" where
  "good [] \<longleftrightarrow> True"
| "good (x # h) \<longleftrightarrow> event_ok h x \<and> good h"

definition thread_ok :: "sys \<Rightarrow> nat \<Rightarrow> bool" where
  "thread_ok s n \<longleftrightarrow>
     (\<exists>job. (0, EvSpawn n job) \<in> set (sy_History s) \<and>
        wp (\<lambda>_ _ _. True) (job_guard job) (sy_Threads s ! n) (own (Suc n) (sy_History s)) (job_result job)) \<and>
     (\<forall>x. (0, EvReceive n x) \<in> set (sy_History s) \<longrightarrow> (\<exists>r. sy_Threads s ! n = Ret r))"

definition consistent :: "sys \<Rightarrow> bool" where
  "consistent s \<longleftrightarrow> good (sy_History s) \<and> (\<forall>n < length (sy_Threads s). thread_ok s n) \<and>
     (\<forall>n job. (0, EvSpawn n job) \<in> set (sy_History s) \<longrightarrow> n < length (sy_Threads s)) \<and>
     (\<forall>n job job'. (0, EvSpawn n job) \<in> set (sy_History s) \<longrightarrow> (0, EvSpawn n job') \<in> set (sy_History s) \<longrightarrow> job = job')"

lemma event_ok_simps [simp]: "event_ok h (0, ev) = main_event_ok h ev" "event_ok h (Suc n, ev) = job_event_ok h n ev"
  by (simp_all add: event_ok_def)

lemma consistent_empty: "consistent \<lparr>sy_Threads = [], sy_History = []\<rparr>"
  by (simp add: consistent_def)

lemma own_spawn: "EvSpawn n job \<in> set (own 0 h) \<longleftrightarrow> (0, EvSpawn n job) \<in> set h"
  by (force simp: own_def)

lemma ask_simple: "ask e rt p h = Some (p', ev) \<Longrightarrow> \<not> goroutine_call ev \<and> p \<noteq> Ret r"
  by (cases p) (auto simp: ask_def Let_def goroutine_call_def split: option.splits)

lemma consistent_step:
  assumes c: "consistent (s\<lparr>sy_Threads := (sy_Threads s)[n := p]\<rparr>)" and n: "n < length (sy_Threads s)"
    and a: "ask e rt p (sy_History s) = Some (p', ev)"
  shows "consistent (logEvent (Suc n) ev (s\<lparr>sy_Threads := (sy_Threads s)[n := p']\<rparr>))"
proof -
  let ?h = "sy_History s"
  have ok: "thread_ok (s\<lparr>sy_Threads := (sy_Threads s)[n := p]\<rparr>) n" using c n by (simp add: consistent_def)
  then obtain job where job: "(0, EvSpawn n job) \<in> set ?h"
    and w: "wp (\<lambda>_ _ _. True) (job_guard job) p (own (Suc n) ?h) (job_result job)"
    using n by (auto simp: thread_ok_def)
  have g: "job_guard job (own (Suc n) ?h) ev" and w': "wp (\<lambda>_ _ _. True) (job_guard job) p' (ev # own (Suc n) ?h) (job_result job)"
    using wp_ask [OF w a] by simp_all
  have open_channel: "(0, EvReceive n x) \<notin> set ?h" for x
    using ok n ask_simple [OF a] by (auto simp: thread_ok_def)
  have others: "thread_ok (logEvent (Suc n) ev (s\<lparr>sy_Threads := (sy_Threads s)[n := p']\<rparr>)) m"
    if "m < length (sy_Threads s)" for m
  proof (cases "m = n")
    case True
    then show ?thesis using job w' n open_channel by (auto simp: thread_ok_def)
  next
    case False
    have "thread_ok (s\<lparr>sy_Threads := (sy_Threads s)[n := p]\<rparr>) m" using c that by (simp add: consistent_def)
    then show ?thesis using False by (auto simp: thread_ok_def)
  qed
  have "job_event_ok ?h n ev" using job g open_channel by (auto simp: job_event_ok_def)
  then show ?thesis using c others by (auto simp: consistent_def)
qed

lemma consistent_advance: "consistent s \<Longrightarrow> consistent (advance e rt n s) \<and> own 0 (sy_History (advance e rt n s)) = own 0 (sy_History s)"
  using consistent_step [of s n "sy_Threads s ! n"] by (auto simp: advance_def split: option.splits)

lemma consistent_fold:
  "consistent s \<Longrightarrow> consistent (fold (advance e rt) ns s) \<and> own 0 (sy_History (fold (advance e rt) ns s)) = own 0 (sy_History s)"
  by (induction ns arbitrary: s) (simp_all add: consistent_advance)

lemma consistent_background: "consistent s \<Longrightarrow> consistent (background e rt s) \<and> own 0 (sy_History (background e rt s)) = own 0 (sy_History s)"
  by (simp add: background_def consistent_fold)

lemma consistent_main:
  assumes "consistent s" and "main_guard (own 0 (sy_History s)) ev" and "\<And>m x. ev \<noteq> EvReceive m x" and "\<And>m j. ev \<noteq> EvSpawn m j"
  shows "consistent (logEvent 0 ev s)"
proof -
  have "main_event_ok (sy_History s) ev" using assms(2,3) by (simp add: main_event_ok_def)
  then show ?thesis using assms(1,3,4) by (auto simp: consistent_def thread_ok_def)
qed

lemma good_member: "good h \<Longrightarrow> x \<in> set h \<Longrightarrow> \<exists>h'. event_ok h' x \<and> set h' \<subseteq> set h"
  by (induction h) auto

lemma consistent_spawn:
  assumes c: "consistent s" and g: "main_guard (own 0 (sy_History s)) (EvSpawn (length (sy_Threads s)) j)"
  shows "consistent (logEvent 0 (EvSpawn (length (sy_Threads s)) j) (s\<lparr>sy_Threads := sy_Threads s @ [body j]\<rparr>))"
proof -
  let ?n = "length (sy_Threads s)"
  let ?s = "logEvent 0 (EvSpawn ?n j) (s\<lparr>sy_Threads := sy_Threads s @ [body j]\<rparr>)"
  have fresh: "(0, EvSpawn ?n job) \<notin> set (sy_History s)" for job
    using c by (auto simp: consistent_def)
  have good: "good (sy_History s)" using c by (simp add: consistent_def)
  have no_event: "(Suc ?n, ev) \<notin> set (sy_History s)" for ev
    using good_member [OF good, of "(Suc ?n, ev)"] fresh by (auto simp: job_event_ok_def)
  have no_receive: "(0, EvReceive ?n x) \<notin> set (sy_History s)" for x
  proof
    assume "(0, EvReceive ?n x) \<in> set (sy_History s)"
    then obtain h' where "main_guard (own 0 h') (EvReceive ?n x)" "set h' \<subseteq> set (sy_History s)"
      using good_member [OF good, of "(0, EvReceive ?n x)"] by (auto simp: main_event_ok_def)
    then show False using receive_known own_spawn fresh by blast
  qed
  have "own (Suc ?n) (sy_History s) = []" using no_event by (auto simp: own_def filter_empty_conv)
  then have new: "thread_ok ?s ?n" using job_ok [OF g] no_receive by (auto simp: thread_ok_def)
  have old: "thread_ok ?s m" if "m < ?n" for m
  proof -
    have "thread_ok s m" using c that by (simp add: consistent_def)
    then show ?thesis using that by (auto simp: thread_ok_def nth_append)
  qed
  have "main_event_ok (sy_History s) (EvSpawn ?n j)" using g by (simp add: main_event_ok_def)
  then show ?thesis using c new old fresh by (auto simp: consistent_def less_Suc_eq)
qed

lemma thread_sequential:
  assumes "consistent (s\<lparr>sy_Threads := (sy_Threads s)[n := p]\<rparr>)" and "n < length (sy_Threads s)"
  shows "p \<noteq> Spawn j k" "p \<noteq> Receive m k'" "p \<noteq> Await c m d k''"
proof -
  have "thread_ok (s\<lparr>sy_Threads := (sy_Threads s)[n := p]\<rparr>) n" using assms by (simp add: consistent_def)
  then obtain job es where w: "wp (\<lambda>_ _ _. True) (job_guard job) p es (job_result job)"
    using assms(2) by (auto simp: thread_ok_def)
  have "\<not> job_guard job es' (EvSpawn n' j)" "\<not> job_guard job es' (EvReceive n' x)" "\<not> job_guard job es' (EvWaited c n' d)" for es' n' x
    using job_sequential [of job es'] by (fastforce simp: goroutine_call_def)+
  then show "p \<noteq> Spawn j k" "p \<noteq> Receive m k'" "p \<noteq> Await c m d k''" using w by auto
qed

lemma finish_consistent:
  assumes "n < length (sy_Threads s)" and "consistent (s\<lparr>sy_Threads := (sy_Threads s)[n := p]\<rparr>)"
    and "interp e rt (Suc n) (\<lambda>s. s) (\<lambda>_ s. (emptyRun, s)) body p s = (x, s')"
  shows "consistent (s'\<lparr>sy_Threads := (sy_Threads s')[n := Ret x]\<rparr>) \<and> sy_Threads s' = sy_Threads s \<and>
    own 0 (sy_History s') = own 0 (sy_History s)"
  using assms
proof (induction p s arbitrary: rule: interp_induct [where e = e and rt = rt and me = "Suc n" and before = "\<lambda>s. s"])
  case (Return a s)
  then show ?case by simp
next
  case (Step p s p' ev)
  then show ?case using consistent_step [OF Step.prems(2,1) Step.hyps]
    by (auto simp: interp_ask [where before = "\<lambda>s. s", OF Step.hyps])
next
  case (Start j k s)
  then show ?case using thread_sequential(1) [OF Start.prems(2,1)] by blast
next
  case (Join m k s)
  then show ?case using thread_sequential(2) [OF Join.prems(2,1)] by blast
next
  case (Choose c m d k s)
  then show ?case using thread_sequential(3) [OF Choose.prems(2,1)] by blast
qed

lemma receive_consistent:
  assumes c: "consistent s" and r: "receiveFrom e rt body n s = (x, s')"
  shows "own 0 (sy_History s') = own 0 (sy_History s) \<and> delivered (own 0 (sy_History s)) n x \<and>
    (main_guard (own 0 (sy_History s)) (EvReceive n x) \<longrightarrow> consistent (logEvent 0 (EvReceive n x) s'))"
proof (cases "n < length (sy_Threads s)")
  case False
  then have "(0, EvSpawn n job) \<notin> set (sy_History s)" for job using c by (auto simp: consistent_def)
  then have "\<not> main_guard (own 0 (sy_History s)) (EvReceive n x)" and "delivered (own 0 (sy_History s)) n x"
    using receive_known own_spawn by (blast, simp add: delivered_def own_spawn)
  then show ?thesis using False r by (simp add: receiveFrom_def)
next
  case True
  obtain s1 where run: "interp e rt (Suc n) (\<lambda>s. s) (\<lambda>_ s. (emptyRun, s)) body (sy_Threads s ! n) s = (x, s1)"
    and s': "s' = s1\<lparr>sy_Threads := (sy_Threads s1)[n := Ret x]\<rparr>"
    using r True by (auto simp: receiveFrom_def split: prod.splits)
  have "consistent (s\<lparr>sy_Threads := (sy_Threads s)[n := sy_Threads s ! n]\<rparr>)" using c by simp
  then have c': "consistent s'" and th: "sy_Threads s1 = sy_Threads s" and o: "own 0 (sy_History s') = own 0 (sy_History s)"
    using finish_consistent [OF True _ run] unfolding s' by auto
  have ok: "thread_ok s' n" using c' True by (simp add: consistent_def s' th)
  have result: "job_result job x (own (Suc n) (sy_History s'))" if "(0, EvSpawn n job) \<in> set (sy_History s')" for job
  proof -
    obtain job' where "(0, EvSpawn n job') \<in> set (sy_History s')" "job_result job' x (own (Suc n) (sy_History s'))"
      using ok True by (auto simp: thread_ok_def s' th)
    moreover have "job = job'" using c' that calculation(1) unfolding consistent_def by blast
    ultimately show ?thesis by simp
  qed
  have del: "delivered (own 0 (sy_History s)) n x"
    unfolding delivered_def o [symmetric] own_spawn using result by blast
  have "consistent (logEvent 0 (EvReceive n x) s')" if g: "main_guard (own 0 (sy_History s)) (EvReceive n x)"
  proof -
    have "main_event_ok (sy_History s') (EvReceive n x)" using g result by (simp add: main_event_ok_def o)
    moreover have "thread_ok (logEvent 0 (EvReceive n x) s') m" if "m < length (sy_Threads s')" for m
    proof -
      have "thread_ok s' m" using c' that by (simp add: consistent_def)
      then show ?thesis using True by (auto simp: thread_ok_def s' th)
    qed
    ultimately show ?thesis using c' by (auto simp: consistent_def)
  qed
  then show ?thesis using o del by blast
qed

theorem run_consistent:
  assumes "consistent s" and "wp delivered main_guard p (own 0 (sy_History s)) Q" and "runMain e rt body p s = (a, s')"
  shows "consistent s' \<and> Q a (own 0 (sy_History s'))"
  using assms unfolding runMain_def
proof (induction p s rule: interp_induct [where e = e and rt = rt and me = 0 and before = "background e rt"])
  case (Return a s)
  then show ?case by simp
next
  case (Step p s p' ev)
  let ?s = "background e rt s"
  have b: "consistent ?s" "own 0 (sy_History ?s) = own 0 (sy_History s)" using consistent_background [OF Step.prems(1)] by simp_all
  have w: "main_guard (own 0 (sy_History s)) ev" "wp delivered main_guard p' (ev # own 0 (sy_History s)) Q"
    using wp_ask [OF Step.prems(2) Step.hyps] by simp_all
  have "consistent (logEvent 0 ev ?s)"
    using ask_simple [OF Step.hyps] w(1) b by (intro consistent_main) (auto simp: goroutine_call_def)
  then show ?case using Step.IH Step.prems(3) w(2) b(2) by (simp add: interp_ask [where before = "background e rt", OF Step.hyps])
next
  case (Start j k s)
  let ?s = "background e rt s"
  have b: "consistent ?s" "own 0 (sy_History ?s) = own 0 (sy_History s)" using consistent_background [OF Start.prems(1)] by simp_all
  have "consistent (logEvent 0 (EvSpawn (length (sy_Threads ?s)) j) (?s\<lparr>sy_Threads := sy_Threads ?s @ [body j]\<rparr>))"
    using Start.prems(2) b by (intro consistent_spawn) simp_all
  from Start.IH [OF this, of "length (sy_Threads ?s)"] show ?case using Start.prems(2,3) b(2) by (simp add: Let_def)
next
  case (Join n k s)
  let ?s = "background e rt s"
  have b: "consistent ?s" "own 0 (sy_History ?s) = own 0 (sy_History s)" using consistent_background [OF Join.prems(1)] by simp_all
  obtain x s1 where r: "receiveFrom e rt body n ?s = (x, s1)" by (cases "receiveFrom e rt body n ?s")
  then show ?case using receive_consistent [OF b(1) r] Join.IH [of "logEvent 0 (EvReceive n x) s1" x] Join.prems(2,3) b(2) by simp
next
  case (Choose c n d k s)
  let ?s1 = "background e rt s" let ?s2 = "background e rt (logEvent 0 (EvWaited c n d) ?s1)"
  have b: "consistent ?s1" "own 0 (sy_History ?s1) = own 0 (sy_History s)" using consistent_background [OF Choose.prems(1)] by simp_all
  have "consistent (logEvent 0 (EvWaited c n d) ?s1)" using Choose.prems(2) b by (intro consistent_main) (auto simp: Let_def)
  then have b2: "consistent ?s2" "own 0 (sy_History ?s2) = EvWaited c n d # own 0 (sy_History s)"
    using consistent_background b(2) by simp_all
  obtain x s3 where r: "receiveFrom e rt body n ?s2 = (x, s3)" by (cases "receiveFrom e rt body n ?s2")
  have w: "wp delivered main_guard (k SelectDone) (own 0 (sy_History ?s2)) Q" "wp delivered main_guard (k SelectTimer) (own 0 (sy_History ?s2)) Q"
    "delivered (own 0 (sy_History ?s2)) n x \<Longrightarrow> main_guard (own 0 (sy_History ?s2)) (EvReceive n x) \<and>
       wp delivered main_guard (k (SelectResult x)) (EvReceive n x # own 0 (sy_History ?s2)) Q"
    using Choose.prems(2) by (simp_all add: Let_def b2(2))
  show ?case using Choose.prems(3) Choose.IH [OF b2(1) w(1)] Choose.IH [OF b2(1) w(2)] w(3) receive_consistent [OF b2(1) r]
      Choose.IH [of "logEvent 0 (EvReceive n x) s3" "SelectResult x"]
    by (simp add: Let_def r split: if_splits)
qed

end


end
