(* ===== verification/Executor.thy ===== *)
theory Executor
  imports InteractionLogic
begin

text \<open>
  The executor, \<open>src/internal/executor\<close> (\<open>executor.go\<close>, \<open>adaptive.go\<close>, \<open>wave_targets.go\<close>,
  \<open>release_evidence.go\<close>): the pure helpers are functions, everything that calls a dependency is a
  program of theory \<open>Interaction\<close> with the calls in the order the code makes them.
\<close>

section \<open>Constants\<close>

definition ModeDryRun :: string where "ModeDryRun = ''DryRun''"
definition ModeEnforce :: string where "ModeEnforce = ''Enforce''"
definition PhaseRunning :: string where "PhaseRunning = ''Running''"
definition PhaseCompleted :: string where "PhaseCompleted = ''Completed''"
definition PhaseAborted :: string where "PhaseAborted = ''Aborted''"
definition PhaseFailed :: string where "PhaseFailed = ''Failed''"
definition OutcomeSimulated :: string where "OutcomeSimulated = ''Simulated''"
definition OutcomeSucceeded :: string where "OutcomeSucceeded = ''Succeeded''"
definition OutcomeBlocked :: string where "OutcomeBlocked = ''Blocked''"
definition OutcomeTimedOut :: string where "OutcomeTimedOut = ''TimedOut''"
definition ActionAgentShutdown :: string where "ActionAgentShutdown = ''AgentShutdown''"
definition ActionRunHook :: string where "ActionRunHook = ''RunHook''"
definition ActionWait :: string where "ActionWait = ''Wait''"
definition TierOverrunPolicyWait :: string where "TierOverrunPolicyWait = ''Wait''"
definition TierOverrunPolicyOverlap :: string where "TierOverrunPolicyOverlap = ''Overlap''"
definition TierOverrunPolicyPreempt :: string where "TierOverrunPolicyPreempt = ''Preempt''"
definition TierOverrunActionWaited :: string where "TierOverrunActionWaited = ''Waited''"
definition TierOverrunActionOverlapped :: string where "TierOverrunActionOverlapped = ''Overlapped''"
definition TierOverrunActionPreempted :: string where "TierOverrunActionPreempted = ''Preempted''"
definition TierOverrunActionPreemptDeadlineElapsed :: string where
  "TierOverrunActionPreemptDeadlineElapsed = ''PreemptDeadlineElapsed''"
definition DefaultSignalPath :: string where "DefaultSignalPath = ''/run/power-agent/shutdown.json''"
definition DefaultSignalTTL :: duration where "DefaultSignalTTL = 2 * 60 * second"
definition defaultTargetResolutionTimeout :: duration where "defaultTargetResolutionTimeout = 30 * second"

section \<open>Input validation and defaults\<close>

definition zeroExecGroup :: ExecGroup where
  "zeroExecGroup = \<lparr>xg_Name = '''', xg_Action = '''', xg_Params = [], xg_HookRef = None, xg_SelectedTargets = [],
     xg_NodeReleases = [], xg_Details = [], xg_Timeout = 0, xg_WaitDuration = 0\<rparr>"

definition lookupGroup :: "(string, ExecGroup) gmap \<Rightarrow> string \<Rightarrow> ExecGroup" where
  "lookupGroup groups name = (case map_of groups name of Some g \<Rightarrow> g | None \<Rightarrow> zeroExecGroup)"

fun indexGroups_loop :: "ExecGroup list \<Rightarrow> (string, ExecGroup) gmap \<Rightarrow> string + (string, ExecGroup) gmap" where
  "indexGroups_loop [] indexed = Inr indexed"
| "indexGroups_loop (g # gs) indexed =
     (if xg_Name g = '''' \<or> xg_Action g = '''' then Inl ''executor group requires name and action''
      else if map_of indexed (xg_Name g) \<noteq> None then Inl (''duplicate executor group '' @ quote (xg_Name g))
      else indexGroups_loop gs (gm_put (xg_Name g) g indexed))"

definition indexGroups :: "ExecGroup list \<Rightarrow> string + (string, ExecGroup) gmap" where
  "indexGroups groups = indexGroups_loop groups []"

fun validateWaveGroups :: "(string, ExecGroup) gmap \<Rightarrow> int \<Rightarrow> string list \<Rightarrow> error" where
  "validateWaveGroups groups index [] = None"
| "validateWaveGroups groups index (name # names) =
     (if map_of groups name = None
      then Some (''compiled wave '' @ show_int index @ '' references unknown group '' @ quote name)
      else validateWaveGroups groups index names)"

fun validateWaves :: "(string, ExecGroup) gmap \<Rightarrow> ExecWave list \<Rightarrow> error" where
  "validateWaves groups [] = None"
| "validateWaves groups (w # ws) =
     (if xw_Groups w = [] then Some (''compiled wave '' @ show_int (xw_Index w) @ '' requires at least one group'')
      else case validateWaveGroups groups (xw_Index w) (xw_Groups w) of
        Some err \<Rightarrow> Some err
      | None \<Rightarrow> validateWaves groups ws)"

definition validateExecuteInput :: "ExecInput \<Rightarrow> string + (string, ExecGroup) gmap" where
  "validateExecuteInput input =
     (if xi_ShutdownFlow input = '''' \<or> xi_PlanConfigHash input = ''''
      then Inl ''executor input requires shutdown flow and plan config hash''
      else if xi_Waves input = [] then Inl ''executor input requires at least one compiled wave''
      else case indexGroups (xi_Groups input) of
        Inl err \<Rightarrow> Inl err
      | Inr groups \<Rightarrow> (case validateWaves groups (xi_Waves input) of Some err \<Rightarrow> Inl err | None \<Rightarrow> Inr groups))"

definition effectiveDryRun :: "ExecInput \<Rightarrow> bool" where
  "effectiveDryRun input \<longleftrightarrow>
     (if xi_DryRun input then True else toLower (xi_Mode input) \<noteq> toLower ModeEnforce \<or> \<not> xi_Approved input)"

definition signalTTL :: "duration \<Rightarrow> duration" where
  "signalTTL ttl = (if ttl \<le> 0 then DefaultSignalTTL else ttl)"

definition effectiveTierOverrunPolicy :: "string \<Rightarrow> string" where
  "effectiveTierOverrunPolicy policy = (if policy = '''' then TierOverrunPolicyWait else policy)"

definition executionDefaults :: "ExecInput \<Rightarrow> (string \<times> int \<times> string \<times> string) prog" where
  "executionDefaults input =
     andThen (if xi_ExecutionID input = '''' then NewID Ret else Ret (xi_ExecutionID input)) (\<lambda>executionID.
     andThen (if xi_ObservedAt input = zeroTime then Now Ret else Ret (xi_ObservedAt input)) (\<lambda>observedAt.
     Ret (executionID, observedAt,
       if xi_Mode input = '''' then ModeDryRun else xi_Mode input,
       if xi_Reason input = '''' then ''TriggerEligible'' else xi_Reason input)))"

definition executionDetails :: "ExecInput \<Rightarrow> details \<Rightarrow> details" where
  "executionDetails input ds =
     (let d1 = gm_put ''rehearsal'' (ABool (xi_Rehearsal input))
            (gm_put ''selectedUPSDevices'' (AStrings (xi_SelectedUPSDevices input)) ds);
          d2 = (if xi_RehearsalRequest input \<noteq> '''' then gm_put ''rehearsalRequest'' (AText (xi_RehearsalRequest input)) d1 else d1) in
      if xi_RehearsalReason input \<noteq> '''' then gm_put ''rehearsalReason'' (AText (xi_RehearsalReason input)) d2 else d2)"

section \<open>Tiers and windows\<close>

definition lowerTierDueAfter :: "ExecWave list \<Rightarrow> nat \<Rightarrow> bool" where
  "lowerTierDueAfter waves index \<longleftrightarrow>
     (if index + 1 \<ge> length waves then False
      else case (xw_ShutdownTier (waves ! index), xw_ShutdownTier (waves ! (index + 1))) of
        (Some c, Some n) \<Rightarrow> n < c
      | _ \<Rightarrow> False)"

definition tierPreempted :: "ctx \<Rightarrow> ctx \<Rightarrow> string \<Rightarrow> bool \<Rightarrow> bool prog" where
  "tierPreempted parentCtx actionCtx policy lowerTierDue =
     (if policy \<noteq> TierOverrunPolicyPreempt \<or> \<not> lowerTierDue then Ret False
      else CtxErr parentCtx (\<lambda>perr.
        if perr \<noteq> None then Ret False else CtxErr actionCtx (\<lambda>aerr. Ret (aerr = Some DeadlineExceeded))))"

definition tierOverrunAction :: "string \<Rightarrow> bool \<Rightarrow> string" where
  "tierOverrunAction policy preempted =
     (if policy = TierOverrunPolicyOverlap then TierOverrunActionOverlapped
      else if policy = TierOverrunPolicyPreempt
        then (if preempted then TierOverrunActionPreempted else TierOverrunActionPreemptDeadlineElapsed)
      else TierOverrunActionWaited)"

definition firstNonEmpty :: "string \<Rightarrow> string \<Rightarrow> string" where
  "firstNonEmpty a b = (if a \<noteq> '''' then a else b)"

definition tierWindowOverrunning :: "tierOverrunWindow \<Rightarrow> int \<Rightarrow> bool" where
  "tierWindowOverrunning window now \<longleftrightarrow>
     (if tw_EffectiveDuration window \<le> 0 \<or> tw_StartedAt window = zeroTime then False
      else timeSub now (tw_StartedAt window) > tw_EffectiveDuration window)"

definition tierOverrunRecord :: "ExecWave \<Rightarrow> tierOverrunWindow \<Rightarrow> string \<Rightarrow> string \<Rightarrow> bool \<Rightarrow> int \<Rightarrow> TierOverrun option" where
  "tierOverrunRecord wave window policy action lowerTierDue completedAt =
     (if \<not> lowerTierDue \<or> tw_EffectiveDuration window \<le> 0 \<or> tw_StartedAt window = zeroTime then None
      else let actual = timeSub completedAt (tw_StartedAt window); overrun = wrap64 (actual - tw_EffectiveDuration window) in
        if overrun \<le> 0 then None
        else Some \<lparr>to_WaveIndex = xw_Index wave, to_ShutdownTier = tw_ShutdownTier window, to_Policy = policy, to_Action = action,
          to_DeclaredDuration = tw_DeclaredDuration window, to_EffectiveDuration = tw_EffectiveDuration window,
          to_ActualDuration = actual, to_OverrunDuration = overrun\<rparr>)"

definition durationSeconds :: "duration \<Rightarrow> any" where
  "durationSeconds d =
     (if d \<le> 0 then ANil else AFloat (fadd (fromInt (d div second)) (fdiv (fromInt (d mod second)) (fromInt 1000000000))))"

definition int32PtrValue :: "int option \<Rightarrow> any" where
  "int32PtrValue v = (case v of None \<Rightarrow> ANil | Some i \<Rightarrow> AInt i)"

definition tierOverrunDetails :: "TierOverrun \<Rightarrow> details" where
  "tierOverrunDetails t = details
     [(''waveIndex'', AInt (to_WaveIndex t)), (''shutdownTier'', int32PtrValue (to_ShutdownTier t)), (''policy'', AText (to_Policy t)),
      (''action'', AText (to_Action t)), (''declaredSeconds'', durationSeconds (to_DeclaredDuration t)),
      (''effectiveSeconds'', durationSeconds (to_EffectiveDuration t)), (''actualSeconds'', durationSeconds (to_ActualDuration t)),
      (''overrunSeconds'', durationSeconds (to_OverrunDuration t))]"

definition tierOverrunListDetails :: "TierOverrun list \<Rightarrow> details list" where
  "tierOverrunListDetails overruns = map tierOverrunDetails overruns"

section \<open>Adaptive evaluation at a wave boundary\<close>

definition finalTier :: "AdaptiveInput \<Rightarrow> int" where
  "finalTier input = (if ai_FinalTier input \<le> 0 then 1 else ai_FinalTier input)"

definition startTier :: "AdaptiveInput \<Rightarrow> ExecWave \<Rightarrow> int" where
  "startTier input wave =
     (if ai_StartTier input > 0 then ai_StartTier input
      else case xw_ShutdownTier wave of Some t \<Rightarrow> t | None \<Rightarrow> finalTier input)"

definition remainingPlanDuration :: "ExecWave list \<Rightarrow> nat \<Rightarrow> duration" where
  "remainingPlanDuration waves fromIndex = fold (\<lambda>w total. add64 total (xw_Duration w)) (drop fromIndex waves) 0"

text \<open>The loop of \<open>descendToWaveTier\<close>: each turn lowers the tier by one, so the distance to the target
  bounds the turns.\<close>

fun descendSteps :: "nat \<Rightarrow> int \<Rightarrow> int \<Rightarrow> PointerMovement \<Rightarrow> PointerState \<Rightarrow> PointerMovement \<Rightarrow> PointerState \<times> PointerMovement" where
  "descendSteps 0 final target first pointer movement = (pointer, movement)"
| "descendSteps (Suc n) final target first pointer movement =
     (if \<not> Tier pointer > target then (pointer, movement)
      else case Descend pointer final of (next, step) \<Rightarrow>
        if pm_Direction step \<noteq> DirectionDescend \<or> Tier next = Tier pointer then (pointer, movement)
        else descendSteps n final target first next
          \<lparr>pm_From = pm_From first, pm_To = pm_To step, pm_Direction = DirectionDescend,
           pm_Reexecution = pm_Reexecution movement \<or> pm_Reexecution step\<rparr>)"

definition descendToWaveTier :: "PointerState \<Rightarrow> ExecWave \<Rightarrow> int \<Rightarrow> PointerState \<times> PointerMovement" where
  "descendToWaveTier pointer wave final =
     (case xw_ShutdownTier wave of
        None \<Rightarrow> Descend pointer final
      | Some tier \<Rightarrow>
          let target = (if tier < final then final else tier) in
          if \<not> Started pointer then Descend (pointer\<lparr>Tier := target\<rparr>) final
          else descendSteps (nat (Tier pointer - target)) final target (hold pointer) pointer (hold pointer))"

definition waveState :: "AdaptiveInput \<Rightarrow> ExecWave \<Rightarrow> duration \<Rightarrow> PowerObservation \<Rightarrow> waveAdaptiveState" where
  "waveState input wave remainingPlan observation =
     (let parameters = WithDefaults (ai_Parameters input);
          budget = Budget parameters observation remainingPlan in
      case Observe (ai_Timing input) observation parameters of (timing, transition) \<Rightarrow>
      case (if ShouldDescend observation then descendToWaveTier (ai_Pointer input) wave (finalTier input)
            else Ascend (ai_Pointer input) (startTier input wave)) of (pointer, movement) \<Rightarrow>
      \<lparr>was_Mode = Mode timing, was_Pointer = pointer, was_Timing = timing, was_Observation = observation,
       was_Movement = movement, was_Transition = transition,
       was_Events = (if tt_Changed transition then [describeTransition transition] else []) @
         [describeBudget budget, describeMovement movement observation],
       was_Budget = budget\<rparr>)"

definition evaluateWave :: "Executor \<Rightarrow> ctx \<Rightarrow> AdaptiveInput \<Rightarrow> ExecWave \<Rightarrow> duration \<Rightarrow> (string + waveAdaptiveState) prog" where
  "evaluateWave e ctx input wave remainingPlan =
     (if ex_Observer e = None then Ret (Inr (waveState input wave remainingPlan (ai_Observation input)))
      else ReadPower ctx (\<lambda>answer. case answer of
          Inl err \<Rightarrow> Ret (Inl (''read power state for wave '' @ show_int (xw_Index wave) @ '': '' @ err))
        | Inr observation \<Rightarrow> Ret (Inr (waveState input wave remainingPlan observation))))"

definition observedRuntime :: "PowerObservation \<Rightarrow> any" where
  "observedRuntime ob = (case RuntimeSeconds ob of None \<Rightarrow> ANil | Some s \<Rightarrow> AInt s)"

definition adaptiveStateRecord :: "waveAdaptiveState \<Rightarrow> details" where
  "adaptiveStateRecord st = details
     [(''tier'', AInt (Tier (was_Pointer st))), (''deepestTier'', AInt (Deepest (was_Pointer st))),
      (''pointerStarted'', ABool (Started (was_Pointer st))), (''pointerHalted'', ABool (Halted (was_Pointer st))),
      (''timingMode'', AText (Mode (was_Timing st))), (''timingPendingMode'', AText (PendingMode (was_Timing st))),
      (''timingPending'', AInt (PendingCount (was_Timing st))), (''onBattery'', ABool (OnBattery (was_Observation st))),
      (''lowBattery'', ABool (LowBattery (was_Observation st))), (''runtimeTrusted'', ABool (RuntimeTrusted (was_Observation st))),
      (''runtimeSeconds'', observedRuntime (was_Observation st))]"

definition adaptiveResultFrom :: "AdaptiveResult \<Rightarrow> waveAdaptiveState \<Rightarrow> AdaptiveResult" where
  "adaptiveResultFrom previous st =
     \<lparr>ar_Pointer = was_Pointer st, ar_Timing = was_Timing st, ar_Observation = was_Observation st,
      ar_Events = ar_Events previous @ was_Events st\<rparr>"

section \<open>Release evidence\<close>

definition terminalHandoffWave :: "ExecInput \<Rightarrow> nat \<Rightarrow> (string, ExecGroup) gmap \<Rightarrow> bool" where
  "terminalHandoffWave input index groups \<longleftrightarrow>
     (let wave = xi_Waves input ! index in
      index + 1 = length (xi_Waves input) \<and> length (xw_Groups wave) = 1 \<and>
      xg_Action (lookupGroup groups (xw_Groups wave ! 0)) = ActionAgentShutdown)"

definition sameRelease :: "NodeRelease \<Rightarrow> NodeRelease \<Rightarrow> bool" where
  "sameRelease fresh selected \<longleftrightarrow>
     nr_NodeName fresh = nr_NodeName selected \<and> nr_NodePowerAgent fresh = nr_NodePowerAgent selected \<and>
     nr_AgentUID fresh = nr_AgentUID selected \<and> nr_AgentGeneration fresh = nr_AgentGeneration selected \<and>
     nr_ActuatorPolicy fresh = nr_ActuatorPolicy selected \<and> nr_SignalPath fresh = nr_SignalPath selected \<and>
     nr_SignalSecretNamespace fresh = nr_SignalSecretNamespace selected \<and>
     nr_SignalSecretName fresh = nr_SignalSecretName selected \<and> nr_SignalSecretKey fresh = nr_SignalSecretKey selected"

fun refreshReleases :: "ctx \<Rightarrow> NodeRelease list \<Rightarrow> (string + NodeRelease list) prog" where
  "refreshReleases ctx [] = Ret (Inr [])"
| "refreshReleases ctx (selected # rest) =
     CtxErr ctx (\<lambda>err. case err of
       Some x \<Rightarrow> Ret (Inl (ctxMessage x))
     | None \<Rightarrow> Refresh ctx selected (\<lambda>answer. case answer of
         Inl msg \<Rightarrow> Ret (Inl (''refresh node '' @ quote (nr_NodeName selected) @ '' evidence: '' @ msg))
       | Inr read \<Rightarrow>
           let fresh = read\<lparr>nr_TerminalHandoff := nr_TerminalHandoff selected,
                 nr_ControlPlaneNodes := nr_ControlPlaneNodes selected, nr_QuorumMembers := nr_QuorumMembers selected\<rparr> in
           if \<not> sameRelease fresh selected
           then Ret (Inl (''node '' @ quote (nr_NodeName selected) @ '' release identity changed during evidence refresh''))
           else andThen (refreshReleases ctx rest) (\<lambda>tail. case tail of
               Inl msg \<Rightarrow> Ret (Inl msg)
             | Inr releases \<Rightarrow> Ret (Inr (fresh # releases)))))"

definition refreshReleaseEvidence :: "Executor \<Rightarrow> ctx \<Rightarrow> ExecGroup \<Rightarrow> (ExecGroup \<times> error) prog" where
  "refreshReleaseEvidence e ctx grp =
     (if ex_RefreshNodeRelease e = None then Ret (grp, None)
      else andThen (refreshReleases ctx (xg_NodeReleases grp)) (\<lambda>answer. case answer of
          Inl msg \<Rightarrow> Ret (grp, Some msg)
        | Inr releases \<Rightarrow> Ret (grp\<lparr>xg_NodeReleases := releases\<rparr>, None)))"

definition orReason :: "string \<Rightarrow> string \<Rightarrow> string" where
  "orReason reason fallback = (if reason \<noteq> '''' then reason else fallback)"

definition releaseReadinessError :: "NodeRelease \<Rightarrow> error" where
  "releaseReadinessError r =
     (let blocked = (\<lambda>reason. Some (''node '' @ quote (nr_NodeName r) @ '' is not ready for AgentShutdown: '' @ reason)) in
      if \<not> nr_AgentReady r then blocked (orReason (nr_ReadinessReason r) ''AgentReadinessUnknown'')
      else if \<not> nr_TelemetryFresh r then blocked (orReason (nr_TelemetryStaleReason r) ''AgentTelemetryStale'')
      else if \<not> nr_Cleared r then blocked (orReason (nr_ClearanceReason r) ''NodeNotCleared'')
      else None)"

definition agentShutdownReadinessError :: "bool \<Rightarrow> ExecGroup \<Rightarrow> error" where
  "agentShutdownReadinessError dryRun grp =
     (if dryRun then None else fold (\<lambda>r out. joinErrors out (releaseReadinessError r)) (xg_NodeReleases grp) None)"

definition releaseHeartbeatTime :: "NodeRelease \<Rightarrow> string" where
  "releaseHeartbeatTime r =
     (case nr_LastHeartbeatTime r of None \<Rightarrow> '''' | Some t \<Rightarrow> if t = zeroTime then '''' else formatRFC3339Nano t)"

definition clearedForRelease :: "NodeRelease \<Rightarrow> bool" where
  "clearedForRelease r \<longleftrightarrow> nr_AgentReady r \<and> nr_TelemetryFresh r \<and> nr_Cleared r"

definition blockedNodeReleaseDetails :: "NodeRelease list \<Rightarrow> details list" where
  "blockedNodeReleaseDetails releases =
     map (\<lambda>r. details
        [(''lastHeartbeatTime'', AText (releaseHeartbeatTime r)), (''nodeName'', AText (nr_NodeName r)),
         (''nodePowerAgent'', AText (nr_NodePowerAgent r)), (''podName'', AText (nr_PodName r)),
         (''readinessMessage'', AText (nr_ReadinessMessage r)), (''readinessReason'', AText (nr_ReadinessReason r)),
         (''telemetryFresh'', ABool (nr_TelemetryFresh r)), (''telemetryStaleReason'', AText (nr_TelemetryStaleReason r)),
         (''cleared'', ABool (nr_Cleared r)), (''clearanceReason'', AText (nr_ClearanceReason r)),
         (''blockingWorkloads'', AStrings (nr_BlockingWorkloads r))])
       (filter (\<lambda>r. \<not> clearedForRelease r) releases)"

definition nodeReleaseReason :: "NodeRelease \<Rightarrow> bool \<Rightarrow> string" where
  "nodeReleaseReason r dryRun =
     (if \<not> nr_AgentReady r then orReason (nr_ReadinessReason r) ''AgentReadinessUnknown''
      else if \<not> nr_TelemetryFresh r then orReason (nr_TelemetryStaleReason r) ''AgentTelemetryStale''
      else if \<not> nr_Cleared r then orReason (nr_ClearanceReason r) ''NodeNotCleared''
      else if dryRun then ''DryRunRelease'' else ''ReleaseApproved'')"

definition nodeSignalHandoffReason :: "NodeRelease \<Rightarrow> bool \<Rightarrow> string" where
  "nodeSignalHandoffReason r dryRun =
     (if \<not> nr_AgentReady r then orReason (nr_ReadinessReason r) ''AgentReadinessUnknown''
      else if \<not> nr_TelemetryFresh r then orReason (nr_TelemetryStaleReason r) ''AgentTelemetryStale''
      else if \<not> nr_Cleared r then orReason (nr_ClearanceReason r) ''NodeNotCleared''
      else if dryRun then ''DryRunSignal'' else ''SignalAccepted'')"

definition zeroSignalResult :: NodeSignalResult where
  "zeroSignalResult = \<lparr>ns_NodeName = '''', ns_NodePowerAgent = '''', ns_SignalSecretNamespace = '''', ns_SignalSecretName = '''',
     ns_SignalSecretKey = '''', ns_Published = False, ns_Error = '''', ns_IssuedAt = zeroTime, ns_SkipSync = False\<rparr>"

definition signalFor :: "NodeRelease \<Rightarrow> NodeSignalResult \<Rightarrow> bool" where
  "signalFor release result \<longleftrightarrow>
     ns_NodeName result = nr_NodeName release \<and> ns_NodePowerAgent result = nr_NodePowerAgent release \<and>
     ns_SignalSecretNamespace result = nr_SignalSecretNamespace release \<and>
     ns_SignalSecretName result = nr_SignalSecretName release \<and> ns_SignalSecretKey result = nr_SignalSecretKey release"

definition signalResultForRelease :: "NodeSignalResult list \<Rightarrow> NodeRelease \<Rightarrow> NodeSignalResult \<times> bool" where
  "signalResultForRelease results release =
     (case find (signalFor release) results of Some r \<Rightarrow> (r, True) | None \<Rightarrow> (zeroSignalResult, False))"

definition releaseRecord :: "ExecInput \<Rightarrow> string \<Rightarrow> bool \<Rightarrow> ExecGroup \<Rightarrow> ActionOutcome \<Rightarrow> int \<Rightarrow> NodeRelease \<Rightarrow> string \<Rightarrow> NodeReleaseRecord" where
  "releaseRecord input executionID dryRun grp outcome observedAt r ident =
     (case signalResultForRelease (ao_SignalResults outcome) r of (publication, reported) \<Rightarrow>
      \<lparr>rr_ReleaseID = ident, rr_ExecutionID = executionID, rr_ObservedAt = observedAt, rr_NodeName = nr_NodeName r,
       rr_NodePowerAgent = nr_NodePowerAgent r, rr_PlanConfigHash = xi_PlanConfigHash input, rr_Approved = xi_Approved input,
       rr_Released = (clearedForRelease r \<and> \<not> dryRun \<and> ns_Published publication),
       rr_Reason = (if clearedForRelease r \<and> \<not> dryRun \<and> \<not> ns_Published publication
         then (if reported then ''SignalPublicationUnconfirmed'' else ''SignalPublicationNotReported'')
         else nodeReleaseReason r dryRun),
       rr_Clearance = details
         [(''agentReady'', ABool (nr_AgentReady r)), (''cleared'', ABool (nr_Cleared r)), (''clearanceReason'', AText (nr_ClearanceReason r)),
          (''blockingWorkloads'', AStrings (nr_BlockingWorkloads r)), (''dryRun'', ABool dryRun), (''group'', AText (xg_Name grp)),
          (''lastHeartbeatTime'', AText (releaseHeartbeatTime r)), (''podName'', AText (nr_PodName r)),
          (''readinessReason'', AText (nr_ReadinessReason r)), (''telemetryFresh'', ABool (nr_TelemetryFresh r)),
          (''telemetryStaleReason'', AText (nr_TelemetryStaleReason r))],
       rr_Details = details
         [(''readinessMessage'', AText (nr_ReadinessMessage r)), (''terminalHandoff'', ABool (nr_TerminalHandoff r)),
          (''controlPlaneNodes'', AStrings (nr_ControlPlaneNodes r)), (''quorumMembers'', AStrings (nr_QuorumMembers r)),
          (''signalPublicationError'', AText (ns_Error publication)), (''signalResultReported'', ABool reported),
          (''selectedUPSDevices'', AStrings (xi_SelectedUPSDevices input))]\<rparr>)"

definition handoffRecord :: "ExecInput \<Rightarrow> string \<Rightarrow> bool \<Rightarrow> ExecGroup \<Rightarrow> ActionOutcome \<Rightarrow> int \<Rightarrow> NodeRelease \<Rightarrow> string \<Rightarrow> NodeSignalHandoff" where
  "handoffRecord input executionID dryRun grp outcome observedAt r ident =
     (case signalResultForRelease (ao_SignalResults outcome) r of (publication, reported) \<Rightarrow>
      let issuedAt = (if ns_IssuedAt publication = zeroTime then observedAt else ns_IssuedAt publication);
          unpublished = (clearedForRelease r \<and> \<not> dryRun \<and> \<not> ns_Published publication);
          withheld = (if reported then ''SignalPublicationUnconfirmed'' else ''SignalPublicationNotReported'');
          reason = (if unpublished then withheld else nodeReleaseReason r dryRun) in
      \<lparr>sh_HandoffID = ident, sh_ExecutionID = executionID, sh_ObservedAt = observedAt, sh_NodeName = nr_NodeName r,
       sh_NodePowerAgent = nr_NodePowerAgent r,
       sh_SignalPath = (if nr_SignalPath r = '''' then DefaultSignalPath else nr_SignalPath r),
       sh_SignalPayload = details
         [(''agentReady'', ABool (nr_AgentReady r)), (''dryRun'', ABool dryRun), (''executionID'', AText executionID),
          (''lastHeartbeatTime'', AText (releaseHeartbeatTime r)), (''nodeName'', AText (nr_NodeName r)),
          (''planConfigHash'', AText (xi_PlanConfigHash input)), (''podName'', AText (nr_PodName r)),
          (''readinessReason'', AText (nr_ReadinessReason r)),
          (''reason'', AText (if ns_IssuedAt publication = zeroTime then reason else ''ReleaseApproved'')),
          (''selectedUPSDevices'', AStrings (xi_SelectedUPSDevices input)), (''shutdownFlow'', AText (xi_ShutdownFlow input)),
          (''telemetryFresh'', ABool (nr_TelemetryFresh r)), (''telemetryStaleReason'', AText (nr_TelemetryStaleReason r)),
          (''timestamp'', AText (formatRFC3339Nano issuedAt)), (''skipSync'', ABool (ns_SkipSync publication))],
       sh_StaleAfter = Some (issuedAt + signalTTL (xi_SignalTTL input)),
       sh_Accepted = (clearedForRelease r \<and> \<not> dryRun \<and> ns_Published publication),
       sh_Reason = (if unpublished then withheld else nodeSignalHandoffReason r dryRun),
       sh_Details = details
         [(''group'', AText (xg_Name grp)), (''signalPublicationError'', AText (ns_Error publication)),
          (''signalResultReported'', ABool reported), (''readinessMessage'', AText (nr_ReadinessMessage r)),
          (''readinessReason'', AText (nr_ReadinessReason r)), (''lastHeartbeatTime'', AText (releaseHeartbeatTime r))]\<rparr>)"

fun recordReleases_loop :: "ctx \<Rightarrow> ExecInput \<Rightarrow> string \<Rightarrow> bool \<Rightarrow> ExecGroup \<Rightarrow> ActionOutcome \<Rightarrow> int \<Rightarrow> NodeRelease list \<Rightarrow> error \<Rightarrow> error prog" where
  "recordReleases_loop ctx input executionID dryRun grp outcome observedAt [] recordErr = Ret recordErr"
| "recordReleases_loop ctx input executionID dryRun grp outcome observedAt (r # rs) recordErr =
     (if nr_NodeName r = ''''
      then recordReleases_loop ctx input executionID dryRun grp outcome observedAt rs
        (joinErrors recordErr (Some (''node release for group '' @ quote (xg_Name grp) @ '' requires node name'')))
      else NewID (\<lambda>releaseID. Write ctx (ReleaseRecord (releaseRecord input executionID dryRun grp outcome observedAt r releaseID)) (\<lambda>err1.
        NewID (\<lambda>handoffID. Write ctx (HandoffRecord (handoffRecord input executionID dryRun grp outcome observedAt r handoffID)) (\<lambda>err2.
        recordReleases_loop ctx input executionID dryRun grp outcome observedAt rs (joinErrors (joinErrors recordErr err1) err2))))))"

definition recordNodeReleases :: "ctx \<Rightarrow> ExecInput \<Rightarrow> string \<Rightarrow> bool \<Rightarrow> ExecGroup \<Rightarrow> ActionOutcome \<Rightarrow> int \<Rightarrow> (int \<times> error) prog" where
  "recordNodeReleases ctx input executionID dryRun grp outcome observedAt =
     andThen (recordReleases_loop ctx input executionID dryRun grp outcome observedAt (xg_NodeReleases grp) None)
       (\<lambda>recordErr. Ret (int (length (xg_NodeReleases grp)), recordErr))"

section \<open>One group\<close>

definition auditTargets :: "ExecTarget list \<Rightarrow> (string, string) gmap list" where
  "auditTargets targets = map (\<lambda>t.
     let entry = gm_put ''name'' (xt_Name t) (gm_put ''kind'' (xt_Kind t) []);
         entry = (if xt_APIVersion t \<noteq> '''' then gm_put ''apiVersion'' (xt_APIVersion t) entry else entry) in
     if xt_Namespace t \<noteq> '''' then gm_put ''namespace'' (xt_Namespace t) entry else entry) targets"

definition waitOutcome :: "bool \<Rightarrow> string" where
  "waitOutcome dryRun = (if dryRun then OutcomeSimulated else OutcomeSucceeded)"

definition simpleOutcome :: "string \<Rightarrow> string \<Rightarrow> details \<Rightarrow> ActionOutcome" where
  "simpleOutcome outcome err ds = \<lparr>ao_Outcome = outcome, ao_Error = err, ao_Details = ds, ao_SignalResults = []\<rparr>"

definition errorText :: "error \<Rightarrow> string" where
  "errorText err = (case err of None \<Rightarrow> '''' | Some msg \<Rightarrow> msg)"

text \<open>The steps of \<open>executeGroup\<close>: the release gate of an AgentShutdown, the wait, the context check, the
  action itself and the timeout verdict.  Each takes and returns the outcome and the error so far.\<close>

definition releaseGate :: "Executor \<Rightarrow> ctx \<Rightarrow> bool \<Rightarrow> ExecGroup \<Rightarrow> (ExecGroup \<times> ActionOutcome \<times> error) prog" where
  "releaseGate e groupCtx dryRun grp0 =
     (let simulated = simpleOutcome OutcomeSimulated '''' (details [(''dryRun'', ABool True)]) in
      if xg_Action grp0 \<noteq> ActionAgentShutdown then Ret (grp0, simulated, None)
      else andThen (refreshReleaseEvidence e groupCtx grp0) (\<lambda>(grp, refreshErr).
        case refreshErr of
          Some msg \<Rightarrow> Ret (grp, simpleOutcome OutcomeBlocked msg [], Some msg)
        | None \<Rightarrow> (case agentShutdownReadinessError dryRun grp of
            Some msg \<Rightarrow> Ret (grp, simpleOutcome OutcomeBlocked msg
              (details [(''blockedNodeReleases'', AMaps (blockedNodeReleaseDetails (xg_NodeReleases grp)))]), Some msg)
          | None \<Rightarrow> Ret (grp, simulated, None))))"

definition waitGate :: "ctx \<Rightarrow> bool \<Rightarrow> ExecGroup \<Rightarrow> duration \<Rightarrow> ActionOutcome \<Rightarrow> error \<Rightarrow> (ActionOutcome \<times> error) prog" where
  "waitGate groupCtx dryRun grp effectiveWait outcome actionErr =
     (if xg_Action grp = ActionWait \<and> actionErr = None \<and> effectiveWait > 0
      then SleepFor groupCtx effectiveWait (\<lambda>waitErr. case waitErr of
          Some err \<Rightarrow> (let msg = ''wait group '' @ quote (xg_Name grp) @ '' interrupted: '' @ err in
            Ret (simpleOutcome OutcomeBlocked msg [], Some msg))
        | None \<Rightarrow> Ret (simpleOutcome (waitOutcome dryRun) '''' (details [(''action'', AText ActionWait)]), None))
      else Ret (outcome, actionErr))"

definition contextGate :: "ctx \<Rightarrow> ActionOutcome \<Rightarrow> error \<Rightarrow> (ActionOutcome \<times> error) prog" where
  "contextGate groupCtx outcome actionErr =
     (if actionErr \<noteq> None then Ret (outcome, actionErr)
      else CtxErr groupCtx (\<lambda>err. case err of
          None \<Rightarrow> Ret (outcome, None)
        | Some x \<Rightarrow> Ret (simpleOutcome OutcomeBlocked (ctxMessage x) [], Some (ctxMessage x))))"

definition groupAction :: "ExecInput \<Rightarrow> string \<Rightarrow> bool \<Rightarrow> int \<Rightarrow> ExecGroup \<Rightarrow> waveAdaptiveState \<Rightarrow> bool \<Rightarrow> Action" where
  "groupAction input executionID dryRun waveIndex grp st tierOverrunning =
     \<lparr>ac_ExecutionID = executionID, ac_ShutdownFlow = xi_ShutdownFlow input, ac_TriggerReason = xi_Reason input,
      ac_PlanConfigHash = xi_PlanConfigHash input, ac_SelectedUPSDevices = xi_SelectedUPSDevices input,
      ac_WaveIndex = waveIndex, ac_Group = grp, ac_DryRun = dryRun,
      ac_PowerObservation = \<lparr>ap_OnBattery = OnBattery (was_Observation st), ap_LowBattery = LowBattery (was_Observation st),
        ap_RuntimeSeconds = RuntimeSeconds (was_Observation st), ap_RuntimeTrusted = RuntimeTrusted (was_Observation st)\<rparr>,
      ac_TierOverrunning = tierOverrunning\<rparr>"

definition actionResult :: "ActionOutcome \<Rightarrow> error \<Rightarrow> ActionOutcome" where
  "actionResult outcome actionErr =
     (let o1 = (if ao_Outcome outcome = '''' \<and> actionErr = None then outcome\<lparr>ao_Outcome := OutcomeSucceeded\<rparr> else outcome);
          o2 = (if actionErr \<noteq> None \<and> ao_Outcome o1 = '''' then o1\<lparr>ao_Outcome := PhaseFailed\<rparr> else o1) in
      if actionErr \<noteq> None \<and> ao_Error o2 = '''' then o2\<lparr>ao_Error := errorText actionErr\<rparr> else o2)"

definition runGate :: "Executor \<Rightarrow> ctx \<Rightarrow> Action \<Rightarrow> ActionOutcome \<Rightarrow> error \<Rightarrow> (ActionOutcome \<times> error) prog" where
  "runGate e groupCtx action outcome actionErr =
     (let shouldRunAction = (\<not> ac_DryRun action \<or> xg_Action (ac_Group action) = ActionRunHook) in
      if \<not> shouldRunAction \<or> actionErr \<noteq> None then Ret (outcome, actionErr)
      else if ex_Runner e = None
        then (let msg = ''enforce execution requires an action runner'' in Ret (simpleOutcome OutcomeBlocked msg [], Some msg))
      else RunAction groupCtx action (\<lambda>(result, err). Ret (actionResult result err, err)))"

definition timeoutGate :: "ctx \<Rightarrow> ctx \<Rightarrow> string \<Rightarrow> duration \<Rightarrow> ActionOutcome \<Rightarrow> error \<Rightarrow> (ActionOutcome \<times> error) prog" where
  "timeoutGate groupCtx actionCtx name effectiveTimeout outcome actionErr =
     (if effectiveTimeout \<le> 0 then Ret (outcome, actionErr)
      else CtxErr groupCtx (\<lambda>gerr. if gerr = None then Ret (outcome, actionErr)
        else CtxErr actionCtx (\<lambda>aerr. if aerr \<noteq> None then Ret (outcome, actionErr)
          else let msg = (case actionErr of Some m \<Rightarrow> m
                 | None \<Rightarrow> ''group '' @ quote name @ '' exceeded its '' @ durationString effectiveTimeout @ '' timeout'') in
            Ret (outcome\<lparr>ao_Outcome := OutcomeTimedOut, ao_Error := msg\<rparr>, Some msg))))"

definition groupRecord :: "ExecInput \<Rightarrow> string \<Rightarrow> bool \<Rightarrow> int \<Rightarrow> ExecGroup \<Rightarrow> waveAdaptiveState \<Rightarrow> ActionOutcome \<Rightarrow> error \<Rightarrow> int \<Rightarrow> int \<Rightarrow> string \<Rightarrow> ShutdownFlowExecutionGroup" where
  "groupRecord input executionID dryRun waveIndex grp st outcome actionErr startedAt completedAt ident =
     \<lparr>fg_GroupRecordID = ident, fg_ExecutionID = executionID, fg_ObservedAt = completedAt, fg_WaveIndex = waveIndex,
      fg_GroupName = xg_Name grp, fg_Action = xg_Action grp,
      fg_Phase = (if actionErr \<noteq> None then PhaseFailed else PhaseCompleted),
      fg_StartedAt = Some startedAt, fg_CompletedAt = Some completedAt, fg_SelectedTargets = auditTargets (xg_SelectedTargets grp),
      fg_Details = mergeDetails (xg_Details grp) (details
        [(''dryRun'', ABool dryRun), (''outcome'', AText (ao_Outcome outcome)), (''params'', AStringMap (xg_Params grp)),
         (''timingMode'', AText (was_Mode st)), (''compression'', AFloat (Compression (was_Budget st))),
         (''planFits'', ABool (Fits (was_Budget st))), (''rehearsal'', ABool (xi_Rehearsal input)),
         (''declaredTimeout'', durationSeconds (xg_Timeout grp)),
         (''effectiveTimeout'', durationSeconds (ScaleDuration (xg_Timeout grp) (was_Budget st))),
         (''declaredWait'', durationSeconds (xg_WaitDuration grp)),
         (''effectiveWait'', durationSeconds (ScaleDuration (xg_WaitDuration grp) (was_Budget st)))])\<rparr>"

definition attemptRecord :: "ExecInput \<Rightarrow> string \<Rightarrow> bool \<Rightarrow> int \<Rightarrow> ExecGroup \<Rightarrow> ActionOutcome \<Rightarrow> int \<Rightarrow> int \<Rightarrow> string \<Rightarrow> ShutdownFlowActionAttempt" where
  "attemptRecord input executionID dryRun waveIndex grp outcome startedAt completedAt ident =
     \<lparr>fa_AttemptID = ident, fa_ExecutionID = executionID, fa_ObservedAt = completedAt, fa_WaveIndex = Some waveIndex,
      fa_GroupName = xg_Name grp, fa_Action = xg_Action grp, fa_TargetKind = '''', fa_TargetNamespace = '''', fa_TargetName = '''',
      fa_StartedAt = Some startedAt, fa_CompletedAt = Some completedAt, fa_Outcome = ao_Outcome outcome, fa_Error = ao_Error outcome,
      fa_DryRun = dryRun,
      fa_Details = mergeDetails (ao_Details outcome) (details
        [(''selectedTargetCount'', AInt (int (length (xg_SelectedTargets grp)))), (''rehearsal'', ABool (xi_Rehearsal input))])\<rparr>"

definition groupVerdict :: "string \<Rightarrow> int \<Rightarrow> error \<Rightarrow> error \<Rightarrow> groupExecutionResult \<times> error" where
  "groupVerdict action releases recordErr actionErr =
     (let result = \<lparr>gr_ActionAttempts = 1, gr_NodeReleases = releases, gr_RecordError = recordErr, gr_Degraded = False,
            gr_DegradedReason = '''', gr_DegradedMessage = ''''\<rparr> in
      if action = ActionRunHook \<and> actionErr \<noteq> None
      then (result\<lparr>gr_Degraded := True, gr_DegradedReason := ''ShutdownHookFailed'', gr_DegradedMessage := errorText actionErr\<rparr>, None)
      else (result, actionErr))"

definition recordGroup :: "ctx \<Rightarrow> ExecInput \<Rightarrow> string \<Rightarrow> bool \<Rightarrow> int \<Rightarrow> ExecGroup \<Rightarrow> waveAdaptiveState \<Rightarrow> ActionOutcome \<Rightarrow> error \<Rightarrow> int \<Rightarrow> (groupExecutionResult \<times> error) prog" where
  "recordGroup recordCtx input executionID dryRun waveIndex grp st outcome actionErr startedAt =
     Now (\<lambda>completedAt.
     NewID (\<lambda>groupRecordID.
     Write recordCtx (GroupRecord (groupRecord input executionID dryRun waveIndex grp st outcome actionErr startedAt completedAt groupRecordID)) (\<lambda>err1.
     NewID (\<lambda>attemptID.
     Write recordCtx (AttemptRecord (attemptRecord input executionID dryRun waveIndex grp outcome startedAt completedAt attemptID)) (\<lambda>err2.
     if xg_Action grp = ActionAgentShutdown
     then andThen (recordNodeReleases recordCtx input executionID dryRun grp outcome completedAt) (\<lambda>(releaseCount, releaseErr).
       Ret (groupVerdict (xg_Action grp) releaseCount (joinErrors (joinErrors err1 err2) releaseErr) actionErr))
     else Ret (groupVerdict (xg_Action grp) 0 (joinErrors err1 err2) actionErr))))))"

definition executeGroup :: "Executor \<Rightarrow> ctx \<Rightarrow> ctx \<Rightarrow> ExecInput \<Rightarrow> string \<Rightarrow> bool \<Rightarrow> int \<Rightarrow> ExecGroup \<Rightarrow> waveAdaptiveState \<Rightarrow> bool \<Rightarrow> (groupExecutionResult \<times> error) prog" where
  "executeGroup e recordCtx actionCtx input executionID dryRun waveIndex grp0 st tierOverrunning =
     (let effectiveTimeout = ScaleDuration (xg_Timeout grp0) (was_Budget st);
          effectiveWait = ScaleDuration (xg_WaitDuration grp0) (was_Budget st) in
      andThen (if effectiveTimeout > 0 then MakeTimeout actionCtx effectiveTimeout Ret else Ret actionCtx) (\<lambda>groupCtx.
      Now (\<lambda>startedAt.
      andThen (releaseGate e groupCtx dryRun grp0) (\<lambda>(grp, outcome0, err0).
      andThen (waitGate groupCtx dryRun grp effectiveWait outcome0 err0) (\<lambda>(outcome1, err1).
      andThen (contextGate groupCtx outcome1 err1) (\<lambda>(outcome2, err2).
      andThen (runGate e groupCtx (groupAction input executionID dryRun waveIndex grp st tierOverrunning) outcome2 err2) (\<lambda>(outcome3, err3).
      andThen (timeoutGate groupCtx actionCtx (xg_Name grp) effectiveTimeout outcome3 err3) (\<lambda>(outcome, actionErr).
      andThen (recordGroup recordCtx input executionID dryRun waveIndex grp st outcome actionErr startedAt) (\<lambda>result.
      if effectiveTimeout > 0 then CancelCtx groupCtx (Ret result) else Ret result)))))))))"

section \<open>One wave\<close>

fun resolveGroups :: "Executor \<Rightarrow> ctx \<Rightarrow> (string, ExecGroup) gmap \<Rightarrow> ExecWave \<Rightarrow> waveAdaptiveState \<Rightarrow> string list \<Rightarrow> (string, ExecGroup) gmap \<Rightarrow> ((string, ExecGroup) gmap \<times> string \<times> error) prog" where
  "resolveGroups e ctx groups wave st [] resolved = Ret (resolved, '''', None)"
| "resolveGroups e ctx groups wave st (name # names) resolved =
     (let grp = lookupGroup groups name in
      CtxErr ctx (\<lambda>err. case err of
        Some x \<Rightarrow> Ret ([], name, Some (ctxMessage x))
      | None \<Rightarrow>
          if ex_ResolveTargets e = None then resolveGroups e ctx groups wave st names (gm_put name grp resolved)
          else let declared = ScaleDuration (xg_Timeout grp) (was_Budget st);
                   timeout = (if declared > 0 \<and> declared < defaultTargetResolutionTimeout then declared else defaultTargetResolutionTimeout) in
            MakeTimeout ctx timeout (\<lambda>resolveCtx. Resolve resolveCtx grp (\<lambda>answer.
            andThen (case answer of Inl msg \<Rightarrow> Ret (Inl msg)
                | Inr targets \<Rightarrow> CtxErr resolveCtx (\<lambda>rerr. Ret (case rerr of Some x \<Rightarrow> Inl (ctxMessage x) | None \<Rightarrow> Inr targets)))
              (\<lambda>verdict. CancelCtx resolveCtx (case verdict of
                Inl msg \<Rightarrow> Ret ([], name, Some (''resolve wave '' @ show_int (xw_Index wave) @ '' group '' @ quote name @ '' targets: '' @ msg))
              | Inr targets \<Rightarrow> resolveGroups e ctx groups wave st names (gm_put name (grp\<lparr>xg_SelectedTargets := targets\<rparr>) resolved)))))))"

definition resolveWaveTargets :: "Executor \<Rightarrow> ctx \<Rightarrow> (string, ExecGroup) gmap \<Rightarrow> ExecWave \<Rightarrow> waveAdaptiveState \<Rightarrow> ((string, ExecGroup) gmap \<times> string \<times> error) prog" where
  "resolveWaveTargets e ctx groups wave st = resolveGroups e ctx groups wave st (xw_Groups wave) []"

definition markHandoff :: "bool \<Rightarrow> ExecWave \<Rightarrow> ExecGroup \<Rightarrow> ExecGroup" where
  "markHandoff terminalWave wave grp =
     (if xg_Action grp = ActionAgentShutdown
      then grp\<lparr>xg_NodeReleases := map (\<lambda>r. r\<lparr>nr_TerminalHandoff := (length (xw_Groups wave) = 1 \<and> terminalWave)\<rparr>) (xg_NodeReleases grp)\<rparr>
      else grp)"

definition absorbGroup :: "groupExecutionResult \<Rightarrow> waveExecutionResult \<Rightarrow> waveExecutionResult" where
  "absorbGroup g run =
     (let r1 = run\<lparr>wr_Groups := wr_Groups run + 1, wr_ActionAttempts := wr_ActionAttempts run + gr_ActionAttempts g,
            wr_NodeReleases := wr_NodeReleases run + gr_NodeReleases g\<rparr>;
          r2 = (if \<not> gr_Degraded g then r1
            else if wr_DegradedReason run = ''''
              then r1\<lparr>wr_Degraded := True, wr_DegradedReason := gr_DegradedReason g, wr_DegradedMessage := gr_DegradedMessage g\<rparr>
            else r1\<lparr>wr_Degraded := True\<rparr>) in
      r2\<lparr>wr_RecordError := joinErrors (wr_RecordError run) (gr_RecordError g)\<rparr>)"

fun runGroups :: "Executor \<Rightarrow> ctx \<Rightarrow> waveRunConfig \<Rightarrow> ExecWave \<Rightarrow> waveAdaptiveState \<Rightarrow> (string, ExecGroup) gmap \<Rightarrow> string list \<Rightarrow> waveExecutionResult \<Rightarrow> (waveExecutionResult \<times> bool) prog" where
  "runGroups e ctx cfg wave st resolved [] run = Ret (run, False)"
| "runGroups e ctx cfg wave st resolved (name # names) run =
     (if wr_Err run \<noteq> None then Ret (run, False)
      else let grp = markHandoff (wc_TerminalWave cfg) wave (lookupGroup resolved name) in
        Now (\<lambda>now.
        andThen (executeGroup e ctx (wc_ActionContext cfg) (wc_Input cfg) (wc_ExecutionID cfg) (wc_DryRun cfg) (xw_Index wave) grp st
            (tierWindowOverrunning (wc_Window cfg) now)) (\<lambda>(groupResult, groupErr).
        Report \<lparr>pg_Groups = 1, pg_ActionAttempts = gr_ActionAttempts groupResult, pg_NodeReleases = gr_NodeReleases groupResult,
          pg_Adaptive = None\<rparr>
        (andThen (tierPreempted ctx (wc_ActionContext cfg) (wc_TierPolicy cfg) (wc_LowerTierDue cfg)) (\<lambda>preempted.
          let run' = absorbGroup groupResult run in
          if preempted then Ret (run', True)
          else if groupErr \<noteq> None then Ret (run'\<lparr>wr_Err := groupErr, wr_FailedGroup := xg_Name grp\<rparr>, False)
          else runGroups e ctx cfg wave st resolved names run')))))"

definition waveStartRecord :: "waveRunConfig \<Rightarrow> ExecWave \<Rightarrow> waveAdaptiveState \<Rightarrow> string \<Rightarrow> ShutdownFlowExecutionWave" where
  "waveStartRecord cfg wave st ident =
     \<lparr>fw_WaveRecordID = ident, fw_ExecutionID = wc_ExecutionID cfg, fw_ObservedAt = wc_WaveStart cfg, fw_WaveIndex = xw_Index wave,
      fw_Phase = PhaseRunning, fw_StartedAt = Some (wc_WaveStart cfg), fw_CompletedAt = None, fw_GroupNames = xw_Groups wave,
      fw_Details = mergeDetails (adaptiveStateRecord st) (details [(''dryRun'', ABool (wc_DryRun cfg)), (''events'', AStrings (was_Events st))])\<rparr>"

definition waveEndRecord :: "waveRunConfig \<Rightarrow> ExecWave \<Rightarrow> waveAdaptiveState \<Rightarrow> string \<Rightarrow> int \<Rightarrow> string \<Rightarrow> error \<Rightarrow> string \<Rightarrow> TierOverrun option \<Rightarrow> ShutdownFlowExecutionWave" where
  "waveEndRecord cfg wave st ident completedAt phase resolveErr failedGroup overrun =
     (let base = mergeDetails (adaptiveStateRecord st) (details
            [(''dryRun'', ABool (wc_DryRun cfg)), (''rehearsal'', ABool (xi_Rehearsal (wc_Input cfg))),
             (''tierOverrunPolicy'', AText (wc_TierPolicy cfg)),
             (''declaredTierSeconds'', durationSeconds (tw_DeclaredDuration (wc_Window cfg))),
             (''effectiveTierSeconds'', durationSeconds (tw_EffectiveDuration (wc_Window cfg))),
             (''tierTransitionPending'', ABool (wc_LowerTierDue cfg))]);
          d1 = (case resolveErr of None \<Rightarrow> base
            | Some msg \<Rightarrow> gm_put ''failedGroup'' (AText failedGroup) (gm_put ''targetResolutionError'' (AText msg) base));
          d2 = (case overrun of None \<Rightarrow> d1 | Some t \<Rightarrow> gm_put ''tierOverrun'' (AMap (tierOverrunDetails t)) d1) in
      \<lparr>fw_WaveRecordID = ident, fw_ExecutionID = wc_ExecutionID cfg, fw_ObservedAt = completedAt, fw_WaveIndex = xw_Index wave,
       fw_Phase = phase, fw_StartedAt = Some (wc_WaveStart cfg), fw_CompletedAt = Some completedAt, fw_GroupNames = xw_Groups wave,
       fw_Details = d2\<rparr>)"

definition runWave :: "Executor \<Rightarrow> waveJob \<Rightarrow> waveExecutionResult prog" where
  "runWave e job =
     (let ctx = wj_Context job; cfg = wj_Config job; wave = wj_Wave job; st = wj_State job in
      NewID (\<lambda>waveRecordID.
      Write ctx (WaveRecord (waveStartRecord cfg wave st waveRecordID)) (\<lambda>err1.
      andThen (resolveWaveTargets e (wc_ActionContext cfg) (wc_Groups cfg) wave st) (\<lambda>(resolved, failedGroup, resolveErr).
      let run0 = emptyRun\<lparr>wr_RecordError := err1, wr_Err := resolveErr, wr_FailedGroup := (if resolveErr \<noteq> None then failedGroup else '''')\<rparr> in
      andThen (runGroups e ctx cfg wave st resolved (xw_Groups wave) run0) (\<lambda>(run, preempted).
      Now (\<lambda>completedAt.
      let phase = (if preempted then PhaseAborted else if wr_Err run \<noteq> None then PhaseFailed else PhaseCompleted);
          overrun = tierOverrunRecord wave (wc_Window cfg) (wc_TierPolicy cfg) (tierOverrunAction (wc_TierPolicy cfg) preempted)
            (wc_LowerTierDue cfg) completedAt in
      Write ctx (WaveRecord (waveEndRecord cfg wave st waveRecordID completedAt phase resolveErr failedGroup overrun)) (\<lambda>err2.
      Ret (run\<lparr>wr_TierOverrun := overrun, wr_RecordError := joinErrors (wr_RecordError run) err2\<rparr>))))))))"

section \<open>The execution\<close>

definition zeroResult :: ExecResult where
  "zeroResult = \<lparr>rs_ExecutionID = '''', rs_Phase = '''', rs_DryRun = False, rs_Rehearsal = False, rs_Waves = 0, rs_Groups = 0,
     rs_ActionAttempts = 0, rs_NodeReleases = 0, rs_Degraded = False, rs_DegradedReason = '''', rs_DegradedMessage = '''',
     rs_TierOverruns = [], rs_RecordError = None,
     rs_Adaptive = \<lparr>ar_Pointer = \<lparr>Tier = 0, Deepest = 0, Started = False, Halted = False\<rparr>,
       ar_Timing = \<lparr>Mode = '''', PendingMode = '''', PendingCount = 0\<rparr>,
       ar_Observation = \<lparr>OnBattery = False, LowBattery = False, RuntimeSeconds = None, RuntimeTrusted = False\<rparr>, ar_Events = []\<rparr>\<rparr>"

definition absorbWave :: "ExecResult \<Rightarrow> waveExecutionResult \<Rightarrow> ExecResult" where
  "absorbWave r run =
     (let r1 = r\<lparr>rs_Groups := rs_Groups r + wr_Groups run, rs_ActionAttempts := rs_ActionAttempts r + wr_ActionAttempts run,
            rs_NodeReleases := rs_NodeReleases r + wr_NodeReleases run\<rparr>;
          r2 = (if \<not> wr_Degraded run then r1
            else if rs_DegradedReason r = ''''
              then r1\<lparr>rs_Degraded := True, rs_DegradedReason := wr_DegradedReason run, rs_DegradedMessage := wr_DegradedMessage run\<rparr>
            else r1\<lparr>rs_Degraded := True\<rparr>) in
      case wr_TierOverrun run of None \<Rightarrow> r2 | Some t \<Rightarrow> r2\<lparr>rs_TierOverruns := rs_TierOverruns r @ [t]\<rparr>)"

fun drainPending :: "nat list \<Rightarrow> ExecResult \<Rightarrow> error \<Rightarrow> string \<Rightarrow> error \<Rightarrow> (error \<times> string \<times> error \<times> ExecResult) prog" where
  "drainPending [] result firstErr failedGroup recordErr = Ret (firstErr, failedGroup, recordErr, result)"
| "drainPending (ch # chs) result firstErr failedGroup recordErr =
     Receive ch (\<lambda>run.
       let failing = (wr_Err run \<noteq> None \<and> firstErr = None) in
       drainPending chs (absorbWave result run) (if failing then wr_Err run else firstErr)
         (if failing then wr_FailedGroup run else failedGroup) (joinErrors recordErr (wr_RecordError run)))"

record execIdentity =
  id_ExecutionID :: string
  id_Mode :: string
  id_Reason :: string
  id_DryRun :: bool
  id_StartedAt :: int

definition executionRow :: "ExecInput \<Rightarrow> execIdentity \<Rightarrow> string \<Rightarrow> string \<Rightarrow> int \<Rightarrow> int option \<Rightarrow> details \<Rightarrow> ShutdownFlowExecution" where
  "executionRow input ident phase reason observedAt completedAt ds =
     \<lparr>fe_ExecutionID = id_ExecutionID ident, fe_DeduplicationKey = xi_DeduplicationKey input, fe_ObservedAt = observedAt,
      fe_ShutdownFlow = xi_ShutdownFlow input, fe_TriggerDecisionID = xi_TriggerDecisionID input, fe_Mode = id_Mode ident,
      fe_Phase = phase, fe_Reason = reason, fe_PlanConfigHash = xi_PlanConfigHash input, fe_InputHash = xi_InputHash input,
      fe_StartedAt = Some (id_StartedAt ident), fe_CompletedAt = completedAt, fe_DryRun = id_DryRun ident, fe_Approved = xi_Approved input,
      fe_ApprovalEvidence = details [(''approved'', ABool (xi_Approved input)), (''requestedMode'', AText (id_Mode ident)),
        (''effectiveDryRun'', ABool (id_DryRun ident))],
      fe_Revalidation = details [(''inputHash'', AText (xi_InputHash input))], fe_Details = ds\<rparr>"

definition recordAborted :: "ctx \<Rightarrow> ExecInput \<Rightarrow> execIdentity \<Rightarrow> ExecResult \<Rightarrow> error \<Rightarrow> string \<Rightarrow> error \<Rightarrow> (ExecResult \<times> error) prog" where
  "recordAborted ctx input ident result err failedGroup recordErr =
     CtxErr ctx (\<lambda>done.
     andThen (if done \<noteq> None then MakeTimeout DetachedContext second Ret else Ret ctx) (\<lambda>writeCtx.
     Now (\<lambda>completedAt.
     let ds = executionDetails input [];
         ds = (if failedGroup \<noteq> '''' then gm_put ''failedGroup'' (AText failedGroup) ds else ds) in
     Write writeCtx (ExecutionRecord (executionRow input ident PhaseAborted (errorText err) completedAt (Some completedAt) ds)) (\<lambda>werr.
     let returned = (result\<lparr>rs_Phase := PhaseAborted, rs_RecordError := joinErrors recordErr werr\<rparr>, err) in
     if done \<noteq> None then CancelCtx writeCtx (Ret returned) else Ret returned))))"

definition recordObservationFailure :: "ctx \<Rightarrow> ExecInput \<Rightarrow> execIdentity \<Rightarrow> ExecResult \<Rightarrow> bool \<Rightarrow> error \<Rightarrow> error \<Rightarrow> (ExecResult \<times> error) prog" where
  "recordObservationFailure ctx input ident result wasCanceled err recordErr =
     (if wasCanceled then recordAborted ctx input ident result err '''' recordErr
      else Ret (result\<lparr>rs_Phase := PhaseFailed, rs_RecordError := recordErr\<rparr>, err))"

definition recordCompletion :: "ctx \<Rightarrow> ExecInput \<Rightarrow> execIdentity \<Rightarrow> ExecResult \<Rightarrow> error prog" where
  "recordCompletion ctx input ident result =
     Now (\<lambda>completedAt.
     let ds = executionDetails input (details
           [(''waveCount'', AInt (int (length (xi_Waves input)))), (''groupCount'', AInt (rs_Groups result)),
            (''actionAttempts'', AInt (rs_ActionAttempts result)), (''nodeReleases'', AInt (rs_NodeReleases result))]);
         ds = (if rs_TierOverruns result \<noteq> [] then gm_put ''tierOverruns'' (AMaps (tierOverrunListDetails (rs_TierOverruns result))) ds else ds) in
     Write ctx (ExecutionRecord (executionRow input ident PhaseCompleted (id_Reason ident) completedAt (Some completedAt) ds)) Ret)"

definition finishExecution :: "ctx \<Rightarrow> ExecInput \<Rightarrow> execIdentity \<Rightarrow> ExecResult \<Rightarrow> error \<Rightarrow> (ExecResult \<times> error) prog" where
  "finishExecution ctx input ident result recordErr =
     CtxErr ctx (\<lambda>err. case err of
       Some x \<Rightarrow> recordAborted ctx input ident result (Some (ctxMessage x)) '''' recordErr
     | None \<Rightarrow> andThen (recordCompletion ctx input ident result) (\<lambda>werr.
         Ret (result\<lparr>rs_RecordError := joinErrors recordErr werr\<rparr>, None)))"

text \<open>The variables of the wave loop.  An iteration either returns from \<open>Execute\<close> (\<open>Inl\<close>) or goes on (\<open>Inr\<close>).\<close>

record loopState =
  lo_Result :: ExecResult
  lo_RecordErr :: error
  lo_Adaptive :: AdaptiveInput
  lo_Window :: tierOverrunWindow
  lo_Pending :: "nat list"
  lo_Revoked :: bool

definition emptyWindow :: tierOverrunWindow where
  "emptyWindow = \<lparr>tw_ShutdownTier = None, tw_StartedAt = zeroTime, tw_DeclaredDuration = 0, tw_EffectiveDuration = 0\<rparr>"

definition orReturn :: "('r + 'a) prog \<Rightarrow> ('a \<Rightarrow> ('r + 'b) prog) \<Rightarrow> ('r + 'b) prog" where
  "orReturn p f = andThen p (\<lambda>x. case x of Inl r \<Rightarrow> Ret (Inl r) | Inr a \<Rightarrow> f a)"

definition returning :: "'r prog \<Rightarrow> ('r + 'a) prog" where
  "returning p = andThen p (\<lambda>r. Ret (Inl r))"

definition waitForPending :: "loopState \<Rightarrow> (error \<times> string \<times> error \<times> loopState) prog" where
  "waitForPending lo =
     andThen (drainPending (lo_Pending lo) (lo_Result lo) None '''' None) (\<lambda>(firstErr, failedGroup, recordErr, result).
       Ret (firstErr, failedGroup, recordErr, lo\<lparr>lo_Pending := [], lo_Result := result\<rparr>))"

definition joinBarrier :: "ctx \<Rightarrow> ExecInput \<Rightarrow> (string, ExecGroup) gmap \<Rightarrow> execIdentity \<Rightarrow> nat \<Rightarrow> ExecWave \<Rightarrow> loopState \<Rightarrow> ((ExecResult \<times> error) + loopState) prog" where
  "joinBarrier ctx input groups ident waveIndex wave lo =
     (if xw_CommunicationBarrier wave \<or> terminalHandoffWave input waveIndex groups
      then andThen (waitForPending lo) (\<lambda>(pendingErr, failedGroup, pendingRecordErr, lo1).
        let lo2 = lo1\<lparr>lo_RecordErr := joinErrors (lo_RecordErr lo1) pendingRecordErr\<rparr> in
        if pendingErr \<noteq> None
        then returning (recordAborted ctx input ident (lo_Result lo2) pendingErr failedGroup (lo_RecordErr lo2))
        else Ret (Inr lo2))
      else Ret (Inr lo))"

definition boundaryState :: "Executor \<Rightarrow> ctx \<Rightarrow> ExecInput \<Rightarrow> execIdentity \<Rightarrow> nat \<Rightarrow> ExecWave \<Rightarrow> loopState \<Rightarrow> ((ExecResult \<times> error) + waveAdaptiveState) prog" where
  "boundaryState e ctx input ident waveIndex wave lo =
     andThen (evaluateWave e ctx (lo_Adaptive lo) wave (remainingPlanDuration (xi_Waves input) waveIndex)) (\<lambda>answer.
       case answer of
         Inr st \<Rightarrow> Ret (Inr st)
       | Inl adaptiveErr \<Rightarrow>
           CtxErr ctx (\<lambda>done. CancelCtx ctx (
           andThen (waitForPending lo) (\<lambda>(pendingErr, _, pendingRecordErr, lo1).
             returning (recordObservationFailure ctx input ident (lo_Result lo1) (done \<noteq> None)
               (joinErrors (Some adaptiveErr) pendingErr) (joinErrors (lo_RecordErr lo1) pendingRecordErr))))))"

definition approvalGate :: "Executor \<Rightarrow> ctx \<Rightarrow> bool \<Rightarrow> bool \<Rightarrow> (bool \<times> bool) prog" where
  "approvalGate e ctx dryRun revoked =
     (let waveDryRun = (dryRun \<or> revoked) in
      if waveDryRun \<or> ex_ApprovalChecker e = None then Ret (waveDryRun, revoked)
      else CheckApproval ctx (\<lambda>(approved, err). if err \<noteq> None \<or> \<not> approved then Ret (True, True) else Ret (waveDryRun, revoked)))"

definition handleWaveResult :: "ctx \<Rightarrow> ExecInput \<Rightarrow> execIdentity \<Rightarrow> loopState \<Rightarrow> waveExecutionResult \<Rightarrow> ((ExecResult \<times> error) + loopState) prog" where
  "handleWaveResult ctx input ident lo run =
     (let lo1 = lo\<lparr>lo_Result := absorbWave (lo_Result lo) run, lo_RecordErr := joinErrors (lo_RecordErr lo) (wr_RecordError run)\<rparr> in
      if wr_Err run = None then Ret (Inr lo1)
      else andThen (waitForPending lo1) (\<lambda>(pendingErr, failedGroup, pendingRecordErr, lo2).
        let recordErr = joinErrors (lo_RecordErr lo2) pendingRecordErr in
        if pendingErr \<noteq> None
        then returning (recordAborted ctx input ident (lo_Result lo2) (joinErrors (wr_Err run) pendingErr)
          (firstNonEmpty (wr_FailedGroup run) failedGroup) recordErr)
        else returning (recordAborted ctx input ident (lo_Result lo2) (wr_Err run) (wr_FailedGroup run) recordErr)))"

definition openWindow :: "tierOverrunWindow \<Rightarrow> ExecWave \<Rightarrow> int \<Rightarrow> duration \<Rightarrow> tierOverrunWindow" where
  "openWindow window wave waveStart effective =
     (let w = (if tw_ShutdownTier window \<noteq> xw_ShutdownTier wave
               then emptyWindow\<lparr>tw_ShutdownTier := xw_ShutdownTier wave, tw_StartedAt := waveStart\<rparr> else window) in
      w\<lparr>tw_DeclaredDuration := add64 (tw_DeclaredDuration w) (xw_Duration wave),
        tw_EffectiveDuration := add64 (tw_EffectiveDuration w) effective\<rparr>)"

definition waveJobFor :: "ctx \<Rightarrow> ctx \<Rightarrow> ExecInput \<Rightarrow> (string, ExecGroup) gmap \<Rightarrow> execIdentity \<Rightarrow> bool \<Rightarrow> string \<Rightarrow> tierOverrunWindow \<Rightarrow> bool \<Rightarrow> int \<Rightarrow> nat \<Rightarrow> ExecWave \<Rightarrow> waveAdaptiveState \<Rightarrow> waveJob" where
  "waveJobFor ctx actionCtx input groups ident waveDryRun tierPolicy window lowerTierDue waveStart waveIndex wave st =
     \<lparr>wj_Context = ctx,
      wj_Config = \<lparr>wc_TerminalWave = (waveIndex + 1 = length (xi_Waves input)), wc_Input = input, wc_Groups = groups,
        wc_ExecutionID = id_ExecutionID ident, wc_Mode = id_Mode ident, wc_DryRun = waveDryRun, wc_TierPolicy = tierPolicy,
        wc_Window = window, wc_LowerTierDue = lowerTierDue, wc_WaveStart = waveStart, wc_ActionContext = actionCtx\<rparr>,
      wj_Wave = wave, wj_State = st\<rparr>"

definition deferWave :: "nat \<Rightarrow> loopState \<Rightarrow> loopState" where
  "deferWave ch lo = lo\<lparr>lo_Pending := lo_Pending lo @ [ch], lo_Window := emptyWindow\<rparr>"

text \<open>Under the Overlap policy a wave whose tier is due runs in a goroutine; the loop waits for it until the
  tier's effective time is up and then goes on to the next tier.\<close>

definition overlapWave :: "ctx \<Rightarrow> ExecInput \<Rightarrow> execIdentity \<Rightarrow> waveJob \<Rightarrow> loopState \<Rightarrow> ((ExecResult \<times> error) + loopState) prog" where
  "overlapWave ctx input ident job lo =
     Spawn job (\<lambda>ch. Now (\<lambda>now.
       let window = lo_Window lo; dueAfter = timeSub (tw_StartedAt window + tw_EffectiveDuration window) now in
       if dueAfter \<le> 0 then Ret (Inr (deferWave ch lo))
       else Await ctx ch dueAfter (\<lambda>selected. case selected of
           SelectDone \<Rightarrow>
             andThen (waitForPending (lo\<lparr>lo_Pending := lo_Pending lo @ [ch]\<rparr>)) (\<lambda>(pendingErr, failedGroup, pendingRecordErr, lo1).
             CtxErr ctx (\<lambda>err.
               returning (recordAborted ctx input ident (lo_Result lo1) (joinErrors (map_option ctxMessage err) pendingErr) failedGroup
                 (joinErrors (lo_RecordErr lo1) pendingRecordErr))))
         | SelectResult run \<Rightarrow> orReturn (handleWaveResult ctx input ident lo run) (\<lambda>lo1. Ret (Inr (lo1\<lparr>lo_Window := emptyWindow\<rparr>)))
         | SelectTimer \<Rightarrow> Ret (Inr (deferWave ch lo)))))"

definition sequentialWave :: "Executor \<Rightarrow> ctx \<Rightarrow> ExecInput \<Rightarrow> execIdentity \<Rightarrow> bool \<Rightarrow> string \<Rightarrow> (ctx \<Rightarrow> waveJob) \<Rightarrow> loopState \<Rightarrow> ((ExecResult \<times> error) + loopState) prog" where
  "sequentialWave e ctx input ident lowerTierDue tierPolicy job lo =
     (let window = lo_Window lo; limited = (tierPolicy = TierOverrunPolicyPreempt \<and> lowerTierDue \<and> tw_EffectiveDuration window > 0) in
      andThen (if limited then MakeDeadline ctx (tw_StartedAt window + tw_EffectiveDuration window) Ret else Ret ctx) (\<lambda>actionCtx.
      andThen (runWave e (job actionCtx)) (\<lambda>run.
      andThen (if limited then CancelCtx actionCtx (Ret run) else Ret run) (\<lambda>run.
      orReturn (handleWaveResult ctx input ident lo run)
        (\<lambda>lo1. Ret (Inr (if lowerTierDue then lo1\<lparr>lo_Window := emptyWindow\<rparr> else lo1)))))))"

definition waveIteration :: "Executor \<Rightarrow> ctx \<Rightarrow> ExecInput \<Rightarrow> (string, ExecGroup) gmap \<Rightarrow> execIdentity \<Rightarrow> nat \<Rightarrow> ExecWave \<Rightarrow> loopState \<Rightarrow> ((ExecResult \<times> error) + loopState) prog" where
  "waveIteration e ctx input groups ident waveIndex wave lo0 =
     (let tierPolicy = effectiveTierOverrunPolicy (xi_TierOverrunPolicy input) in
      orReturn (joinBarrier ctx input groups ident waveIndex wave lo0) (\<lambda>lo1.
      orReturn (boundaryState e ctx input ident waveIndex wave lo1) (\<lambda>st.
      andThen (approvalGate e ctx (id_DryRun ident) (lo_Revoked lo1)) (\<lambda>(waveDryRun, revoked).
      let adaptiveResult = adaptiveResultFrom (rs_Adaptive (lo_Result lo1)) st;
          lo2 = lo1\<lparr>lo_Revoked := revoked,
            lo_Adaptive := (lo_Adaptive lo1)\<lparr>ai_Pointer := was_Pointer st, ai_Timing := was_Timing st, ai_Observation := was_Observation st\<rparr>,
            lo_Result := (lo_Result lo1)\<lparr>rs_Adaptive := adaptiveResult\<rparr>\<rparr> in
      Report \<lparr>pg_Groups = 0, pg_ActionAttempts = 0, pg_NodeReleases = 0, pg_Adaptive = Some adaptiveResult\<rparr> (
      Now (\<lambda>waveStart.
      let window = openWindow (lo_Window lo2) wave waveStart (ScaleDuration (xw_Duration wave) (was_Budget st));
          lo3 = lo2\<lparr>lo_Window := window\<rparr>;
          lowerTierDue = lowerTierDueAfter (xi_Waves input) waveIndex;
          job = (\<lambda>actionCtx. waveJobFor ctx actionCtx input groups ident waveDryRun tierPolicy window lowerTierDue waveStart waveIndex wave st) in
      if tierPolicy = TierOverrunPolicyOverlap \<and> lowerTierDue \<and> tw_EffectiveDuration window > 0
      then overlapWave ctx input ident (job ctx) lo3
      else sequentialWave e ctx input ident lowerTierDue tierPolicy job lo3))))))"

fun executeWaves :: "Executor \<Rightarrow> ctx \<Rightarrow> ExecInput \<Rightarrow> (string, ExecGroup) gmap \<Rightarrow> execIdentity \<Rightarrow> nat \<Rightarrow> ExecWave list \<Rightarrow> loopState \<Rightarrow> ((ExecResult \<times> error) + loopState) prog" where
  "executeWaves e ctx input groups ident waveIndex [] lo = Ret (Inr lo)"
| "executeWaves e ctx input groups ident waveIndex (wave # waves) lo =
     orReturn (waveIteration e ctx input groups ident waveIndex wave lo)
       (\<lambda>lo1. executeWaves e ctx input groups ident (Suc waveIndex) waves lo1)"

definition finishWaves :: "ctx \<Rightarrow> ExecInput \<Rightarrow> execIdentity \<Rightarrow> loopState \<Rightarrow> (ExecResult \<times> error) prog" where
  "finishWaves ctx input ident lo =
     andThen (waitForPending lo) (\<lambda>(pendingErr, failedGroup, pendingRecordErr, lo1).
       let recordErr = joinErrors (lo_RecordErr lo1) pendingRecordErr in
       if pendingErr \<noteq> None then recordAborted ctx input ident (lo_Result lo1) pendingErr failedGroup recordErr
       else finishExecution ctx input ident (lo_Result lo1) recordErr)"

definition executeBody :: "Executor \<Rightarrow> ctx \<Rightarrow> ExecInput \<Rightarrow> (string, ExecGroup) gmap \<Rightarrow> (ExecResult \<times> error) prog" where
  "executeBody e ctx input groups =
     andThen (executionDefaults input) (\<lambda>(executionID, observedAt, mode, reason).
     let dryRun = effectiveDryRun input;
         ident = \<lparr>id_ExecutionID = executionID, id_Mode = mode, id_Reason = reason, id_DryRun = dryRun, id_StartedAt = observedAt\<rparr>;
         result = zeroResult\<lparr>rs_ExecutionID := executionID, rs_Phase := PhaseCompleted, rs_DryRun := dryRun,
           rs_Rehearsal := xi_Rehearsal input, rs_Waves := int (length (xi_Waves input))\<rparr>;
         ds = executionDetails input (details [(''waveCount'', AInt (int (length (xi_Waves input))))]) in
     Write ctx (ExecutionRecord (executionRow input ident PhaseRunning reason observedAt None ds)) (\<lambda>err.
     andThen (executeWaves e ctx input groups ident 0 (xi_Waves input)
         \<lparr>lo_Result = result, lo_RecordErr = err, lo_Adaptive = xi_Adaptive input, lo_Window = emptyWindow, lo_Pending = [], lo_Revoked = False\<rparr>)
       (\<lambda>outcome. case outcome of Inl returned \<Rightarrow> Ret returned | Inr lo \<Rightarrow> finishWaves ctx input ident lo)))"

definition Execute :: "Executor \<Rightarrow> ExecInput \<Rightarrow> (ExecResult \<times> error) prog" where
  "Execute e input =
     MakeCancel CallerContext (\<lambda>ctx.
     andThen (case validateExecuteInput input of
         Inl err \<Rightarrow> Ret (zeroResult, Some err)
       | Inr groups \<Rightarrow> executeBody e ctx input groups)
       (\<lambda>returned. CancelCtx ctx (Ret returned)))"

text \<open>A whole execution: \<open>Execute\<close> as the main thread, goroutines running \<open>runWave\<close>, from an empty history.\<close>

definition execution :: "Executor \<Rightarrow> Runtime \<Rightarrow> ExecInput \<Rightarrow> (ExecResult \<times> error) \<times> sys" where
  "execution e rt input = runMain e rt (runWave e) (Execute e input) \<lparr>sy_Threads = [], sy_History = []\<rparr>"

text \<open>The fuel of \<open>descendSteps\<close> is enough: more of it changes nothing.\<close>

lemma descend_lowers: "int32 (Tier p) \<Longrightarrow> Descend p final = (next, step) \<Longrightarrow> Tier next \<noteq> Tier p \<Longrightarrow> int32 target \<Longrightarrow> target < Tier p \<Longrightarrow> Tier next = Tier p - 1"
  by (auto simp: Descend_def normalizePointer_def Let_def int32_def wrap32_id split: if_splits)

lemma descendSteps_fuel:
  assumes "int32 target"
  shows "int32 (Tier p) \<Longrightarrow> nat (Tier p - target) \<le> n \<Longrightarrow>
    descendSteps n final target first p m = descendSteps (nat (Tier p - target)) final target first p m"
proof (induction n arbitrary: p m)
  case 0
  then show ?case by simp
next
  case (Suc n)
  show ?case
  proof (cases "Tier p > target")
    case False
    then show ?thesis by (cases "nat (Tier p - target)") simp_all
  next
    case True
    then obtain k where k: "nat (Tier p - target) = Suc k" by (cases "nat (Tier p - target)") simp_all
    obtain nxt step where d: "Descend p final = (nxt, step)" by (cases "Descend p final")
    show ?thesis
    proof (cases "Tier nxt = Tier p")
      case same: True
      then show ?thesis by (simp add: k True d)
    next
      case False
      then have "Tier nxt = Tier p - 1" using descend_lowers [OF Suc.prems(1) d False assms True] by simp
      moreover from this have "int32 (Tier nxt)" using Suc.prems(1) assms True by (simp add: int32_def)
      moreover have "nat (Tier nxt - target) = k" using calculation(1) k True by linarith
      ultimately show ?thesis using Suc.IH [of nxt] Suc.prems(2) k True d False by (simp add: Let_def)
    qed
  qed
qed

end
