(* ===== verification/ExecutorSteps.thy ===== *)
theory ExecutorSteps
  imports Executor
begin

text \<open>
  What the group and wave programs of the executor may do, whatever the dependencies answer: which
  calls of the action runner they make and under which evidence, which release records they write,
  and how failed actions show in their results.
\<close>

section \<open>Plain calls\<close>

definition is_run :: "event \<Rightarrow> bool" where
  "is_run ev \<longleftrightarrow> (case ev of EvRun _ _ _ \<Rightarrow> True | _ \<Rightarrow> False)"

definition is_approval :: "event \<Rightarrow> bool" where
  "is_approval ev \<longleftrightarrow> (case ev of EvApproval _ _ \<Rightarrow> True | _ \<Rightarrow> False)"

definition is_release :: "event \<Rightarrow> bool" where
  "is_release ev \<longleftrightarrow> (case ev of EvRecord _ (ReleaseRecord r) _ \<Rightarrow> rr_Released r | _ \<Rightarrow> False)"

definition plain :: "event \<Rightarrow> bool" where
  "plain ev \<longleftrightarrow> \<not> is_run ev \<and> \<not> is_approval ev \<and> \<not> goroutine_call ev"

definition quiet :: "event \<Rightarrow> bool" where
  "quiet ev \<longleftrightarrow> plain ev \<and> \<not> is_release ev"

lemmas event_kinds = quiet_def plain_def is_run_def is_approval_def is_release_def goroutine_call_def

definition calm :: "event list \<Rightarrow> event list \<Rightarrow> bool" where
  "calm es es' \<longleftrightarrow> (\<exists>new. es' = new @ es \<and> list_all plain new)"

lemma calm_refl [simp, intro]: "calm es es" by (simp add: calm_def)

lemma calm_trans [trans]: "calm a b \<Longrightarrow> calm b c \<Longrightarrow> calm a c"
  by (fastforce simp: calm_def)

lemma calm_Cons: "plain ev \<Longrightarrow> calm es (ev # es)"
  by (auto simp: calm_def intro: exI [of _ "[ev]"])

definition runs :: "event list \<Rightarrow> event list" where
  "runs es = filter is_run es"

lemma runs_simps [simp]: "runs [] = []" "is_run ev \<Longrightarrow> runs (ev # es) = ev # runs es" "\<not> is_run ev \<Longrightarrow> runs (ev # es) = runs es"
  by (simp_all add: runs_def)

lemma calm_runs: "calm es es' \<Longrightarrow> runs es' = runs es"
  by (auto simp: calm_def runs_def plain_def list_all_iff filter_empty_conv)

lemma calm_subset: "calm es es' \<Longrightarrow> set es \<subseteq> set es'"
  by (auto simp: calm_def)

lemma calm_step: "calm es es' \<Longrightarrow> plain ev \<Longrightarrow> calm es (ev # es')"
  by (rule calm_trans [OF _ calm_Cons])

lemma wp_calm_from:
  assumes "\<And>es ev. H es ev \<Longrightarrow> plain ev" and "\<And>es ev. calm es0 es \<Longrightarrow> H es ev \<Longrightarrow> G es ev"
  shows "calm es0 es \<Longrightarrow> wp R H p es Q \<Longrightarrow> wp R G p es (\<lambda>a es'. Q a es' \<and> calm es0 es')"
proof -
  have step: "G es ev \<and> calm es0 (ev # es)" if "calm es0 es" "H es ev" for es ev using that assms calm_step by blast
  show "calm es0 es \<Longrightarrow> wp R H p es Q \<Longrightarrow> wp R G p es (\<lambda>a es'. Q a es' \<and> calm es0 es')"
    by (induction p arbitrary: es) (auto simp: Let_def step simp del: split_paired_All)
qed

lemma wp_seq: "wp R G p es P \<Longrightarrow> (\<And>a es'. P a es' \<Longrightarrow> wp R G (f a) es' Q) \<Longrightarrow> wp R G (andThen p f) es Q"
  by (simp add: wp_mono)

text \<open>A program whose calls are plain runs under any guard that admits them.\<close>

lemma wp_plain:
  assumes "wp R H p es P" and "\<And>es ev. H es ev \<Longrightarrow> plain ev" and "\<And>es' ev. calm es es' \<Longrightarrow> H es' ev \<Longrightarrow> G es' ev"
    and "\<And>a es'. P a es' \<Longrightarrow> calm es es' \<Longrightarrow> Q a es'"
  shows "wp R G p es Q"
  by (rule wp_mono [OF wp_calm_from [where G = G, OF assms(2) assms(3) calm_refl assms(1)]]) (use assms(4) in auto)

lemma quiet_plain: "quiet ev \<Longrightarrow> plain ev" by (simp add: quiet_def)

section \<open>One group\<close>

abbreviation quietly :: "guard" where
  "quietly \<equiv> (\<lambda>_. quiet)"

lemma quiet_events [simp]:
  "quiet (EvNow t)" "quiet (EvNewID ident)" "quiet (EvContext c)" "quiet (EvCancel n)" "quiet (EvCtxErr c cerr)"
  "quiet (EvObserve c ob)" "quiet (EvResolve c g ts)" "quiet (EvRefresh c rel fresh)" "quiet (EvSleep c d err)" "quiet (EvReport p)"
  "quiet (EvRecord c (ExecutionRecord row) err)" "quiet (EvRecord c (WaveRecord w) err)" "quiet (EvRecord c (GroupRecord gr) err)"
  "quiet (EvRecord c (AttemptRecord att) err)" "quiet (EvRecord c (HandoffRecord ho) err)"
  "quiet (EvRecord c (ReleaseRecord rec) err) \<longleftrightarrow> \<not> rr_Released rec"
  "\<not> quiet (EvRun c a r)" "\<not> quiet (EvApproval c b)" "\<not> quiet (EvSpawn n j)" "\<not> quiet (EvReceive n x)" "\<not> quiet (EvWaited c n d)"
  by (simp_all add: event_kinds)

definition refreshed_release :: "event list \<Rightarrow> NodeRelease \<Rightarrow> bool" where
  "refreshed_release es r \<longleftrightarrow>
     (\<exists>c selected answer. EvRefresh c selected (Inr answer) \<in> set es \<and> sameRelease r selected \<and>
        nr_TerminalHandoff r = nr_TerminalHandoff selected \<and> nr_AgentReady r = nr_AgentReady answer \<and>
        nr_TelemetryFresh r = nr_TelemetryFresh answer \<and> nr_Cleared r = nr_Cleared answer)"

definition fresh_for :: "NodeRelease list \<Rightarrow> event list \<Rightarrow> string + NodeRelease list \<Rightarrow> bool" where
  "fresh_for rs es answer \<longleftrightarrow> (case answer of Inl _ \<Rightarrow> True | Inr fresh \<Rightarrow>
     map nr_TerminalHandoff fresh = map nr_TerminalHandoff rs \<and> (\<forall>r \<in> set fresh. refreshed_release es r))"

lemma refreshed_cons:
  assumes "EvRefresh c r (Inr answer) \<in> set es" and "sameRelease (answer\<lparr>nr_TerminalHandoff := nr_TerminalHandoff r, nr_ControlPlaneNodes := cps, nr_QuorumMembers := qs\<rparr>) r"
    and "fresh_for rs es (Inr fresh)"
  shows "fresh_for (r # rs) es (Inr (answer\<lparr>nr_TerminalHandoff := nr_TerminalHandoff r, nr_ControlPlaneNodes := cps, nr_QuorumMembers := qs\<rparr> # fresh))"
proof -
  have "refreshed_release es (answer\<lparr>nr_TerminalHandoff := nr_TerminalHandoff r, nr_ControlPlaneNodes := cps, nr_QuorumMembers := qs\<rparr>)"
    unfolding refreshed_release_def using assms(1,2) by (intro exI [of _ c] exI [of _ r] exI [of _ answer]) simp
  then show ?thesis using assms(3) by (simp add: fresh_for_def)
qed

lemma refreshReleases_wp:
  "wp R quietly (refreshReleases c rs) es (\<lambda>answer es'. fresh_for rs es' answer)"
proof (induction rs arbitrary: es)
  case Nil
  then show ?case by (simp add: fresh_for_def)
next
  case (Cons r rs)
  have step: "wp R quietly (refreshReleases c rs) es1 (\<lambda>answer es'. calm es1 es' \<and> fresh_for rs es' answer)" for es1
    by (rule wp_plain [OF Cons.IH]) (auto simp: quiet_plain)
  have after: "wp R quietly (case tail of Inl msg \<Rightarrow> Ret (Inl msg) | Inr releases \<Rightarrow>
      Ret (Inr (answer\<lparr>nr_TerminalHandoff := nr_TerminalHandoff r, nr_ControlPlaneNodes := cps, nr_QuorumMembers := qs\<rparr> # releases)))
      es' (\<lambda>answer es'. fresh_for (r # rs) es' answer)"
    if "calm (EvRefresh c r (Inr answer) # es1) es' \<and> fresh_for rs es' tail"
      and "sameRelease (answer\<lparr>nr_TerminalHandoff := nr_TerminalHandoff r, nr_ControlPlaneNodes := cps, nr_QuorumMembers := qs\<rparr>) r"
    for tail es1 es' answer cps qs
  proof (cases tail)
    case (Inl msg)
    then show ?thesis by (simp add: fresh_for_def)
  next
    case (Inr releases)
    then show ?thesis using that refreshed_cons [of c r answer es'] calm_subset [of _ es'] by fastforce
  qed
  have refused: "fresh_for (r # rs) es' (Inl msg)" for es' msg by (simp add: fresh_for_def)
  show ?case
    by (auto simp: Let_def refused split: option.split sum.split simp del: sameRelease_def
        intro!: wp_seq [OF step after, unfolded wp_andThen])
qed

definition same_but_releases :: "ExecGroup \<Rightarrow> ExecGroup \<Rightarrow> bool" where
  "same_but_releases g g0 \<longleftrightarrow> g = g0\<lparr>xg_NodeReleases := xg_NodeReleases g\<rparr> \<and>
     map nr_TerminalHandoff (xg_NodeReleases g) = map nr_TerminalHandoff (xg_NodeReleases g0)"

lemma same_but_releases_refl [simp]: "same_but_releases g g"
  by (simp add: same_but_releases_def)

lemma same_but_releases_sel: "same_but_releases g g0 \<Longrightarrow> xg_Action g = xg_Action g0 \<and> xg_Name g = xg_Name g0"
  unfolding same_but_releases_def by (metis ExecGroup.ext_inject ExecGroup.surjective ExecGroup.update_convs(6))

definition gate_open :: "Executor \<Rightarrow> bool \<Rightarrow> ExecGroup \<Rightarrow> event list \<Rightarrow> bool" where
  "gate_open e dryRun g es \<longleftrightarrow> xg_Action g = ActionAgentShutdown \<longrightarrow>
     (\<not> dryRun \<longrightarrow> (\<forall>r \<in> set (xg_NodeReleases g). clearedForRelease r)) \<and>
     (ex_RefreshNodeRelease e \<noteq> None \<longrightarrow> (\<forall>r \<in> set (xg_NodeReleases g). refreshed_release es r))"

lemma gate_open_mono: "gate_open e dryRun g es \<Longrightarrow> set es \<subseteq> set es' \<Longrightarrow> gate_open e dryRun g es'"
  unfolding gate_open_def refreshed_release_def by blast

lemma joinErrors_None [simp]: "joinErrors a b = None \<longleftrightarrow> a = None \<and> b = None"
  by (simp add: joinErrors_def split: option.splits)

lemma readiness_fold: "fold (\<lambda>r out. joinErrors out (releaseReadinessError r)) rs out = None \<longleftrightarrow>
    out = None \<and> (\<forall>r \<in> set rs. clearedForRelease r)"
  by (induction rs arbitrary: out) (auto simp: releaseReadinessError_def clearedForRelease_def Let_def)

lemma readiness_iff: "agentShutdownReadinessError dryRun g = None \<longleftrightarrow> dryRun \<or> (\<forall>r \<in> set (xg_NodeReleases g). clearedForRelease r)"
  by (simp add: agentShutdownReadinessError_def readiness_fold)

lemma refreshReleaseEvidence_wp:
  "wp R quietly (refreshReleaseEvidence e c g0) es (\<lambda>(g, err) es'. same_but_releases g g0 \<and>
     (err = None \<longrightarrow> ex_RefreshNodeRelease e \<noteq> None \<longrightarrow> (\<forall>r \<in> set (xg_NodeReleases g). refreshed_release es' r)))"
  by (auto simp: refreshReleaseEvidence_def same_but_releases_def fresh_for_def intro!: wp_mono [OF refreshReleases_wp]
      split: sum.split)

definition no_signals :: "ActionOutcome \<Rightarrow> bool" where
  "no_signals out \<longleftrightarrow> ao_SignalResults out = []"

lemma no_signals_simple [simp]: "no_signals (simpleOutcome a b c)" by (simp add: no_signals_def simpleOutcome_def)

lemma releaseGate_wp:
  "wp R quietly (releaseGate e c dryRun g0) es (\<lambda>(g, out, err) es'. same_but_releases g g0 \<and> no_signals out \<and>
     (err = None \<longrightarrow> gate_open e dryRun g es'))"
proof -
  have "wp R quietly (case err of Some msg \<Rightarrow> Ret (g, simpleOutcome OutcomeBlocked msg [], Some msg)
      | None \<Rightarrow> (case agentShutdownReadinessError dryRun g of
          Some msg \<Rightarrow> Ret (g, simpleOutcome OutcomeBlocked msg ds, Some msg)
        | None \<Rightarrow> Ret (g, simpleOutcome OutcomeSimulated '''' ds', None))) es'
      (\<lambda>(g, out, err) es'. same_but_releases g g0 \<and> no_signals out \<and> (err = None \<longrightarrow> gate_open e dryRun g es'))"
    if "same_but_releases g g0 \<and> (err = None \<longrightarrow> ex_RefreshNodeRelease e \<noteq> None \<longrightarrow> (\<forall>r \<in> set (xg_NodeReleases g). refreshed_release es' r))"
    for g err es' ds ds'
    using that by (auto simp: gate_open_def readiness_iff split: option.split)
  note verdict = this
  show ?thesis
  proof (cases "xg_Action g0 = ActionAgentShutdown")
    case False
    then show ?thesis by (simp add: releaseGate_def Let_def gate_open_def)
  next
    case True
    have seq: "wp R quietly (andThen (refreshReleaseEvidence e c g0) f) es Q"
      if "\<And>g err es'. same_but_releases g g0 \<and> (err = None \<longrightarrow> ex_RefreshNodeRelease e \<noteq> None \<longrightarrow>
        (\<forall>r \<in> set (xg_NodeReleases g). refreshed_release es' r)) \<Longrightarrow> wp R quietly (f (g, err)) es' Q" for f Q
      by (rule wp_seq [OF refreshReleaseEvidence_wp]) (use that in auto)
    show ?thesis
      apply (simp only: releaseGate_def Let_def True not_True_eq_False if_False simp_thms)
      apply (rule seq)
      apply (simp only: case_prod_conv)
      apply (rule verdict)
      apply assumption
      done
  qed
qed

lemma waitGate_wp: "no_signals out \<Longrightarrow> wp R quietly (waitGate c dryRun g w out err) es (\<lambda>(out', err') es'. no_signals out' \<and> (err' = None \<longrightarrow> err = None))"
  by (auto simp: waitGate_def Let_def split: option.split)

lemma contextGate_wp: "no_signals out \<Longrightarrow> wp R quietly (contextGate c out err) es (\<lambda>(out', err') es'. no_signals out' \<and> (err' = None \<longrightarrow> err = None))"
  by (auto simp: contextGate_def split: option.split)

lemma timeoutGate_wp: "wp R quietly (timeoutGate gc ac name t out err) es
    (\<lambda>(out', err') es'. ao_SignalResults out' = ao_SignalResults out \<and> (err' = None \<longrightarrow> err = None))"
  by (auto simp: timeoutGate_def Let_def split: option.split)

definition release_backed_by :: "bool \<Rightarrow> ExecGroup \<Rightarrow> ActionOutcome \<Rightarrow> NodeReleaseRecord \<Rightarrow> bool" where
  "release_backed_by dryRun g out rec \<longleftrightarrow> \<not> dryRun \<and>
     (\<exists>r \<in> set (xg_NodeReleases g). nr_NodeName r = rr_NodeName rec \<and> clearedForRelease r \<and>
        (\<exists>s \<in> set (ao_SignalResults out). signalFor r s \<and> ns_Published s))"

definition reporting :: "bool \<Rightarrow> ExecGroup \<Rightarrow> ActionOutcome \<Rightarrow> guard" where
  "reporting dryRun g out = (\<lambda>_ ev. quiet ev \<or>
     (\<exists>c rec err. ev = EvRecord c (ReleaseRecord rec) err \<and> release_backed_by dryRun g out rec))"

lemma reporting_quiet [simp]: "quiet ev \<Longrightarrow> reporting dryRun g out es ev"
  by (simp add: reporting_def)

lemma reporting_plain: "reporting dryRun g out es ev \<Longrightarrow> plain ev"
  by (auto simp: reporting_def event_kinds)

lemma signalResult_published:
  "ns_Published (fst (signalResultForRelease results r)) \<Longrightarrow> \<exists>s \<in> set results. signalFor r s \<and> ns_Published s"
  by (auto simp: signalResultForRelease_def zeroSignalResult_def find_Some_iff split: option.splits)

lemma releaseRecord_released:
  "r \<in> set (xg_NodeReleases g) \<Longrightarrow> rr_Released (releaseRecord input ex dryRun g out t r ident) \<Longrightarrow>
     release_backed_by dryRun g out (releaseRecord input ex dryRun g out t r ident)"
  using signalResult_published [of "ao_SignalResults out" r]
  by (auto simp: releaseRecord_def release_backed_by_def split: prod.splits)

lemma recordReleases_wp:
  "set rs \<subseteq> set (xg_NodeReleases g) \<Longrightarrow>
     wp R (reporting dryRun g out) (recordReleases_loop c input ex dryRun g out t rs err) es (\<lambda>_ _. True)"
proof (induction rs arbitrary: err es)
  case Nil
  then show ?case by simp
next
  case (Cons r rs)
  have "reporting dryRun g out es' (EvRecord c (ReleaseRecord (releaseRecord input ex dryRun g out t r ident)) werr)" for es' ident werr
  proof (cases "rr_Released (releaseRecord input ex dryRun g out t r ident)")
    case True
    then show ?thesis using releaseRecord_released [OF _ True] Cons.prems by (auto simp: reporting_def)
  qed simp
  then show ?case using Cons by simp
qed

lemma groupVerdict_err: "snd (groupVerdict action n rerr aerr) = (if action = ActionRunHook then None else aerr)"
  by (simp add: groupVerdict_def Let_def)

lemma recordGroup_wp:
  "wp R (reporting dryRun g out) (recordGroup c input ex dryRun w g st out aerr t) es
     (\<lambda>(res, err) es'. err = (if xg_Action g = ActionRunHook then None else aerr))"
proof -
  have "wp R (reporting dryRun g out) (recordReleases_loop c input ex dryRun g out t' (xg_NodeReleases g) None) es'
      (\<lambda>_ _. snd (groupVerdict a n rerr aerr) = (if a = ActionRunHook then None else aerr))" for t' es' a n rerr
    by (rule wp_mono [OF recordReleases_wp]) (simp_all add: groupVerdict_err)
  then show ?thesis
    by (simp add: recordGroup_def recordNodeReleases_def case_prod_beta groupVerdict_err)
qed

definition action_ok :: "Executor \<Rightarrow> bool \<Rightarrow> int \<Rightarrow> ExecGroup \<Rightarrow> event list \<Rightarrow> Action \<Rightarrow> bool" where
  "action_ok e dryRun waveIndex g0 es a \<longleftrightarrow>
     ac_WaveIndex a = waveIndex \<and> ac_DryRun a = dryRun \<and> same_but_releases (ac_Group a) g0 \<and>
     (dryRun \<longrightarrow> xg_Action g0 = ActionRunHook) \<and> gate_open e dryRun (ac_Group a) es"

definition release_ok :: "event list \<Rightarrow> NodeReleaseRecord \<Rightarrow> bool" where
  "release_ok es rec \<longleftrightarrow>
     (\<exists>c a out err. EvRun c a (out, err) \<in> set es \<and> release_backed_by (ac_DryRun a) (ac_Group a) out rec)"

definition worked :: "event list \<Rightarrow> event list \<Rightarrow> bool" where
  "worked es es' \<longleftrightarrow> (\<exists>new. es' = new @ es \<and> list_all (\<lambda>ev. \<not> is_approval ev \<and> \<not> goroutine_call ev) new)"

text \<open>What a group leaves behind: at most one call of the runner, for its own action, whose error it returns
  unless the action is a hook; no call at all only in a dry run, for a hook, or with an error.\<close>

definition run_of :: "bool \<Rightarrow> int \<Rightarrow> ExecGroup \<Rightarrow> Action \<Rightarrow> bool" where
  "run_of dryRun waveIndex g0 a \<longleftrightarrow> ac_WaveIndex a = waveIndex \<and> ac_DryRun a = dryRun \<and>
     xg_Name (ac_Group a) = xg_Name g0 \<and> xg_Action (ac_Group a) = xg_Action g0"

definition group_ran :: "bool \<Rightarrow> int \<Rightarrow> ExecGroup \<Rightarrow> event list \<Rightarrow> error \<Rightarrow> event list \<Rightarrow> bool" where
  "group_ran dryRun waveIndex g0 es err es' \<longleftrightarrow> worked es es' \<and>
     (runs es' = runs es \<and> (dryRun \<or> xg_Action g0 = ActionRunHook \<or> err \<noteq> None) \<or>
      (\<exists>c a out rerr. runs es' = EvRun c a (out, rerr) # runs es \<and> run_of dryRun waveIndex g0 a \<and>
         (rerr \<noteq> None \<and> xg_Action g0 \<noteq> ActionRunHook \<longrightarrow> err \<noteq> None)))"

lemma calm_worked: "calm es es' \<Longrightarrow> worked es es'"
  unfolding calm_def worked_def plain_def by (metis (mono_tags, lifting) list.pred_mono_strong)

lemma worked_trans [trans]: "worked a b \<Longrightarrow> worked b c \<Longrightarrow> worked a c"
  by (fastforce simp: worked_def)

lemma worked_refl [simp]: "worked es es" by (simp add: worked_def)

lemma worked_run: "worked es es' \<Longrightarrow> worked es (EvRun c a r # es')"
  by (auto simp: worked_def event_kinds intro: exI [of _ "EvRun c a r # new" for new])

lemma worked_subset: "worked es es' \<Longrightarrow> set es \<subseteq> set es'"
  by (auto simp: worked_def)

text \<open>Guards that admit every quiet call and every justified release record, and, started after the events
  \<open>es0\<close>, the action of one group.\<close>

definition admits_basic :: "guard \<Rightarrow> bool" where
  "admits_basic G \<longleftrightarrow> (\<forall>es ev. quiet ev \<longrightarrow> G es ev) \<and> (\<forall>es rec c err. release_ok es rec \<longrightarrow> G es (EvRecord c (ReleaseRecord rec) err))"

lemma admits_basicD:
  assumes "admits_basic G"
  shows "quiet ev \<Longrightarrow> G es ev" and "release_ok es rec \<Longrightarrow> G es (EvRecord c (ReleaseRecord rec) err)"
  using assms unfolding admits_basic_def by blast+

definition admits_group :: "guard \<Rightarrow> Executor \<Rightarrow> bool \<Rightarrow> int \<Rightarrow> ExecGroup \<Rightarrow> event list \<Rightarrow> bool" where
  "admits_group G e dryRun waveIndex g0 es0 \<longleftrightarrow> admits_basic G \<and>
     (\<forall>es c a r. worked es0 es \<longrightarrow> runs es = runs es0 \<longrightarrow> action_ok e dryRun waveIndex g0 es a \<longrightarrow> G es (EvRun c a r))"

lemma admits_groupD:
  assumes "admits_group G e dryRun waveIndex g0 es0"
  shows "admits_basic G"
    and "worked es0 es \<Longrightarrow> runs es = runs es0 \<Longrightarrow> action_ok e dryRun waveIndex g0 es a \<Longrightarrow> G es (EvRun c a r)"
  using assms unfolding admits_group_def by blast+

lemma calm_seq:
  assumes "calm es0 es" and basic: "admits_basic G" and "wp R quietly p es P" and "\<And>a es'. P a es' \<Longrightarrow> calm es0 es' \<Longrightarrow> calm es es' \<Longrightarrow> wp R G (f a) es' Q"
  shows "wp R G (andThen p f) es Q"
proof (rule wp_seq)
  show "wp R G p es (\<lambda>a es'. P a es' \<and> calm es es')"
    by (rule wp_plain [OF assms(3)]) (auto simp: admits_basicD(1) [OF basic] quiet_plain)
  show "wp R G (f a) es' Q" if "P a es' \<and> calm es es'" for a es'
    using that assms(1,4) calm_trans by blast
qed

text \<open>What follows the action: the timeout verdict, the records and the release of the context.\<close>

lemma settle_wp:
  assumes basic: "admits_basic G" and ran: "worked es0 es" and signals: "\<And>s. s \<in> set (ao_SignalResults out) \<Longrightarrow> ns_Published s \<Longrightarrow>
      \<exists>c a out' rerr. EvRun c a (out', rerr) \<in> set es \<and> ac_DryRun a = dryRun \<and> ac_Group a = g \<and> ao_SignalResults out' = ao_SignalResults out"
    and post: "\<And>err' es'. worked es0 es' \<Longrightarrow> runs es' = runs es \<Longrightarrow>
      (aerr \<noteq> None \<and> xg_Action g \<noteq> ActionRunHook \<longrightarrow> err' \<noteq> None) \<Longrightarrow> Q err' es'"
  shows "wp R G (andThen (timeoutGate gc ac name t out aerr) (\<lambda>(out', aerr').
      andThen (recordGroup c input ex dryRun w g st out' aerr' startedAt) (\<lambda>result.
      if t > 0 then CancelCtx gc (Ret result) else Ret result))) es (\<lambda>(res, err) es'. Q err es')"
proof (rule wp_seq)
  show "wp R G (timeoutGate gc ac name t out aerr) es (\<lambda>x es'.
      ao_SignalResults (fst x) = ao_SignalResults out \<and> (snd x = None \<longrightarrow> aerr = None) \<and> calm es es')"
    by (rule wp_plain [OF timeoutGate_wp]) (auto simp: admits_basicD(1) [OF basic] quiet_plain)
next
  fix x :: "ActionOutcome \<times> error" and es1
  assume x: "ao_SignalResults (fst x) = ao_SignalResults out \<and> (snd x = None \<longrightarrow> aerr = None) \<and> calm es es1"
  obtain out' aerr' where eq: "x = (out', aerr')" by (cases x)
  have admitted: "G es' ev" if "calm es1 es'" and "reporting dryRun g out' es' ev" for es' ev
    using that(2) unfolding reporting_def
  proof (elim disjE exE conjE)
    fix c rec err
    assume ev: "ev = EvRecord c (ReleaseRecord rec) err" and rel: "release_backed_by dryRun g out' rec"
    then obtain s where "s \<in> set (ao_SignalResults out)" "ns_Published s" using x eq by (auto simp: release_backed_by_def)
    then obtain c' a out'' rerr where run: "EvRun c' a (out'', rerr) \<in> set es" "ac_DryRun a = dryRun" "ac_Group a = g"
      "ao_SignalResults out'' = ao_SignalResults out" using signals by blast
    have "set es \<subseteq> set es'" using x that(1) calm_trans calm_subset by blast
    then have "release_ok es' rec" unfolding release_ok_def using run rel x eq
      by (intro exI [of _ c'] exI [of _ a] exI [of _ out''] exI [of _ rerr]) (auto simp: release_backed_by_def)
    then show ?thesis unfolding ev by (rule admits_basicD(2) [OF basic])
  qed (rule admits_basicD(1) [OF basic])
  have "wp R G (recordGroup c input ex dryRun w g st out' aerr' startedAt) es1
      (\<lambda>y es'. snd y = (if xg_Action g = ActionRunHook then None else aerr') \<and> calm es1 es')"
    by (rule wp_plain [OF recordGroup_wp]) (use admitted reporting_plain in auto)
  then show "wp R G (case x of (out', aerr') \<Rightarrow> andThen (recordGroup c input ex dryRun w g st out' aerr' startedAt) (\<lambda>result.
      if t > 0 then CancelCtx gc (Ret result) else Ret result)) es1 (\<lambda>(res, err) es'. Q err es')"
    unfolding eq case_prod_conv
  proof (rule wp_seq)
    fix y :: "groupExecutionResult \<times> error" and es2
    assume y: "snd y = (if xg_Action g = ActionRunHook then None else aerr') \<and> calm es1 es2"
    have calm: "calm es es2" using x y calm_trans by blast
    let ?ev = "case contextID gc of Some n \<Rightarrow> EvCancel n | None \<Rightarrow> EvContext gc"
    have q: "quiet ?ev" by (simp split: option.split)
    have "Q (snd y) es3" if "calm es es3" for es3
      by (rule post) (use worked_trans [OF ran calm_worked [OF that]] calm_runs [OF that] x y eq in auto)
    then have "Q (snd y) es2" "Q (snd y) (?ev # es2)" using calm calm_step [OF calm quiet_plain [OF q]] by blast+
    then show "wp R G (if t > 0 then CancelCtx gc (Ret y) else Ret y) es2 (\<lambda>(res, err) es'. Q err es')"
      using admits_basicD(1) [OF basic q] by (cases y) (simp add: Let_def)
  qed
qed

lemma executeGroup_wp:
  assumes adm: "admits_group G e dryRun waveIndex g0 es0"
  shows "wp R G (executeGroup e rc ac input ex dryRun waveIndex g0 st late) es0 (\<lambda>(res, err) es'. group_ran dryRun waveIndex g0 es0 err es')"
proof -
  note basic = admits_groupD(1) [OF adm] and run_ok = admits_groupD(2) [OF adm]
  let ?t = "ScaleDuration (xg_Timeout g0) (was_Budget st)" and ?w = "ScaleDuration (xg_WaitDuration g0) (was_Budget st)"
  let ?finish = "\<lambda>gc g startedAt (out3, err3). andThen (timeoutGate gc ac (xg_Name g) ?t out3 err3) (\<lambda>(out', aerr').
      andThen (recordGroup rc input ex dryRun waveIndex g st out' aerr' startedAt) (\<lambda>result.
      if ?t > 0 then CancelCtx gc (Ret result) else Ret result))"
  have act: "wp R G (andThen (runGate e gc (groupAction input ex dryRun waveIndex g st late) out2 err2) (?finish gc g startedAt)) es
      (\<lambda>(res, err) es'. group_ran dryRun waveIndex g0 es0 err es')"
    if calm: "calm es0 es" and g: "same_but_releases g g0" and quiet_out: "no_signals out2" and gate: "err2 = None \<longrightarrow> gate_open e dryRun g es"
    for gc g startedAt out2 err2 es
  proof -
    let ?a = "groupAction input ex dryRun waveIndex g st late"
    have sel: "xg_Action g = xg_Action g0" "xg_Name g = xg_Name g0" using same_but_releases_sel [OF g] by simp_all
    have idle: "wp R G (?finish gc g startedAt (out3, err3)) es (\<lambda>(res, err) es'. group_ran dryRun waveIndex g0 es0 err es')"
      if "no_signals out3" and "dryRun \<or> err3 \<noteq> None" for out3 err3
      unfolding case_prod_conv
      by (rule settle_wp [OF basic]) (use that sel calm_worked [OF calm] calm_runs [OF calm] in \<open>auto simp: no_signals_def group_ran_def\<close>)
    have busy: "wp R G (?finish gc g startedAt (actionResult out err, err)) (EvRun gc ?a (out, err) # es)
        (\<lambda>(res, err) es'. group_ran dryRun waveIndex g0 es0 err es')" for out err
      unfolding case_prod_conv
    proof (rule settle_wp [OF basic])
      show "worked es0 (EvRun gc ?a (out, err) # es)" using worked_run [OF calm_worked [OF calm]] .
      show "\<exists>c a out' rerr. EvRun c a (out', rerr) \<in> set (EvRun gc ?a (out, err) # es) \<and> ac_DryRun a = dryRun \<and> ac_Group a = g \<and>
          ao_SignalResults out' = ao_SignalResults (actionResult out err)" for s
        by (intro exI [of _ gc] exI [of _ ?a] exI [of _ out] exI [of _ err]) (simp add: groupAction_def actionResult_def Let_def)
      show "group_ran dryRun waveIndex g0 es0 err' es'" if "worked es0 es'" "runs es' = runs (EvRun gc ?a (out, err) # es)"
        "err \<noteq> None \<and> xg_Action g \<noteq> ActionRunHook \<longrightarrow> err' \<noteq> None" for err' es'
        unfolding group_ran_def using that sel
        by (intro conjI disjI2 exI [of _ gc] exI [of _ ?a] exI [of _ out] exI [of _ err])
          (auto simp: calm_runs [OF calm] groupAction_def is_run_def run_of_def)
    qed
    have admitted: "G es (EvRun gc ?a r)" if "err2 = None" and "dryRun \<longrightarrow> xg_Action g = ActionRunHook" for r
      by (rule run_ok) (use that calm_worked [OF calm] calm_runs [OF calm] g gate sel in \<open>auto simp: action_ok_def groupAction_def\<close>)
    have sels: "ac_DryRun ?a = dryRun" "ac_Group ?a = g" by (simp_all add: groupAction_def)
    show ?thesis
    proof (cases "(dryRun \<and> xg_Action g \<noteq> ActionRunHook) \<or> err2 \<noteq> None")
      case True
      then have "runGate e gc ?a out2 err2 = Ret (out2, err2)" by (auto simp: runGate_def Let_def sels)
      then show ?thesis using idle [OF quiet_out] True by auto
    next
      case False
      show ?thesis
      proof (cases "ex_Runner e")
        case None
        then have "runGate e gc ?a out2 err2 = (let msg = ''enforce execution requires an action runner'' in Ret (simpleOutcome OutcomeBlocked msg [], Some msg))"
          using False by (simp add: runGate_def Let_def sels)
        then show ?thesis using idle by (simp add: Let_def)
      next
        case (Some runner)
        then have "runGate e gc ?a out2 err2 = RunAction gc ?a (\<lambda>(result, err). Ret (actionResult result err, err))"
          using False by (auto simp: runGate_def Let_def sels)
        then show ?thesis using busy admitted False by (auto simp del: wp_andThen simp: andThen.simps)
      qed
    qed
  qed
  have ctx: "wp R quietly (if ?t > 0 then MakeTimeout ac ?t Ret else Ret ac) es0 (\<lambda>_ _. True)" by simp
  show ?thesis
    unfolding executeGroup_def Let_def
    apply (rule calm_seq [OF calm_refl basic ctx])
    apply (simp only: wp.simps)
    apply (intro allI conjI admits_basicD(1) [OF basic] quiet_events)
    apply (rule calm_seq [OF _ basic releaseGate_wp])
     apply (erule calm_step, simp add: quiet_plain)
    apply (simp only: case_prod_beta)
    apply (rule calm_seq [OF _ basic waitGate_wp])
      apply assumption
     apply (simp add: case_prod_beta)
    apply (simp only: case_prod_beta)
    apply (rule calm_seq [OF _ basic contextGate_wp])
      apply assumption
     apply (simp add: case_prod_beta)
    apply (simp only: case_prod_beta)
    apply (rule act)
       apply assumption
      apply blast
     apply blast
    apply (meson calm_trans calm_subset gate_open_mono)
    done
qed
section \<open>One wave\<close>

definition failure :: "event \<Rightarrow> bool" where
  "failure ev \<longleftrightarrow> (case ev of EvRun _ a (_, err) \<Rightarrow> err \<noteq> None \<and> xg_Action (ac_Group a) \<noteq> ActionRunHook | _ \<Rightarrow> False)"

abbreviation preemptible :: "waveJob \<Rightarrow> bool" where
  "preemptible job \<equiv> wc_TierPolicy (wj_Config job) = TierOverrunPolicyPreempt \<and> wc_LowerTierDue (wj_Config job)"

text \<open>The action is one of the wave's groups, as the input declares it; a shutdown that hands off to the
  terminal node runs alone in the last wave.\<close>

definition wave_action_ok :: "Executor \<Rightarrow> waveJob \<Rightarrow> event list \<Rightarrow> Action \<Rightarrow> bool" where
  "wave_action_ok e job es a \<longleftrightarrow>
     (\<exists>name \<in> set (xw_Groups (wj_Wave job)).
        run_of (wc_DryRun (wj_Config job)) (xw_Index (wj_Wave job)) (lookupGroup (wc_Groups (wj_Config job)) name) a) \<and>
     (ac_DryRun a \<longrightarrow> xg_Action (ac_Group a) = ActionRunHook) \<and> gate_open e (ac_DryRun a) (ac_Group a) es \<and>
     (xg_Action (ac_Group a) = ActionAgentShutdown \<longrightarrow> (\<forall>r \<in> set (xg_NodeReleases (ac_Group a)). nr_TerminalHandoff r \<longrightarrow>
        wc_TerminalWave (wj_Config job) \<and> length (xw_Groups (wj_Wave job)) = 1))"

definition run_done :: "waveJob \<Rightarrow> event list \<Rightarrow> string \<Rightarrow> bool" where
  "run_done job es name \<longleftrightarrow> (let g0 = lookupGroup (wc_Groups (wj_Config job)) name in
     wc_DryRun (wj_Config job) \<or> xg_Action g0 = ActionRunHook \<or>
     (\<exists>c a out. EvRun c a (out, None) \<in> set es \<and> run_of False (xw_Index (wj_Wave job)) g0 a))"

text \<open>What a wave leaves behind: its failed actions show in its error unless the wave may be preempted, and
  without an error every group was carried out.\<close>

definition runs_of :: "waveJob \<Rightarrow> event list \<Rightarrow> bool" where
  "runs_of job new \<longleftrightarrow> (\<forall>c a r. EvRun c a r \<in> set new \<longrightarrow> ac_WaveIndex a = xw_Index (wj_Wave job))"

definition wave_ran :: "waveJob \<Rightarrow> event list \<Rightarrow> error \<Rightarrow> event list \<Rightarrow> bool" where
  "wave_ran job es err es' \<longleftrightarrow> worked es es' \<and>
     (\<exists>new. runs es' = new @ runs es \<and> runs_of job new \<and> (list_ex failure new \<longrightarrow> err \<noteq> None \<or> preemptible job)) \<and>
     (err = None \<and> \<not> preemptible job \<longrightarrow> (\<forall>name \<in> set (xw_Groups (wj_Wave job)). run_done job es' name))"

definition admits_wave :: "guard \<Rightarrow> Executor \<Rightarrow> waveJob \<Rightarrow> event list \<Rightarrow> bool" where
  "admits_wave G e job es0 \<longleftrightarrow> admits_basic G \<and>
     (\<forall>es c a r new. worked es0 es \<longrightarrow> runs es = new @ runs es0 \<longrightarrow> runs_of job new \<longrightarrow> \<not> list_ex failure new \<longrightarrow> wave_action_ok e job es a \<longrightarrow>
        G es (EvRun c a r))"

lemma admits_waveD:
  assumes "admits_wave G e job es0"
  shows "admits_basic G"
    and "worked es0 es \<Longrightarrow> runs es = new @ runs es0 \<Longrightarrow> runs_of job new \<Longrightarrow> \<not> list_ex failure new \<Longrightarrow> wave_action_ok e job es a \<Longrightarrow> G es (EvRun c a r)"
  using assms unfolding admits_wave_def by blast+

definition resolves :: "(string, ExecGroup) gmap \<Rightarrow> (string, ExecGroup) gmap \<Rightarrow> string \<Rightarrow> bool" where
  "resolves groups resolved name \<longleftrightarrow> (\<exists>ts. lookupGroup resolved name = (lookupGroup groups name)\<lparr>xg_SelectedTargets := ts\<rparr>)"

lemma lookup_put: "lookupGroup (gm_put k g m) name = (if name = k then g else lookupGroup m name)"
  by (simp add: lookupGroup_def)

lemma resolves_put: "resolves groups (gm_put k ((lookupGroup groups k)\<lparr>xg_SelectedTargets := ts\<rparr>) m) name \<longleftrightarrow> name = k \<or> resolves groups m name"
  by (auto simp: resolves_def lookup_put)

lemma resolves_put_same: "resolves groups (gm_put k (lookupGroup groups k) m) name \<longleftrightarrow> name = k \<or> resolves groups m name"
  using resolves_put [of groups k "xg_SelectedTargets (lookupGroup groups k)" m name] by simp
definition all_resolved :: "(string, ExecGroup) gmap \<Rightarrow> string list \<Rightarrow> (string, ExecGroup) gmap \<Rightarrow> (string, ExecGroup) gmap \<times> string \<times> error \<Rightarrow> bool" where
  "all_resolved groups names resolved answer \<longleftrightarrow>
     (snd (snd answer) = None \<longrightarrow> (\<forall>name. name \<in> set names \<or> resolves groups resolved name \<longrightarrow> resolves groups (fst answer) name))"

lemma resolveGroups_wp:
  "wp R quietly (resolveGroups e c groups wave st names resolved) es (\<lambda>answer es'. all_resolved groups names resolved answer)"
proof (induction names arbitrary: resolved es)
  case Nil
  then show ?case by (simp add: all_resolved_def)
next
  case (Cons name names)
  have step: "wp R quietly (resolveGroups e c groups wave st names (gm_put name ((lookupGroup groups name)\<lparr>xg_SelectedTargets := ts\<rparr>) resolved)) es
      (\<lambda>answer es'. all_resolved groups (name # names) resolved answer)" for ts es
    by (rule wp_mono [OF Cons.IH]) (auto simp: resolves_put all_resolved_def)
  have same: "wp R quietly (resolveGroups e c groups wave st names (gm_put name (lookupGroup groups name) resolved)) es
      (\<lambda>answer es'. all_resolved groups (name # names) resolved answer)" for es
    using step [of "xg_SelectedTargets (lookupGroup groups name)"] by simp
  have cancel: "quiet (case contextID x of Some n \<Rightarrow> EvCancel n | None \<Rightarrow> EvContext x)" for x
    by (simp split: option.split)
  have refused: "all_resolved groups (name # names) resolved (m, k, Some err)" for m k err
    by (simp add: all_resolved_def)
  show ?case
    by (simp add: Let_def step same cancel refused split: option.split sum.split if_split)
qed

lemma tierPreempted_wp: "wp R quietly (tierPreempted c ac policy due) es (\<lambda>preempted es'. preempted \<longrightarrow> policy = TierOverrunPolicyPreempt \<and> due)"
  by (simp add: tierPreempted_def)

lemma failure_run: "failure (EvRun c a (out, err)) \<longleftrightarrow> err \<noteq> None \<and> xg_Action (ac_Group a) \<noteq> ActionRunHook"
  by (simp add: failure_def)

lemma markHandoff_sel [simp]: "xg_Name (markHandoff t w g) = xg_Name g" "xg_Action (markHandoff t w g) = xg_Action g"
  by (simp_all add: markHandoff_def)

lemma absorbGroup_err [simp]: "wr_Err (absorbGroup g r) = wr_Err r"
  by (simp add: absorbGroup_def Let_def)

lemma handoff_releases:
  assumes "same_but_releases g (markHandoff t w g0)" and "xg_Action g = ActionAgentShutdown" and "r \<in> set (xg_NodeReleases g)"
    and "nr_TerminalHandoff r"
  shows "t \<and> length (xw_Groups w) = 1"
proof -
  have "xg_Action g0 = ActionAgentShutdown" using same_but_releases_sel [OF assms(1)] assms(2) by simp
  then have "map nr_TerminalHandoff (xg_NodeReleases g) = map (\<lambda>_. length (xw_Groups w) = 1 \<and> t) (xg_NodeReleases g0)"
    using assms(1) by (simp add: same_but_releases_def markHandoff_def comp_def)
  then have "set (map nr_TerminalHandoff (xg_NodeReleases g)) \<subseteq> {length (xw_Groups w) = 1 \<and> t}" by auto
  then show ?thesis using assms(3,4) by auto
qed

text \<open>What a group's guard admits, a wave's guard admits.\<close>

lemma admits_wave_group:
  assumes adm: "admits_wave G e job es0" and ran: "worked es0 es" "runs es = new @ runs es0" "runs_of job new" "\<not> list_ex failure new"
    and name: "name \<in> set (xw_Groups (wj_Wave job))" "resolves (wc_Groups (wj_Config job)) resolved name"
  shows "admits_group G e (wc_DryRun (wj_Config job)) (xw_Index (wj_Wave job))
    (markHandoff (wc_TerminalWave (wj_Config job)) (wj_Wave job) (lookupGroup resolved name)) es"
  unfolding admits_group_def
proof (intro conjI allI impI)
  show "admits_basic G" by (rule admits_waveD(1) [OF adm])
next
  fix es' c a r
  let ?g0 = "markHandoff (wc_TerminalWave (wj_Config job)) (wj_Wave job) (lookupGroup resolved name)"
  assume w: "worked es es'" and same: "runs es' = runs es"
    and ok: "action_ok e (wc_DryRun (wj_Config job)) (xw_Index (wj_Wave job)) ?g0 es' a"
  have g: "same_but_releases (ac_Group a) ?g0" using ok by (simp add: action_ok_def)
  have sel: "xg_Action (ac_Group a) = xg_Action (lookupGroup (wc_Groups (wj_Config job)) name)"
    "xg_Name (ac_Group a) = xg_Name (lookupGroup (wc_Groups (wj_Config job)) name)"
    "xg_Action (lookupGroup resolved name) = xg_Action (lookupGroup (wc_Groups (wj_Config job)) name)"
    using same_but_releases_sel [OF g] name(2) by (auto simp: resolves_def)
  have "wave_action_ok e job es' a"
    unfolding wave_action_ok_def run_of_def
    using ok name(1) sel handoff_releases [OF g] by (auto simp: action_ok_def)
  then show "G es' (EvRun c a r)"
    using admits_waveD(2) [OF adm] worked_trans [OF ran(1) w] ran(2,3,4) same by metis
qed
definition wave_going :: "waveJob \<Rightarrow> event list \<Rightarrow> string list \<Rightarrow> event list \<Rightarrow> bool" where
  "wave_going job es0 finished es \<longleftrightarrow> worked es0 es \<and> (\<exists>new. runs es = new @ runs es0 \<and> runs_of job new \<and> \<not> list_ex failure new) \<and>
     (\<forall>name \<in> set finished. run_done job es name)"

lemma run_done_mono: "run_done job es name \<Longrightarrow> set es \<subseteq> set es' \<Longrightarrow> run_done job es' name"
  unfolding run_done_def Let_def by blast

lemma wave_going_calm: "wave_going job es0 finished es \<Longrightarrow> calm es es' \<Longrightarrow> wave_going job es0 finished es'"
  unfolding wave_going_def
  using worked_trans calm_worked calm_runs run_done_mono calm_subset by metis

lemma wave_going_ran: "wave_going job es0 finished es \<Longrightarrow> set (xw_Groups (wj_Wave job)) \<subseteq> set finished \<or> err \<noteq> None \<or> preemptible job \<Longrightarrow> wave_ran job es0 err es"
  unfolding wave_going_def wave_ran_def by blast

lemma wave_ran_calm: "wave_ran job es0 err es \<Longrightarrow> calm es es' \<Longrightarrow> wave_ran job es0 err es'"
  unfolding wave_ran_def
  using worked_trans [OF _ calm_worked, of es0 es es'] calm_runs [of es es'] run_done_mono [OF _ calm_subset, of job es _ es'] by auto

lemma runs_member: "EvRun c a r \<in> set es \<longleftrightarrow> EvRun c a r \<in> set (runs es)"
  by (auto simp: runs_def is_run_def)

text \<open>One group of a wave: either it returns no error and the wave goes on, or the wave ends with its error.\<close>

lemma group_in_wave:
  assumes going: "wave_going job es0 finished es" and ran: "group_ran (wc_DryRun (wj_Config job)) (xw_Index (wj_Wave job)) g0 es err es'"
    and g0: "xg_Name g0 = xg_Name (lookupGroup (wc_Groups (wj_Config job)) name)" "xg_Action g0 = xg_Action (lookupGroup (wc_Groups (wj_Config job)) name)"
  shows "err = None \<Longrightarrow> wave_going job es0 (finished @ [name]) es'" and "err' = err \<and> err \<noteq> None \<or> preemptible job \<Longrightarrow> wave_ran job es0 err' es'"
proof -
  obtain new where old: "worked es0 es" "runs es = new @ runs es0" "runs_of job new" "\<not> list_ex failure new" "\<forall>k \<in> set finished. run_done job es k"
    using going by (auto simp: wave_going_def)
  have w: "worked es es'" using ran by (simp add: group_ran_def)
  have kept: "\<forall>k \<in> set finished. run_done job es' k" using old(5) run_done_mono worked_subset [OF w] by blast
  consider "runs es' = runs es" "wc_DryRun (wj_Config job) \<or> xg_Action g0 = ActionRunHook \<or> err \<noteq> None"
    | c a out rerr where "runs es' = EvRun c a (out, rerr) # runs es" "run_of (wc_DryRun (wj_Config job)) (xw_Index (wj_Wave job)) g0 a"
      "rerr \<noteq> None \<and> xg_Action g0 \<noteq> ActionRunHook \<longrightarrow> err \<noteq> None"
    using ran unfolding group_ran_def by blast
  then obtain new' where new': "runs es' = new' @ runs es0" "runs_of job new'" "list_ex failure new' \<longrightarrow> err \<noteq> None" "err = None \<longrightarrow> run_done job es' name"
  proof cases
    case 1
    then show ?thesis using that [of new] old g0 by (auto simp: run_done_def Let_def)
  next
    case 2
    have "run_done job es' name" if "err = None"
      using 2 that g0 runs_member [of c a "(out, rerr)" es']
      by (cases "wc_DryRun (wj_Config job)") (auto simp: run_done_def Let_def run_of_def)
    moreover have "failure (EvRun c a (out, rerr)) \<longrightarrow> err \<noteq> None" using 2 by (auto simp: failure_run run_of_def)
    moreover have "runs_of job (EvRun c a (out, rerr) # new)" using 2(2) old(3) by (auto simp: runs_of_def run_of_def)
    ultimately show ?thesis using that [of "EvRun c a (out, rerr) # new"] 2(1) old by auto
  qed
  show "wave_going job es0 (finished @ [name]) es'" if "err = None"
    using that new' kept worked_trans [OF old(1) w] by (auto simp: wave_going_def)
  show "wave_ran job es0 err' es'" if "err' = err \<and> err \<noteq> None \<or> preemptible job"
    using that new' worked_trans [OF old(1) w] by (auto simp: wave_ran_def)
qed

lemma runGroups_wp:
  assumes adm: "admits_wave G e job es0"
    and "wave_going job es0 finished es" and "xw_Groups (wj_Wave job) = finished @ names" and "wr_Err run = None"
    and "\<forall>name \<in> set names. resolves (wc_Groups (wj_Config job)) resolved name"
  shows "wp R G (runGroups e c (wj_Config job) (wj_Wave job) st resolved names run) es (\<lambda>x es'. wave_ran job es0 (wr_Err (fst x)) es')"
  using assms(2-)
proof (induction names arbitrary: finished es run)
  case Nil
  then show ?case by (simp add: wave_going_ran)
next
  case (Cons name names)
  note basic = admits_waveD(1) [OF adm]
  let ?g = "markHandoff (wc_TerminalWave (wj_Config job)) (wj_Wave job) (lookupGroup resolved name)"
  let ?exec = "\<lambda>now. executeGroup e c (wc_ActionContext (wj_Config job)) (wc_Input (wj_Config job)) (wc_ExecutionID (wj_Config job))
    (wc_DryRun (wj_Config job)) (xw_Index (wj_Wave job)) ?g st (tierWindowOverrunning (wc_Window (wj_Config job)) now)"
  have going: "wave_going job es0 finished (EvNow now # es)" for now
    using wave_going_calm [OF Cons.prems(1)] calm_Cons quiet_plain by simp
  have group: "wp R G (?exec now) (EvNow now # es) (\<lambda>(res, err) es'. group_ran (wc_DryRun (wj_Config job)) (xw_Index (wj_Wave job)) ?g (EvNow now # es) err es')" for now
    using going [of now] Cons.prems by (intro executeGroup_wp) (auto simp: wave_going_def intro!: admits_wave_group [OF adm])
  have sel: "xg_Name ?g = xg_Name (lookupGroup (wc_Groups (wj_Config job)) name)" "xg_Action ?g = xg_Action (lookupGroup (wc_Groups (wj_Config job)) name)"
    using Cons.prems(4) by (auto simp: resolves_def)
  note step = group_in_wave [OF going _ sel]
  have verdict: "wp R G (Report p (andThen (tierPreempted c (wc_ActionContext (wj_Config job)) (wc_TierPolicy (wj_Config job)) (wc_LowerTierDue (wj_Config job)))
      (\<lambda>preempted. let run' = absorbGroup res run in
        if preempted then Ret (run', True)
        else if err \<noteq> None then Ret (run'\<lparr>wr_Err := err, wr_FailedGroup := xg_Name ?g\<rparr>, False)
        else runGroups e c (wj_Config job) (wj_Wave job) st resolved names run'))) es1 (\<lambda>x es'. wave_ran job es0 (wr_Err (fst x)) es')"
    if ran: "group_ran (wc_DryRun (wj_Config job)) (xw_Index (wj_Wave job)) ?g (EvNow now # es) err es1" for now p res err es1
    unfolding wp.simps
  proof (intro conjI admits_basicD(1) [OF basic] quiet_events calm_seq [OF _ basic tierPreempted_wp])
    show "calm es1 (EvReport p # es1)" by (rule calm_Cons) (simp add: quiet_plain)
    fix preempted es2
    assume p: "preempted \<longrightarrow> wc_TierPolicy (wj_Config job) = TierOverrunPolicyPreempt \<and> wc_LowerTierDue (wj_Config job)" and calm: "calm es1 es2"
    have rest: "wp R G (runGroups e c (wj_Config job) (wj_Wave job) st resolved names (absorbGroup res run)) es2 (\<lambda>x es'. wave_ran job es0 (wr_Err (fst x)) es')"
      if "err = None"
      using Cons.IH [OF wave_going_calm [OF step(1) [OF ran that] calm]] Cons.prems by simp
    have "wave_ran job es0 err' es2" if "err' = err \<and> err \<noteq> None \<or> preemptible job" for err'
      by (rule wave_ran_calm [OF step(2) [OF ran that] calm])
    then show "wp R G (let run' = absorbGroup res run in
        if preempted then Ret (run', True)
        else if err \<noteq> None then Ret (run'\<lparr>wr_Err := err, wr_FailedGroup := xg_Name ?g\<rparr>, False)
        else runGroups e c (wj_Config job) (wj_Wave job) st resolved names run') es2 (\<lambda>x es'. wave_ran job es0 (wr_Err (fst x)) es')"
      using p rest Cons.prems(3) by (auto simp: Let_def)
  qed
  have head: "runGroups e c (wj_Config job) (wj_Wave job) st resolved (name # names) run = Now (\<lambda>now. andThen (?exec now) (\<lambda>(res, err).
      Report \<lparr>pg_Groups = 1, pg_ActionAttempts = gr_ActionAttempts res, pg_NodeReleases = gr_NodeReleases res, pg_Adaptive = None\<rparr>
      (andThen (tierPreempted c (wc_ActionContext (wj_Config job)) (wc_TierPolicy (wj_Config job)) (wc_LowerTierDue (wj_Config job)))
      (\<lambda>preempted. let run' = absorbGroup res run in
        if preempted then Ret (run', True)
        else if err \<noteq> None then Ret (run'\<lparr>wr_Err := err, wr_FailedGroup := xg_Name ?g\<rparr>, False)
        else runGroups e c (wj_Config job) (wj_Wave job) st resolved names run'))))"
    using Cons.prems(3) by (simp only: runGroups.simps Let_def simp_thms if_False)
  show ?case
    unfolding head wp.simps
  proof (intro allI conjI admits_basicD(1) [OF basic] quiet_events wp_seq [OF group], goal_cases)
    case (1 now x es1)
    then show ?case using verdict by (cases x) (simp only: case_prod_conv)
  qed
qed
lemma runGroups_failed: "wr_Err run \<noteq> None \<Longrightarrow> runGroups e c cfg wave st resolved names run = Ret (run, False)"
  by (cases names) auto

lemma runWave_wp:
  assumes adm: "admits_wave G e job es0"
  shows "wp R G (runWave e job) es0 (\<lambda>r es'. wave_ran job es0 (wr_Err r) es')"
proof -
  note basic = admits_waveD(1) [OF adm]
  note quiet_step = admits_basicD(1) [OF basic]
  have ending: "wp R G (Now (\<lambda>t. Write c (WaveRecord (w t)) (\<lambda>err2.
      Ret (run\<lparr>wr_TierOverrun := ov t, wr_RecordError := joinErrors (wr_RecordError run) err2\<rparr>)))) es
      (\<lambda>r es'. wave_ran job es0 (wr_Err r) es')" if "wave_ran job es0 (wr_Err run) es" for c w ov es and run :: waveExecutionResult
  proof -
    have "wave_ran job es0 (wr_Err run) (EvRecord c (WaveRecord x) err # EvNow t # es)" for x err t
      by (rule wave_ran_calm [OF that]) (simp add: calm_step calm_Cons quiet_plain)
    then show ?thesis by (simp add: quiet_step)
  qed
  have groups: "wp R G (runGroups e (wj_Context job) (wj_Config job) (wj_Wave job) (wj_State job) resolved (xw_Groups (wj_Wave job))
      (emptyRun\<lparr>wr_RecordError := err1, wr_Err := err, wr_FailedGroup := fg\<rparr>)) es1 (\<lambda>x es'. wave_ran job es0 (wr_Err (fst x)) es')"
    if "all_resolved (wc_Groups (wj_Config job)) (xw_Groups (wj_Wave job)) [] (resolved, failedGroup, err)" and "calm es0 es1"
    for resolved failedGroup err err1 fg es1
  proof -
    have "wave_going job es0 [] es0" by (simp add: wave_going_def runs_of_def)
    then have going: "wave_going job es0 [] es1" by (rule wave_going_calm [OF _ that(2)])
    show ?thesis
    proof (cases err)
      case None
      then show ?thesis using that(1) by (intro runGroups_wp [OF adm going]) (auto simp: all_resolved_def)
    next
      case (Some msg)
      then show ?thesis using wave_going_ran [OF going, of err] by (subst runGroups_failed) auto
    qed
  qed
  show ?thesis
    unfolding runWave_def resolveWaveTargets_def Let_def wp.simps
  proof (intro allI conjI quiet_step quiet_events calm_seq [OF calm_refl basic resolveGroups_wp], goal_cases)
    case (1 ident err1 x es1)
    have "calm es0 es1" by (rule calm_trans [OF _ 1(2)]) (intro calm_step calm_refl, simp_all add: quiet_plain)
    with 1(1) show ?case
      by (cases x) (simp only: case_prod_conv, rule wp_seq [OF groups], assumption+, simp only: case_prod_beta, rule ending, assumption)
  qed
qed

end
