(* ===== verification/ExecutorSafety.thy ===== *)
theory ExecutorSafety
  imports ExecutorSteps
begin

text \<open>
  Safety of whole executions, over every behaviour of the dependencies, every cancellation and every
  interleaving of overlapped waves.  One pass over \<open>Execute\<close> establishes what each action, each
  goroutine and each release record may rely on; the soundness theorem of \<open>InteractionLogic\<close> carries it
  to the histories, and the properties read it off there.
\<close>

section \<open>What the main thread relies on\<close>

abbreviation policyOf :: "ExecInput \<Rightarrow> string" where
  "policyOf input \<equiv> effectiveTierOverrunPolicy (xi_TierOverrunPolicy input)"

text \<open>Goroutines that were started and whose result was not received.\<close>

definition outstanding :: "event list \<Rightarrow> nat set" where
  "outstanding es = {n. (\<exists>job. EvSpawn n job \<in> set es) \<and> (\<forall>x. EvReceive n x \<notin> set es)}"

definition refused :: "event list \<Rightarrow> bool" where
  "refused es \<longleftrightarrow> (\<exists>c approved err. EvApproval c (approved, err) \<in> set es \<and> (err \<noteq> None \<or> \<not> approved))"

definition approvals :: "event list \<Rightarrow> nat" where
  "approvals es = length (filter is_approval es)"

definition separated :: "ExecInput \<Rightarrow> nat \<Rightarrow> bool" where
  "separated input i \<longleftrightarrow> xw_CommunicationBarrier (xi_Waves input ! i) \<or>
     (\<exists>groups. validateExecuteInput input = Inr groups \<and> terminalHandoffWave input i groups)"

definition job_for :: "ExecInput \<Rightarrow> nat \<Rightarrow> event list \<Rightarrow> waveJob \<Rightarrow> bool" where
  "job_for input i es job \<longleftrightarrow> i < length (xi_Waves input) \<and> wj_Wave job = xi_Waves input ! i \<and>
     validateExecuteInput input = Inr (wc_Groups (wj_Config job)) \<and> wc_TierPolicy (wj_Config job) = policyOf input \<and>
     wc_TerminalWave (wj_Config job) = (Suc i = length (xi_Waves input)) \<and>
     wc_DryRun (wj_Config job) = (effectiveDryRun input \<or> refused es)"

definition wave_ended :: "ExecInput \<Rightarrow> nat \<Rightarrow> event list \<Rightarrow> bool" where
  "wave_ended input i es \<longleftrightarrow> policyOf input = TierOverrunPolicyPreempt \<or> effectiveDryRun input \<or> refused es \<or>
     (\<exists>job. wj_Wave job = xi_Waves input ! i \<and> validateExecuteInput input = Inr (wc_Groups (wj_Config job)) \<and> \<not> wc_DryRun (wj_Config job) \<and>
        wc_TierPolicy (wj_Config job) = policyOf input \<and>
        ((\<forall>name \<in> set (xw_Groups (wj_Wave job)). run_done job es name) \<or> (\<exists>n. EvSpawn n job \<in> set es)))"

text \<open>What holds between waves, \<open>i\<close> of them being behind.\<close>

definition history_ok :: "ExecInput \<Rightarrow> nat \<Rightarrow> event list \<Rightarrow> bool" where
  "history_ok input i es \<longleftrightarrow>
     (\<forall>n job. EvSpawn n job \<in> set es \<longrightarrow> (\<exists>k < i. wj_Wave job = xi_Waves input ! k)) \<and>
     (\<forall>c a r. EvRun c a r \<in> set es \<longrightarrow> (\<exists>k < i. ac_WaveIndex a = xw_Index (xi_Waves input ! k))) \<and>
     (\<forall>n x. EvReceive n x \<in> set es \<longrightarrow> wr_Err x = None) \<and>
     (policyOf input \<noteq> TierOverrunPolicyPreempt \<longrightarrow> \<not> list_ex failure es)"

text \<open>What holds when wave \<open>i\<close> starts or makes a call: its approval was asked for, a barrier has joined
  every goroutine, and nothing failed before.\<close>

definition planned :: "Executor \<Rightarrow> ExecInput \<Rightarrow> nat \<Rightarrow> event list \<Rightarrow> waveJob \<Rightarrow> bool" where
  "planned e input i es job \<longleftrightarrow> job_for input i es job \<and>
     (\<not> wc_DryRun (wj_Config job) \<and> ex_ApprovalChecker e \<noteq> None \<longrightarrow> approvals es = Suc i) \<and>
     (separated input i \<longrightarrow> outstanding es = {}) \<and>
     (\<forall>n job. EvSpawn n job \<in> set es \<longrightarrow> (\<exists>k < i. wj_Wave job = xi_Waves input ! k)) \<and>
     (\<forall>c a r. EvRun c a r \<in> set es \<longrightarrow> (\<exists>k < Suc i. ac_WaveIndex a = xw_Index (xi_Waves input ! k))) \<and>
     (\<forall>n x. EvReceive n x \<in> set es \<longrightarrow> wr_Err x = None) \<and>
     (policyOf input \<noteq> TierOverrunPolicyPreempt \<longrightarrow> \<not> list_ex failure es)"

definition main_guard :: "Executor \<Rightarrow> ExecInput \<Rightarrow> guard" where
  "main_guard e input es ev \<longleftrightarrow> (case ev of
     EvRun c a r \<Rightarrow> \<exists>i job. planned e input i es job \<and> wave_action_ok e job es a
   | EvSpawn n job \<Rightarrow> policyOf input = TierOverrunPolicyOverlap \<and> (\<exists>i. planned e input i es job)
   | EvReceive n x \<Rightarrow> \<exists>job. EvSpawn n job \<in> set es
   | EvRecord c (ReleaseRecord rec) err \<Rightarrow> rr_Released rec \<longrightarrow> release_ok es rec
   | _ \<Rightarrow> True)"

definition job_guard :: "Executor \<Rightarrow> waveJob \<Rightarrow> guard" where
  "job_guard e job es ev \<longleftrightarrow> \<not> goroutine_call ev \<and> (case ev of
     EvRun c a r \<Rightarrow> wave_action_ok e job es a \<and> \<not> list_ex failure es
   | EvRecord c (ReleaseRecord rec) err \<Rightarrow> rr_Released rec \<longrightarrow> release_ok es rec
   | _ \<Rightarrow> True)"

abbreviation job_result :: "waveJob \<Rightarrow> waveExecutionResult \<Rightarrow> event list \<Rightarrow> bool" where
  "job_result job x es \<equiv> wave_ran job [] (wr_Err x) es"

lemma main_basic: "admits_basic (main_guard e input)"
  by (auto simp: admits_basic_def main_guard_def event_kinds split: event.split auditRecord.split)

lemma failure_runs: "list_ex failure es \<longleftrightarrow> list_ex failure (runs es)"
proof -
  have "failure ev \<Longrightarrow> is_run ev" for ev by (cases ev) (simp_all add: failure_def is_run_def)
  then show ?thesis by (auto simp: list_ex_iff runs_def)
qed

lemma job_admits: "admits_wave (job_guard e job) e job []"
  unfolding admits_wave_def
proof (intro conjI allI impI)
  show "admits_basic (job_guard e job)"
    by (auto simp: admits_basic_def job_guard_def event_kinds split: event.split auditRecord.split)
  show "job_guard e job es (EvRun c a r)" if "runs es = new @ runs []" "\<not> list_ex failure new" "wave_action_ok e job es a" for es c a r new
    using that failure_runs [of es] by (simp add: job_guard_def goroutine_call_def)
qed

interpretation exec: guarded e rt "runWave e" "main_guard e input" "job_guard e" job_result for e rt input
proof unfold_locales
  show "wp (\<lambda>_ _ _. True) (job_guard e job) (runWave e job) [] (job_result job)" for job
    by (rule runWave_wp [OF job_admits])
qed (simp_all add: main_guard_def job_guard_def)
section \<open>The wave loop\<close>

lemma refused_mono: "refused es \<Longrightarrow> set es \<subseteq> set es' \<Longrightarrow> refused es'"
  unfolding refused_def by blast

lemma wave_ended_mono: "wave_ended input k es \<Longrightarrow> set es \<subseteq> set es' \<Longrightarrow> wave_ended input k es'"
  unfolding wave_ended_def using refused_mono run_done_mono by blast

lemma worked_new:
  assumes "worked es es'"
  obtains new where "es' = new @ es" "list_all (\<lambda>ev. \<not> is_approval ev \<and> \<not> goroutine_call ev) new"
  using assms by (auto simp: worked_def)

lemma worked_same:
  assumes "worked es es'"
  shows "refused es' \<longleftrightarrow> refused es" "approvals es' = approvals es" "outstanding es' = outstanding es"
    "EvSpawn n job \<in> set es' \<longleftrightarrow> EvSpawn n job \<in> set es" "EvReceive n x \<in> set es' \<longleftrightarrow> EvReceive n x \<in> set es"
proof -
  obtain new where new: "es' = new @ es" "list_all (\<lambda>ev. \<not> is_approval ev \<and> \<not> goroutine_call ev) new" using worked_new [OF assms] .
  have none: "EvApproval c y \<notin> set new" "EvSpawn n job \<notin> set new" "EvReceive n x \<notin> set new" for c y n job x
    using new(2) by (auto simp: list_all_iff event_kinds)
  show "refused es' \<longleftrightarrow> refused es" "outstanding es' = outstanding es"
    "EvSpawn n job \<in> set es' \<longleftrightarrow> EvSpawn n job \<in> set es" "EvReceive n x \<in> set es' \<longleftrightarrow> EvReceive n x \<in> set es"
    using none by (auto simp: new(1) refused_def outstanding_def)
  show "approvals es' = approvals es" using new(2) by (simp add: new(1) approvals_def list_all_iff filter_empty_conv)
qed

text \<open>The wave's own calls keep what it relies on.\<close>

lemma planned_worked:
  assumes p: "planned e input i es job" and w: "worked es es'" and r: "runs es' = new @ runs es" "runs_of job new" "\<not> list_ex failure new"
  shows "planned e input i es' job"
proof -
  have index: "\<exists>k < Suc i. ac_WaveIndex a = xw_Index (xi_Waves input ! k)" if "EvRun c a y \<in> set es'" for c a y
  proof -
    from that have "EvRun c a y \<in> set new \<or> EvRun c a y \<in> set es" using runs_member r(1) by (metis Un_iff set_append)
    then show ?thesis
    proof
      assume "EvRun c a y \<in> set new"
      then have "ac_WaveIndex a = xw_Index (wj_Wave job)" using r(2) unfolding runs_of_def by blast
      then show ?thesis using p unfolding planned_def job_for_def by auto
    next
      assume "EvRun c a y \<in> set es"
      then show ?thesis using p unfolding planned_def by blast
    qed
  qed
  have "list_ex failure es' \<longleftrightarrow> list_ex failure es" using failure_runs [of es'] failure_runs [of es] r(1,3) by simp
  then show ?thesis using p index unfolding planned_def job_for_def worked_same [OF w] by blast
qed

lemma main_admits: "planned e input i es job \<Longrightarrow> admits_wave (main_guard e input) e job es"
  unfolding admits_wave_def using main_basic planned_worked by (fastforce simp: main_guard_def)

text \<open>Joining goroutines.\<close>

definition pending_ok :: "nat list \<Rightarrow> event list \<Rightarrow> bool" where
  "pending_ok chs es \<longleftrightarrow> outstanding es \<subseteq> set chs \<and> (\<forall>n \<in> set chs. \<exists>job. EvSpawn n job \<in> set es)"

definition drained :: "error \<Rightarrow> event list \<Rightarrow> event list \<Rightarrow> bool" where
  "drained err es es' \<longleftrightarrow> outstanding es' = {} \<and>
     (\<exists>new. es' = new @ es \<and> (\<forall>ev \<in> set new. \<exists>n x. ev = EvReceive n x \<and> (err = None \<longrightarrow> wr_Err x = None)))"

lemma drainPending_wp:
  "pending_ok chs es \<Longrightarrow> wp R (main_guard e input) (drainPending chs result firstErr failedGroup recordErr) es
     (\<lambda>y es'. drained (fst y) es es' \<and> (fst y = None \<longrightarrow> firstErr = None) \<and> rs_Phase (snd (snd (snd y))) = rs_Phase result)"
proof (induction chs arbitrary: es result firstErr failedGroup recordErr)
  case Nil
  then show ?case by (simp add: pending_ok_def drained_def)
next
  case (Cons ch chs)
  have ok: "pending_ok chs (EvReceive ch x # es)" for x
    using Cons.prems by (auto simp: pending_ok_def outstanding_def)
  have phase: "rs_Phase (absorbWave result x) = rs_Phase result" for x by (simp add: absorbWave_def Let_def split: option.split)
  have step: "drained (fst y) es es'" if d: "drained (fst y) (EvReceive ch x # es) es'"
    and none: "fst y = None \<longrightarrow> wr_Err x = None" for y :: "error \<times> string \<times> error \<times> ExecResult" and es' x
  proof -
    obtain new where new: "es' = new @ EvReceive ch x # es" "\<forall>ev \<in> set new. \<exists>n x. ev = EvReceive n x \<and> (fst y = None \<longrightarrow> wr_Err x = None)"
      using d unfolding drained_def by blast
    then have "es' = (new @ [EvReceive ch x]) @ es"
      "\<forall>ev \<in> set (new @ [EvReceive ch x]). \<exists>n x. ev = EvReceive n x \<and> (fst y = None \<longrightarrow> wr_Err x = None)" using none by auto
    then show ?thesis using d unfolding drained_def by blast
  qed
  have guard: "main_guard e input es (EvReceive ch x)" for x using Cons.prems by (simp add: main_guard_def pending_ok_def)
  show ?case
    unfolding drainPending.simps wp.simps Let_def
  proof (intro allI impI conjI guard, goal_cases)
    case (1 x)
    show ?case by (rule wp_mono [OF Cons.IH [OF ok]]) (use step phase in \<open>auto split: if_splits\<close>)
  qed
qed
text \<open>Between waves: \<open>i\<close> waves are behind and \<open>n\<close> approvals were asked for.\<close>

definition between :: "Executor \<Rightarrow> ExecInput \<Rightarrow> nat \<Rightarrow> nat \<Rightarrow> loopState \<Rightarrow> event list \<Rightarrow> bool" where
  "between e input i n lo es \<longleftrightarrow> pending_ok (lo_Pending lo) es \<and> (lo_Revoked lo \<longleftrightarrow> refused es) \<and>
     (ex_ApprovalChecker e \<noteq> None \<and> \<not> effectiveDryRun input \<and> \<not> refused es \<longrightarrow> approvals es = n) \<and>
     history_ok input i es \<and> (\<forall>k < i. wave_ended input k es)"

abbreviation aborted :: "ExecResult \<times> error \<Rightarrow> bool" where
  "aborted r \<equiv> rs_Phase (fst r) \<noteq> PhaseCompleted"

lemma pending_worked: "worked es es' \<Longrightarrow> pending_ok chs es' \<longleftrightarrow> pending_ok chs es"
  by (simp add: pending_ok_def worked_same)

lemma history_calm: "history_ok input i es \<Longrightarrow> calm es es' \<Longrightarrow> history_ok input i es'"
  unfolding history_ok_def worked_same [OF calm_worked, of es es'] failure_runs [of es'] failure_runs [of es]
  using calm_runs [of es es'] runs_member by metis

lemma between_calm:
  assumes "between e input i n lo es" and "calm es es'"
  shows "between e input i n lo es'"
  using assms(1) history_calm [OF _ assms(2)] wave_ended_mono [OF _ calm_subset [OF assms(2)]]
  unfolding between_def by (simp add: pending_worked [OF calm_worked [OF assms(2)]] worked_same [OF calm_worked [OF assms(2)]])

lemma recordAborted_wp: "wp R quietly (recordAborted c input ident result err failedGroup recordErr) es (\<lambda>r es'. aborted r)"
  by (simp add: recordAborted_def Let_def PhaseAborted_def PhaseCompleted_def split: option.split)

lemma observationFailure_wp: "wp R quietly (recordObservationFailure c input ident result stopped err recordErr) es (\<lambda>r es'. aborted r)"
  using recordAborted_wp by (simp add: recordObservationFailure_def PhaseFailed_def PhaseCompleted_def)

lemma evaluateWave_wp: "wp R quietly (evaluateWave e c ad wave remaining) es (\<lambda>_ _. True)"
  by (simp add: evaluateWave_def Let_def split: option.split sum.split)

text \<open>A program that makes only quiet calls, at the end of an execution and between waves.\<close>

lemma quiet_main:
  assumes "wp R quietly p es P" and "\<And>a es'. P a es' \<Longrightarrow> calm es es' \<Longrightarrow> Q a es'"
  shows "wp R (main_guard e input) p es Q"
  by (rule wp_plain [OF assms(1)]) (use assms(2) admits_basicD(1) [OF main_basic] quiet_plain in auto)

lemma drained_facts:
  assumes "drained err es es'"
  shows "set es \<subseteq> set es'" "refused es' \<longleftrightarrow> refused es" "approvals es' = approvals es" "outstanding es' = {}"
    "EvSpawn n job \<in> set es' \<longleftrightarrow> EvSpawn n job \<in> set es" "EvRun c a r \<in> set es' \<longleftrightarrow> EvRun c a r \<in> set es"
    "list_ex failure es' \<longleftrightarrow> list_ex failure es" "err = None \<Longrightarrow> EvReceive n x \<in> set es' \<Longrightarrow> wr_Err x = None \<or> EvReceive n x \<in> set es"
proof -
  obtain new where new: "es' = new @ es" "\<forall>ev \<in> set new. \<exists>n x. ev = EvReceive n x \<and> (err = None \<longrightarrow> wr_Err x = None)"
    using assms unfolding drained_def by blast
  show "refused es' \<longleftrightarrow> refused es" "EvSpawn n job \<in> set es' \<longleftrightarrow> EvSpawn n job \<in> set es" "EvRun c a r \<in> set es' \<longleftrightarrow> EvRun c a r \<in> set es"
    "err = None \<Longrightarrow> EvReceive n x \<in> set es' \<Longrightarrow> wr_Err x = None \<or> EvReceive n x \<in> set es"
    using new(2) by (fastforce simp: new(1) refused_def)+
  have "\<forall>ev \<in> set new. \<not> failure ev \<and> \<not> is_approval ev" using new(2) by (auto simp: failure_def is_approval_def)
  then show "list_ex failure es' \<longleftrightarrow> list_ex failure es" "approvals es' = approvals es"
    by (auto simp: new(1) list_ex_iff approvals_def filter_empty_conv)
  show "set es \<subseteq> set es'" using new(1) by simp
  show "outstanding es' = {}" using assms unfolding drained_def by blast
qed

lemma waitForPending_wp:
  assumes b: "between e input i n lo es"
  shows "wp R (main_guard e input) (waitForPending lo) es
    (\<lambda>(err, failedGroup, rerr, lo') es'. err = None \<longrightarrow> between e input i n lo' es' \<and> outstanding es' = {})"
proof -
  have p: "pending_ok (lo_Pending lo) es" using b by (simp add: between_def)
  have "between e input i n (lo\<lparr>lo_Pending := [], lo_Result := result\<rparr>) es'" if "drained None es es'" for es' result
  proof -
    note facts = drained_facts [OF that]
    have "history_ok input i es'" using b facts(8) [OF refl] unfolding between_def history_ok_def facts(5,6,7) by blast
    moreover have "\<forall>k < i. wave_ended input k es'" using b wave_ended_mono [OF _ facts(1)] unfolding between_def by blast
    moreover have "pending_ok [] es'" unfolding pending_ok_def facts(4) by simp
    ultimately show ?thesis using b unfolding between_def facts(2,3) by simp
  qed
  then show ?thesis
    unfolding waitForPending_def
    by (intro wp_seq [OF drainPending_wp [OF p]]) (auto dest: drained_facts(4) split: prod.split)
qed
text \<open>The steps of one iteration, each ending in a return with another phase than Completed or going on.\<close>

definition goes_on :: "('a \<Rightarrow> event list \<Rightarrow> bool) \<Rightarrow> (ExecResult \<times> error) + 'a \<Rightarrow> event list \<Rightarrow> bool" where
  "goes_on Q ans es \<longleftrightarrow> (case ans of Inl r \<Rightarrow> aborted r | Inr a \<Rightarrow> Q a es)"

lemma goes_on_simps [simp]: "goes_on Q (Inl r) es = aborted r" "goes_on Q (Inr a) es = Q a es"
  by (simp_all add: goes_on_def)

lemma orReturn_wp:
  assumes "wp R G p es (goes_on P)" and "\<And>a es'. P a es' \<Longrightarrow> wp R G (f a) es' (goes_on Q)"
  shows "wp R G (orReturn p f) es (goes_on Q)"
  unfolding orReturn_def
proof (rule wp_seq [OF assms(1)])
  show "wp R G (case x of Inl r \<Rightarrow> Ret (Inl r) | Inr a \<Rightarrow> f a) es' (goes_on Q)" if "goes_on P x es'" for x es'
    using that assms(2) by (cases x) simp_all
qed

lemma returning_wp: "wp R quietly p es (\<lambda>r es'. aborted r) \<Longrightarrow> wp R (main_guard e input) (returning p) es (goes_on Q)"
  unfolding returning_def by (rule wp_seq) (rule quiet_main, assumption, auto)

lemma join_wp:
  assumes "between e input i n lo es"
    and "\<And>err failedGroup rerr lo' es'. (err = None \<Longrightarrow> between e input i n lo' es' \<and> outstanding es' = {}) \<Longrightarrow>
      wp R (main_guard e input) (f (err, failedGroup, rerr, lo')) es' Q"
  shows "wp R (main_guard e input) (andThen (waitForPending lo) f) es Q"
proof (rule wp_seq [OF waitForPending_wp [OF assms(1)]], goal_cases)
  case (1 x es')
  obtain err failedGroup rerr lo' where x: "x = (err, failedGroup, rerr, lo')" by (cases x)
  show ?case unfolding x by (rule assms(2)) (use 1 x in simp)
qed

lemma between_recordErr [simp]: "between e input i n (lo\<lparr>lo_RecordErr := err\<rparr>) es = between e input i n lo es"
  by (simp add: between_def)

lemma joinBarrier_wp:
  assumes b: "between e input i n lo es" and v: "validateExecuteInput input = Inr groups"
  shows "wp R (main_guard e input) (joinBarrier c input groups ident i (xi_Waves input ! i) lo) es
    (goes_on (\<lambda>lo' es'. between e input i n lo' es' \<and> (separated input i \<longrightarrow> outstanding es' = {})))"
proof (cases "xw_CommunicationBarrier (xi_Waves input ! i) \<or> terminalHandoffWave input i groups")
  case False
  then show ?thesis using b v by (simp add: joinBarrier_def separated_def)
next
  case True
  show ?thesis
    unfolding joinBarrier_def if_P [OF True]
    by (rule join_wp [OF b]) (simp add: Let_def returning_wp recordAborted_wp)
qed

lemma boundaryState_wp:
  assumes b: "between e input i n lo es"
  shows "wp R (main_guard e input) (boundaryState e c input ident i wave lo) es (goes_on (\<lambda>st es'. calm es es'))"
  unfolding boundaryState_def
proof (rule wp_seq [OF quiet_main [OF evaluateWave_wp]])
  fix a es'
  show "calm es es'" if "calm es es'" using that .
  assume calm: "calm es es'"
  have cancel: "quiet (case contextID x of Some n \<Rightarrow> EvCancel n | None \<Rightarrow> EvContext x)" for x by (simp split: option.split)
  have after: "wp R (main_guard e input) (andThen (waitForPending lo) (\<lambda>(pendingErr, _, pendingRecordErr, lo1).
      returning (recordObservationFailure c input ident (lo_Result lo1) stopped (f pendingErr) (g lo1 pendingRecordErr)))) es2
      (goes_on (\<lambda>st es'. calm es es'))" if "calm es es2" for es2 stopped f g
    by (rule join_wp [OF between_calm [OF b that]]) (simp only: case_prod_conv returning_wp [OF observationFailure_wp])
  show "wp R (main_guard e input) (case a of Inr st \<Rightarrow> Ret (Inr st) | Inl adaptiveErr \<Rightarrow>
      CtxErr c (\<lambda>done. CancelCtx c (andThen (waitForPending lo) (\<lambda>(pendingErr, _, pendingRecordErr, lo1).
        returning (recordObservationFailure c input ident (lo_Result lo1) (done \<noteq> None)
          (joinErrors (Some adaptiveErr) pendingErr) (joinErrors (lo_RecordErr lo1) pendingRecordErr)))))) es'
      (goes_on (\<lambda>st es'. calm es es'))"
  proof (cases a)
    case (Inl err)
    have "calm es ((case contextID c of Some n \<Rightarrow> EvCancel n | None \<Rightarrow> EvContext c) # EvCtxErr c d # es')" for d
      using calm_step [OF calm_step [OF calm]] quiet_plain cancel by simp
    then show ?thesis
      unfolding Inl sum.case wp.simps Let_def
      by (intro allI conjI admits_basicD(1) [OF main_basic] cancel quiet_events after)
  next
    case (Inr st)
    then show ?thesis using calm by simp
  qed
qed

text \<open>The approval of a wave.\<close>

lemma between_approval:
  assumes "between e input i i lo es" and "\<not> effectiveDryRun input" "\<not> refused es" "ex_ApprovalChecker e \<noteq> None" "revoked \<longleftrightarrow> err \<noteq> None \<or> \<not> approved"
  shows "between e input i (Suc i) (lo\<lparr>lo_Revoked := revoked\<rparr>) (EvApproval c (approved, err) # es)"
proof -
  let ?es = "EvApproval c (approved, err) # es"
  have "refused ?es \<longleftrightarrow> err \<noteq> None \<or> \<not> approved" using assms(3) by (auto simp: refused_def)
  moreover have "approvals ?es = Suc i" using assms by (simp add: between_def approvals_def is_approval_def)
  moreover have "outstanding ?es = outstanding es" by (simp add: outstanding_def)
  moreover have "wave_ended input k ?es" if "wave_ended input k es" for k by (rule wave_ended_mono [OF that set_subset_Cons])
  ultimately show ?thesis using assms(1,5) by (auto simp: between_def pending_ok_def history_ok_def failure_def)
qed

lemma approvalGate_wp:
  assumes b: "between e input i i lo es" and sep: "separated input i \<longrightarrow> outstanding es = {}"
  shows "wp R (main_guard e input) (approvalGate e c (effectiveDryRun input) (lo_Revoked lo)) es
    (\<lambda>(dry, revoked) es'. dry = (effectiveDryRun input \<or> refused es') \<and> between e input i (Suc i) (lo\<lparr>lo_Revoked := revoked\<rparr>) es' \<and>
      (separated input i \<longrightarrow> outstanding es' = {}))"
proof (cases "effectiveDryRun input \<or> lo_Revoked lo \<or> ex_ApprovalChecker e = None")
  case True
  then have "approvalGate e c (effectiveDryRun input) (lo_Revoked lo) = Ret (effectiveDryRun input \<or> lo_Revoked lo, lo_Revoked lo)"
    by (auto simp: approvalGate_def Let_def)
  moreover have "between e input i (Suc i) lo es" using True b by (auto simp: between_def)
  ultimately show ?thesis using b sep by (auto simp: between_def)
next
  case False
  then have no: "\<not> refused es" using b by (simp add: between_def)
  have "main_guard e input es (EvApproval c x)" for x by (simp add: main_guard_def)
  moreover have "outstanding (EvApproval c x # es) = outstanding es" for x by (simp add: outstanding_def)
  moreover have "refused (EvApproval c (approved, err) # es) \<longleftrightarrow> err \<noteq> None \<or> \<not> approved" for approved err
    using no by (auto simp: refused_def)
  moreover have "between e input i (Suc i) (lo\<lparr>lo_Revoked := True\<rparr>) (EvApproval c (approved, err) # es)"
    if "err \<noteq> None \<or> \<not> approved" for approved err
    by (rule between_approval [OF b _ no]) (use that False in auto)
  moreover have "between e input i (Suc i) (lo\<lparr>lo_Revoked := False\<rparr>) (EvApproval c (True, None) # es)"
    by (rule between_approval [OF b _ no]) (use False in auto)
  ultimately show ?thesis using sep False by (auto simp: approvalGate_def Let_def)
qed
text \<open>Running a wave in the main thread, or handing it to a goroutine, takes the loop to the next one.\<close>

lemma planned_intro:
  assumes "between e input i (Suc i) lo es" and "separated input i \<longrightarrow> outstanding es = {}" and "job_for input i es job"
  shows "planned e input i es job"
  using assms unfolding between_def history_ok_def planned_def job_for_def by (blast intro: less_SucI)

lemma wave_ended_intro:
  assumes "job_for input i es job" and "refused es' = refused es"
    and "policyOf input \<noteq> TierOverrunPolicyPreempt \<Longrightarrow>
      (\<forall>name \<in> set (xw_Groups (wj_Wave job)). run_done job es' name) \<or> (\<exists>n. EvSpawn n job \<in> set es')"
  shows "wave_ended input i es'"
proof (cases "policyOf input = TierOverrunPolicyPreempt \<or> effectiveDryRun input \<or> refused es'")
  case True
  then show ?thesis by (auto simp: wave_ended_def)
next
  case False
  then show ?thesis
    unfolding wave_ended_def using assms(1,2) assms(3) by (intro disjI2 exI [of _ job]) (simp add: job_for_def)
qed

lemma after_wave:
  assumes b: "between e input i (Suc i) lo es" and job: "job_for input i es job" and ran: "wave_ran job es None es'"
  shows "between e input (Suc i) (Suc i) lo es'"
proof -
  obtain new where new: "worked es es'" "runs es' = new @ runs es" "runs_of job new" "list_ex failure new \<longrightarrow> preemptible job"
    and fin: "\<not> preemptible job \<longrightarrow> (\<forall>name \<in> set (xw_Groups (wj_Wave job)). run_done job es' name)"
    using ran unfolding wave_ran_def by blast
  have index: "\<exists>k < Suc i. ac_WaveIndex a = xw_Index (xi_Waves input ! k)" if "EvRun c a y \<in> set es'" for c a y
  proof -
    from that have "EvRun c a y \<in> set new \<or> EvRun c a y \<in> set es" using runs_member new(2) by (metis Un_iff set_append)
    then show ?thesis
      using b job new(3) unfolding between_def history_ok_def job_for_def runs_of_def by (metis less_SucI lessI)
  qed
  have "policyOf input \<noteq> TierOverrunPolicyPreempt \<longrightarrow> \<not> list_ex failure es'"
    using b job new(4) unfolding failure_runs [of es'] new(2) by (auto simp: failure_runs [symmetric] between_def history_ok_def job_for_def)
  then have h: "history_ok input (Suc i) es'"
    using b index unfolding between_def history_ok_def worked_same(4,5) [OF new(1)] by (blast intro: less_SucI)
  have "wave_ended input i es'"
    by (rule wave_ended_intro [OF job worked_same(1) [OF new(1)]]) (use fin job in \<open>auto simp: job_for_def\<close>)
  moreover have "wave_ended input k es'" if "k < i" for k
    using b that wave_ended_mono [OF _ worked_subset [OF new(1)]] unfolding between_def by blast
  ultimately have "\<forall>k < Suc i. wave_ended input k es'" by (simp add: less_Suc_eq)
  then show ?thesis using b h unfolding between_def pending_worked [OF new(1)] worked_same(1,2) [OF new(1)] by blast
qed

lemma after_spawn:
  assumes b: "between e input i (Suc i) lo es" and job: "job_for input i es job"
  shows "between e input (Suc i) (Suc i) (lo\<lparr>lo_Pending := lo_Pending lo @ [ch]\<rparr>) (EvSpawn ch job # es)"
proof -
  let ?es = "EvSpawn ch job # es"
  have same: "refused ?es = refused es" "approvals ?es = approvals es" by (simp_all add: refused_def approvals_def is_approval_def)
  have "list_ex failure ?es = list_ex failure es" by (simp add: failure_def)
  moreover have "EvRun c a r \<in> set ?es \<longleftrightarrow> EvRun c a r \<in> set es" "EvReceive n x \<in> set ?es \<longleftrightarrow> EvReceive n x \<in> set es"
    "EvSpawn n j \<in> set ?es \<longleftrightarrow> n = ch \<and> j = job \<or> EvSpawn n j \<in> set es" for c a r n x j by auto
  ultimately have "history_ok input (Suc i) ?es"
    using b job unfolding between_def history_ok_def job_for_def by (metis less_SucI lessI)
  moreover have "wave_ended input i ?es" by (rule wave_ended_intro [OF job same(1)]) auto
  moreover have "wave_ended input k ?es" if "k < i" for k
    using b that wave_ended_mono [OF _ set_subset_Cons] unfolding between_def by blast
  moreover have "pending_ok (lo_Pending lo @ [ch]) ?es" using b unfolding between_def pending_ok_def outstanding_def by auto
  ultimately show ?thesis using b same unfolding between_def by (auto simp: less_Suc_eq)
qed

lemma after_waited: "between e input i n lo (EvWaited c ch d # es) = between e input i n lo es"
proof -
  let ?es = "EvWaited c ch d # es"
  have same: "refused ?es = refused es" "approvals ?es = approvals es" "outstanding ?es = outstanding es"
    by (simp_all add: refused_def approvals_def is_approval_def outstanding_def)
  have "run_done job ?es name = run_done job es name" for job name by (simp add: run_done_def Let_def)
  then show ?thesis unfolding between_def pending_ok_def history_ok_def wave_ended_def same by (simp add: failure_def)
qed

lemma after_receive:
  assumes b: "between e input i n (lo\<lparr>lo_Pending := chs @ [ch]\<rparr>) es"
  shows "pending_ok chs (EvReceive ch x # es)"
    and "wr_Err x = None \<Longrightarrow> lo_Pending lo = chs \<Longrightarrow> between e input i n lo (EvReceive ch x # es)"
proof -
  let ?es = "EvReceive ch x # es"
  show p: "pending_ok chs ?es" using b unfolding between_def pending_ok_def outstanding_def by auto
  have same: "refused ?es = refused es" "approvals ?es = approvals es" by (simp_all add: refused_def approvals_def is_approval_def)
  have "wave_ended input k ?es" if "k < i" for k
    using b that wave_ended_mono [OF _ set_subset_Cons] unfolding between_def by blast
  then show "between e input i n lo ?es" if "wr_Err x = None" "lo_Pending lo = chs"
    using b p same that unfolding between_def history_ok_def by (auto simp: failure_def)
qed

lemma join_abort:
  assumes "pending_ok (lo_Pending lo) es" and "\<And>y es'. wp R (main_guard e input) (f y) es' Q"
  shows "wp R (main_guard e input) (andThen (waitForPending lo) f) es Q"
  unfolding waitForPending_def wp_andThen by (rule wp_mono [OF drainPending_wp [OF assms(1)]]) (simp add: assms(2) split: prod.split)

lemma between_absorb [simp]: "between e input i n (lo\<lparr>lo_Result := r, lo_RecordErr := err\<rparr>) es = between e input i n lo es"
  "between e input i n (lo\<lparr>lo_Result := r\<rparr>) es = between e input i n lo es"
  "between e input i n (lo\<lparr>lo_Window := w\<rparr>) es = between e input i n lo es"
  by (simp_all add: between_def)

lemma handleWaveResult_wp:
  assumes "pending_ok (lo_Pending lo) es" and "wr_Err run = None \<Longrightarrow> between e input i n lo es"
  shows "wp R (main_guard e input) (handleWaveResult c input ident lo run) es (goes_on (\<lambda>lo' es'. between e input i n lo' es'))"
proof (cases "wr_Err run")
  case None
  then show ?thesis using assms(2) by (simp add: handleWaveResult_def Let_def)
next
  case (Some msg)
  have "wp R (main_guard e input) (if b then returning (recordAborted c input ident r1 e1 f1 x1) else returning (recordAborted c input ident r2 e2 f2 x2)) es'
      (goes_on (\<lambda>lo' es'. between e input i n lo' es'))" for b r1 e1 f1 x1 r2 e2 f2 x2 es'
    by (simp add: returning_wp recordAborted_wp)
  then show ?thesis
    unfolding handleWaveResult_def Let_def Some
    apply (simp only: option.distinct if_False)
    apply (rule join_abort)
     apply (simp add: assms(1))
    apply (simp only: case_prod_beta)
    done
qed
lemmas quiet_seq = calm_seq [OF calm_refl main_basic]

lemma overlapWave_wp:
  assumes b: "between e input i (Suc i) lo es" and sep: "separated input i \<longrightarrow> outstanding es = {}" and job: "job_for input i es job"
    and policy: "policyOf input = TierOverrunPolicyOverlap"
  shows "wp R (main_guard e input) (overlapWave c input ident job lo) es (goes_on (\<lambda>lo' es'. between e input (Suc i) (Suc i) lo' es'))"
proof -
  let ?Q = "goes_on (\<lambda>lo' es'. between e input (Suc i) (Suc i) lo' es')"
  have spawn: "main_guard e input es (EvSpawn ch job)" for ch
    using policy planned_intro [OF b sep job] by (auto simp: main_guard_def)
  let ?es = "\<lambda>ch now. EvNow now # EvSpawn ch job # es"
  have b1: "between e input (Suc i) (Suc i) (lo\<lparr>lo_Pending := lo_Pending lo @ [ch]\<rparr>) (?es ch now)" for ch now
    by (rule between_calm [OF after_spawn [OF b job]]) (simp add: calm_Cons quiet_plain)
  have b2: "between e input (Suc i) (Suc i) (lo\<lparr>lo_Pending := lo_Pending lo @ [ch]\<rparr>) (EvWaited c ch d # ?es ch now)" for ch now d
    unfolding after_waited by (rule b1)
  have defer_ok: "wp R (main_guard e input) (Ret (Inr (deferWave ch lo))) (?es ch now) ?Q" for ch now
    using b1 by (simp add: deferWave_def)
  have await: "wp R (main_guard e input) (k SelectDone) (EvWaited c ch d # ?es ch now) ?Q \<and>
      wp R (main_guard e input) (k SelectTimer) (EvWaited c ch d # ?es ch now) ?Q \<and>
      wp R (main_guard e input) (k (SelectResult x)) (EvReceive ch x # EvWaited c ch d # ?es ch now) ?Q"
    if k: "k = (\<lambda>selected. case selected of
        SelectDone \<Rightarrow> andThen (waitForPending (lo\<lparr>lo_Pending := lo_Pending lo @ [ch]\<rparr>)) (\<lambda>(pendingErr, failedGroup, pendingRecordErr, lo1).
          CtxErr c (\<lambda>err. returning (recordAborted c input ident (lo_Result lo1) (joinErrors (map_option ctxMessage err) pendingErr) failedGroup
            (joinErrors (lo_RecordErr lo1) pendingRecordErr))))
      | SelectResult run \<Rightarrow> orReturn (handleWaveResult c input ident lo run) (\<lambda>lo1. Ret (Inr (lo1\<lparr>lo_Window := emptyWindow\<rparr>)))
      | SelectTimer \<Rightarrow> Ret (Inr (deferWave ch lo)))" for k ch d now x
  proof (intro conjI)
    have ctx: "main_guard e input es' (EvCtxErr c err)" for es' err by (simp add: main_guard_def)
    show "wp R (main_guard e input) (k SelectDone) (EvWaited c ch d # ?es ch now) ?Q"
      unfolding k selection.case
      by (rule join_abort) (use b2 in \<open>auto simp: between_def ctx returning_wp recordAborted_wp\<close>)
    show "wp R (main_guard e input) (k SelectTimer) (EvWaited c ch d # ?es ch now) ?Q"
      unfolding k using b2 by (simp add: deferWave_def)
    show "wp R (main_guard e input) (k (SelectResult x)) (EvReceive ch x # EvWaited c ch d # ?es ch now) ?Q"
      unfolding k selection.case
      by (rule orReturn_wp [OF handleWaveResult_wp [OF after_receive(1) [OF b2] after_receive(2) [OF b2]]]) simp_all
  qed
  have guards: "main_guard e input es' (EvNow now)" "main_guard e input es' (EvWaited c ch d)"
    "main_guard e input (EvWaited c ch d # ?es ch now) (EvReceive ch x)" for es' now ch d x
    by (auto simp: main_guard_def)
  show ?thesis
    unfolding overlapWave_def Let_def wp.simps
  proof (intro allI conjI spawn guards, goal_cases)
    case (1 ch now)
    let ?due = "timeSub (tw_StartedAt (lo_Window lo) + tw_EffectiveDuration (lo_Window lo)) now"
    show ?case
    proof (cases "?due \<le> 0")
      case True
      then show ?thesis using defer_ok by (simp only: if_True)
    next
      case False
      note waited = await [OF refl, of ch ?due now]
      show ?thesis
        unfolding if_not_P [OF False] wp.simps Let_def
        by (intro allI conjI impI guards waited [THEN conjunct1] waited [THEN conjunct2, THEN conjunct1] waited [THEN conjunct2, THEN conjunct2])
    qed
  qed
qed

lemma sequentialWave_wp:
  assumes b: "between e input i (Suc i) lo es" and sep: "separated input i \<longrightarrow> outstanding es = {}"
    and job: "\<And>ac. job_for input i es (job ac)"
  shows "wp R (main_guard e input) (sequentialWave e c input ident due policy job lo) es (goes_on (\<lambda>lo' es'. between e input (Suc i) (Suc i) lo' es'))"
proof -
  let ?Q = "goes_on (\<lambda>lo' es'. between e input (Suc i) (Suc i) lo' es')"
  have job_calm: "job_for input i es' (job ac)" if "calm es es'" for es' ac
    using job [of ac] worked_same(1) [OF calm_worked [OF that]] by (simp add: job_for_def)
  have wave: "wp R (main_guard e input) (runWave e (job ac)) es' (\<lambda>run es''. wave_ran (job ac) es' (wr_Err run) es'')" if "calm es es'" for ac es'
    by (rule runWave_wp [OF main_admits [OF planned_intro [OF between_calm [OF b that] _ job_calm [OF that]]]])
      (use sep worked_same(3) [OF calm_worked [OF that]] in simp)
  have cancel: "quiet (case contextID x of Some n \<Rightarrow> EvCancel n | None \<Rightarrow> EvContext x)" for x by (simp split: option.split)
  have release: "wp R quietly (if limited then CancelCtx ac (Ret run) else Ret run) es' (\<lambda>run' es''. run' = run)" for limited ac run es'
    by (simp add: Let_def cancel)
  have handle: "wp R (main_guard e input) (orReturn (handleWaveResult c input ident lo run)
      (\<lambda>lo1. Ret (Inr (if due then lo1\<lparr>lo_Window := emptyWindow\<rparr> else lo1)))) es3 ?Q"
    if "calm es es1" "wave_ran (job ac) es1 (wr_Err run) es2" "calm es2 es3" for ac run es1 es2 es3
  proof (rule orReturn_wp [OF handleWaveResult_wp])
    have w: "wave_ran (job ac) es1 (wr_Err run) es3" by (rule wave_ran_calm [OF that(2,3)])
    then have "worked es es3" using worked_trans [OF calm_worked [OF that(1)]] by (simp add: wave_ran_def)
    then show "pending_ok (lo_Pending lo) es3" using b by (simp add: pending_worked between_def)
    show "between e input (Suc i) (Suc i) lo es3" if "wr_Err run = None"
      by (rule after_wave [OF between_calm [OF b \<open>calm es es1\<close>] job_calm [OF \<open>calm es es1\<close>]]) (use w that in simp)
  qed simp
  show ?thesis
    unfolding sequentialWave_def Let_def
    apply (rule quiet_seq [where P = "\<lambda>_ _. True"])
     apply simp
    apply (rule wp_seq [OF wave])
     apply assumption
    apply (rule quiet_seq [OF release])
    apply (simp only:)
    apply (rule handle)
      apply assumption+
    done
qed
lemma if_wp: "(b \<Longrightarrow> wp R G p es Q) \<Longrightarrow> wp R G q es Q \<Longrightarrow> wp R G (if b then p else q) es Q"
  by simp

lemma waveIteration_wp:
  assumes b: "between e input i i lo es" and v: "validateExecuteInput input = Inr groups" and i: "i < length (xi_Waves input)"
    and dry: "id_DryRun ident = effectiveDryRun input"
  shows "wp R (main_guard e input) (waveIteration e c input groups ident i (xi_Waves input ! i) lo) es
    (goes_on (\<lambda>lo' es'. between e input (Suc i) (Suc i) lo' es'))"
proof -
  have job: "job_for input i es' (waveJobFor c ac input groups ident (effectiveDryRun input \<or> refused es') (policyOf input) w due start i (xi_Waves input ! i) st)"
    for es' ac w due start st
    using v i by (simp add: job_for_def waveJobFor_def)
  have run: "wp R (main_guard e input) (Report p (Now (\<lambda>start.
      let window = w start; job = (\<lambda>ac. waveJobFor c ac input groups ident dry (policyOf input) window due start i (xi_Waves input ! i) st) in
      if policyOf input = TierOverrunPolicyOverlap \<and> due \<and> tw_EffectiveDuration window > 0
      then overlapWave c input ident (job c) (lo2\<lparr>lo_Window := window\<rparr>)
      else sequentialWave e c input ident due (policyOf input) job (lo2\<lparr>lo_Window := window\<rparr>)))) es'
      (goes_on (\<lambda>lo' es'. between e input (Suc i) (Suc i) lo' es'))"
    if "between e input i (Suc i) lo2 es'" and "separated input i \<longrightarrow> outstanding es' = {}" and "dry = (effectiveDryRun input \<or> refused es')"
    for p w dry due st lo2 es'
    unfolding wp.simps Let_def
  proof (intro allI conjI admits_basicD(1) [OF main_basic] quiet_events, goal_cases)
    case (1 start)
    let ?es = "EvNow start # EvReport p # es'"
    have calm: "calm es' ?es" by (intro calm_step calm_refl) (simp_all add: quiet_plain)
    note same = worked_same [OF calm_worked [OF calm]]
    have b2: "between e input i (Suc i) (lo2\<lparr>lo_Window := x\<rparr>) ?es" for x using between_calm [OF that(1) calm] by simp
    have sep: "separated input i \<longrightarrow> outstanding ?es = {}" using that(2) same(3) by simp
    have dry: "dry = (effectiveDryRun input \<or> refused ?es)" using that(3) same(1) by simp
    show ?case
      unfolding dry by (rule if_wp) (erule conjE, rule overlapWave_wp [OF b2 sep job], assumption, rule sequentialWave_wp [OF b2 sep job])
  qed
  show ?thesis
    unfolding waveIteration_def Let_def
  proof (rule orReturn_wp [OF joinBarrier_wp [OF b v]], goal_cases)
    case (1 lo1 es1)
    then have b1: "between e input i i lo1 es1" by blast
    show ?case
    proof (rule orReturn_wp [OF boundaryState_wp [OF b1]], goal_cases)
      case (1 st es2)
      have b2: "between e input i i lo1 es2" and sep: "separated input i \<longrightarrow> outstanding es2 = {}"
        using \<open>_ \<and> _\<close> 1 between_calm [OF b1] worked_same(3) [OF calm_worked [OF 1]] by auto
      show ?case
        unfolding dry
      proof (rule wp_seq [OF approvalGate_wp [OF b2 sep]], goal_cases)
        case (1 x es3)
        obtain waveDry revoked where x: "x = (waveDry, revoked)" by (cases x)
        have "between e input i (Suc i) (lo1\<lparr>lo_Revoked := revoked, lo_Adaptive := ad, lo_Result := r\<rparr>) es3" for ad r
          using 1 x by (simp add: between_def)
        then show ?case unfolding x case_prod_conv by (rule run [unfolded Let_def]) (use 1 x in auto)
      qed
    qed
  qed
qed

lemma executeWaves_wp:
  assumes "validateExecuteInput input = Inr groups" and "id_DryRun ident = effectiveDryRun input"
  shows "between e input i i lo es \<Longrightarrow> i + length waves = length (xi_Waves input) \<Longrightarrow> waves = drop i (xi_Waves input) \<Longrightarrow>
    wp R (main_guard e input) (executeWaves e c input groups ident i waves lo) es
      (goes_on (\<lambda>lo' es'. between e input (length (xi_Waves input)) (length (xi_Waves input)) lo' es'))"
proof (induction waves arbitrary: i lo es)
  case Nil
  then show ?case by simp
next
  case (Cons wave waves)
  have i: "i < length (xi_Waves input)" using Cons.prems(2) by simp
  have wave: "wave = xi_Waves input ! i" "waves = drop (Suc i) (xi_Waves input)"
    using Cons.prems(3) i by (simp_all add: Cons_nth_drop_Suc [symmetric])
  show ?case
    unfolding executeWaves.simps wave(1)
    by (rule orReturn_wp [OF waveIteration_wp [OF Cons.prems(1) assms(1) i assms(2)]]) (rule Cons.IH, use wave Cons.prems in auto)
qed

definition run_finished :: "ExecInput \<Rightarrow> ExecResult \<times> error \<Rightarrow> event list \<Rightarrow> bool" where
  "run_finished input r es \<longleftrightarrow> (rs_Phase (fst r) = PhaseCompleted \<longrightarrow> outstanding es = {} \<and>
     history_ok input (length (xi_Waves input)) es \<and> (\<forall>k < length (xi_Waves input). wave_ended input k es))"

lemma finished_aborted: "aborted r \<Longrightarrow> run_finished input r es" by (simp add: run_finished_def)

lemma finished_calm: "run_finished input r es \<Longrightarrow> calm es es' \<Longrightarrow> run_finished input r es'"
  unfolding run_finished_def
  using history_calm [of input _ es es'] wave_ended_mono [OF _ calm_subset, of input _ es es'] worked_same(3) [OF calm_worked, of es es'] by auto

lemma finishExecution_wp: "wp R quietly (finishExecution c input ident result recordErr) es (\<lambda>r es'. True)"
proof -
  have "wp R quietly (recordAborted c input ident result err '''' recordErr) es' (\<lambda>r es'. True)" for err es'
    by (rule wp_mono [OF recordAborted_wp]) simp
  then show ?thesis by (simp add: finishExecution_def recordCompletion_def Let_def split: option.split)
qed

lemma finishWaves_wp:
  assumes b: "between e input (length (xi_Waves input)) n lo es"
  shows "wp R (main_guard e input) (finishWaves c input ident lo) es (run_finished input)"
  unfolding finishWaves_def
proof (rule join_wp [OF b], goal_cases)
  case (1 err failedGroup rerr lo' es')
  show ?case
  proof (cases err)
    case (Some msg)
    then show ?thesis
      by (simp add: Let_def) (rule quiet_main [OF recordAborted_wp], simp add: finished_aborted)
  next
    case None
    then have b': "between e input (length (xi_Waves input)) n lo' es'" "outstanding es' = {}" using 1 by blast+
    have "run_finished input r es''" if "calm es' es''" for r es''
      using between_calm [OF b'(1) that] b'(2) worked_same(3) [OF calm_worked [OF that]] by (simp add: run_finished_def between_def)
    then show ?thesis using None by (simp add: Let_def) (rule quiet_main [OF finishExecution_wp], simp)
  qed
qed

theorem Execute_wp: "wp R (main_guard e input) (Execute e input) [] (run_finished input)"
proof -
  have cancel: "quiet (case contextID x of Some n \<Rightarrow> EvCancel n | None \<Rightarrow> EvContext x)" for x by (simp split: option.split)
  have release: "wp R (main_guard e input) (CancelCtx c (Ret r)) es (run_finished input)" if "run_finished input r es" for c r es
    using that finished_calm [OF that calm_Cons [OF quiet_plain [OF cancel]]] admits_basicD(1) [OF main_basic cancel] by (simp add: Let_def)
  have start: "between e input 0 0 \<lparr>lo_Result = result, lo_RecordErr = err, lo_Adaptive = ad, lo_Window = emptyWindow, lo_Pending = [], lo_Revoked = False\<rparr> es"
    if "calm [] es" for result err ad es
    by (rule between_calm [OF _ that]) (simp add: between_def pending_ok_def outstanding_def refused_def approvals_def history_ok_def)
  have defaults: "wp R quietly (executionDefaults input) es (\<lambda>_ _. True)" for es by (simp add: executionDefaults_def Let_def)
  have body: "wp R (main_guard e input) (executeBody e c input groups) es (run_finished input)"
    if "validateExecuteInput input = Inr groups" "calm [] es" for c groups es
    unfolding executeBody_def Let_def
  proof (rule calm_seq [OF that(2) main_basic defaults], goal_cases)
    case (1 x es1)
    have "calm [] (EvRecord c (ExecutionRecord row) err # es1)" for row err by (rule calm_step [OF 1(2)]) (simp add: quiet_plain)
    note waves = executeWaves_wp [OF that(1) _ start [OF this]]
    show ?case
    proof (cases x)
      case (fields executionID observedAt mode reason)
      show ?thesis
        unfolding fields case_prod_conv wp.simps
      proof (intro allI conjI admits_basicD(1) [OF main_basic] quiet_events wp_seq [OF waves], goal_cases)
        case (4 err outcome es2)
        then show ?case by (cases outcome) (simp_all add: finished_aborted finishWaves_wp)
      qed simp_all
    qed
  qed
  have validated: "wp R (main_guard e input) (case validateExecuteInput input of Inl err \<Rightarrow> Ret (zeroResult, Some err)
      | Inr groups \<Rightarrow> executeBody e c input groups) es (run_finished input)" if "calm [] es" for c es
  proof (cases "validateExecuteInput input")
    case (Inl err)
    then show ?thesis by (simp add: run_finished_def zeroResult_def PhaseCompleted_def)
  next
    case (Inr groups)
    then show ?thesis using body [OF Inr that] by simp
  qed
  have "calm [] [EvContext x]" for x by (rule calm_Cons) (simp add: quiet_plain)
  then show ?thesis
    unfolding Execute_def wp.simps
    by (intro allI conjI admits_basicD(1) [OF main_basic] quiet_events wp_seq [OF validated release])
qed

end
