(* ===== verification/ExecutorProperties.thy ===== *)
theory ExecutorProperties
  imports ExecutorSafety
begin

text \<open>
  The properties of whole executions, read off their histories: what an action, an agent shutdown and
  a release record rest on, the order of waves, what a failure stops, and what a reported completion
  means.  Example runs show that the hypotheses can hold.
\<close>

section \<open>Histories\<close>

abbreviation historyOf :: "Executor \<Rightarrow> Runtime \<Rightarrow> ExecInput \<Rightarrow> history" where
  "historyOf e rt input \<equiv> sy_History (snd (execution e rt input))"

text \<open>The events of the main thread before the wave that thread \<open>t\<close> works on was handed to it.\<close>

definition starts :: "nat \<Rightarrow> nat \<times> event \<Rightarrow> bool" where
  "starts n x \<longleftrightarrow> fst x = 0 \<and> (case snd x of EvSpawn m job \<Rightarrow> m = n | _ \<Rightarrow> False)"

definition launch :: "nat \<Rightarrow> history \<Rightarrow> event list" where
  "launch t h = (case t of 0 \<Rightarrow> own 0 h | Suc n \<Rightarrow> own 0 (tl (dropWhile (\<lambda>x. \<not> starts n x) h)))"

lemma starts_spawn: "starts n x \<longleftrightarrow> (\<exists>job. x = (0, EvSpawn n job))"
  by (cases x) (auto simp: starts_def split: event.splits)

lemma execution_consistent:
  assumes "execution e rt input = (r, s)"
  shows "exec.consistent e input s" "run_finished input r (own 0 (sy_History s))"
  using exec.run_consistent [where e = e and rt = rt and input = input, OF exec.consistent_empty, of "Execute e input" "run_finished input" r s] Execute_wp assms
  by (simp_all add: execution_def)

lemma execution_good: "exec.good e input (historyOf e rt input)"
  "(0, EvSpawn n job) \<in> set (historyOf e rt input) \<Longrightarrow> (0, EvSpawn n job') \<in> set (historyOf e rt input) \<Longrightarrow> job = job'"
  using execution_consistent(1) [of e rt input] by (auto simp: exec.consistent_def prod_eq_iff)

lemma good_split: "exec.good e input (later @ x # earlier) \<Longrightarrow> exec.event_ok e input earlier x"
  "exec.good e input (later @ earlier) \<Longrightarrow> exec.good e input earlier"
  by (induction later) auto

lemma own_member: "ev \<in> set (own t h) \<longleftrightarrow> (t, ev) \<in> set h"
  by (force simp: own_def)

text \<open>What every action rests on.\<close>

definition based :: "Executor \<Rightarrow> ExecInput \<Rightarrow> nat \<Rightarrow> history \<Rightarrow> Action \<Rightarrow> nat \<Rightarrow> waveJob \<Rightarrow> bool" where
  "based e input t earlier a i job \<longleftrightarrow> planned e input i (launch t earlier) job \<and> wave_action_ok e job (own t earlier) a \<and>
     (\<forall>n. t = Suc n \<longrightarrow> policyOf input = TierOverrunPolicyOverlap \<and> (0, EvSpawn n job) \<in> set earlier \<and>
        \<not> list_ex failure (own t earlier) \<and> (\<forall>x. (0, EvReceive n x) \<notin> set earlier))"

lemma launch_split:
  assumes "historyOf e rt input = later @ earlier" and "(0, EvSpawn n job) \<in> set earlier"
  obtains mid old where "earlier = mid @ (0, EvSpawn n job) # old" "launch (Suc n) earlier = own 0 old"
proof -
  let ?rest = "dropWhile (\<lambda>x. \<not> starts n x) earlier"
  have "?rest \<noteq> []" using assms(2) by (auto simp: dropWhile_eq_Nil_conv starts_spawn)
  then have "starts n (hd ?rest)" using hd_dropWhile by blast
  then obtain job' where head: "?rest = (0, EvSpawn n job') # tl ?rest"
    using \<open>?rest \<noteq> []\<close> by (cases ?rest) (auto simp: starts_spawn)
  obtain skipped where skipped: "earlier = skipped @ (0, EvSpawn n job') # tl ?rest"
    using takeWhile_dropWhile_id [of "\<lambda>x. \<not> starts n x" earlier] head by metis
  have "(0, EvSpawn n job') \<in> set earlier" by (subst skipped) simp
  then have "job' = job" using assms execution_good(2) [of n job' e rt input job] by auto
  then show ?thesis using that [OF _ _] skipped by (simp add: launch_def)
qed

lemma spawn_basis:
  assumes h: "historyOf e rt input = later @ earlier" and sp: "(0, EvSpawn n job) \<in> set earlier"
  shows "policyOf input = TierOverrunPolicyOverlap \<and> (\<exists>i. planned e input i (launch (Suc n) earlier) job)"
proof -
  obtain mid old where split: "earlier = mid @ (0, EvSpawn n job) # old" and start: "launch (Suc n) earlier = own 0 old"
    using launch_split [OF h sp] .
  have "exec.event_ok e input old (0, EvSpawn n job)"
    using execution_good(1) [of e input rt] good_split(1) [of e input "later @ mid"] h unfolding split by fastforce
  then show ?thesis by (simp add: exec.main_event_ok_def main_guard_def start)
qed

lemma run_basis:
  assumes h: "historyOf e rt input = later @ (t, EvRun c a r) # earlier"
  obtains i job where "based e input t earlier a i job"
proof -
  have ok: "exec.event_ok e input earlier (t, EvRun c a r)" using execution_good(1) [of e input rt] good_split(1) h by metis
  show ?thesis
  proof (cases t)
    case 0
    then obtain i job where "planned e input i (own 0 earlier) job" "wave_action_ok e job (own 0 earlier) a"
      using ok by (auto simp: exec.main_event_ok_def main_guard_def)
    then have "based e input t earlier a i job" by (simp add: based_def launch_def 0)
    then show ?thesis by (rule that)
  next
    case (Suc n)
    then obtain job where job: "(0, EvSpawn n job) \<in> set earlier" "job_guard e job (own (Suc n) earlier) (EvRun c a r)" "\<forall>x. (0, EvReceive n x) \<notin> set earlier"
      using ok by (auto simp: exec.job_event_ok_def)
    have "historyOf e rt input = (later @ [(t, EvRun c a r)]) @ earlier" using h by simp
    then obtain i where "policyOf input = TierOverrunPolicyOverlap" "planned e input i (launch (Suc n) earlier) job"
      using spawn_basis [OF _ job(1)] by blast
    then have "based e input t earlier a i job" using job unfolding based_def job_guard_def Suc by simp
    then show ?thesis by (rule that)
  qed
qed

lemma based_index: "based e input t earlier a i job \<Longrightarrow> i < length (xi_Waves input) \<and> ac_WaveIndex a = xw_Index (xi_Waves input ! i) \<and>
    ac_DryRun a = (effectiveDryRun input \<or> refused (launch t earlier))"
  by (auto simp: based_def planned_def job_for_def wave_action_ok_def run_of_def)

lemma based_dry: "based e input t earlier a i job \<Longrightarrow> ac_DryRun a \<Longrightarrow> xg_Action (ac_Group a) = ActionRunHook"
  by (simp add: based_def wave_action_ok_def)




text \<open>A record of a released node follows an action of the same thread that published the node's signal.\<close>

lemma release_basis:
  assumes "(t, EvRecord c (ReleaseRecord rec) err) \<in> set (historyOf e rt input)" and "rr_Released rec"
  shows "\<exists>later earlier c' a out rerr. historyOf e rt input = later @ (t, EvRun c' a (out, rerr)) # earlier \<and>
    release_backed_by (ac_DryRun a) (ac_Group a) out rec"
proof -
  obtain later old where h: "historyOf e rt input = later @ (t, EvRecord c (ReleaseRecord rec) err) # old" using split_list [OF assms(1)] by blast
  have "exec.event_ok e input old (t, EvRecord c (ReleaseRecord rec) err)" using execution_good(1) [of e input rt] good_split(1) h by metis
  then have "release_ok (own t old) rec"
    using assms(2) by (cases t) (auto simp: exec.main_event_ok_def main_guard_def exec.job_event_ok_def job_guard_def)
  then obtain c' a out rerr where run: "(t, EvRun c' a (out, rerr)) \<in> set old" "release_backed_by (ac_DryRun a) (ac_Group a) out rec"
    by (auto simp: release_ok_def own_member)
  then obtain o1 o2 where "old = o1 @ (t, EvRun c' a (out, rerr)) # o2" by (auto dest: split_list)
  then have "historyOf e rt input = (later @ (t, EvRecord c (ReleaseRecord rec) err) # o1) @ (t, EvRun c' a (out, rerr)) # o2" using h by simp
  then show ?thesis using run(2) by blast
qed

text \<open>The groups the input declares are found under their names.\<close>

lemma indexGroups_loop_Inr:
  "indexGroups_loop gs m = Inr groups \<Longrightarrow>
     (\<forall>g \<in> set gs. xg_Name g \<noteq> '''' \<and> xg_Action g \<noteq> '''' \<and> map_of m (xg_Name g) = None) \<and> distinct (map xg_Name gs) \<and>
     (\<forall>k g. map_of groups k = Some g \<longleftrightarrow> map_of m k = Some g \<or> g \<in> set gs \<and> xg_Name g = k)"
proof (induction gs arbitrary: m)
  case Nil
  then show ?case by simp
next
  case (Cons g gs)
  then have ok: "xg_Name g \<noteq> ''''" "xg_Action g \<noteq> ''''" "map_of m (xg_Name g) = None" "indexGroups_loop gs (gm_put (xg_Name g) g m) = Inr groups"
    by (auto split: if_splits)
  note IH = Cons.IH [OF ok(4)]
  have fresh: "xg_Name g' \<noteq> xg_Name g" if "g' \<in> set gs" for g' using IH that by (auto split: if_splits)
  have "map_of m (xg_Name g') = None" if "g' \<in> set gs" for g' using IH that fresh [OF that] by auto
  moreover have "map_of groups k = Some x \<longleftrightarrow> map_of m k = Some x \<or> x \<in> set (g # gs) \<and> xg_Name x = k" for k x
    using IH ok(3) fresh by (cases "k = xg_Name g") auto
  moreover have "xg_Name g \<notin> xg_Name ` set gs" using fresh by force
  ultimately show ?case using IH ok(1-3) by auto
qed

lemma indexGroups_loop_total:
  "\<forall>g \<in> set gs. xg_Name g \<noteq> '''' \<and> xg_Action g \<noteq> '''' \<and> map_of m (xg_Name g) = None \<Longrightarrow> distinct (map xg_Name gs) \<Longrightarrow>
     \<exists>groups. indexGroups_loop gs m = Inr groups"
proof (induction gs arbitrary: m)
  case (Cons g gs)
  then have "\<exists>groups. indexGroups_loop gs (gm_put (xg_Name g) g m) = Inr groups" by (intro Cons.IH) (auto simp: image_iff)
  then show ?case using Cons.prems by simp
qed simp

lemma validateWaveGroups_None: "validateWaveGroups groups i names = None \<longleftrightarrow> (\<forall>name \<in> set names. map_of groups name \<noteq> None)"
  by (induction names) auto

lemma validateWaves_None: "validateWaves groups ws = None \<longleftrightarrow> (\<forall>w \<in> set ws. xw_Groups w \<noteq> [] \<and> (\<forall>name \<in> set (xw_Groups w). map_of groups name \<noteq> None))"
proof (induction ws)
  case (Cons w ws)
  then show ?case
    using validateWaveGroups_None [of groups "xw_Index w" "xw_Groups w"]
    by (cases "validateWaveGroups groups (xw_Index w) (xw_Groups w)") auto
qed simp




section \<open>Properties\<close>

text \<open>C8. An execution that is not to be enforced (a dry run, another mode than enforce, or no approval)
  touches nothing: the only actions it hands to the runner are hooks, marked as dry runs, and it
  records no node as released.  This holds in every thread, whatever the dependencies do.\<close>

theorem dry_run_harmless:
  assumes "effectiveDryRun input" and "(t, ev) \<in> set (historyOf e rt input)"
  shows "case ev of EvRun c a r \<Rightarrow> ac_DryRun a \<and> xg_Action (ac_Group a) = ActionRunHook
    | EvRecord c (ReleaseRecord rec) err \<Rightarrow> \<not> rr_Released rec | _ \<Rightarrow> True"
proof -
  have run: "ac_DryRun a \<and> xg_Action (ac_Group a) = ActionRunHook" if mem: "(t, EvRun c a r) \<in> set (historyOf e rt input)" for t c a r
  proof -
    obtain later earlier where h: "historyOf e rt input = later @ (t, EvRun c a r) # earlier" using split_list [OF mem] by blast
    obtain i job where "based e input t earlier a i job" using run_basis [OF h] .
    then show ?thesis using based_index [of e input t earlier a i job] based_dry assms(1) by blast
  qed
  have "\<not> rr_Released rec" if mem: "(t, EvRecord c (ReleaseRecord rec) err) \<in> set (historyOf e rt input)" for c rec err
  proof
    assume "rr_Released rec"
    then obtain later earlier c' a out rerr where "historyOf e rt input = later @ (t, EvRun c' a (out, rerr)) # earlier" "\<not> ac_DryRun a"
      using release_basis [OF mem] unfolding release_backed_by_def by blast
    then show False using run [of t c' a "(out, rerr)"] by auto
  qed
  note records = this
  show ?thesis
  proof (cases ev)
    case (EvRun c a r)
    then show ?thesis using assms(2) run by simp
  next
    case (EvRecord c rec err)
    then show ?thesis using assms(2) records by (cases rec) simp_all
  qed simp_all
qed

text \<open>C2. A host agent is told to shut down only outside a dry run, when every node to release is ready,
  fresh and cleared, when the evidence was read anew in the same thread before the action (if a
  refresher is configured), and, if the node takes over the terminal handoff, only as the single group
  of the last wave.\<close>

theorem shutdown_only_cleared:
  assumes "historyOf e rt input = later @ (t, EvRun c a r) # earlier" and "xg_Action (ac_Group a) = ActionAgentShutdown"
    and "rel \<in> set (xg_NodeReleases (ac_Group a))"
  shows "\<not> ac_DryRun a \<and> clearedForRelease rel \<and> (ex_RefreshNodeRelease e \<noteq> None \<longrightarrow> refreshed_release (own t earlier) rel) \<and>
    (nr_TerminalHandoff rel \<longrightarrow> ac_WaveIndex a = xw_Index (last (xi_Waves input)) \<and> length (xw_Groups (last (xi_Waves input))) = 1)"
proof -
  obtain i job where b: "based e input t earlier a i job" using run_basis [OF assms(1)] .
  have live: "\<not> ac_DryRun a" using based_dry [OF b] assms(2) by (auto simp: ActionRunHook_def ActionAgentShutdown_def)
  have ok: "gate_open e (ac_DryRun a) (ac_Group a) (own t earlier)"
    "nr_TerminalHandoff rel \<longrightarrow> wc_TerminalWave (wj_Config job) \<and> length (xw_Groups (wj_Wave job)) = 1"
    using b assms(2,3) unfolding based_def wave_action_ok_def by blast+
  have wave: "wj_Wave job = xi_Waves input ! i" "wc_TerminalWave (wj_Config job) = (Suc i = length (xi_Waves input))"
    using b unfolding based_def planned_def job_for_def by blast+
  have "nr_TerminalHandoff rel \<longrightarrow> xi_Waves input ! i = last (xi_Waves input) \<and> length (xw_Groups (xi_Waves input ! i)) = 1"
    using ok(2) wave by (auto simp: last_conv_nth) (metis diff_Suc_1 last_conv_nth list.size(3) nat.distinct(1))
  then show ?thesis using ok(1) live assms(2,3) based_index [OF b] unfolding gate_open_def by auto
qed

text \<open>C7. An action is carried out for real only in an enforced and approved execution, and, where an approval
  checker is configured, only if every approval asked for before its wave started was given without an
  error, one for each wave up to and including its own: a refusal or a failed check is never forgotten.\<close>

theorem approval_required:
  assumes "historyOf e rt input = later @ (t, EvRun c a r) # earlier" and "\<not> ac_DryRun a"
  shows "\<not> effectiveDryRun input \<and> \<not> refused (launch t earlier) \<and>
    (\<exists>i < length (xi_Waves input). ac_WaveIndex a = xw_Index (xi_Waves input ! i) \<and>
      (ex_ApprovalChecker e \<noteq> None \<longrightarrow> approvals (launch t earlier) = Suc i))"
proof -
  obtain i job where b: "based e input t earlier a i job" using run_basis [OF assms(1)] .
  note facts = based_index [OF b]
  have "\<not> wc_DryRun (wj_Config job)" using b facts assms(2) unfolding based_def planned_def job_for_def by blast
  then have "ex_ApprovalChecker e \<noteq> None \<longrightarrow> approvals (launch t earlier) = Suc i" using b unfolding based_def planned_def by blast
  then show ?thesis using facts assms(2) by blast
qed

text \<open>The main-thread event that stands for the start of a wave: its first action or its goroutine.\<close>

definition wave_mark :: "ExecInput \<Rightarrow> nat \<Rightarrow> event \<Rightarrow> bool" where
  "wave_mark input i ev \<longleftrightarrow> (case ev of EvRun c a r \<Rightarrow> ac_WaveIndex a = xw_Index (xi_Waves input ! i)
     | EvSpawn n job \<Rightarrow> wj_Wave job = xi_Waves input ! i | _ \<Rightarrow> False)"

lemma index_inj: "distinct (map xw_Index ws) \<Longrightarrow> k < length ws \<Longrightarrow> i < length ws \<Longrightarrow> xw_Index (ws ! k) = xw_Index (ws ! i) \<Longrightarrow> k = i"
  using nth_eq_iff_index_eq [of "map xw_Index ws" k i] by simp

lemma list_order: "p @ x # xs = q @ y # ys \<Longrightarrow> x = y \<or> x \<in> set ys \<or> y \<in> set xs"
  by (auto simp: append_eq_append_conv2 Cons_eq_append_conv append_eq_Cons_conv)

lemma wave_mark_before:
  assumes "planned e input j es job" and "ev \<in> set es" and "wave_mark input i ev" and "i < length (xi_Waves input)"
    and distinct: "distinct (map xw_Index (xi_Waves input))"
  shows "i \<le> j"
proof -
  have j: "j < length (xi_Waves input)" using assms(1) by (simp add: planned_def job_for_def)
  have same: "k = i" if "k \<le> j" "xw_Index (xi_Waves input ! k) = xw_Index (xi_Waves input ! i)" for k
    using index_inj [OF distinct _ assms(4)] that j by simp
  show ?thesis
  proof (cases ev)
    case (EvRun c a r)
    then obtain k where "k < Suc j" "ac_WaveIndex a = xw_Index (xi_Waves input ! k)" using assms(1,2) unfolding planned_def by blast
    then show ?thesis using same [of k] assms(3) EvRun by (auto simp: wave_mark_def)
  next
    case (EvSpawn n job')
    then obtain k where "k < j" "wj_Wave job' = xi_Waves input ! k" using assms(1,2) unfolding planned_def by blast
    then show ?thesis using same [of k] assms(3) EvSpawn by (auto simp: wave_mark_def)
  qed (use assms(3) in \<open>auto simp: wave_mark_def\<close>)
qed

lemma based_mark:
  assumes h: "historyOf e rt input = later @ (t, EvRun c a r) # earlier" and b: "based e input t earlier a i job"
  obtains mid ev old where "(t, EvRun c a r) # earlier = mid @ (0, ev) # old" "wave_mark input i ev" "launch t earlier = own 0 old"
    "set old \<subseteq> set earlier" "\<And>n. t = Suc n \<Longrightarrow> ev = EvSpawn n job"
proof (cases t)
  case 0
  have "wave_mark input i (EvRun c a r)" using based_index [OF b] by (simp add: wave_mark_def)
  then show ?thesis by (rule that [of "[]" _ earlier, rotated]) (simp_all add: 0 launch_def)
next
  case (Suc n)
  then have sp: "(0, EvSpawn n job) \<in> set earlier" using b by (simp add: based_def)
  have "historyOf e rt input = (later @ [(t, EvRun c a r)]) @ earlier" using h by simp
  from launch_split [OF this sp] obtain mid old where split: "earlier = mid @ (0, EvSpawn n job) # old" "launch (Suc n) earlier = own 0 old" .
  have "wave_mark input i (EvSpawn n job)" using b by (simp add: wave_mark_def based_def planned_def job_for_def)
  then show ?thesis by (rule that [of "(t, EvRun c a r) # mid" _ old, rotated]) (auto simp: split Suc split(2) [unfolded split(1)])
qed

text \<open>C10. A wave that is a communication barrier or the terminal handoff is a barrier for the execution:
  once one of its actions has run, no action of an earlier wave runs any more, in any thread.\<close>

theorem barrier_order:
  assumes h: "historyOf e rt input = later @ (t, EvRun c a r) # earlier" and i: "i < length (xi_Waves input)"
    and "ac_WaveIndex a = xw_Index (xi_Waves input ! i)" and sep: "separated input i"
    and later: "(t', EvRun c' a' r') \<in> set later" and distinct: "distinct (map xw_Index (xi_Waves input))"
  shows "\<exists>j. i \<le> j \<and> j < length (xi_Waves input) \<and> ac_WaveIndex a' = xw_Index (xi_Waves input ! j)"
proof -
  obtain i' job where b0: "based e input t earlier a i' job" using run_basis [OF h] .
  then have "i' = i" using based_index [OF b0] assms(3) i index_inj [OF distinct] by metis
  with b0 have b: "based e input t earlier a i job" by simp
  obtain mid ev old where mark: "(t, EvRun c a r) # earlier = mid @ (0, ev) # old" "wave_mark input i ev" "launch t earlier = own 0 old"
    "set old \<subseteq> set earlier" using based_mark [OF h b] .
  obtain l1 l2 where l: "later = l1 @ (t', EvRun c' a' r') # l2" using split_list [OF later] by blast
  let ?earlier = "l2 @ (t, EvRun c a r) # earlier"
  have h': "historyOf e rt input = l1 @ (t', EvRun c' a' r') # ?earlier" using h l by simp
  obtain j job' where b': "based e input t' ?earlier a' j job'" using run_basis [OF h'] .
  have planned: "planned e input j (launch t' ?earlier) job'" using b' by (simp add: based_def)
  note before = wave_mark_before [OF planned _ mark(2) i distinct]
  have "i \<le> j"
  proof (cases t')
    case 0
    have "ev \<in> set (launch t' ?earlier)" unfolding mark(1) 0 by (simp add: launch_def own_member)
    then show ?thesis by (rule before)
  next
    case (Suc m)
    obtain mid' ev' old' where mark': "(t', EvRun c' a' r') # ?earlier = mid' @ (0, ev') # old'" "wave_mark input j ev'"
      "launch t' ?earlier = own 0 old'" and ev': "ev' = EvSpawn m job'" using based_mark [OF h' b'] Suc by metis
    have "(t', EvRun c' a' r') # l2 @ mid @ (0, ev) # old = mid' @ (0, ev') # old'" using mark(1) mark'(1) by simp
    then have "((t', EvRun c' a' r') # l2 @ mid) @ (0, ev) # old = mid' @ (0, ev') # old'" by simp
    from list_order [OF this] consider "ev = ev'" | "(0, ev) \<in> set old'" | "(0, ev') \<in> set old" by blast
    then show ?thesis
    proof cases
      case 1
      then have "xw_Index (xi_Waves input ! i) = xw_Index (xi_Waves input ! j)" using mark(2) mark'(2) ev' by (simp add: wave_mark_def)
      then show ?thesis using index_inj [OF distinct i, of j] based_index [OF b'] by simp
    next
      case 2
      then show ?thesis using before mark'(3) by (simp add: own_member)
    next
      case 3
      have "outstanding (own 0 old) = {}" using b sep mark(3) by (simp add: based_def planned_def)
      then obtain x where "(0, EvReceive m x) \<in> set earlier" using 3 ev' mark(4) by (auto simp: outstanding_def own_member)
      then show ?thesis using b' Suc by (auto simp: based_def)
    qed
  qed
  then show ?thesis using based_index [OF b'] by blast
qed



text \<open>C15. A node is recorded as released only after an action of the same thread, carried out for real for a
  group that releases this node, whose readiness evidence cleared it and whose signal the runner
  reported as published.\<close>

theorem released_only_confirmed:
  assumes "(t, EvRecord c (ReleaseRecord rec) err) \<in> set (historyOf e rt input)" and "rr_Released rec"
  shows "\<exists>later earlier c' a out rerr rel sig. historyOf e rt input = later @ (t, EvRun c' a (out, rerr)) # earlier \<and>
    \<not> ac_DryRun a \<and> rel \<in> set (xg_NodeReleases (ac_Group a)) \<and> nr_NodeName rel = rr_NodeName rec \<and> clearedForRelease rel \<and>
    sig \<in> set (ao_SignalResults out) \<and> signalFor rel sig \<and> ns_Published sig"
  using release_basis [OF assms] unfolding release_backed_by_def by blast

text \<open>C26. The executor accepts exactly the plans it can carry out: a flow name and a plan hash, groups with names and
  actions and no name twice, at least one wave, and in every wave at least one group, all of them declared.\<close>

theorem validateExecuteInput_exact:
  "(\<exists>groups. validateExecuteInput input = Inr groups) \<longleftrightarrow>
     xi_ShutdownFlow input \<noteq> '''' \<and> xi_PlanConfigHash input \<noteq> '''' \<and> xi_Waves input \<noteq> [] \<and>
     list_all (\<lambda>g. xg_Name g \<noteq> '''' \<and> xg_Action g \<noteq> '''') (xi_Groups input) \<and> distinct (map xg_Name (xi_Groups input)) \<and>
     list_all (\<lambda>w. xw_Groups w \<noteq> [] \<and> set (xw_Groups w) \<subseteq> set (map xg_Name (xi_Groups input))) (xi_Waves input)"
proof -
  have known: "validateWaves groups (xi_Waves input) = None \<longleftrightarrow>
      list_all (\<lambda>w. xw_Groups w \<noteq> [] \<and> set (xw_Groups w) \<subseteq> set (map xg_Name (xi_Groups input))) (xi_Waves input)"
    if "indexGroups_loop (xi_Groups input) [] = Inr groups" for groups
  proof -
    have "map_of groups k \<noteq> None \<longleftrightarrow> k \<in> set (map xg_Name (xi_Groups input))" for k
      using indexGroups_loop_Inr [OF that] by fastforce
    then show ?thesis by (auto simp: validateWaves_None list_all_iff subset_eq)
  qed
  show ?thesis
  proof (cases "indexGroups_loop (xi_Groups input) []")
    case (Inl err)
    have "\<not> (list_all (\<lambda>g. xg_Name g \<noteq> '''' \<and> xg_Action g \<noteq> '''') (xi_Groups input) \<and> distinct (map xg_Name (xi_Groups input)))"
      using indexGroups_loop_total [of "xi_Groups input" "[]"] Inl by (auto simp: list_all_iff)
    then show ?thesis using Inl by (auto simp: validateExecuteInput_def indexGroups_def)
  next
    case (Inr groups)
    have "list_all (\<lambda>g. xg_Name g \<noteq> '''' \<and> xg_Action g \<noteq> '''') (xi_Groups input) \<and> distinct (map xg_Name (xi_Groups input))"
      using indexGroups_loop_Inr [OF Inr] by (simp add: list_all_iff)
    then show ?thesis using Inr known [OF Inr] by (auto simp: validateExecuteInput_def indexGroups_def split: option.split)
  qed
qed

section \<open>The audit row of an execution\<close>

fun lastExecution :: "event list \<Rightarrow> ShutdownFlowExecution option" where
  "lastExecution [] = None"
| "lastExecution (ev # es) = (case ev of EvRecord c (ExecutionRecord row) err \<Rightarrow> Some row | _ \<Rightarrow> lastExecution es)"

definition audit_closed :: "ExecResult \<times> error \<Rightarrow> event list \<Rightarrow> bool" where
  "audit_closed r es \<longleftrightarrow>
     (rs_Phase (fst r) = PhaseCompleted \<and> snd r = None \<or> rs_Phase (fst r) = PhaseAborted) \<and>
       (\<exists>row. lastExecution es = Some row \<and> fe_Phase row = rs_Phase (fst r) \<and> fe_CompletedAt row \<noteq> None) \<or>
     rs_Phase (fst r) = PhaseFailed \<and> snd r \<noteq> None"

abbreviation any_call :: guard where
  "any_call \<equiv> (\<lambda>_ _. True)"

lemma wp_any [simp]: "wp R any_call p es (\<lambda>_ _. True)"
  by (induction p arbitrary: es) (simp_all add: Let_def)

lemma wp_after: "(\<And>a es'. wp R any_call (f a) es' Q) \<Longrightarrow> wp R any_call (andThen p f) es Q"
  by (rule wp_seq [OF wp_any]) simp

definition closes :: "('a \<Rightarrow> bool) \<Rightarrow> (ExecResult \<times> error) + 'a \<Rightarrow> event list \<Rightarrow> bool" where
  "closes P ans es \<longleftrightarrow> (case ans of Inl r \<Rightarrow> audit_closed r es | Inr a \<Rightarrow> P a)"

lemma closes_simps [simp]: "closes P (Inl r) es = audit_closed r es" "closes P (Inr a) es = P a"
  by (simp_all add: closes_def)

lemma orReturn_closes:
  assumes "wp R any_call p es (closes P)" and "\<And>a es'. P a \<Longrightarrow> wp R any_call (f a) es' (closes Q)"
  shows "wp R any_call (orReturn p f) es (closes Q)"
  unfolding orReturn_def
proof (rule wp_seq [OF assms(1)])
  show "wp R any_call (case x of Inl r \<Rightarrow> Ret (Inl r) | Inr a \<Rightarrow> f a) es' (closes Q)" if "closes P x es'" for x es'
    using that assms(2) by (cases x) simp_all
qed

lemma returning_closes: "wp R any_call p es audit_closed \<Longrightarrow> wp R any_call (returning p) es (closes P)"
  unfolding returning_def by (rule wp_seq) auto

lemma recordAborted_closed: "wp R any_call (recordAborted c input ident result err failedGroup recordErr) es audit_closed"
  by (auto simp: recordAborted_def Let_def audit_closed_def executionRow_def split: option.split)

lemma observationFailure_closed:
  "err \<noteq> None \<Longrightarrow> wp R any_call (recordObservationFailure c input ident result stopped err recordErr) es audit_closed"
  using recordAborted_closed by (simp add: recordObservationFailure_def audit_closed_def)

lemmas closing = returning_closes recordAborted_closed observationFailure_closed wp_after

abbreviation running :: "loopState \<Rightarrow> bool" where
  "running lo \<equiv> rs_Phase (lo_Result lo) = PhaseCompleted"

lemma absorbWave_phase [simp]: "rs_Phase (absorbWave r x) = rs_Phase r"
  by (simp add: absorbWave_def Let_def split: option.split)

lemma drainPending_phase: "wp R any_call (drainPending chs result firstErr failedGroup recordErr) es
    (\<lambda>y es'. rs_Phase (snd (snd (snd y))) = rs_Phase result)"
proof (induction chs arbitrary: es result firstErr failedGroup recordErr)
  case (Cons ch chs)
  show ?case using Cons.IH [of "absorbWave result x" for x] by (simp add: Let_def)
qed simp

lemma join_closes:
  assumes "\<And>y es'. rs_Phase (lo_Result (snd (snd (snd y)))) = rs_Phase (lo_Result lo) \<Longrightarrow> wp R any_call (f y) es' Q"
  shows "wp R any_call (andThen (waitForPending lo) f) es Q"
  unfolding waitForPending_def wp_andThen
  by (rule wp_mono [OF drainPending_phase]) (use assms in \<open>auto split: prod.split\<close>)

lemma joinBarrier_closes: "running lo \<Longrightarrow> wp R any_call (joinBarrier c input groups ident i wave lo) es (closes running)"
  by (auto simp: joinBarrier_def case_prod_beta Let_def closing intro!: join_closes simp del: wp_andThen)

lemma boundaryState_closes: "wp R any_call (boundaryState e c input ident i wave lo) es (closes (\<lambda>_. True))"
  by (auto simp: boundaryState_def case_prod_beta Let_def closing simp del: wp_andThen split: sum.split)

lemma handleWaveResult_closes: "running lo \<Longrightarrow> wp R any_call (handleWaveResult c input ident lo run) es (closes running)"
  by (auto simp: handleWaveResult_def case_prod_beta Let_def closing simp del: wp_andThen)

lemma window_closes:
  assumes "running lo"
  shows "wp R any_call (orReturn (handleWaveResult c input ident lo run) (\<lambda>lo1. Ret (Inr (if due then lo1\<lparr>lo_Window := emptyWindow\<rparr> else lo1)))) es (closes running)"
  by (rule orReturn_closes [OF handleWaveResult_closes [OF assms]]) simp

lemma overlapWave_closes: "running lo \<Longrightarrow> wp R any_call (overlapWave c input ident job lo) es (closes running)"
  using window_closes [where due = True]
  by (auto simp: overlapWave_def deferWave_def case_prod_beta Let_def closing simp del: wp_andThen)

lemma sequentialWave_closes: "running lo \<Longrightarrow> wp R any_call (sequentialWave e c input ident due policy job lo) es (closes running)"
  unfolding sequentialWave_def Let_def by (intro closing window_closes) simp

lemma waveIteration_closes: "running lo \<Longrightarrow> wp R any_call (waveIteration e c input groups ident i wave lo) es (closes running)"
  unfolding waveIteration_def Let_def case_prod_beta
  by (rule orReturn_closes [OF joinBarrier_closes], assumption, rule orReturn_closes [OF boundaryState_closes])
    (auto intro!: wp_after simp: overlapWave_closes sequentialWave_closes simp del: wp_andThen)

lemma executeWaves_closes: "running lo \<Longrightarrow> wp R any_call (executeWaves e c input groups ident i waves lo) es (closes running)"
  by (induction waves arbitrary: i lo es) (auto intro: orReturn_closes [OF waveIteration_closes])

lemma finishWaves_closed:
  assumes "running lo"
  shows "wp R any_call (finishWaves c input ident lo) es audit_closed"
  unfolding finishWaves_def
proof (rule join_closes)
  fix y :: "error \<times> string \<times> error \<times> loopState" and es'
  assume "rs_Phase (lo_Result (snd (snd (snd y)))) = rs_Phase (lo_Result lo)"
  then show "wp R any_call (case y of (pendingErr, failedGroup, pendingRecordErr, lo1) \<Rightarrow>
      let recordErr = joinErrors (lo_RecordErr lo1) pendingRecordErr in
      if pendingErr \<noteq> None then recordAborted c input ident (lo_Result lo1) pendingErr failedGroup recordErr
      else finishExecution c input ident (lo_Result lo1) recordErr) es' audit_closed"
    using assms by (auto simp: Let_def recordAborted_closed finishExecution_def recordCompletion_def audit_closed_def executionRow_def
        case_prod_beta split: option.split)
qed

lemma Execute_closed: "validateExecuteInput input = Inr groups \<Longrightarrow> wp R any_call (Execute e input) es audit_closed"
proof -
  assume v: "validateExecuteInput input = Inr groups"
  have rest: "wp R any_call (case outcome of Inl returned \<Rightarrow> Ret returned | Inr lo \<Rightarrow> finishWaves c input ident lo) es' audit_closed"
    if "closes running outcome es'" for outcome es' c ident
    using that by (cases outcome) (simp_all add: finishWaves_closed)
  have body: "wp R any_call (executeBody e c input groups) es audit_closed" for c es
    unfolding executeBody_def Let_def case_prod_beta
    apply (rule wp_after)
    apply (simp only: wp.simps)
    apply (intro allI conjI TrueI)
    apply (rule wp_seq [OF executeWaves_closes])
     apply simp
    apply (rule rest)
    apply assumption
    done
  have cancel: "audit_closed r ((case contextID x of Some n \<Rightarrow> EvCancel n | None \<Rightarrow> EvContext x) # es)" if "audit_closed r es" for r x es
    using that by (auto simp: audit_closed_def split: option.split)
  show ?thesis
    unfolding Execute_def using v body cancel by (auto simp: Let_def intro!: wp_seq simp del: wp_andThen)
qed

text \<open>C22. Every accepted execution ends with its audit row closed: the last row it writes for itself carries the phase it
  returns, Completed without an error or Aborted, and a completion time.  The only other way to end is
  Failed, with the error of an observation that could not be read.\<close>

theorem execution_closed:
  assumes "execution e rt input = (result, s)" and "validateExecuteInput input = Inr groups"
  shows "audit_closed result (own 0 (sy_History s))"
proof -
  have "wp exec.delivered (main_guard e input) (Execute e input) [] (\<lambda>r es. audit_closed r es)"
    by (rule wp_weaken [OF wp_mono [OF wp_conj [OF Execute_wp Execute_closed [OF assms(2)]]]]) auto
  then show ?thesis
    using exec.run_consistent [where e = e and rt = rt and input = input, OF exec.consistent_empty, of "Execute e input" audit_closed result s] assms(1)
    by (simp add: execution_def)
qed

section \<open>Example runs\<close>

text \<open>A flow of two waves: a communication barrier that shuts down a node's agent, then a hook.  The runner
  confirms the node's signal, the approval checker approves, the refresher confirms the evidence.\<close>

definition demoRelease :: NodeRelease where
  "demoRelease = \<lparr>nr_TerminalHandoff = False, nr_ControlPlaneNodes = [], nr_QuorumMembers = [], nr_AgentUID = '''', nr_AgentGeneration = 0,
     nr_ActuatorPolicy = '''', nr_NodeName = ''n'', nr_NodePowerAgent = '''', nr_SignalPath = '''', nr_SignalSecretKey = '''',
     nr_SignalSecretName = '''', nr_SignalSecretNamespace = '''', nr_AgentReady = True, nr_ReadinessReason = '''', nr_ReadinessMessage = '''',
     nr_PodName = '''', nr_LastHeartbeatTime = None, nr_TelemetryFresh = True, nr_TelemetryStaleReason = '''', nr_Cleared = True,
     nr_ClearanceReason = '''', nr_BlockingWorkloads = []\<rparr>"

definition demoAgent :: ExecGroup where
  "demoAgent = \<lparr>xg_Name = ''a'', xg_Action = ActionAgentShutdown, xg_Params = [], xg_HookRef = None, xg_SelectedTargets = [],
     xg_NodeReleases = [demoRelease], xg_Details = [], xg_Timeout = 0, xg_WaitDuration = 0\<rparr>"

definition demoHook :: ExecGroup where
  "demoHook = \<lparr>xg_Name = ''h'', xg_Action = ActionRunHook, xg_Params = [], xg_HookRef = None, xg_SelectedTargets = [],
     xg_NodeReleases = [], xg_Details = [], xg_Timeout = 0, xg_WaitDuration = 0\<rparr>"

definition demoBarrier :: ExecWave where
  "demoBarrier = \<lparr>xw_Index = 0, xw_CommunicationBarrier = True, xw_ShutdownTier = None, xw_Duration = 0, xw_Groups = [''a'']\<rparr>"

definition demoLast :: ExecWave where
  "demoLast = \<lparr>xw_Index = 1, xw_CommunicationBarrier = False, xw_ShutdownTier = None, xw_Duration = 0, xw_Groups = [''h'']\<rparr>"

definition demoAdaptive :: AdaptiveInput where
  "demoAdaptive = \<lparr>ai_Parameters = DefaultParameters,
     ai_Pointer = \<lparr>Tier = 0, Deepest = 0, Started = False, Halted = False\<rparr>, ai_Timing = \<lparr>Mode = '''', PendingMode = '''', PendingCount = 0\<rparr>,
     ai_Observation = \<lparr>OnBattery = True, LowBattery = False, RuntimeSeconds = None, RuntimeTrusted = False\<rparr>,
     ai_FinalTier = 0, ai_StartTier = 0\<rparr>"

definition demoInput :: "bool \<Rightarrow> ExecInput" where
  "demoInput dry = \<lparr>xi_ExecutionID = ''x'', xi_DeduplicationKey = '''', xi_ObservedAt = 1, xi_ShutdownFlow = ''f'', xi_TriggerDecisionID = '''',
     xi_Mode = ModeEnforce, xi_Reason = ''r'', xi_PlanConfigHash = ''p'', xi_InputHash = '''', xi_Approved = True, xi_DryRun = dry,
     xi_Rehearsal = False, xi_RehearsalRequest = '''', xi_RehearsalReason = '''', xi_SelectedUPSDevices = [], xi_SignalTTL = 0,
     xi_TierOverrunPolicy = '''', xi_Waves = [demoBarrier, demoLast], xi_Groups = [demoAgent, demoHook], xi_Adaptive = demoAdaptive\<rparr>"

definition demoOutcome :: ActionOutcome where
  "demoOutcome = \<lparr>ao_Outcome = OutcomeSucceeded, ao_Error = '''', ao_Details = [],
     ao_SignalResults = [\<lparr>ns_NodeName = ''n'', ns_NodePowerAgent = '''', ns_SignalSecretNamespace = '''', ns_SignalSecretName = '''',
       ns_SignalSecretKey = '''', ns_Published = True, ns_Error = '''', ns_IssuedAt = 0, ns_SkipSync = False\<rparr>]\<rparr>"

definition demoExecutor :: Executor where
  "demoExecutor = \<lparr>ex_Writer = None, ex_Runner = Some (\<lambda>c a h. (demoOutcome, None)),
     ex_Clock = Some (\<lambda>h. 0), ex_NewID = Some (\<lambda>h. ''id''), ex_Observer = None, ex_ApprovalChecker = Some (\<lambda>c h. (True, None)),
     ex_RefreshNodeRelease = Some (\<lambda>c r h. Inr r), ex_ResolveTargets = None, ex_Sleep = None\<rparr>"

definition demoRuntime :: Runtime where
  "demoRuntime = \<lparr>rt_Time = (\<lambda>h. 0), rt_UUID = (\<lambda>h. ''id''), rt_Caller = (\<lambda>h. None), rt_Select = (\<lambda>h. TakeResult), rt_Schedule = (\<lambda>h. [])\<rparr>"

lemma ScaleDuration_zero: "ScaleDuration 0 b = 0"
  by (simp add: ScaleDuration_def)

lemmas run_simps = execution_def runMain_def Execute_def executeBody_def executionDefaults_def
  waveIteration_def orReturn_def joinBarrier_def boundaryState_def evaluateWave_def approvalGate_def sequentialWave_def runWave_def
  resolveWaveTargets_def executeGroup_def releaseGate_def refreshReleaseEvidence_def waitGate_def contextGate_def runGate_def timeoutGate_def
  recordGroup_def recordNodeReleases_def handleWaveResult_def waitForPending_def finishWaves_def finishExecution_def recordCompletion_def
  tierPreempted_def clock_def newID_def checkApproval_def refreshRelease_def performAction_def writeRecord_def

lemma sticky_None: "(\<And>h. f h = None) \<Longrightarrow> sticky f n h = None"
  by (induction h) auto

text \<open>Evaluation does not look into a continuation before its call has been answered.\<close>

lemma lazy:
  "Now k = Now k" "NewID k' = NewID k'" "MakeCancel c kc = MakeCancel c kc" "MakeTimeout c d kc = MakeTimeout c d kc"
  "CancelCtx c p = CancelCtx c p" "CtxErr c ke = CtxErr c ke" "CheckApproval c ka = CheckApproval c ka" "Refresh c rel kr = Refresh c rel kr"
  "RunAction c act kx = RunAction c act kx" "Write c rec kw = Write c rec kw" "Report g p = Report g p"
  by simp_all

lemma andThen_lazy: "p = p' \<Longrightarrow> andThen p f = andThen p' f"
  by simp

lemma demo_group [simp]: "xg_Name demoAgent = ''a''" "xg_Action demoAgent = ActionAgentShutdown" "xg_NodeReleases demoAgent = [demoRelease]"
  "xg_Timeout demoAgent = 0" "xg_WaitDuration demoAgent = 0"
  "xg_Name demoHook = ''h''" "xg_Action demoHook = ActionRunHook" "xg_NodeReleases demoHook = []" "xg_Timeout demoHook = 0" "xg_WaitDuration demoHook = 0"
  by (simp_all add: demoAgent_def demoHook_def)

lemma demo_wave [simp]: "xw_Index demoBarrier = 0" "xw_CommunicationBarrier demoBarrier" "xw_Groups demoBarrier = [''a'']" "xw_ShutdownTier demoBarrier = None"
  "xw_Duration demoBarrier = 0" "xw_Index demoLast = 1" "\<not> xw_CommunicationBarrier demoLast" "xw_Groups demoLast = [''h'']" "xw_ShutdownTier demoLast = None"
  "xw_Duration demoLast = 0"
  by (simp_all add: demoBarrier_def demoLast_def)

lemma demo_input [simp]: "xi_ExecutionID (demoInput dry) = ''x''" "xi_ObservedAt (demoInput dry) = 1" "xi_Mode (demoInput dry) = ModeEnforce" "xi_Reason (demoInput dry) = ''r''"
  "xi_TierOverrunPolicy (demoInput dry) = ''''" "xi_Waves (demoInput dry) = [demoBarrier, demoLast]" "xi_Groups (demoInput dry) = [demoAgent, demoHook]"
  by (simp_all add: demoInput_def)

lemma demo_valid: "validateExecuteInput (demoInput dry) = Inr [(''a'', demoAgent), (''h'', demoHook)]"
  by (simp add: validateExecuteInput_def indexGroups_def demoInput_def ActionAgentShutdown_def ActionRunHook_def)

lemma demo_dry: "effectiveDryRun (demoInput dry) = dry"
  by (simp add: effectiveDryRun_def demoInput_def ModeEnforce_def)

lemma demo_executor [simp]: "ex_Writer demoExecutor = None" "ex_Clock demoExecutor = Some (\<lambda>h. 0)" "ex_NewID demoExecutor = Some (\<lambda>h. ''id'')"
  "ex_Observer demoExecutor = None" "ex_ApprovalChecker demoExecutor = Some (\<lambda>c h. (True, None))" "ex_RefreshNodeRelease demoExecutor = Some (\<lambda>c r h. Inr r)"
  "ex_ResolveTargets demoExecutor = None" "rt_Schedule demoRuntime h = []" "rt_Time demoRuntime h = 0" "ex_Runner demoExecutor = Some (\<lambda>c a h. (demoOutcome, None))"
  by (simp_all add: demoExecutor_def demoRuntime_def)

lemma demo_policy [simp]: "effectiveTierOverrunPolicy [] = TierOverrunPolicyWait" "TierOverrunPolicyWait \<noteq> TierOverrunPolicyOverlap"
  "TierOverrunPolicyWait \<noteq> TierOverrunPolicyPreempt" "ModeEnforce \<noteq> []" "zeroTime \<noteq> 1" "ActionRunHook \<noteq> ActionAgentShutdown" "ActionAgentShutdown \<noteq> ActionWait"
  "ActionAgentShutdown \<noteq> ActionRunHook" "ActionRunHook \<noteq> ActionWait"
  by (simp_all add: effectiveTierOverrunPolicy_def TierOverrunPolicyWait_def TierOverrunPolicyOverlap_def TierOverrunPolicyPreempt_def
      ModeEnforce_def zeroTime_def ActionRunHook_def ActionAgentShutdown_def ActionWait_def)

lemma demo_outcome [simp]: "actionResult demoOutcome None = demoOutcome"
  by (simp add: actionResult_def demoOutcome_def OutcomeSucceeded_def)

lemma demo_background [simp]: "background demoExecutor demoRuntime s = s"
  by (simp add: background_def)

lemma demo_ctx [simp]: "\<not> cancelled n h \<Longrightarrow> ctxErr demoRuntime (CancelContext CallerContext n) h = None"
proof -
  have "sticky (rt_Caller demoRuntime) 0 h = None" for h by (induction h) (simp_all add: demoRuntime_def)
  then show "\<not> cancelled n h \<Longrightarrow> ctxErr demoRuntime (CancelContext CallerContext n) h = None"
    by (induction h) (auto simp: cancelled_def split: prod.splits)
qed

lemma no_errors [simp]: "joinErrors None None = None" by (simp add: joinErrors_def)

lemma add64_zero [simp]: "add64 0 0 = 0" by (simp add: add64_def wrap64_def)

lemma groupAction_sel [simp]: "ac_DryRun (groupAction input x dry i g st late) = dry" "ac_Group (groupAction input x dry i g st late) = g"
  "ac_WaveIndex (groupAction input x dry i g st late) = i"
  by (simp_all add: groupAction_def)

lemmas demo_run = run_simps cancelled_def demo_valid demo_dry waveJobFor_def lookupGroup_def tierWindowOverrunning_def is_run_def
  openWindow_def emptyWindow_def markHandoff_def lowerTierDueAfter_def demoRelease_def agentShutdownReadinessError_def releaseReadinessError_def
  terminalHandoffWave_def groupVerdict_def absorbGroup_def absorbWave_def emptyRun_def ScaleDuration_zero Let_def
  performAction_def sameRelease_def contextID_def

lemma demo_dry_run: "\<exists>c a r. filter (\<lambda>x. is_run (snd x)) (historyOf demoExecutor demoRuntime (demoInput True)) = [(0, EvRun c a r)]"
  by (simp add: demo_run cong: lazy andThen_lazy del: ctxErr.simps)

lemma demo_enforced: "\<exists>c a r c' a' r'. filter (\<lambda>x. is_run (snd x)) (historyOf demoExecutor demoRuntime (demoInput False)) =
    [(0, EvRun c' a' r'), (0, EvRun c a r)] \<and> ac_DryRun a = False \<and> ac_WaveIndex a = 0 \<and> xg_Action (ac_Group a) = ActionAgentShutdown \<and>
    xg_NodeReleases (ac_Group a) = [demoRelease]"
  by (simp add: demo_run cong: lazy andThen_lazy del: ctxErr.simps)


lemma demo_released: "\<exists>c rec err. (0, EvRecord c (ReleaseRecord rec) err) \<in> set (historyOf demoExecutor demoRuntime (demoInput False)) \<and> rr_Released rec"
  apply (simp add: demo_run cong: lazy andThen_lazy del: ctxErr.simps)
  apply (simp add: releaseRecord_def signalResultForRelease_def signalFor_def demoOutcome_def clearedForRelease_def)
  done

text \<open>The runs of the enforced flow, split at its two actions.\<close>

lemma demo_split:
  obtains l1 c' a' r' l2 c a r earlier where
    "historyOf demoExecutor demoRuntime (demoInput False) = (l1 @ (0, EvRun c' a' r') # l2) @ (0, EvRun c a r) # earlier"
    "ac_DryRun a = False" "ac_WaveIndex a = 0" "xg_Action (ac_Group a) = ActionAgentShutdown" "xg_NodeReleases (ac_Group a) = [demoRelease]"
proof -
  obtain c a r c' a' r' where runs: "filter (\<lambda>x. is_run (snd x)) (historyOf demoExecutor demoRuntime (demoInput False)) = [(0, EvRun c' a' r'), (0, EvRun c a r)]"
    and a: "ac_DryRun a = False" "ac_WaveIndex a = 0" "xg_Action (ac_Group a) = ActionAgentShutdown" "xg_NodeReleases (ac_Group a) = [demoRelease]"
    using demo_enforced by blast
  obtain l1 rest where "historyOf demoExecutor demoRuntime (demoInput False) = l1 @ (0, EvRun c' a' r') # rest"
    and rest: "filter (\<lambda>x. is_run (snd x)) rest = [(0, EvRun c a r)]"
    using filter_eq_ConsD [OF runs] by metis
  moreover obtain l2 earlier where "rest = l2 @ (0, EvRun c a r) # earlier" using filter_eq_ConsD [OF rest] by metis
  ultimately show ?thesis using that a by simp
qed

theorem dry_run_harmless_witness:
  "\<exists>c a r. (0, EvRun c a r) \<in> set (historyOf demoExecutor demoRuntime (demoInput True)) \<and> effectiveDryRun (demoInput True) \<and>
     ac_DryRun a \<and> xg_Action (ac_Group a) = ActionRunHook"
proof -
  obtain c a r where "filter (\<lambda>x. is_run (snd x)) (historyOf demoExecutor demoRuntime (demoInput True)) = [(0, EvRun c a r)]"
    using demo_dry_run by blast
  then have mem: "(0, EvRun c a r) \<in> set (historyOf demoExecutor demoRuntime (demoInput True))" by (metis filter_is_subset list.set_intros(1) subsetD)
  have dry: "effectiveDryRun (demoInput True)" by (simp add: demo_dry)
  have "ac_DryRun a \<and> xg_Action (ac_Group a) = ActionRunHook" using dry_run_harmless [OF dry mem] by simp
  then show ?thesis using mem dry by blast
qed

theorem shutdown_only_cleared_witness:
  "\<exists>later c a r earlier. historyOf demoExecutor demoRuntime (demoInput False) = later @ (0, EvRun c a r) # earlier \<and>
     xg_Action (ac_Group a) = ActionAgentShutdown \<and> demoRelease \<in> set (xg_NodeReleases (ac_Group a)) \<and> \<not> ac_DryRun a \<and>
     refreshed_release (own 0 earlier) demoRelease"
proof -
  obtain l1 c' a' r' l2 c a r earlier where
    h: "historyOf demoExecutor demoRuntime (demoInput False) = (l1 @ (0, EvRun c' a' r') # l2) @ (0, EvRun c a r) # earlier"
    and a: "xg_Action (ac_Group a) = ActionAgentShutdown" "xg_NodeReleases (ac_Group a) = [demoRelease]" using demo_split by metis
  have mem: "demoRelease \<in> set (xg_NodeReleases (ac_Group a))" using a(2) by simp
  have "\<not> ac_DryRun a \<and> refreshed_release (own 0 earlier) demoRelease" using shutdown_only_cleared [OF h a(1) mem] by simp
  then show ?thesis using h a(1) mem by blast
qed

theorem approval_required_witness:
  "\<exists>later c a r earlier. historyOf demoExecutor demoRuntime (demoInput False) = later @ (0, EvRun c a r) # earlier \<and> \<not> ac_DryRun a \<and>
     approvals (launch 0 earlier) = 1"
proof -
  obtain l1 c' a' r' l2 c a r earlier where
    h: "historyOf demoExecutor demoRuntime (demoInput False) = (l1 @ (0, EvRun c' a' r') # l2) @ (0, EvRun c a r) # earlier"
    and a: "ac_DryRun a = False" "ac_WaveIndex a = 0" using demo_split by metis
  obtain i where "i < 2" "ac_WaveIndex a = xw_Index ([demoBarrier, demoLast] ! i)" "approvals (launch 0 earlier) = Suc i"
    using approval_required [OF h] a by auto
  then have "approvals (launch 0 earlier) = 1" using a by (auto simp: less_2_cases_iff)
  then show ?thesis using h a by blast
qed

theorem barrier_order_witness:
  "\<exists>later c a r earlier c' a' r'. historyOf demoExecutor demoRuntime (demoInput False) = later @ (0, EvRun c a r) # earlier \<and>
     (0, EvRun c' a' r') \<in> set later \<and> separated (demoInput False) 0 \<and> distinct (map xw_Index (xi_Waves (demoInput False))) \<and>
     ac_WaveIndex a = 0 \<and> ac_WaveIndex a' \<in> {0, 1}"
proof -
  obtain l1 c' a' r' l2 c a r earlier where
    h: "historyOf demoExecutor demoRuntime (demoInput False) = (l1 @ (0, EvRun c' a' r') # l2) @ (0, EvRun c a r) # earlier"
    and a: "ac_WaveIndex a = 0" using demo_split by metis
  have sep: "separated (demoInput False) 0" and dist: "distinct (map xw_Index (xi_Waves (demoInput False)))" by (simp_all add: separated_def)
  have "\<exists>j. 0 \<le> j \<and> j < length (xi_Waves (demoInput False)) \<and> ac_WaveIndex a' = xw_Index (xi_Waves (demoInput False) ! j)"
    by (rule barrier_order [OF h _ _ sep _ dist, where t' = 0 and c' = c' and r' = r']) (simp_all add: a)
  then have "ac_WaveIndex a' \<in> {0, 1}" by (auto simp: less_Suc_eq)
  moreover have "(0, EvRun c' a' r') \<in> set (l1 @ (0, EvRun c' a' r') # l2)" by simp
  ultimately show ?thesis using h sep dist a by blast
qed



theorem released_only_confirmed_witness:
  "\<exists>c rec err. (0, EvRecord c (ReleaseRecord rec) err) \<in> set (historyOf demoExecutor demoRuntime (demoInput False)) \<and> rr_Released rec \<and>
     (\<exists>c' a r. (0, EvRun c' a r) \<in> set (historyOf demoExecutor demoRuntime (demoInput False)) \<and> \<not> ac_DryRun a)"
proof -
  obtain c rec err where r: "(0, EvRecord c (ReleaseRecord rec) err) \<in> set (historyOf demoExecutor demoRuntime (demoInput False))" "rr_Released rec"
    using demo_released by blast
  from released_only_confirmed [OF r] obtain later earlier c' a out rerr where
    "historyOf demoExecutor demoRuntime (demoInput False) = later @ (0, EvRun c' a (out, rerr)) # earlier" "\<not> ac_DryRun a" by blast
  then have "(0, EvRun c' a (out, rerr)) \<in> set (historyOf demoExecutor demoRuntime (demoInput False)) \<and> \<not> ac_DryRun a" by simp
  then show ?thesis using r by blast
qed

theorem execution_closed_witness:
  "\<exists>result s. execution demoExecutor demoRuntime (demoInput False) = (result, s) \<and>
     validateExecuteInput (demoInput False) = Inr [(''a'', demoAgent), (''h'', demoHook)] \<and> audit_closed result (own 0 (sy_History s))"
proof -
  obtain result s where ex: "execution demoExecutor demoRuntime (demoInput False) = (result, s)" by fastforce
  from execution_closed [OF ex demo_valid] show ?thesis using ex demo_valid by blast
qed






end
