(* ===== verification/GoInstant.thy ===== *)
theory GoInstant
  imports ExecutorTypes GoStrconv "HOL-Library.Monad_Syntax"
begin

text \<open>
  \<open>time.Parse\<close> for the layouts \<open>time.RFC3339\<close> and \<open>time.RFC3339Nano\<close>.  Both layouts accept a
  fraction of any length after a period or a comma, an hour of one digit, and zone offsets up to
  24:60; the fast path of the library accepts a subset and agrees on it.  An instant is a count of
  nanoseconds since 1970.  The last section shows that parsing inverts \<open>formatRFC3339Nano\<close>.
\<close>

section \<open>Fields\<close>

definition getnum :: "bool \<Rightarrow> string \<Rightarrow> (int \<times> string) option" where
  "getnum fixed s = (case s of [] \<Rightarrow> None
     | c # r \<Rightarrow> if \<not> isDigit c then None
         else (case r of
             d # r' \<Rightarrow> if isDigit d then Some (digitValue c * 10 + digitValue d, r') else if fixed then None else Some (digitValue c, r)
           | [] \<Rightarrow> if fixed then None else Some (digitValue c, [])))"

definition getfield :: "bool \<Rightarrow> int \<Rightarrow> int \<Rightarrow> string \<Rightarrow> (int \<times> string) option" where
  "getfield fixed low high s = (case getnum fixed s of None \<Rightarrow> None
     | Some (n, r) \<Rightarrow> if n < low \<or> high < n then None else Some (n, r))"

definition skipChar :: "char \<Rightarrow> string \<Rightarrow> string option" where
  "skipChar c s = (case s of d # r \<Rightarrow> if d = c then Some r else None | [] \<Rightarrow> None)"

definition longYear :: "string \<Rightarrow> (int \<times> string) option" where
  "longYear s = (if length s < 4 \<or> \<not> list_all isDigit (take 4 s) then None else Some (digitsValue (take 4 s), drop 4 s))"

definition isLeap :: "int \<Rightarrow> bool" where
  "isLeap y \<longleftrightarrow> y mod 4 = 0 \<and> (y mod 100 \<noteq> 0 \<or> y mod 400 = 0)"

definition daysIn :: "int \<Rightarrow> int \<Rightarrow> int" where
  "daysIn m y = (if m = 2 then (if isLeap y then 29 else 28) else 30 + (m + m div 8) mod 2)"

definition civilDays :: "int \<Rightarrow> int \<Rightarrow> int \<Rightarrow> int" where
  "civilDays y m d =
     (let y' = (if m \<le> 2 then y - 1 else y); era = y' div 400; yoe = y' mod 400;
          mp = (if m > 2 then m - 3 else m + 9); doy = (153 * mp + 2) div 5 + d - 1 in
      era * 146097 + (yoe * 365 + yoe div 4 - yoe div 100 + doy) - 719468)"

text \<open>The fraction of a second: digits beyond the ninth are dropped.\<close>

definition fractionField :: "string \<Rightarrow> int \<times> string" where
  "fractionField s = (case s of
       c # d # r \<Rightarrow>
         if (c = CHR ''.'' \<or> c = CHR '','') \<and> isDigit d
         then let ds = takeWhile isDigit (d # r); kept = take 9 ds in
              (digitsValue kept * 10 ^ (9 - length kept), dropWhile isDigit (d # r))
         else (0, s)
     | _ \<Rightarrow> (0, s))"

text \<open>\<open>Z\<close>, or a signed offset in seconds.\<close>

definition zoneField :: "string \<Rightarrow> (int \<times> string) option" where
  "zoneField s = (case s of [] \<Rightarrow> None
     | c # r \<Rightarrow> if c = CHR ''Z'' then Some (0, r)
         else if length s < 6 \<or> s ! 3 \<noteq> CHR '':'' \<or> \<not> (c = CHR ''+'' \<or> c = CHR ''-'') then None
         else (case (getfield True 0 24 (take 2 r), getfield True 0 60 (take 2 (drop 4 s))) of
             (Some (hr, _), Some (mm, _)) \<Rightarrow> Some ((if c = CHR ''-'' then -1 else 1) * ((hr * 60 + mm) * 60), drop 6 s)
           | _ \<Rightarrow> None))"

section \<open>Instants\<close>

definition dateField :: "string \<Rightarrow> ((int \<times> int \<times> int) \<times> string) option" where
  "dateField s = do {
     (year, s1) \<leftarrow> longYear s; s2 \<leftarrow> skipChar CHR ''-'' s1;
     (month, s3) \<leftarrow> getfield True 1 12 s2; s4 \<leftarrow> skipChar CHR ''-'' s3;
     (day, s5) \<leftarrow> getnum True s4;
     Some ((year, month, day), s5) }"

definition clockField :: "string \<Rightarrow> (int \<times> string) option" where
  "clockField s = do {
     (hour, s1) \<leftarrow> getfield False 0 23 s; s2 \<leftarrow> skipChar CHR '':'' s1;
     (minute, s3) \<leftarrow> getfield True 0 59 s2; s4 \<leftarrow> skipChar CHR '':'' s3;
     (sec, s5) \<leftarrow> getfield True 0 59 s4;
     Some ((hour * 60 + minute) * 60 + sec, s5) }"

definition parseRFC3339 :: "string \<Rightarrow> int option" where
  "parseRFC3339 s = do {
     ((year, month, day), s1) \<leftarrow> dateField s; s2 \<leftarrow> skipChar CHR ''T'' s1;
     (clock, s3) \<leftarrow> clockField s2;
     (nsec, s4) \<leftarrow> Some (fractionField s3);
     (offset, s5) \<leftarrow> zoneField s4;
     if s5 \<noteq> [] \<or> day < 1 \<or> daysIn month year < day then None
     else Some ((civilDays year month day * 86400 + clock - offset) * second + nsec) }"

lemma parseRFC3339_examples:
  "parseRFC3339 ''1970-01-01T00:00:00Z'' = Some 0"
  "parseRFC3339 ''2024-02-29T23:59:59.12Z'' = Some 1709251199120000000"
  "parseRFC3339 ''2024-02-29T3:59:59,5+01:00'' = Some 1709175599500000000"
  "parseRFC3339 ''2023-02-29T00:00:00Z'' = None" "parseRFC3339 ''yesterday'' = None"
  by code_simp+
section \<open>The civil calendar\<close>

text \<open>Years are counted from March within an era of 400 years.  Day \<open>doe\<close> of an era lies in century \<open>c\<close>,
  cycle \<open>q\<close> of four years and year \<open>r\<close> of the cycle, \<open>e\<close> days into that year.\<close>

lemma era_day:
  assumes "0 \<le> doe" and "doe < 146097"
  obtains c q r e :: int where "doe = 36524 * c + 1461 * q + 365 * r + e" "0 \<le> c" "c \<le> 3" "0 \<le> q" "q \<le> 24" "0 \<le> r" "r \<le> 3"
    "0 \<le> e" "e \<le> 364 \<or> e = 365 \<and> r = 3 \<and> (q < 24 \<or> c = 3)"
proof -
  define c where "c = min 3 (doe div 36524)"
  define q where "q = (doe - 36524 * c) div 1461"
  define r where "r = min 3 ((doe - 36524 * c - 1461 * q) div 365)"
  have c: "0 \<le> c" "c \<le> 3" "36524 * c \<le> doe" "doe - 36524 * c < 36524 + (if c = 3 then 1 else 0)"
    using assms unfolding c_def by (auto simp: min_def)
  then have q: "0 \<le> q" "q \<le> 24" "1461 * q \<le> doe - 36524 * c" "doe - 36524 * c < 1461 * q + 1461"
    unfolding q_def by (auto split: if_splits)
  then have r: "0 \<le> r" "r \<le> 3" "365 * r \<le> doe - 36524 * c - 1461 * q" "doe - 36524 * c - 1461 * q < 365 * r + 365 + (if r = 3 then 1 else 0)"
    unfolding r_def by (auto simp: min_def)
  define e where "e = doe - 36524 * c - 1461 * q - 365 * r"
  have e: "0 \<le> e" "e \<le> 364 + (if r = 3 then 1 else 0)" using r by (simp_all add: e_def)
  have "e \<le> 364 \<or> e = 365 \<and> r = 3 \<and> (q < 24 \<or> c = 3)"
  proof (cases "e \<le> 364")
    case False
    then have late: "e = 365" "r = 3" using e by (auto split: if_splits)
    have "q < 24 \<or> c = 3"
    proof (rule ccontr)
      assume "\<not> (q < 24 \<or> c = 3)"
      then have "q = 24" "doe - 36524 * c < 36524" using q c by auto
      then show False using late by (simp add: e_def)
    qed
    then show ?thesis using late by simp
  qed simp
  then show ?thesis using that [of c q r e] c q r e by (simp add: e_def)
qed

definition eraDay :: "int \<Rightarrow> int \<Rightarrow> int \<Rightarrow> int \<Rightarrow> int \<Rightarrow> bool" where
  "eraDay doe c q r e \<longleftrightarrow> doe = 36524 * c + 1461 * q + 365 * r + e \<and> 0 \<le> c \<and> c \<le> 3 \<and> 0 \<le> q \<and> q \<le> 24 \<and> 0 \<le> r \<and> r \<le> 3 \<and>
     0 \<le> e \<and> (e \<le> 364 \<or> e = 365 \<and> r = 3 \<and> (q < 24 \<or> c = 3))"

lemma eraDay_start:
  assumes "eraDay doe c q r e" and y: "y = 100 * c + 4 * q + r"
  shows "365 * y + y div 4 - y div 100 = 36524 * c + 1461 * q + 365 * r"
proof -
  have "y div 4 = 25 * c + q" "y div 100 = c"
    using assms unfolding eraDay_def by (intro int_div_pos_eq [where r = r] int_div_pos_eq [where r = "4 * q + r"]; simp)+
  then show ?thesis by (simp add: y)
qed

lemma eraDay_centuries:
  assumes "eraDay doe c q r e"
  shows "doe div 36524 - doe div 146096 = c"
proof (cases "1461 * q + 365 * r + e < 36524")
  case True
  then have "doe div 36524 = c"
    using assms unfolding eraDay_def by (intro int_div_pos_eq [where r = "1461 * q + 365 * r + e"]) simp_all
  moreover have "doe div 146096 = 0" using True assms unfolding eraDay_def by (intro div_pos_pos_trivial) simp_all
  ultimately show ?thesis by simp
next
  case False
  then have last: "e = 365" "r = 3" "q = 24" using assms unfolding eraDay_def by linarith+
  then show ?thesis using assms unfolding eraDay_def by simp
qed

lemma eraDay_cycles:
  assumes day: "eraDay doe c q r e" and k_def: "k = (if 24 * c + q + 365 * r + e < 1460 then 0 else 1)"
  shows "doe div 1460 = 25 * c + q + k" "0 \<le> e - k" "e - k < 365"
proof -
  have top: "e \<le> 365" using day unfolding eraDay_def by linarith
  show "doe div 1460 = 25 * c + q + k"
    using day top unfolding eraDay_def
    by (intro int_div_pos_eq [where r = "24 * c + q + 365 * r + e - 1460 * k"]) (simp_all add: k_def)
  show "0 \<le> e - k" using day unfolding eraDay_def by (simp add: k_def)
  show "e - k < 365" using day unfolding eraDay_def by (auto simp: k_def)
qed

lemma year_estimate:
  assumes "0 \<le> doe" and "doe < 146097"
  obtains y where "(doe - doe div 1460 + doe div 36524 - doe div 146096) div 365 = y" "0 \<le> y" "y \<le> 399"
    "0 \<le> doe - (365 * y + y div 4 - y div 100)" "doe - (365 * y + y div 4 - y div 100) \<le> 365"
    "doe - (365 * y + y div 4 - y div 100) = 365 \<Longrightarrow> isLeap (y + 1)"
proof -
  obtain c q r e where day: "eraDay doe c q r e" using era_day [OF assms] unfolding eraDay_def by metis
  define y where "y = 100 * c + 4 * q + r"
  define k where "k = (if 24 * c + q + 365 * r + e < 1460 then 0 else 1 :: int)"
  have est: "(doe - doe div 1460 + doe div 36524 - doe div 146096) div 365 = y"
    using eraDay_centuries [OF day] eraDay_cycles [OF day k_def] day
    by (intro int_div_pos_eq [where r = "e - k"]) (simp_all add: y_def eraDay_def)
  have rest: "doe - (365 * y + y div 4 - y div 100) = e" using eraDay_start [OF day y_def] day by (simp add: eraDay_def)
  have e: "0 \<le> e" "e \<le> 365" "0 \<le> y" "y \<le> 399" using day unfolding eraDay_def y_def by linarith+
  have "isLeap (y + 1)" if "e = 365"
  proof -
    have y1: "y + 1 = 100 * c + 4 * (q + 1)" and "q < 24 \<or> q = 24 \<and> c = 3" using that day by (auto simp: y_def eraDay_def)
    then consider "q < 24" | "y + 1 = 400" by auto
    then show ?thesis
    proof cases
      case 1
      then have "(y + 1) mod 100 = 4 * (q + 1)" "(y + 1) mod 4 = 0"
        using day unfolding y1 by (simp_all add: eraDay_def mod_pos_pos_trivial)
      then show ?thesis using day by (simp add: isLeap_def eraDay_def)
    qed (simp add: isLeap_def)
  qed
  then show ?thesis using that [of y] est e unfolding rest by blast
qed

lemma month_day:
  assumes "0 \<le> doy" and "doy \<le> (365::int)"
  defines "mp \<equiv> (5 * doy + 2) div 153"
  defines "d \<equiv> doy - (153 * mp + 2) div 5 + 1" and "m \<equiv> if mp < 10 then mp + 3 else mp - 9"
  shows "0 \<le> mp" "mp \<le> 11" "1 \<le> d" "if m = 2 then d \<le> 28 \<or> d = 29 \<and> doy = 365 else d \<le> 30 + (m + m div 8) mod 2"
proof -
  have range: "153 * mp \<le> 5 * doy + 2" "5 * doy + 2 < 153 * mp + 153" unfolding mp_def by simp_all
  show mp: "0 \<le> mp" "mp \<le> 11" using range assms(1,2) by linarith+
  then have "mp = 0 \<or> mp = 1 \<or> mp = 2 \<or> mp = 3 \<or> mp = 4 \<or> mp = 5 \<or> mp = 6 \<or> mp = 7 \<or> mp = 8 \<or> mp = 9 \<or> mp = 10 \<or> mp = 11"
    by presburger
  then have "1 \<le> d \<and> (if m = 2 then d \<le> 28 \<or> d = 29 \<and> doy = 365 else d \<le> 30 + (m + m div 8) mod 2)"
    by (elim disjE) (use range assms(1,2) in \<open>auto simp: d_def m_def\<close>)
  then show "1 \<le> d" "if m = 2 then d \<le> 28 \<or> d = 29 \<and> doy = 365 else d \<le> 30 + (m + m div 8) mod 2" by blast+
qed

lemma isLeap_shift: "isLeap (y + 400 * k) = isLeap y"
  unfolding isLeap_def
  using mod_mult_self2 [of y 4 "100 * k"] mod_mult_self2 [of y 100 "4 * k"] mod_mult_self2 [of y 400 k] by simp

lemma civilDate_parts:
  obtains era yoe doy mp where "0 \<le> yoe" "yoe \<le> 399" "0 \<le> doy" "doy \<le> 365" "doy = 365 \<Longrightarrow> isLeap (yoe + 1)"
    "mp = (5 * doy + 2) div 153" "days = era * 146097 + (yoe * 365 + yoe div 4 - yoe div 100 + doy) - 719468"
    "civilDate days = (yoe + era * 400 + (if (if mp < 10 then mp + 3 else mp - 9) \<le> 2 then 1 else 0),
       if mp < 10 then mp + 3 else mp - 9, doy - (153 * mp + 2) div 5 + 1)"
proof -
  define era doe where "era = (days + 719468) div 146097" and "doe = (days + 719468) mod 146097"
  have split: "days + 719468 = era * 146097 + doe" unfolding era_def doe_def by (simp only: div_mult_mod_eq)
  have doe: "0 \<le> doe" "doe < 146097" unfolding doe_def by simp_all
  obtain yoe where yoe: "(doe - doe div 1460 + doe div 36524 - doe div 146096) div 365 = yoe" "0 \<le> yoe" "yoe \<le> 399"
      "0 \<le> doe - (365 * yoe + yoe div 4 - yoe div 100)" "doe - (365 * yoe + yoe div 4 - yoe div 100) \<le> 365"
      "doe - (365 * yoe + yoe div 4 - yoe div 100) = 365 \<Longrightarrow> isLeap (yoe + 1)"
    using year_estimate [OF doe] by metis
  define doy where "doy = doe - (365 * yoe + yoe div 4 - yoe div 100)"
  have days: "days = era * 146097 + (yoe * 365 + yoe div 4 - yoe div 100 + doy) - 719468"
    using split unfolding doy_def by linarith
  show ?thesis
    by (rule that [OF yoe(2,3) _ _ _ refl days])
      (use yoe(4-6) in \<open>simp_all only: civilDate_def Let_def era_def [symmetric] doe_def [symmetric] yoe(1) doy_def [symmetric]\<close>)
qed

lemma civil_roundtrip:
  assumes "civilDate days = (y, m, d)"
  shows "civilDays y m d = days" "1 \<le> m" "m \<le> 12" "1 \<le> d" "d \<le> daysIn m y"
proof -
  obtain era yoe doy mp where yoe: "0 \<le> yoe" "yoe \<le> 399" and doy: "0 \<le> doy" "doy \<le> 365" "doy = 365 \<Longrightarrow> isLeap (yoe + 1)"
    and mp: "mp = (5 * doy + 2) div 153" and days: "days = era * 146097 + (yoe * 365 + yoe div 4 - yoe div 100 + doy) - 719468"
    and date: "civilDate days = (yoe + era * 400 + (if (if mp < 10 then mp + 3 else mp - 9) \<le> 2 then 1 else 0),
       if mp < 10 then mp + 3 else mp - 9, doy - (153 * mp + 2) div 5 + 1)"
    using civilDate_parts [of days] by metis
  note table = month_day [OF doy(1,2), folded mp]
  have eq: "m = (if mp < 10 then mp + 3 else mp - 9)" "y = yoe + era * 400 + (if m \<le> 2 then 1 else 0)" "d = doy - (153 * mp + 2) div 5 + 1"
    using assms unfolding date by auto
  show "1 \<le> m" "m \<le> 12" using eq table by auto
  show "1 \<le> d" using eq table by simp
  have rev: "(if m \<le> 2 then y - 1 else y) = yoe + era * 400" "(if m > 2 then m - 3 else m + 9) = mp" using eq table(1,2) by auto
  have "(yoe + era * 400) div 400 = era" "(yoe + era * 400) mod 400 = yoe" using yoe by simp_all
  then show "civilDays y m d = days" unfolding civilDays_def Let_def rev eq(3) days by simp
  show "d \<le> daysIn m y"
  proof (cases "m = 2")
    case True
    then have "doy = 365 \<Longrightarrow> isLeap y" using doy(3) eq(2) isLeap_shift [of "yoe + 1" era] by (simp add: algebra_simps)
    then show ?thesis using table(4) True eq by (auto simp: daysIn_def)
  next
    case False
    then show ?thesis using table(4) eq by (simp add: daysIn_def)
  qed
qed
section \<open>Parsing inverts formatting\<close>

lemma digit_char [simp]:
  assumes "0 \<le> n" and "n < 10"
  shows "isDigit (char_of (48 + n))" "digitValue (char_of (48 + n :: int)) = n"
proof -
  have code: "of_char (char_of (48 + n)) = 48 + n" using assms by (simp add: of_char_of take_bit_eq_mod)
  then have "int (of_char (char_of (48 + n))) = 48 + n" by (simp only: of_nat_of_char)
  then show "isDigit (char_of (48 + n))" using assms by (simp add: isDigit_def less_eq_char_def)
  show "digitValue (char_of (48 + n :: int)) = n" using code by (simp add: digitValue_def)
qed

lemma digitsValue_append: "digitsValue (xs @ ys) = digitsValue xs * 10 ^ length ys + digitsValue ys"
proof -
  have "foldl (\<lambda>n c. n * 10 + digitValue c) a ys = a * 10 ^ length ys + foldl (\<lambda>n c. n * 10 + digitValue c) 0 ys" for a
  proof (induction ys arbitrary: a)
    case (Cons y ys)
    show ?case
      unfolding foldl_Cons Cons [of "a * 10 + digitValue y"] Cons [of "0 * 10 + digitValue y"] by (simp add: algebra_simps)
  qed simp
  then show ?thesis unfolding digitsValue_def foldl_append .
qed

lemma digitsValue_zeros [simp]: "digitsValue (replicate k CHR ''0'') = 0"
  by (induction k) (simp_all add: digitsValue_append [of "[CHR ''0'']", simplified] digitsValue_def digitValue_def)

lemma show_digits_props:
  "0 \<le> n \<Longrightarrow> list_all isDigit (show_digits n) \<and> digitsValue (show_digits n) = n \<and> (n < 10 ^ w \<longrightarrow> 0 < w \<longrightarrow> length (show_digits n) \<le> w)"
proof (induction n arbitrary: w rule: show_digits.induct)
  case (1 n)
  show ?case
  proof (cases "n < 10")
    case True
    then show ?thesis using 1(2) by (subst (1 2 3) show_digits.simps) (simp add: digitsValue_def)
  next
    case False
    have IH: "list_all isDigit (show_digits (n div 10)) \<and> digitsValue (show_digits (n div 10)) = n div 10 \<and>
        (n div 10 < 10 ^ w \<longrightarrow> 0 < w \<longrightarrow> length (show_digits (n div 10)) \<le> w)" for w
      using 1(1) [OF False] False by simp
    have "length (show_digits (n div 10)) \<le> w - 1" if "n < 10 ^ w" "0 < w"
    proof -
      obtain v where w: "w = Suc v" using \<open>0 < w\<close> by (cases w) auto
      then have "n div 10 < 10 ^ v" "0 < v" using that False by (auto intro: Suc_leI gr0I)
      then show ?thesis using IH [of v] w by simp
    qed
    moreover have "n div 10 * 10 + n mod 10 = n" by simp
    ultimately show ?thesis
      using False IH [of 0] 1(2)
      by (subst (1 2 3) show_digits.simps) (auto simp: digitsValue_append, simp_all add: digitsValue_def)
  qed
qed

lemma padDigits_props:
  assumes "0 \<le> n" and "n < 10 ^ w" and "0 < w"
  shows "list_all isDigit (padDigits w n)" "digitsValue (padDigits w n) = n" "length (padDigits w n) = w"
proof -
  note p = show_digits_props [OF assms(1), of w]
  have "isDigit CHR ''0''" by code_simp
  then show "list_all isDigit (padDigits w n)" using p by (auto simp: padDigits_def list_all_iff)
  show "digitsValue (padDigits w n) = n" using p by (simp add: padDigits_def digitsValue_append)
  show "length (padDigits w n) = w" using p assms by (simp add: padDigits_def)
qed

lemma getnum_padDigits [simp]:
  assumes "0 \<le> n" and "n < 100"
  shows "getnum fixed (padDigits 2 n @ s) = Some (n, s)"
proof -
  have p: "list_all isDigit (padDigits 2 n)" "digitsValue (padDigits 2 n) = n" "length (padDigits 2 n) = 2"
    using padDigits_props [of n 2] assms by simp_all
  then obtain c d where "padDigits 2 n = [c, d]" by (auto simp: length_Suc_conv numeral_2_eq_2)
  then show ?thesis using p by (simp add: getnum_def digitsValue_def)
qed

lemma getfield_padDigits [simp]:
  "0 \<le> n \<Longrightarrow> n < 100 \<Longrightarrow> low \<le> n \<Longrightarrow> n \<le> high \<Longrightarrow> getfield fixed low high (padDigits 2 n @ s) = Some (n, s)"
  by (simp add: getfield_def)

lemma skipChar_Cons [simp]: "skipChar c (c # s) = Some s"
  by (simp add: skipChar_def)

lemma longYear_padDigits [simp]: "0 \<le> n \<Longrightarrow> n < 10000 \<Longrightarrow> longYear (padDigits 4 n @ s) = Some (n, s)"
  using padDigits_props [of n 4] by (simp add: longYear_def)

lemma trailing_zeros:
  obtains k where "xs = rev (dropWhile (\<lambda>c. c = CHR ''0'') (rev xs)) @ replicate k CHR ''0''"
proof -
  have "rev xs = takeWhile (\<lambda>c. c = CHR ''0'') (rev xs) @ dropWhile (\<lambda>c. c = CHR ''0'') (rev xs)" by simp
  moreover have "takeWhile (\<lambda>c. c = CHR ''0'') ys = replicate (length (takeWhile (\<lambda>c. c = CHR ''0'') ys)) CHR ''0''" for ys :: string
    by (induction ys) simp_all
  ultimately have "xs = rev (dropWhile (\<lambda>c. c = CHR ''0'') (rev xs)) @ rev (replicate (length (takeWhile (\<lambda>c. c = CHR ''0'') (rev xs))) CHR ''0'')"
    by (metis rev_append rev_rev_ident)
  then show ?thesis using that by simp
qed

lemma fractionField_fracDigits [simp]:
  assumes "0 \<le> n" and "n < second" and "\<not> isDigit z" and "z \<noteq> CHR ''.''" and "z \<noteq> CHR '',''"
  shows "fractionField (fracDigits 9 n @ z # s) = (n, z # s)"
proof (cases "n = 0")
  case True
  then show ?thesis using assms(4,5) by (simp add: fracDigits_def fractionField_def split: list.split)
next
  case False
  have mod: "n mod 10 ^ 9 = n" using assms(1,2) by (simp add: second_def)
  define kept where "kept = rev (dropWhile (\<lambda>c. c = CHR ''0'') (rev (padDigits 9 n)))"
  obtain k where pad: "padDigits 9 n = kept @ replicate k CHR ''0''" using trailing_zeros unfolding kept_def by metis
  have p: "list_all isDigit (padDigits 9 n)" "digitsValue (padDigits 9 n) = n" "length (padDigits 9 n) = 9"
    using padDigits_props [of n 9] assms(1,2) by (simp_all add: second_def)
  have amount: "digitsValue kept * 10 ^ k = n" "length kept + k = 9" "list_all isDigit kept"
    using p unfolding pad by (simp_all add: digitsValue_append)
  then have "kept \<noteq> []" using False by (auto simp: digitsValue_def)
  then obtain c cs where kept: "kept = c # cs" by (cases kept) auto
  have "takeWhile isDigit (kept @ z # s) = kept" "dropWhile isDigit (kept @ z # s) = z # s"
    using amount(3) assms(3) by (simp_all add: list_all_iff takeWhile_append2 dropWhile_append2)
  then have scan: "takeWhile isDigit (c # cs @ z # s) = kept" "dropWhile isDigit (c # cs @ z # s) = z # s"
    unfolding kept by (simp_all only: append_Cons)
  have "fracDigits 9 n = CHR ''.'' # c # cs"
    unfolding fracDigits_def Let_def mod kept_def [symmetric] kept using False by simp
  moreover have "isDigit c" "take 9 kept = kept" "9 - length kept = k" using amount kept by simp_all
  ultimately show ?thesis
    unfolding fractionField_def using amount(1) by (simp only: append_Cons list.case scan Let_def) simp
qed

lemma parse_format:
  assumes date0: "civilDate (t div second div 86400) = (y, m, d)" and y: "0 \<le> y" "y \<le> 9999"
  shows "parseRFC3339 (formatRFC3339Nano t) = Some t"
proof -
  define tod where "tod = t div second mod 86400"
  define ns where "ns = t mod second"
  define hh mm ss where "hh = tod div 3600" and "mm = tod div 60 mod 60" and "ss = tod mod 60"
  note date = civil_roundtrip [OF date0]
  have "daysIn m y \<le> 31" using pos_mod_bound [of 2 "m + m div 8"] by (auto simp: daysIn_def)
  then have small: "d < 100" using date(5) by linarith
  have tod: "0 \<le> tod" "tod < 86400" by (simp_all add: tod_def)
  have "hh = tod div 60 div 60" unfolding hh_def by (simp add: zdiv_zmult2_eq [symmetric])
  then have "hh * 60 + mm = tod div 60" unfolding mm_def by (simp only: div_mult_mod_eq)
  then have clock: "(hh * 60 + mm) * 60 + ss = tod" unfolding ss_def by (simp only: div_mult_mod_eq)
  have "tod div 3600 \<le> 86399 div 3600" using tod by (intro zdiv_mono1) simp_all
  then have hour: "0 \<le> hh" "hh \<le> 23" "0 \<le> mm" "mm \<le> 59" "0 \<le> ss" "ss \<le> 59"
    using tod pos_mod_bound [of 60 tod] pos_mod_bound [of 60 "tod div 60"] unfolding hh_def mm_def ss_def
    by (simp_all add: pos_imp_zdiv_nonneg_iff)
  have nanos: "0 \<le> ns" "ns < second" by (simp_all add: second_def ns_def)
  have total: "(civilDays y m d * 86400 + tod) * second + ns = t"
    unfolding date(1) tod_def ns_def by (simp only: div_mult_mod_eq)
  have form: "formatRFC3339Nano t = padDigits 4 y @ CHR ''-'' # padDigits 2 m @ CHR ''-'' # padDigits 2 d @ CHR ''T'' # padDigits 2 hh @
      CHR '':'' # padDigits 2 mm @ CHR '':'' # padDigits 2 ss @ fracDigits 9 ns @ CHR ''Z'' # []"
    unfolding formatRFC3339Nano_def Let_def date0 hh_def mm_def ss_def tod_def ns_def formatYear_def using y by simp
  have z: "\<not> isDigit CHR ''Z''" by code_simp
  have "dateField (padDigits 4 y @ CHR ''-'' # padDigits 2 m @ CHR ''-'' # padDigits 2 d @ r) = Some ((y, m, d), r)" for r
    using y date small by (simp add: dateField_def)
  moreover have "clockField (padDigits 2 hh @ CHR '':'' # padDigits 2 mm @ CHR '':'' # padDigits 2 ss @ r) = Some (tod, r)" for r
    using hour clock by (simp add: clockField_def)
  ultimately show ?thesis
    unfolding form parseRFC3339_def using nanos z date total by (simp add: zoneField_def)
qed

end
