(* ===== verification/NodeSignal.thy ===== *)
theory NodeSignal
  imports GoInstant GoStrings
begin

text \<open>
  The shutdown signal a node receives, \<open>src/internal/nodeagent/signal.go\<close>, and the local writer of
  such signals, \<open>src/cmd/power-signal-writer/main.go\<close>.  JSON encoding and decoding are parameters of
  the functions that read or write a file: \<open>decode\<close> is \<open>None\<close> where \<open>json.Unmarshal\<close> fails.
  A file is what the three reads of \<open>InspectSignal\<close> can find at its path.
\<close>

section \<open>Paths\<close>

text \<open>\<open>filepath.Clean\<close>, \<open>filepath.Dir\<close> and \<open>filepath.Join\<close> of two elements, on Unix.\<close>

fun splitOn :: "char \<Rightarrow> string \<Rightarrow> string \<Rightarrow> string list" where
  "splitOn sep cur [] = [rev cur]"
| "splitOn sep cur (c # s) = (if c = sep then rev cur # splitOn sep [] s else splitOn sep (c # cur) s)"

fun cleanElements :: "bool \<Rightarrow> string list \<Rightarrow> string list \<Rightarrow> string list" where
  "cleanElements rooted stack [] = rev stack"
| "cleanElements rooted stack (e # es) =
     (if e = [] \<or> e = ''.'' then cleanElements rooted stack es
      else if e = ''..''
        then (case stack of
            d # ds \<Rightarrow> if d \<noteq> ''..'' then cleanElements rooted ds es else cleanElements rooted (e # stack) es
          | [] \<Rightarrow> if rooted then cleanElements rooted [] es else cleanElements rooted [e] es)
      else cleanElements rooted (e # stack) es)"

definition cleanPath :: "string \<Rightarrow> string" where
  "cleanPath p =
     (let rooted = (take 1 p = ''/''); es = cleanElements rooted [] (splitOn CHR ''/'' [] p);
          q = (if rooted then ''/'' else []) @ join ''/'' es in
      if q = [] then ''.'' else q)"

definition pathDir :: "string \<Rightarrow> string" where
  "pathDir p = cleanPath (rev (dropWhile (\<lambda>c. c \<noteq> CHR ''/'') (rev p)))"

definition pathJoin :: "string \<Rightarrow> string \<Rightarrow> string" where
  "pathJoin d e = (if d = [] \<and> e = [] then [] else if d = [] then cleanPath e else cleanPath (d @ ''/'' @ e))"

lemma path_examples:
  "pathDir ''/var/lib/signals/n1.json'' = ''/var/lib/signals''" "pathDir ''n1.json'' = ''.''" "pathDir ''/n1.json'' = ''/''"
  "cleanPath ''a//b/./../c'' = ''a/c''" "cleanPath ''/../x'' = ''/x''" "pathJoin ''/run/'' ''delivery-channel'' = ''/run/delivery-channel''"
  by code_simp+

section \<open>Signals\<close>

record ShutdownSignal =
  sg_ExecutionID :: string
  sg_NodeName :: string
  sg_PlanConfigHash :: string
  sg_Reason :: string
  sg_SelectedUPSDevices :: "string list"
  sg_ShutdownFlow :: string
  sg_Timestamp :: string
  sg_SkipSync :: bool

definition emptySignal :: ShutdownSignal where
  "emptySignal = \<lparr>sg_ExecutionID = '''', sg_NodeName = '''', sg_PlanConfigHash = '''', sg_Reason = '''', sg_SelectedUPSDevices = [],
     sg_ShutdownFlow = '''', sg_Timestamp = '''', sg_SkipSync = False\<rparr>"

record SignalStatus =
  ss_Active :: bool
  ss_Reason :: string
  ss_Key :: string
  ss_Path :: string
  ss_Payload :: ShutdownSignal

datatype signalFile = FileMissing | FileUnreadable | FileContents string

definition SignalKey :: "ShutdownSignal \<Rightarrow> string" where
  "SignalKey p = sg_ExecutionID p @ '':'' @ sg_NodeName p @ '':'' @ sg_PlanConfigHash p @ '':'' @ sg_Timestamp p"

definition inactive :: "string \<Rightarrow> string \<Rightarrow> ShutdownSignal \<Rightarrow> SignalStatus" where
  "inactive path reason payload = \<lparr>ss_Active = False, ss_Reason = reason, ss_Key = '''', ss_Path = path, ss_Payload = payload\<rparr>"

definition InspectSignal :: "(string \<Rightarrow> ShutdownSignal option) \<Rightarrow> signalFile \<Rightarrow> string \<Rightarrow> duration \<Rightarrow> int \<Rightarrow> string \<Rightarrow> SignalStatus" where
  "InspectSignal decode file path ttl now expectedNode =
     (case file of
        FileMissing \<Rightarrow> inactive path ''SignalMissing'' emptySignal
      | FileUnreadable \<Rightarrow> inactive path ''SignalUnreadable'' emptySignal
      | FileContents raw \<Rightarrow>
         (case decode raw of None \<Rightarrow> inactive path ''SignalInvalidJSON'' emptySignal
          | Some payload \<Rightarrow>
              if sg_ExecutionID payload = '''' \<or> sg_NodeName payload = '''' \<or> sg_PlanConfigHash payload = '''' \<or>
                 sg_ShutdownFlow payload = '''' \<or> sg_Timestamp payload = ''''
                then inactive path ''SignalMissingRequiredFields'' emptySignal
              else if expectedNode \<noteq> '''' \<and> sg_NodeName payload \<noteq> expectedNode then inactive path ''SignalWrongNode'' payload
              else (case parseRFC3339 (sg_Timestamp payload) of None \<Rightarrow> inactive path ''SignalInvalidTimestamp'' payload
                | Some timestamp \<Rightarrow>
                    if ttl > 0 \<and> timeSub now timestamp > ttl then inactive path ''SignalStale'' payload
                    else if ttl > 0 \<and> timeSub timestamp now > ttl then inactive path ''SignalFromFuture'' payload
                    else \<lparr>ss_Active = True, ss_Reason = ''SignalAccepted'', ss_Key = SignalKey payload, ss_Path = path, ss_Payload = payload\<rparr>)))"

text \<open>What an accepted signal guarantees.\<close>

definition bound_signal :: "string \<Rightarrow> ShutdownSignal \<Rightarrow> bool" where
  "bound_signal node p \<longleftrightarrow> sg_ExecutionID p \<noteq> '''' \<and> sg_NodeName p \<noteq> '''' \<and> sg_PlanConfigHash p \<noteq> '''' \<and> sg_ShutdownFlow p \<noteq> '''' \<and>
     sg_Timestamp p \<noteq> '''' \<and> (node = '''' \<or> sg_NodeName p = node)"

definition fresh_signal :: "duration \<Rightarrow> int \<Rightarrow> ShutdownSignal \<Rightarrow> bool" where
  "fresh_signal ttl now p \<longleftrightarrow>
     (case parseRFC3339 (sg_Timestamp p) of None \<Rightarrow> False
      | Some t \<Rightarrow> ttl \<le> 0 \<or> timeSub now t \<le> ttl \<and> timeSub t now \<le> ttl)"

lemma InspectSignal_active:
  "ss_Active (InspectSignal decode file path ttl now node) \<longleftrightarrow>
     (\<exists>raw p. file = FileContents raw \<and> decode raw = Some p \<and> bound_signal node p \<and> fresh_signal ttl now p)"
  by (auto simp: InspectSignal_def inactive_def bound_signal_def fresh_signal_def split: signalFile.split option.split)

lemma InspectSignal_payload:
  assumes "file = FileContents raw" and "decode raw = Some p" and "bound_signal node p" and "fresh_signal ttl now p"
  shows "InspectSignal decode file path ttl now node =
    \<lparr>ss_Active = True, ss_Reason = ''SignalAccepted'', ss_Key = SignalKey p, ss_Path = path, ss_Payload = p\<rparr>"
  using assms by (auto simp: InspectSignal_def inactive_def bound_signal_def fresh_signal_def split: option.splits)

section \<open>Publishing a signal file\<close>

text \<open>The steps of \<open>WriteSignalAtomic\<close> that can fail, as the host answers them; \<open>wf_Temp\<close> is the name
  \<open>os.CreateTemp\<close> picks and \<open>wf_Written\<close> how much of the data a failing write leaves behind.\<close>

record writeFaults =
  wf_Mkdir :: error
  wf_CreateTemp :: error
  wf_Temp :: string
  wf_Write :: error
  wf_Written :: nat
  wf_Chmod :: error
  wf_Close :: error
  wf_Rename :: error

type_synonym fileStore = "string \<rightharpoonup> string"

definition WriteSignalAtomic :: "(ShutdownSignal \<Rightarrow> string + string) \<Rightarrow> writeFaults \<Rightarrow> string \<Rightarrow> ShutdownSignal \<Rightarrow> fileStore \<Rightarrow> error \<times> fileStore" where
  "WriteSignalAtomic encode faults path payload files =
     (if path = '''' then (Some ''signal path is required'', files)
      else case wf_Mkdir faults of Some e \<Rightarrow> (Some (''create signal directory '' @ quote (pathDir path) @ '': '' @ e), files)
      | None \<Rightarrow> (case encode payload of Inl e \<Rightarrow> (Some (''encode signal payload: '' @ e), files)
      | Inr encoded \<Rightarrow> let content = encoded @ [CHR 0x0A] in
         (case wf_CreateTemp faults of Some e \<Rightarrow> (Some (''create temporary signal file: '' @ e), files)
          | None \<Rightarrow> let temp = wf_Temp faults in
              (case wf_Write faults of Some e \<Rightarrow> (Some (''write temporary signal file: '' @ e), (files(temp \<mapsto> take (wf_Written faults) content))(temp := None))
               | None \<Rightarrow> let written = files(temp \<mapsto> content) in
                 (case wf_Chmod faults of Some e \<Rightarrow> (Some (''chmod temporary signal file: '' @ e), written(temp := None))
                  | None \<Rightarrow> (case wf_Close faults of Some e \<Rightarrow> (Some (''close temporary signal file: '' @ e), written(temp := None))
                  | None \<Rightarrow> (case wf_Rename faults of Some e \<Rightarrow> (Some (''publish signal file: '' @ e), written(temp := None))
                  | None \<Rightarrow> (None, (written(path \<mapsto> content))(temp := None)))))))))"

text \<open>A reader of the signal path sees the old file or the whole new one, and nothing else changes.\<close>

lemma temp_removed:
  "files t = None \<Longrightarrow> files(t := None) = files"
  "files t = None \<Longrightarrow> t \<noteq> p \<Longrightarrow> (files(t \<mapsto> v, p \<mapsto> w))(t := None) = files(p \<mapsto> w)"
  by (auto simp: fun_eq_iff)

lemma WriteSignalAtomic_atomic:
  assumes "files (wf_Temp faults) = None" and "wf_Temp faults \<noteq> path"
  shows "case WriteSignalAtomic encode faults path payload files of
      (Some e, files') \<Rightarrow> files' = files
    | (None, files') \<Rightarrow> \<exists>encoded. encode payload = Inr encoded \<and> files' = files(path \<mapsto> encoded @ [CHR 0x0A])"
  using assms unfolding WriteSignalAtomic_def Let_def
  by (cases "encode payload") (simp_all add: temp_removed split: option.split)

section \<open>The local signal writer\<close>

definition splitCSV :: "string \<Rightarrow> string list" where
  "splitCSV s = (if s = '''' then [] else filter (\<lambda>p. p \<noteq> '''') (map trimSpace (splitOn CHR '','' [] s)))"

text \<open>The loop of \<open>canonicalStrings\<close> keeps a sorted value that is not empty and not the previous one.\<close>

fun canonical_loop :: "string \<Rightarrow> string list \<Rightarrow> string list" where
  "canonical_loop previous [] = []"
| "canonical_loop previous (v # vs) = (if v = '''' \<or> v = previous then canonical_loop previous vs else v # canonical_loop v vs)"

definition canonicalStrings :: "string list \<Rightarrow> string list" where
  "canonicalStrings vs = canonical_loop '''' (sort vs)"

record signalWriterConfig =
  sw_ExecutionID :: string
  sw_Mode :: string
  sw_NodeName :: string
  sw_PlanConfigHash :: string
  sw_Reason :: string
  sw_SelectedUPSDevices :: "string list"
  sw_ShutdownFlow :: string
  sw_SignalPath :: string
  sw_SignalTTL :: duration
  sw_HoldAfterWrite :: bool

definition reusableSignal :: "ShutdownSignal \<Rightarrow> signalWriterConfig \<Rightarrow> bool" where
  "reusableSignal p c \<longleftrightarrow> sg_NodeName p = sw_NodeName c \<and> sg_PlanConfigHash p = sw_PlanConfigHash c \<and> sg_Reason p = sw_Reason c \<and>
     sg_ShutdownFlow p = sw_ShutdownFlow c \<and> canonicalStrings (sg_SelectedUPSDevices p) = sw_SelectedUPSDevices c"

definition readStore :: "fileStore \<Rightarrow> string \<Rightarrow> signalFile" where
  "readStore files path = (case files path of None \<Rightarrow> FileMissing | Some raw \<Rightarrow> FileContents raw)"

definition writeSignal :: "(string \<Rightarrow> ShutdownSignal option) \<Rightarrow> (ShutdownSignal \<Rightarrow> string + string) \<Rightarrow> writeFaults \<Rightarrow> signalWriterConfig \<Rightarrow> int \<Rightarrow> fileStore \<Rightarrow>
    (string + ShutdownSignal \<times> bool) \<times> fileStore" where
  "writeSignal decode encode faults config0 now files =
     (if sw_NodeName config0 = '''' then (Inl ''POWER_NODE_NAME is required'', files)
      else if sw_PlanConfigHash config0 = '''' then (Inl ''POWER_AGENT_CONFIG_HASH is required'', files)
      else if sw_ShutdownFlow config0 = '''' then (Inl ''POWER_SHUTDOWN_FLOW is required'', files)
      else let config = config0\<lparr>sw_SignalPath := (if sw_SignalPath config0 = '''' then ''/run/power-agent/shutdown.json'' else sw_SignalPath config0),
                                sw_SelectedUPSDevices := canonicalStrings (sw_SelectedUPSDevices config0)\<rparr>;
               path = sw_SignalPath config;
               status = InspectSignal decode (readStore files path) path (sw_SignalTTL config) now (sw_NodeName config) in
        if ss_Active status \<and> reusableSignal (ss_Payload status) config then (Inr (ss_Payload status, True), files)
        else if ss_Reason status = ''SignalWrongNode'' then (Inl (''refusing to overwrite signal for node '' @ quote (sg_NodeName (ss_Payload status))), files)
        else let executionID = (if sw_ExecutionID config = '''' then ''upsmon-'' @ sw_NodeName config @ ''-'' @ show_int now else sw_ExecutionID config);
                 payload = \<lparr>sg_ExecutionID = executionID, sg_NodeName = sw_NodeName config, sg_PlanConfigHash = sw_PlanConfigHash config,
                   sg_Reason = sw_Reason config, sg_SelectedUPSDevices = sw_SelectedUPSDevices config, sg_ShutdownFlow = sw_ShutdownFlow config,
                   sg_Timestamp = formatRFC3339Nano now, sg_SkipSync = False\<rparr> in
          (case WriteSignalAtomic encode faults path payload files of
             (Some e, files') \<Rightarrow> (Inl e, files')
           | (None, files') \<Rightarrow> (Inr (payload, False), files')))"

end
