(* ===== verification/Actuator.thy ===== *)
theory Actuator
  imports NodeSignal
begin

text \<open>
  The node actuator, \<open>src/cmd/node-actuator\<close>: configuration, start-up, one pass over the signal paths,
  the state file that survives a container restart, readiness, and the two ways of halting a machine.
  What the host answers during a pass is the record \<open>passHost\<close>; what the process does is a list of
  \<open>haltEvent\<close>s, the lines of the gate trace and the calls that stop the machine.  The free text of a
  gate line is not kept.  The codec of the state file is a parameter.
\<close>

section \<open>Configuration\<close>

record actuatorConfig =
  cf_Mode :: string
  cf_Policy :: string
  cf_NodeName :: string
  cf_SignalPaths :: "string list"
  cf_SignalTTL :: duration
  cf_Interval :: duration
  cf_ShutdownFlow :: string
  cf_StatePath :: string
  cf_TalosConfigPath :: string
  cf_TalosEndpoints :: "string list"
  cf_TalosNode :: string
  cf_TalosShutdownTimeout :: duration

abbreviation "policyDisabled \<equiv> ''Disabled''"
abbreviation "policySimulate \<equiv> ''Simulate''"
abbreviation "policyPowerOff \<equiv> ''PowerOff''"
abbreviation "policyTalosShutdown \<equiv> ''TalosShutdown''"
abbreviation "modeActuate \<equiv> ''Actuate''"

definition envOr :: "(string \<Rightarrow> string) \<Rightarrow> string \<Rightarrow> string \<Rightarrow> string" where
  "envOr getenv key fallback = (if getenv key = '''' then fallback else getenv key)"

definition parseDurationOr :: "string \<Rightarrow> duration \<Rightarrow> duration" where
  "parseDurationOr s fallback = (case ParseDuration s of Some d \<Rightarrow> d
     | None \<Rightarrow> (case ParseInt s of Some n \<Rightarrow> wrap64 (n * second) | None \<Rightarrow> fallback))"

definition defaultSignalPath :: "string \<Rightarrow> string" where
  "defaultSignalPath node = (if node = '''' then '''' else ''/var/lib/power-agent/signals/'' @ node @ ''.json'')"

definition listSeparator :: "char \<Rightarrow> bool" where
  "listSeparator c \<longleftrightarrow> c = CHR '','' \<or> c = CHR 0x0A \<or> c = CHR 0x09 \<or> c = CHR '' ''"

fun fieldsFunc :: "(char \<Rightarrow> bool) \<Rightarrow> string \<Rightarrow> string \<Rightarrow> string list" where
  "fieldsFunc P cur [] = (if cur = [] then [] else [rev cur])"
| "fieldsFunc P cur (c # s) =
     (if P c then (if cur = [] then fieldsFunc P [] s else rev cur # fieldsFunc P [] s) else fieldsFunc P (c # cur) s)"

fun uniqueFields :: "string list \<Rightarrow> string list \<Rightarrow> string list" where
  "uniqueFields seen [] = []"
| "uniqueFields seen (f # fs) =
     (let field = trimSpace f in
      if field = '''' \<or> field \<in> set seen then uniqueFields seen fs else field # uniqueFields (field # seen) fs)"

definition valueList :: "string \<Rightarrow> string list" where
  "valueList s = uniqueFields [] (fieldsFunc listSeparator [] s)"

definition signalPaths :: "string \<Rightarrow> string \<Rightarrow> string list" where
  "signalPaths s fallback =
     (if s = '''' then (if fallback = '''' then [] else [fallback])
      else let paths = valueList s in if paths = [] \<and> fallback \<noteq> '''' then [fallback] else paths)"

definition loadActuatorConfig :: "(string \<Rightarrow> string) \<Rightarrow> actuatorConfig" where
  "loadActuatorConfig getenv =
     (let node = envOr getenv ''POWER_NODE_NAME'' '''' in
      \<lparr>cf_Mode = envOr getenv ''POWER_AGENT_MODE'' ''DryRun'',
       cf_Policy = envOr getenv ''POWER_ACTUATOR_POLICY'' policySimulate,
       cf_NodeName = node,
       cf_SignalPaths = signalPaths (envOr getenv ''POWER_SIGNAL_PATHS'' '''') (defaultSignalPath node),
       cf_SignalTTL = parseDurationOr (envOr getenv ''POWER_SIGNAL_TTL'' ''2m'') (120 * second),
       cf_Interval = parseDurationOr (envOr getenv ''POWER_ACTUATOR_INTERVAL'' ''5s'') (5 * second),
       cf_ShutdownFlow = envOr getenv ''POWER_SHUTDOWN_FLOW'' '''',
       cf_StatePath = envOr getenv ''POWER_ACTUATOR_STATE_PATH'' ''/run/actuator/state.json'',
       cf_TalosConfigPath = envOr getenv ''POWER_TALOS_CONFIG'' ''/var/run/secrets/talos.dev/config'',
       cf_TalosEndpoints = valueList (envOr getenv ''POWER_TALOS_ENDPOINTS'' ''''),
       cf_TalosNode = envOr getenv ''POWER_TALOS_NODE'' '''',
       cf_TalosShutdownTimeout = parseDurationOr (envOr getenv ''POWER_TALOS_SHUTDOWN_TIMEOUT'' ''30s'') (30 * second)\<rparr>)"

section \<open>Halting the machine\<close>

record capabilities =
  cap_Read :: error
  cap_Permitted :: bool
  cap_Effective :: bool
  cap_Set :: error

record passHost =
  ph_File :: "string \<Rightarrow> signalFile"
  ph_Now :: "nat \<Rightarrow> int"
  ph_Exists :: "string \<Rightarrow> bool"
  ph_SyncInTime :: bool
  ph_Capabilities :: capabilities
  ph_Reboot :: error
  ph_TalosOpen :: error
  ph_TalosCall :: error
  ph_RecordedAt :: int
  ph_WriteState :: error

record talosShutdownRequest =
  tq_ConfigPath :: string
  tq_Endpoints :: "string list"
  tq_Node :: string
  tq_Force :: bool
  tq_Timeout :: duration

datatype haltEvent = Gate string bool | Actuating int SignalStatus | Syncing
  | Reboot ShutdownSignal | TalosCall ShutdownSignal talosShutdownRequest

definition verifySysBootAvailable :: "capabilities \<Rightarrow> error" where
  "verifySysBootAvailable caps = (case cap_Read caps of Some e \<Rightarrow> Some (''read capabilities: '' @ e)
     | None \<Rightarrow> if cap_Permitted caps then None
         else Some (''CAP_SYS_BOOT is not in this process's permitted set, so reboot(2) would fail with EPERM. One of three things is true: the container securityContext does not request the capability, the shipped binary lost its cap_sys_boot file capability (an image registry or builder that drops the security.capability extended attribute), or this process was not exec'd as the container entrypoint (a capability-dumb parent inside the container loses it to no_new_privs)''))"

definition raiseSysBoot :: "capabilities \<Rightarrow> error \<times> capabilities" where
  "raiseSysBoot caps = (case cap_Read caps of Some e \<Rightarrow> (Some (''read capabilities: '' @ e), caps)
     | None \<Rightarrow> if \<not> cap_Permitted caps then (verifySysBootAvailable caps, caps)
         else if cap_Effective caps then (None, caps)
         else (case cap_Set caps of Some e \<Rightarrow> (Some (''raise CAP_SYS_BOOT into the effective set: '' @ e), caps)
           | None \<Rightarrow> (None, caps\<lparr>cap_Effective := True\<rparr>)))"

definition rebootPoweroff :: "passHost \<Rightarrow> capabilities \<Rightarrow> ShutdownSignal \<Rightarrow> error \<times> haltEvent list" where
  "rebootPoweroff host caps payload = (case raiseSysBoot caps of
       (Some e, _) \<Rightarrow> (Some e, [])
     | (None, _) \<Rightarrow> (ph_Reboot host, [Reboot payload]))"

definition runPoweroff :: "passHost \<Rightarrow> ShutdownSignal \<Rightarrow> error \<times> haltEvent list" where
  "runPoweroff host payload =
     (let flush = (if sg_SkipSync payload then [Gate ''Sync'' True] else [Syncing, Gate ''Sync'' True, Gate ''Sync'' (ph_SyncInTime host)]) in
      case raiseSysBoot (ph_Capabilities host) of
        (Some e, _) \<Rightarrow> (Some (''raise CAP_SYS_BOOT before halting: '' @ e), flush @ [Gate ''CapabilityEffective'' False])
      | (None, caps) \<Rightarrow>
          let armed = flush @ [Gate ''CapabilityEffective'' True, Gate ''SyscallIssued'' True] in
          (case rebootPoweroff host caps payload of
             (Some e, evs) \<Rightarrow> (Some (''run reboot poweroff syscall: '' @ e), armed @ evs @ [Gate ''SyscallIssued'' False])
           | (None, evs) \<Rightarrow> (None, armed @ evs)))"

definition verifyTalosShutdownAvailable :: "actuatorConfig \<Rightarrow> error \<Rightarrow> error" where
  "verifyTalosShutdownAvailable config opened =
     (if cf_TalosConfigPath config = '''' then Some ''POWER_TALOS_CONFIG is required''
      else if cf_TalosNode config = '''' then Some ''POWER_TALOS_NODE is required''
      else if cf_TalosEndpoints config = [] then Some ''POWER_TALOS_ENDPOINTS requires at least one endpoint''
      else map_option (\<lambda>e. ''open talosconfig: '' @ e) opened)"

definition runTalosShutdown :: "actuatorConfig \<Rightarrow> passHost \<Rightarrow> ShutdownSignal \<Rightarrow> error \<times> haltEvent list" where
  "runTalosShutdown config host payload =
     (case verifyTalosShutdownAvailable config (ph_TalosOpen host) of
        Some e \<Rightarrow> (Some e, [Gate ''TalosCredential'' False])
      | None \<Rightarrow>
          let timeout = (if cf_TalosShutdownTimeout config \<le> 0 then 30 * second else cf_TalosShutdownTimeout config);
              request = \<lparr>tq_ConfigPath = cf_TalosConfigPath config, tq_Endpoints = cf_TalosEndpoints config, tq_Node = cf_TalosNode config,
                tq_Force = True, tq_Timeout = timeout\<rparr>;
              asked = [Gate ''TalosCredential'' True, Gate ''TalosTarget'' True, Gate ''TalosAPICall'' True, TalosCall payload request] in
          (case ph_TalosCall host of Some e \<Rightarrow> (Some e, asked @ [Gate ''TalosAPICall'' False]) | None \<Rightarrow> (None, asked)))"

datatype actuatorFunc = simulateActuator | powerOffActuator | talosShutdownActuator

fun actuate :: "actuatorFunc \<Rightarrow> actuatorConfig \<Rightarrow> passHost \<Rightarrow> SignalStatus \<Rightarrow> error \<times> haltEvent list" where
  "actuate simulateActuator config host status = (None, [])"
| "actuate powerOffActuator config host status =
     (if cf_Mode config \<noteq> modeActuate then (None, [Gate ''ModeAuthorized'' False])
      else case runPoweroff host (ss_Payload status) of (e, evs) \<Rightarrow> (e, Gate ''ModeAuthorized'' True # evs))"
| "actuate talosShutdownActuator config host status =
     (if cf_Mode config \<noteq> modeActuate then (None, [Gate ''ModeAuthorized'' False])
      else case runTalosShutdown config host (ss_Payload status) of (e, evs) \<Rightarrow> (e, Gate ''ModeAuthorized'' True # evs))"

section \<open>Start-up\<close>

datatype startup = Blocked string | Exited int | Watching actuatorFunc

definition startActuator :: "actuatorConfig \<Rightarrow> capabilities \<Rightarrow> error \<Rightarrow> startup \<times> haltEvent list" where
  "startActuator config caps opened =
     (if cf_Policy config = policyDisabled \<or> cf_Policy config = '''' then (Blocked ''disabled policy'', [])
      else if cf_Policy config = policySimulate then (Watching simulateActuator, [])
      else if cf_Policy config = policyPowerOff
        then (if cf_Mode config \<noteq> modeActuate then (Blocked ''PowerOff requires POWER_AGENT_MODE=Actuate'', [])
              else case verifySysBootAvailable caps of Some e \<Rightarrow> (Exited 78, [Gate ''CapabilityPermitted'' False])
                | None \<Rightarrow> (Watching powerOffActuator, [Gate ''CapabilityPermitted'' True]))
      else if cf_Policy config = policyTalosShutdown
        then (if cf_Mode config \<noteq> modeActuate then (Blocked ''TalosShutdown requires POWER_AGENT_MODE=Actuate'', [])
              else case verifyTalosShutdownAvailable config opened of Some e \<Rightarrow> (Exited 78, [Gate ''TalosCredential'' False])
                | None \<Rightarrow> (Watching talosShutdownActuator, [Gate ''TalosCredential'' True]))
      else (Exited 64, []))"

section \<open>One pass\<close>

fun scanSignalPaths :: "(string \<Rightarrow> ShutdownSignal option) \<Rightarrow> actuatorConfig \<Rightarrow> actuatorFunc \<Rightarrow> passHost \<Rightarrow> nat \<Rightarrow> string list \<Rightarrow> string list \<Rightarrow>
    string list \<times> string list \<times> haltEvent list" where
  "scanSignalPaths decode config act host i [] seen = ([], seen, [])"
| "scanSignalPaths decode config act host i (path # paths) seen =
     (let now = ph_Now host i; status = InspectSignal decode (ph_File host path) path (cf_SignalTTL config) now (cf_NodeName config) in
      if \<not> ss_Active status
      then case scanSignalPaths decode config act host (Suc i) paths seen of (skewed, seen', evs) \<Rightarrow>
        ((if ss_Reason status = ''SignalFromFuture'' then path # skewed else skewed), seen',
         (if ss_Reason status \<noteq> ''SignalMissing'' then Gate ''SignalAccepted'' False # evs else evs))
      else if cf_ShutdownFlow config \<noteq> '''' \<and> sg_ShutdownFlow (ss_Payload status) \<noteq> cf_ShutdownFlow config
      then case scanSignalPaths decode config act host (Suc i) paths seen of (skewed, seen', evs) \<Rightarrow>
        (skewed, seen', Gate ''SignalAccepted'' True # Gate ''FlowBinding'' False # evs)
      else let evs = [Gate ''SignalAccepted'' True, Gate ''FlowBinding'' True] in
        if ss_Key status \<in> set seen then ([], seen, evs)
        else ([], seen @ [ss_Key status], evs @ Actuating now status # snd (actuate act config host status)))"
section \<open>The state file\<close>

record actuatorState =
  as_Timestamp :: string
  as_Policy :: string
  as_IntervalSeconds :: float64
  as_UnreadableSignalDirs :: "string list"
  as_UnprojectedSignalDirs :: "string list"
  as_ClockSkewedSignals :: "string list"
  as_ActuatedKeys :: "string list"

record stateCodec =
  sc_Encode :: "actuatorState \<Rightarrow> string + string"
  sc_Decode :: "string \<Rightarrow> actuatorState option"

definition maxActuatedKeys :: nat where "maxActuatedKeys = 64"

definition pruneActuatedKeys :: "string list \<Rightarrow> string list" where
  "pruneActuatedKeys keys = (if length keys \<le> maxActuatedKeys then keys else drop (length keys - maxActuatedKeys) keys)"

definition actuatedKeys :: "string list \<Rightarrow> string list" where
  "actuatedKeys seen = pruneActuatedKeys (sort seen)"

definition unreadableSignalDirs :: "passHost \<Rightarrow> string list \<Rightarrow> string list" where
  "unreadableSignalDirs host paths = filter (\<lambda>d. \<not> ph_Exists host d) (map pathDir paths)"

definition unprojectedSignalDirs :: "passHost \<Rightarrow> string list \<Rightarrow> string list" where
  "unprojectedSignalDirs host paths =
     filter (\<lambda>d. ph_Exists host d \<and> \<not> ph_Exists host (pathJoin d ''delivery-channel'')) (map pathDir paths)"

text \<open>\<open>Duration.Seconds\<close>, and \<open>time.RFC3339\<close> without a fraction.\<close>

definition stateSeconds :: "duration \<Rightarrow> float64" where
  "stateSeconds d = (let s = sgn d * (\<bar>d\<bar> div second); ns = sgn d * (\<bar>d\<bar> mod second) in
     fadd (fromInt s) (fdiv (fromInt ns) (fromInt second)))"

definition formatRFC3339 :: "int \<Rightarrow> string" where
  "formatRFC3339 t = formatRFC3339Nano (t div second * second)"

text \<open>A process keeps the keys it acted on and what it last reported about its channel; the state file
  outlives it.\<close>

record watcher =
  wt_Seen :: "string list"
  wt_Channel :: "bool option"
  wt_File :: "string option"

definition channelObserve :: "bool option \<Rightarrow> string list \<Rightarrow> string list \<Rightarrow> bool option \<times> haltEvent list" where
  "channelObserve known unreadable unprojected =
     (let healthy = (unreadable = [] \<and> unprojected = []) in
      if known = Some healthy then (known, []) else (Some healthy, [Gate ''SignalChannel'' healthy]))"

definition writeActuatorState :: "stateCodec \<Rightarrow> error \<Rightarrow> actuatorState \<Rightarrow> string option \<Rightarrow> string option" where
  "writeActuatorState codec fault state file = (case sc_Encode codec state of Inl e \<Rightarrow> file
     | Inr raw \<Rightarrow> (case fault of Some e \<Rightarrow> file | None \<Rightarrow> Some raw))"

definition readActuatorState :: "stateCodec \<Rightarrow> string option \<Rightarrow> actuatorState option" where
  "readActuatorState codec file = Option.bind file (sc_Decode codec)"

definition startWatching :: "stateCodec \<Rightarrow> string option \<Rightarrow> watcher" where
  "startWatching codec file =
     \<lparr>wt_Seen = (case readActuatorState codec file of Some previous \<Rightarrow> remdups (as_ActuatedKeys previous) | None \<Rightarrow> []),
      wt_Channel = None, wt_File = file\<rparr>"

definition watchPass :: "(string \<Rightarrow> ShutdownSignal option) \<Rightarrow> stateCodec \<Rightarrow> actuatorConfig \<Rightarrow> actuatorFunc \<Rightarrow> passHost \<Rightarrow> watcher \<Rightarrow> watcher \<times> haltEvent list" where
  "watchPass decode codec config act host w =
     (case scanSignalPaths decode config act host 0 (cf_SignalPaths config) (wt_Seen w) of (skewed, seen, evs) \<Rightarrow>
      let unreadable = unreadableSignalDirs host (cf_SignalPaths config);
          unprojected = unprojectedSignalDirs host (cf_SignalPaths config);
          state = \<lparr>as_Timestamp = formatRFC3339 (ph_RecordedAt host), as_Policy = cf_Policy config,
            as_IntervalSeconds = stateSeconds (cf_Interval config), as_UnreadableSignalDirs = unreadable,
            as_UnprojectedSignalDirs = unprojected, as_ClockSkewedSignals = skewed, as_ActuatedKeys = actuatedKeys seen\<rparr> in
      case channelObserve (wt_Channel w) unreadable unprojected of (channel, cevs) \<Rightarrow>
        (\<lparr>wt_Seen = seen, wt_Channel = channel, wt_File = writeActuatorState codec (ph_WriteState host) state (wt_File w)\<rparr>, evs @ cevs))"

text \<open>The life of an actuator: passes of the watch loop, and restarts of the container, which lose
  everything but the state file.\<close>

datatype watchStep = Pass passHost | Restart

fun watch :: "(string \<Rightarrow> ShutdownSignal option) \<Rightarrow> stateCodec \<Rightarrow> actuatorConfig \<Rightarrow> actuatorFunc \<Rightarrow> watchStep list \<Rightarrow> watcher \<Rightarrow> watcher \<times> haltEvent list" where
  "watch decode codec config act [] w = (w, [])"
| "watch decode codec config act (Pass host # steps) w =
     (case watchPass decode codec config act host w of (w1, evs) \<Rightarrow>
      case watch decode codec config act steps w1 of (w2, evs') \<Rightarrow> (w2, evs @ evs'))"
| "watch decode codec config act (Restart # steps) w = watch decode codec config act steps (startWatching codec (wt_File w))"

section \<open>Readiness\<close>

definition actuatorStaleAfter :: "duration \<Rightarrow> duration" where
  "actuatorStaleAfter interval = (let bound = wrap64 (3 * interval) in if bound < 30 * second then 30 * second else bound)"

definition showList :: "string list \<Rightarrow> string" where
  "showList xs = ''['' @ join '' '' xs @ '']''"

definition checkActuatorReady :: "stateCodec \<Rightarrow> actuatorConfig \<Rightarrow> string option \<Rightarrow> int \<Rightarrow> error" where
  "checkActuatorReady codec config file now =
     (if cf_Policy config = policyDisabled \<or> cf_Policy config = '''' then None
      else case readActuatorState codec file of
        None \<Rightarrow> Some (''the '' @ cf_Policy config @ '' watch loop has not recorded a pass at '' @ cf_StatePath config)
      | Some state \<Rightarrow>
          if as_UnreadableSignalDirs state \<noteq> [] then Some (''signal directories unreadable on the last pass: '' @ showList (as_UnreadableSignalDirs state))
          else if as_UnprojectedSignalDirs state \<noteq> []
            then Some (''signal directories carry no '' @ quote ''delivery-channel'' @ '' marker, so the operator's delivery channel is not mounted there: '' @ showList (as_UnprojectedSignalDirs state))
          else if as_ClockSkewedSignals state \<noteq> []
            then Some (''signals were timestamped more than one TTL ahead of this node's clock, so every operator-issued signal is being rejected; check time sync on this node: '' @ showList (as_ClockSkewedSignals state))
          else (case parseRFC3339 (as_Timestamp state) of
              None \<Rightarrow> Some (''actuator state carries an unparseable timestamp '' @ quote (as_Timestamp state))
            | Some recorded \<Rightarrow>
                let interval = toInt64 (fmul (as_IntervalSeconds state) (fromInt second)); staleAfter = actuatorStaleAfter interval;
                    age = timeSub now recorded in
                if age > staleAfter
                then Some (''the '' @ cf_Policy config @ '' watch loop last completed a pass '' @ durationString (age - sgn age * (\<bar>age\<bar> mod second)) @
                  '' ago, more than the '' @ durationString staleAfter @ '' allowed for a '' @ durationString interval @ '' interval'')
                else None))"


end
