(* ===== verification/ActuatorSafety.thy ===== *)
theory ActuatorSafety
  imports Actuator
begin

text \<open>
  Safety of the node actuator over every sequence of passes and restarts: the machine is stopped only after an
  accepted signal, no signal is acted on twice while the state file remembers it, and what the pruning of the
  state file can forget.
\<close>

section \<open>Every halt is authorised\<close>

definition accepted :: "actuatorConfig \<Rightarrow> int \<Rightarrow> ShutdownSignal \<Rightarrow> bool" where
  "accepted config now p \<longleftrightarrow> bound_signal (cf_NodeName config) p \<and> fresh_signal (cf_SignalTTL config) now p \<and>
     (cf_ShutdownFlow config = '''' \<or> sg_ShutdownFlow p = cf_ShutdownFlow config)"






lemma actuate_no_actuating [simp]: "Actuating now st' \<notin> set (snd (actuate act config host st))"
  by (cases act) (auto simp: runPoweroff_def rebootPoweroff_def runTalosShutdown_def Let_def split: prod.splits option.splits if_splits)







lemma watchPass_parts:
  assumes "watchPass decode codec config act host w = (w', evs)"
  obtains skewed evs1 cevs state where
    "scanSignalPaths decode config act host 0 (cf_SignalPaths config) (wt_Seen w) = (skewed, wt_Seen w', evs1)" "evs = evs1 @ cevs"
    "list_all (\<lambda>ev. \<exists>g ok. ev = Gate g ok) cevs"
    "wt_File w' = writeActuatorState codec (ph_WriteState host) state (wt_File w)" "as_ActuatedKeys state = actuatedKeys (wt_Seen w')"
proof -
  obtain skewed seen evs1 where scan: "scanSignalPaths decode config act host 0 (cf_SignalPaths config) (wt_Seen w) = (skewed, seen, evs1)" by (rule prod_cases3)
  have gates: "list_all (\<lambda>ev. \<exists>g ok. ev = Gate g ok) cevs" if "channelObserve known a b = (channel, cevs)" for known a b channel cevs
    using that by (auto simp: channelObserve_def Let_def split: if_splits)
  show ?thesis
    using assms gates by (auto simp: watchPass_def scan Let_def split: prod.splits intro!: that)
qed


section \<open>A signal is acted on once\<close>

definition actuations :: "haltEvent list \<Rightarrow> string list" where
  "actuations evs = List.map_filter (\<lambda>ev. case ev of Actuating now st \<Rightarrow> Some (ss_Key st) | _ \<Rightarrow> None) evs"

lemma actuations_simps [simp]:
  "actuations [] = []" "actuations (Gate g ok # evs) = actuations evs" "actuations (Actuating now st # evs) = ss_Key st # actuations evs"
  "actuations (xs @ ys) = actuations xs @ actuations ys"
  by (simp_all add: actuations_def List.map_filter_def)

lemma actuations_none: "\<forall>now st. Actuating now st \<notin> set evs \<Longrightarrow> actuations evs = []"
  by (induction evs) (auto simp: actuations_def List.map_filter_def split: haltEvent.splits)

lemma actuations_actuate [simp]: "actuations (snd (actuate act config host st)) = []"
  by (rule actuations_none) simp

lemma scan_actuations:
  "scanSignalPaths decode config act host i paths seen = (skewed, seen', evs) \<Longrightarrow>
     seen' = seen @ actuations evs \<and> distinct (actuations evs) \<and> set seen \<inter> set (actuations evs) = {}"
proof (induction paths arbitrary: i skewed seen' evs)
  case (Cons path paths)
  obtain skewed1 seen1 evs1 where rec: "scanSignalPaths decode config act host (Suc i) paths seen = (skewed1, seen1, evs1)" by (rule prod_cases3)
  show ?case using Cons.prems Cons.IH [OF rec] by (auto simp: Let_def rec split: if_splits)
qed simp

text \<open>What the state file's codec has to keep for a restart: the list of keys.\<close>

definition faithful :: "stateCodec \<Rightarrow> bool" where
  "faithful codec \<longleftrightarrow> (\<forall>s. \<exists>raw s'. sc_Encode codec s = Inr raw \<and> sc_Decode codec raw = Some s' \<and> as_ActuatedKeys s' = as_ActuatedKeys s)"

fun recorded :: "watchStep \<Rightarrow> bool" where
  "recorded (Pass host) = (ph_WriteState host = None)"
| "recorded Restart = True"

definition kept :: "stateCodec \<Rightarrow> watcher \<Rightarrow> bool" where
  "kept codec w \<longleftrightarrow> distinct (wt_Seen w) \<and>
     (case wt_File w of None \<Rightarrow> wt_Seen w = []
      | Some raw \<Rightarrow> \<exists>s. sc_Decode codec raw = Some s \<and> as_ActuatedKeys s = actuatedKeys (wt_Seen w))"

lemma watchPass_kept:
  assumes "watchPass decode codec config act host w = (w', evs)" and "faithful codec" and "ph_WriteState host = None" and "distinct (wt_Seen w)"
  shows "wt_Seen w' = wt_Seen w @ actuations evs" "distinct (wt_Seen w')" "kept codec w'"
proof -
  from assms(1) obtain skewed evs1 cevs state where
    scan: "scanSignalPaths decode config act host 0 (cf_SignalPaths config) (wt_Seen w) = (skewed, wt_Seen w', evs1)" "evs = evs1 @ cevs"
    "list_all (\<lambda>ev. \<exists>g ok. ev = Gate g ok) cevs"
    and stored: "wt_File w' = writeActuatorState codec (ph_WriteState host) state (wt_File w)" "as_ActuatedKeys state = actuatedKeys (wt_Seen w')"
    by (rule watchPass_parts)
  have "actuations cevs = []" using scan(3) by (intro actuations_none) (auto simp: list_all_iff)
  then show keys: "wt_Seen w' = wt_Seen w @ actuations evs" and distinct: "distinct (wt_Seen w')"
    using scan_actuations [OF scan(1)] scan(2) assms(4) by auto
  obtain raw s where "sc_Encode codec state = Inr raw" "sc_Decode codec raw = Some s" "as_ActuatedKeys s = as_ActuatedKeys state"
    using assms(2) unfolding faithful_def by blast
  then show "kept codec w'" using stored distinct assms(3) by (simp add: kept_def writeActuatorState_def)
qed

lemma restart_kept:
  assumes "kept codec w" and "length (wt_Seen w) \<le> maxActuatedKeys"
  shows "set (wt_Seen (startWatching codec (wt_File w))) = set (wt_Seen w)" "kept codec (startWatching codec (wt_File w))"
proof -
  let ?v = "startWatching codec (wt_File w)"
  have seen: "wt_Seen ?v = sort (wt_Seen w)"
    using assms by (auto simp: kept_def startWatching_def readActuatorState_def actuatedKeys_def pruneActuatedKeys_def distinct_remdups_id split: option.splits)
  then show "set (wt_Seen ?v) = set (wt_Seen w)" by simp
  have "actuatedKeys (wt_Seen ?v) = actuatedKeys (wt_Seen w)" unfolding seen by (simp add: actuatedKeys_def sort_key_id_if_sorted)
  then show "kept codec ?v"
    using assms(1) seen by (auto simp: kept_def startWatching_def split: option.splits)
qed

lemma watch_once:
  assumes "faithful codec" and "list_all recorded steps" and "kept codec w" and "watch decode codec config act steps w = (w', evs)"
    and "card (set (wt_Seen w) \<union> set (actuations evs)) \<le> maxActuatedKeys"
  shows "distinct (actuations evs) \<and> set (wt_Seen w) \<inter> set (actuations evs) = {}"
  using assms(2-5)
proof (induction steps arbitrary: w evs)
  case (Cons step steps)
  show ?case
  proof (cases step)
    case (Pass host)
    obtain w1 evs1 where first: "watchPass decode codec config act host w = (w1, evs1)" by fastforce
    obtain w2 evs2 where rest: "watch decode codec config act steps w1 = (w2, evs2)" by fastforce
    have d: "distinct (wt_Seen w)" and ok: "ph_WriteState host = None" using Cons.prems Pass by (simp_all add: kept_def)
    note pass = watchPass_kept [OF first assms(1) ok d]
    have evs: "evs = evs1 @ evs2" "w2 = w'" using Cons.prems(3) by (simp_all add: Pass first rest)
    have "distinct (actuations evs2) \<and> set (wt_Seen w1) \<inter> set (actuations evs2) = {}"
      using Cons.prems(1,4) rest evs pass by (intro Cons.IH [of w1 evs2]) (simp_all add: Un_assoc)
    then show ?thesis using pass d by (auto simp: evs)
  next
    case Restart
    have "length (wt_Seen w) = card (set (wt_Seen w))" using Cons.prems(2) by (simp add: kept_def distinct_card)
    also have "\<dots> \<le> card (set (wt_Seen w) \<union> set (actuations evs))" by (rule card_mono) auto
    finally have "length (wt_Seen w) \<le> maxActuatedKeys" using Cons.prems(4) by simp
    note restart = restart_kept [OF Cons.prems(2) this]
    have "distinct (actuations evs) \<and> set (wt_Seen (startWatching codec (wt_File w))) \<inter> set (actuations evs) = {}"
      using Cons.prems Restart restart by (intro Cons.IH) simp_all
    then show ?thesis using restart by simp
  qed
qed simp
section \<open>What pruning forgets\<close>

definition signalHost :: "string \<Rightarrow> int \<Rightarrow> passHost" where
  "signalHost raw t = \<lparr>ph_File = \<lambda>_. FileContents raw, ph_Now = \<lambda>_. t, ph_Exists = \<lambda>_. True, ph_SyncInTime = True,
     ph_Capabilities = \<lparr>cap_Read = None, cap_Permitted = True, cap_Effective = False, cap_Set = None\<rparr>,
     ph_Reboot = None, ph_TalosOpen = None, ph_TalosCall = None, ph_RecordedAt = t, ph_WriteState = None\<rparr>"

definition signalPass :: "string \<times> int \<Rightarrow> watchStep" where
  "signalPass s = Pass (signalHost (fst s) (snd s))"

definition keyOf :: "(string \<Rightarrow> ShutdownSignal option) \<Rightarrow> string \<times> int \<Rightarrow> string" where
  "keyOf decode s = (case decode (fst s) of Some p \<Rightarrow> SignalKey p | None \<Rightarrow> '''')"

definition deliverable :: "(string \<Rightarrow> ShutdownSignal option) \<Rightarrow> actuatorConfig \<Rightarrow> string \<times> int \<Rightarrow> bool" where
  "deliverable decode config s \<longleftrightarrow> (case decode (fst s) of Some p \<Rightarrow> accepted config (snd s) p | None \<Rightarrow> False)"

lemma signalPass_actuates:
  assumes path: "cf_SignalPaths config = [path]" and s: "deliverable decode config s" and codec: "faithful codec" and d: "distinct (wt_Seen w)"
  obtains w' evs where "watchPass decode codec config act (signalHost (fst s) (snd s)) w = (w', evs)" "kept codec w'"
    "wt_Seen w' = wt_Seen w @ actuations evs" "actuations evs = (if keyOf decode s \<in> set (wt_Seen w) then [] else [keyOf decode s])"
proof -
  obtain w' evs where pass: "watchPass decode codec config act (signalHost (fst s) (snd s)) w = (w', evs)" by fastforce
  have "ph_WriteState (signalHost (fst s) (snd s)) = None" by (simp add: signalHost_def)
  note k = watchPass_kept [OF pass codec this d]
  from pass obtain skewed evs1 cevs where scan: "scanSignalPaths decode config act (signalHost (fst s) (snd s)) 0 (cf_SignalPaths config) (wt_Seen w) = (skewed, wt_Seen w', evs1)"
      "evs = evs1 @ cevs" "list_all (\<lambda>ev. \<exists>g ok. ev = Gate g ok) cevs"
    by (rule watchPass_parts)
  obtain p where p: "decode (fst s) = Some p" "accepted config (snd s) p" using s by (auto simp: deliverable_def split: option.splits)
  have st: "InspectSignal decode (ph_File (signalHost (fst s) (snd s)) path) path (cf_SignalTTL config) (ph_Now (signalHost (fst s) (snd s)) 0) (cf_NodeName config) =
      \<lparr>ss_Active = True, ss_Reason = ''SignalAccepted'', ss_Key = SignalKey p, ss_Path = path, ss_Payload = p\<rparr>"
    using p by (intro InspectSignal_payload [where raw = "fst s"]) (simp_all add: signalHost_def accepted_def)
  have "actuations cevs = []" using scan(3) by (intro actuations_none) (auto simp: list_all_iff)
  moreover have "actuations evs1 = (if keyOf decode s \<in> set (wt_Seen w) then [] else [keyOf decode s])"
    using scan(1) p unfolding path scanSignalPaths.simps Let_def st by (auto simp: keyOf_def accepted_def split: if_splits)
  ultimately show ?thesis using that [OF pass k(3) k(1)] scan(2) by simp
qed

lemma signalPasses_actuate:
  assumes "cf_SignalPaths config = [path]" and "faithful codec" and "kept codec w" and "list_all (deliverable decode config) ss"
    and "distinct (wt_Seen w @ map (keyOf decode) ss)"
  obtains w' evs where "watch decode codec config act (map signalPass ss) w = (w', evs)" "kept codec w'"
    "wt_Seen w' = wt_Seen w @ map (keyOf decode) ss" "actuations evs = map (keyOf decode) ss"
  using assms(3-5)
proof (induction ss arbitrary: w thesis)
  case Nil
  then show ?case by simp
next
  case (Cons s ss)
  have dl: "deliverable decode config s" and d: "distinct (wt_Seen w)" using Cons.prems by simp_all
  obtain w1 evs1 where first: "watchPass decode codec config act (signalHost (fst s) (snd s)) w = (w1, evs1)" "kept codec w1"
      "wt_Seen w1 = wt_Seen w @ actuations evs1" "actuations evs1 = (if keyOf decode s \<in> set (wt_Seen w) then [] else [keyOf decode s])"
    using signalPass_actuates [OF assms(1) dl assms(2) d] .
  then have one: "actuations evs1 = [keyOf decode s]" using Cons.prems(4) by auto
  have "distinct (wt_Seen w1 @ map (keyOf decode) ss)" "list_all (deliverable decode config) ss" using Cons.prems first(3) one by simp_all
  then obtain w2 evs2 where "watch decode codec config act (map signalPass ss) w1 = (w2, evs2)" "kept codec w2"
      "wt_Seen w2 = wt_Seen w1 @ map (keyOf decode) ss" "actuations evs2 = map (keyOf decode) ss"
    using Cons.IH [OF _ first(2)] by metis
  then show ?case using Cons.prems(1) [of w2 "evs1 @ evs2"] first one by (simp add: signalPass_def [of s])
qed

lemma watch_append:
  "watch decode codec config act (xs @ ys) w =
     (case watch decode codec config act xs w of (w1, evs1) \<Rightarrow> case watch decode codec config act ys w1 of (w2, evs2) \<Rightarrow> (w2, evs1 @ evs2))"
proof (induction xs arbitrary: w)
  case (Cons x xs)
  then show ?case by (cases x) (simp_all split: prod.split)
qed simp

lemma smallest_pruned:
  assumes "maxActuatedKeys \<le> length ks" and "distinct (ks @ [k])" and "\<forall>k' \<in> set ks. k < k'"
  shows "k \<notin> set (actuatedKeys (ks @ [k]))"
proof -
  have "sorted (k # sort ks)" using assms(3) by (auto simp: less_imp_le)
  moreover have "mset (k # sort ks) = mset (ks @ [k])" by simp
  ultimately have "sort (ks @ [k]) = k # sort ks" by (metis properties_for_sort)
  moreover have "length (k # sort ks) - maxActuatedKeys = Suc (length ks - maxActuatedKeys)" using assms(1) by simp
  moreover have "k \<notin> set (drop n (sort ks))" for n using assms(2) by (auto dest: in_set_dropD)
  ultimately show ?thesis using assms(1) by (simp add: actuatedKeys_def pruneActuatedKeys_def)
qed

section \<open>Properties\<close>


definition demoConfig :: actuatorConfig where
  "demoConfig = \<lparr>cf_Mode = modeActuate, cf_Policy = policyPowerOff, cf_NodeName = ''n1'', cf_SignalPaths = [''/s/n1.json''],
     cf_SignalTTL = 120 * second, cf_Interval = 5 * second, cf_ShutdownFlow = ''f'', cf_StatePath = ''/run/state.json'',
     cf_TalosConfigPath = '''', cf_TalosEndpoints = [], cf_TalosNode = '''', cf_TalosShutdownTimeout = 0\<rparr>"

definition demoSignal :: "string \<Rightarrow> ShutdownSignal" where
  "demoSignal raw = \<lparr>sg_ExecutionID = raw, sg_NodeName = ''n1'', sg_PlanConfigHash = ''h'', sg_Reason = ''ReleaseApproved'',
     sg_SelectedUPSDevices = [], sg_ShutdownFlow = ''f'', sg_Timestamp = ''2024-01-01T00:00:00Z'', sg_SkipSync = False\<rparr>"

definition demoDecode :: "string \<Rightarrow> ShutdownSignal option" where
  "demoDecode raw = (if raw = '''' then None else Some (demoSignal raw))"

text \<open>A state file for examples: the keys, every character marked, every key ended.\<close>

definition demoEncode :: "string list \<Rightarrow> string" where
  "demoEncode keys = concat (map (\<lambda>k. concat (map (\<lambda>c. [CHR ''c'', c]) k) @ ''e'') keys)"

fun demoKeys :: "string \<Rightarrow> string \<Rightarrow> string list" where
  "demoKeys cur (m # c # s) = (if m = CHR ''e'' then rev cur # demoKeys [] (c # s) else demoKeys (c # cur) s)"
| "demoKeys cur [m] = [rev cur]"
| "demoKeys cur [] = []"

lemma demoKeys_encode: "demoKeys [] (demoEncode keys) = keys"
proof (induction keys)
  case (Cons k keys)
  have "demoKeys cur (concat (map (\<lambda>c. [CHR ''c'', c]) k) @ ''e'' @ s) = demoKeys (rev k @ cur) (''e'' @ s)" for cur s
    by (induction k arbitrary: cur) simp_all
  moreover have "demoKeys cur (''e'' @ demoEncode ks) = rev cur # demoKeys [] (demoEncode ks)" for cur ks
    by (cases "demoEncode ks") simp_all
  ultimately show ?case using Cons by (simp add: demoEncode_def)
qed (simp add: demoEncode_def)

definition demoCodec :: stateCodec where
  "demoCodec = \<lparr>sc_Encode = \<lambda>s. Inr (demoEncode (as_ActuatedKeys s)),
     sc_Decode = \<lambda>raw. Some \<lparr>as_Timestamp = '''', as_Policy = '''', as_IntervalSeconds = Finite 0, as_UnreadableSignalDirs = [],
       as_UnprojectedSignalDirs = [], as_ClockSkewedSignals = [], as_ActuatedKeys = demoKeys [] raw\<rparr>\<rparr>"

lemma demoCodec_faithful: "faithful demoCodec"
  by (simp add: faithful_def demoCodec_def demoKeys_encode)
lemma demo_deliverable: "raw \<noteq> '''' \<Longrightarrow> deliverable demoDecode demoConfig (raw, 1704067200000000000)"
proof -
  have "parseRFC3339 ''2024-01-01T00:00:00Z'' = Some 1704067200000000000" by code_simp
  then show "raw \<noteq> '''' \<Longrightarrow> deliverable demoDecode demoConfig (raw, 1704067200000000000)"
    by (simp add: deliverable_def demoDecode_def demoSignal_def demoConfig_def accepted_def bound_signal_def fresh_signal_def timeSub_def second_def)
qed


text \<open>C16. As long as every completed pass was recorded and at most 64 signals were acted on, no signal is acted on
  twice, across any number of container restarts.\<close>

theorem halted_once:
  assumes "faithful codec" and "list_all recorded steps" and "watch decode codec config act steps (startWatching codec None) = (w, evs)"
    and "card (set (actuations evs)) \<le> maxActuatedKeys"
  shows "distinct (actuations evs)"
proof -
  have "kept codec (startWatching codec None)" by (simp add: kept_def startWatching_def readActuatorState_def)
  moreover have "wt_Seen (startWatching codec None) = []" by (simp add: startWatching_def readActuatorState_def)
  ultimately show ?thesis using watch_once [OF assms(1,2) _ assms(3)] assms(4) by simp
qed

text \<open>C39. The 64 keys that survive are the last in string order, and a key starts with the execution's identifier, not
  with its time.  After 64 signals whose identifiers sort higher, the key of the newest is dropped: a restart forgets
  it and the actuator acts on the same signal again.\<close>

theorem pruned_key_acts_again:
  assumes "cf_SignalPaths config = [path]" and "faithful codec" and "list_all (deliverable decode config) (earlier @ [latest])"
    and "distinct (map (keyOf decode) (earlier @ [latest]))" and "maxActuatedKeys \<le> length earlier"
    and "list_all (\<lambda>s. keyOf decode latest < keyOf decode s) earlier"
  shows "actuations (snd (watch decode codec config act (map signalPass (earlier @ [latest]) @ [Restart, signalPass latest]) (startWatching codec None))) =
    map (keyOf decode) earlier @ [keyOf decode latest, keyOf decode latest]"
proof -
  let ?w0 = "startWatching codec None"
  have w0: "kept codec ?w0" "wt_Seen ?w0 = []" by (simp_all add: kept_def startWatching_def readActuatorState_def)
  then have "distinct (wt_Seen ?w0 @ map (keyOf decode) (earlier @ [latest]))" using assms(4) by simp
  then obtain w1 evs1 where run: "watch decode codec config act (map signalPass (earlier @ [latest])) ?w0 = (w1, evs1)" "kept codec w1"
      "wt_Seen w1 = map (keyOf decode) (earlier @ [latest])" "actuations evs1 = map (keyOf decode) (earlier @ [latest])"
    using signalPasses_actuate [OF assms(1,2) w0(1) assms(3)] w0(2) by auto
  have forgotten: "keyOf decode latest \<notin> set (actuatedKeys (map (keyOf decode) earlier @ [keyOf decode latest]))"
    using assms(4-6) by (intro smallest_pruned) (auto simp: list_all_iff)
  let ?w2 = "startWatching codec (wt_File w1)"
  have seen: "set (wt_Seen ?w2) \<subseteq> set (actuatedKeys (wt_Seen w1))"
    using run(2) by (auto simp: kept_def startWatching_def readActuatorState_def split: option.splits)
  have d: "distinct (wt_Seen ?w2)" by (simp add: startWatching_def split: option.split)
  have dl: "deliverable decode config latest" using assms(3) by simp
  obtain w3 evs3 where "watchPass decode codec config act (signalHost (fst latest) (snd latest)) ?w2 = (w3, evs3)"
      "actuations evs3 = (if keyOf decode latest \<in> set (wt_Seen ?w2) then [] else [keyOf decode latest])"
    using signalPass_actuates [OF assms(1) dl assms(2) d] .
  moreover have "keyOf decode latest \<notin> set (wt_Seen ?w2)" using seen forgotten run(3) by auto
  ultimately have "watch decode codec config act [Restart, signalPass latest] w1 = (w3, evs3)" "actuations evs3 = [keyOf decode latest]"
    by (simp_all add: signalPass_def)
  then show ?thesis unfolding watch_append run(1) using run(4) by simp
qed

lemma demo_restart:
  "actuations (snd (watch demoDecode demoCodec demoConfig powerOffActuator
     [signalPass (''a'', 1704067200000000000), Restart, signalPass (''a'', 1704067200000000000)] (startWatching demoCodec None))) = [SignalKey (demoSignal ''a'')]"
proof -
  let ?s = "(''a'', 1704067200000000000 :: int)" and ?w0 = "startWatching demoCodec None"
  have path: "cf_SignalPaths demoConfig = [''/s/n1.json'']" by (simp add: demoConfig_def)
  have dl: "deliverable demoDecode demoConfig ?s" by (rule demo_deliverable) simp
  have key: "keyOf demoDecode ?s = SignalKey (demoSignal ''a'')" by (simp add: keyOf_def demoDecode_def)
  have w0: "wt_Seen ?w0 = []" by (simp add: startWatching_def readActuatorState_def)
  then have "distinct (wt_Seen ?w0)" by simp
  from signalPass_actuates [OF path dl demoCodec_faithful this] w0 key
  obtain w1 evs1 where first: "watchPass demoDecode demoCodec demoConfig powerOffActuator (signalHost (fst ?s) (snd ?s)) ?w0 = (w1, evs1)"
      "kept demoCodec w1" "wt_Seen w1 = [SignalKey (demoSignal ''a'')]" "actuations evs1 = [SignalKey (demoSignal ''a'')]"
    by (metis append_Nil empty_iff list.set(1))
  let ?w2 = "startWatching demoCodec (wt_File w1)"
  have w2: "set (wt_Seen ?w2) = {SignalKey (demoSignal ''a'')}" "kept demoCodec ?w2"
    using restart_kept [OF first(2)] first(3) by (simp_all add: maxActuatedKeys_def)
  then have "distinct (wt_Seen ?w2)" by (simp add: kept_def)
  from signalPass_actuates [OF path dl demoCodec_faithful this] w2(1) key
  obtain w3 evs3 where "watchPass demoDecode demoCodec demoConfig powerOffActuator (signalHost (fst ?s) (snd ?s)) ?w2 = (w3, evs3)" "actuations evs3 = []"
    by (metis insertI1)
  then show ?thesis using first by (simp add: signalPass_def)
qed

theorem halted_once_witness:
  "actuations (snd (watch demoDecode demoCodec demoConfig powerOffActuator
     [signalPass (''a'', 1704067200000000000), Restart, signalPass (''a'', 1704067200000000000)] (startWatching demoCodec None))) = [SignalKey (demoSignal ''a'')] \<and>
   distinct (actuations (snd (watch demoDecode demoCodec demoConfig powerOffActuator
     [signalPass (''a'', 1704067200000000000), Restart, signalPass (''a'', 1704067200000000000)] (startWatching demoCodec None))))"
proof -
  have "list_all recorded [signalPass (''a'', 1704067200000000000), Restart, signalPass (''a'', 1704067200000000000)]"
    by (simp add: signalPass_def signalHost_def)
  from halted_once [OF demoCodec_faithful this prod.collapse [symmetric]] show ?thesis
    by (simp add: demo_restart maxActuatedKeys_def)
qed

definition demoEarlier :: "(string \<times> int) list" where
  "demoEarlier = map (\<lambda>n. (replicate (Suc n) CHR ''b'', 1704067200000000000)) [0..<64]"

theorem pruned_key_acts_again_witness:
  "actuations (snd (watch demoDecode demoCodec demoConfig powerOffActuator
     (map signalPass (demoEarlier @ [(''a'', 1704067200000000000)]) @ [Restart, signalPass (''a'', 1704067200000000000)]) (startWatching demoCodec None))) =
   map (keyOf demoDecode) demoEarlier @ [SignalKey (demoSignal ''a''), SignalKey (demoSignal ''a'')]"
proof -
  let ?latest = "(''a'', 1704067200000000000 :: int)"
  have path: "cf_SignalPaths demoConfig = [''/s/n1.json'']" by (simp add: demoConfig_def)
  have dl: "list_all (deliverable demoDecode demoConfig) (demoEarlier @ [?latest])"
    by (auto simp: demoEarlier_def list_all_iff intro!: demo_deliverable)
  have keys: "map (keyOf demoDecode) demoEarlier = map (\<lambda>n. SignalKey (demoSignal (replicate (Suc n) CHR ''b''))) [0..<64]"
    by (simp add: demoEarlier_def keyOf_def demoDecode_def)
  have late: "keyOf demoDecode ?latest = SignalKey (demoSignal ''a'')" by (simp add: keyOf_def demoDecode_def)
  have less: "SignalKey (demoSignal ''a'') < SignalKey (demoSignal (replicate (Suc n) CHR ''b''))" for n
    by (simp add: SignalKey_def demoSignal_def less_char_def)
  then have order: "list_all (\<lambda>s. keyOf demoDecode ?latest < keyOf demoDecode s) demoEarlier"
    by (simp add: demoEarlier_def late list_all_iff keyOf_def demoDecode_def)
  have "inj_on (\<lambda>n. SignalKey (demoSignal (replicate (Suc n) CHR ''b''))) (set [0..<64])"
    by (rule inj_onI) (auto simp: SignalKey_def demoSignal_def dest: arg_cong [where f = length])
  then have "distinct (map (keyOf demoDecode) (demoEarlier @ [?latest]))"
    using less by (auto simp: keys late distinct_map) (metis less_irrefl)
  from pruned_key_acts_again [OF path demoCodec_faithful dl this _ order] show ?thesis
    by (simp add: late demoEarlier_def maxActuatedKeys_def del: upt_conv_Cons upt_rec_numeral)
qed

end
