(* ===== verification/KubeActions.thy ===== *)
theory KubeActions
  imports Executor NodeSignal
begin

text \<open>
  The action runner of enforced executions, \<open>src/internal/kubeactions/runner.go\<close> and
  \<open>terminal_handoff.go\<close>: handing shutdown signals to nodes, scaling workloads, cordoning and draining
  nodes, and notifications.  The API server is the record \<open>kubeEnv\<close>,
  whose answers may depend on everything the runner has done so far; what the runner does is the list of
  \<open>apiEvent\<close>s, each with the answer it got.  URL parsing, JSON and the accessors of
  unstructured objects are parameters too, collected in \<open>hookLibrary\<close>.
\<close>

section \<open>The API server\<close>

record Secret =
  se_Namespace :: string
  se_Name :: string
  se_Labels :: "(string, string) gmap"
  se_Type :: string
  se_Data :: "(string, string) gmap"

record Pod =
  po_Namespace :: string
  po_Name :: string
  po_NodeName :: string
  po_Phase :: string
  po_Mirror :: string
  po_Owners :: "(string \<times> string) list"

text \<open>The operand namespace fields of a NodePowerAgent: its own, and the cluster it refers to.\<close>

record PowerAgent =
  pa_Namespace :: string
  pa_ClusterRef :: "string option"

text \<open>An entry of the hook allowlist and the parts of a management cluster the runner reads.\<close>

record PowerHookEndpointAllowlistEntry =
  he_Scheme :: string
  he_Host :: string
  he_Port :: "int option"
  he_PathPrefix :: string

record PowerCluster =
  pc_Name :: string
  pc_OperandNamespace :: "string option"
  pc_AllowedEndpoints :: "PowerHookEndpointAllowlistEntry list"

text \<open>Shutdown hooks, parsed URLs (with what the runner does not look at in one field) and requests, whose
  headers are listed in the order they are set.\<close>

record ShutdownHookHTTPSpec =
  hh_URL :: string
  hh_Method :: string
  hh_Headers :: "(string \<times> string) list"
  hh_SecretHeaders :: "(string \<times> string \<times> string \<times> string) list"
  hh_CloudEventType :: string
  hh_CloudEventSource :: string
  hh_Data :: "(string, string) gmap"

record ShutdownHookInvocationSpec =
  hi_Transport :: string
  hi_HTTP :: "ShutdownHookHTTPSpec option"
  hi_Object :: string

record ShutdownHook =
  hk_Namespace :: string
  hk_Name :: string
  hk_Invocation :: ShutdownHookInvocationSpec
  hk_DryRun :: "ShutdownHookInvocationSpec option"

record hookURL =
  hu_Scheme :: string
  hu_User :: "(string \<times> string) option"
  hu_Hostname :: string
  hu_Port :: string
  hu_Path :: string
  hu_Rest :: string

record hookRequest =
  hr_Method :: string
  hr_URL :: string
  hr_Headers :: "(string \<times> string) list"
  hr_Body :: string

record hookLibrary =
  hl_ParseURL :: "string \<Rightarrow> string + hookURL"
  hl_URLString :: "hookURL \<Rightarrow> string"
  hl_EqualFold :: "string \<Rightarrow> string \<Rightarrow> bool"
  hl_MarshalEvent :: "any \<Rightarrow> string + string"
  hl_UnmarshalObject :: "string \<Rightarrow> string + details"
  hl_SetGroupVersionKind :: "string \<Rightarrow> string \<Rightarrow> details \<Rightarrow> details"
  hl_GroupVersionKind :: "details \<Rightarrow> string"
  hl_Text :: "string \<Rightarrow> details \<Rightarrow> string"
  hl_GetMap :: "string \<Rightarrow> details \<Rightarrow> (string, string) gmap"
  hl_SetMap :: "string \<Rightarrow> (string, string) gmap \<Rightarrow> details \<Rightarrow> details"

record apiError =
  ae_Message :: string
  ae_NotFound :: bool
  ae_TooManyRequests :: bool
  ae_Causes :: "string list option"

datatype apiEvent = Validated NodeRelease error | WroteSecret Secret error | SetReplicas string string string int error
  | Cordoned string error | EvictedPod Pod "apiError option" | DeletedPod Pod "apiError option" | Notified string string string
  | SignalWritten string string string int | Delivered hookRequest "string + int" | CreatedObject details error

type_synonym apiLog = "apiEvent list"

record kubeEnv =
  ke_Acquire :: "apiLog \<Rightarrow> error"
  ke_ValidateNodeRelease :: "(apiLog \<Rightarrow> NodeRelease \<Rightarrow> error) option"
  ke_GetSecret :: "apiLog \<Rightarrow> string \<Rightarrow> string \<Rightarrow> apiError + Secret"
  ke_WriteSecret :: "apiLog \<Rightarrow> Secret \<Rightarrow> error"
  ke_Marshal :: "ShutdownSignal \<Rightarrow> string + string"
  ke_MarshalIndent :: "ShutdownSignal \<Rightarrow> string + string"
  ke_SignalWritten :: bool
  ke_Now :: int
  ke_Agents :: "apiLog \<Rightarrow> string + PowerAgent list"
  ke_Cluster :: "apiLog \<Rightarrow> string \<Rightarrow> string + PowerCluster"
  ke_Replicas :: "apiLog \<Rightarrow> string \<Rightarrow> string \<Rightarrow> string \<Rightarrow> string + int option"
  ke_SetReplicas :: "apiLog \<Rightarrow> string \<Rightarrow> string \<Rightarrow> string \<Rightarrow> int \<Rightarrow> error"
  ke_Unschedulable :: "apiLog \<Rightarrow> string \<Rightarrow> string + bool"
  ke_Cordon :: "apiLog \<Rightarrow> string \<Rightarrow> error"
  ke_Pods :: "apiLog \<Rightarrow> string + Pod list"
  ke_Evict :: "apiLog \<Rightarrow> Pod \<Rightarrow> apiError option"
  ke_Delete :: "apiLog \<Rightarrow> Pod \<Rightarrow> apiError option"
  ke_FlowCluster :: "apiLog \<Rightarrow> string \<Rightarrow> string + string option"
  ke_Hook :: "apiLog \<Rightarrow> string \<Rightarrow> string \<Rightarrow> string + ShutdownHook"
  ke_NewRequest :: "string \<Rightarrow> string \<Rightarrow> error"
  ke_Deliver :: "apiLog \<Rightarrow> hookRequest \<Rightarrow> string + int \<times> string"
  ke_CreateObject :: "apiLog \<Rightarrow> details \<Rightarrow> error"
  ke_Library :: hookLibrary
  ke_Recorder :: bool
  ke_ManagerNamespace :: string

type_synonym outcome = "(ActionOutcome \<times> error) \<times> apiLog"

definition blockedOutcome :: "string \<Rightarrow> ActionOutcome" where
  "blockedOutcome e = \<lparr>ao_Outcome = OutcomeBlocked, ao_Error = e, ao_Details = [], ao_SignalResults = []\<rparr>"

definition blocked :: "string \<Rightarrow> apiLog \<Rightarrow> outcome" where
  "blocked e lg = ((blockedOutcome e, Some e), lg)"

definition succeeded :: "details \<Rightarrow> NodeSignalResult list \<Rightarrow> apiLog \<Rightarrow> outcome" where
  "succeeded ds results lg = ((\<lparr>ao_Outcome = OutcomeSucceeded, ao_Error = '''', ao_Details = ds, ao_SignalResults = results\<rparr>, None), lg)"

section \<open>Labels\<close>

text \<open>The width of the first rune of a string, one for bytes that are not valid UTF-8.\<close>

definition continuation :: "nat \<Rightarrow> nat \<Rightarrow> string \<Rightarrow> nat \<Rightarrow> bool" where
  "continuation low high s i \<longleftrightarrow> i < length s \<and> low \<le> of_char (s ! i) \<and> of_char (s ! i) \<le> high"

definition runeLen :: "string \<Rightarrow> nat" where
  "runeLen s =
     (let b = of_char (s ! 0) :: nat; tail = (\<lambda>i. continuation 0x80 0xBF s i) in
      if s = [] then 0
      else if 0xC2 \<le> b \<and> b \<le> 0xDF \<and> tail 1 then 2
      else if 0xE0 \<le> b \<and> b \<le> 0xEF \<and> continuation (if b = 0xE0 then 0xA0 else 0x80) (if b = 0xED then 0x9F else 0xBF) s 1 \<and> tail 2 then 3
      else if 0xF0 \<le> b \<and> b \<le> 0xF4 \<and> continuation (if b = 0xF0 then 0x90 else 0x80) (if b = 0xF4 then 0x8F else 0xBF) s 1 \<and> tail 2 \<and> tail 3 then 4
      else 1)"

definition charRange :: "char \<Rightarrow> char \<Rightarrow> char \<Rightarrow> bool" where
  "charRange low high c \<longleftrightarrow> low \<le> c \<and> c \<le> high"

definition separator :: "char \<Rightarrow> bool" where
  "separator c \<longleftrightarrow> c \<in> set ''-_.''"

definition labelChar :: "char \<Rightarrow> bool" where
  "labelChar c \<longleftrightarrow> charRange (CHR ''a'') (CHR ''z'') c \<or> charRange (CHR ''A'') (CHR ''Z'') c \<or> isDigit c \<or> separator c"

function labelRunes :: "string \<Rightarrow> string" where
  "labelRunes s = (if s = [] then [] else if labelChar (hd s) then hd s # labelRunes (tl s) else CHR ''-'' # labelRunes (drop (runeLen s) s))"
  by pat_completeness auto
termination
proof (relation "measure length")
  show "s \<noteq> [] \<Longrightarrow> (drop (runeLen s) s, s) \<in> measure length" for s :: string
    by (cases s) (auto simp: runeLen_def Let_def)
qed simp_all

declare labelRunes.simps [simp del]

definition trimLabel :: "string \<Rightarrow> string" where
  "trimLabel s = (let cut = dropWhile separator in rev (cut (rev (cut s))))"

definition labelValue :: "string \<Rightarrow> string" where
  "labelValue v =
     (if v = '''' then ''unknown''
      else let out = trimLabel (labelRunes v) in
        if out = '''' then ''unknown''
        else let short = (if length out > 63 then trimLabel (take 63 out) else out) in
          if short = '''' then ''unknown'' else short)"

definition signalSecretLabels :: "Action \<Rightarrow> NodeRelease \<Rightarrow> (string \<times> string) list" where
  "signalSecretLabels action release =
     [(''app.kubernetes.io/managed-by'', ''nut-operator''),
      (''power.zalud.io/execution'', labelValue (ac_ExecutionID action)),
      (''power.zalud.io/nodepoweragent'', labelValue (nr_NodePowerAgent release)),
      (''power.zalud.io/shutdownflow'', labelValue (ac_ShutdownFlow action))]"

definition putAll :: "(string \<times> string) list \<Rightarrow> (string, string) gmap \<Rightarrow> (string, string) gmap" where
  "putAll entries m = fold (\<lambda>(k, v). gm_put k v) entries m"

section \<open>Handing signals to nodes\<close>

definition signalPayload :: "kubeEnv \<Rightarrow> Action \<Rightarrow> NodeRelease \<Rightarrow> ShutdownSignal" where
  "signalPayload env action release =
     \<lparr>sg_ExecutionID = ac_ExecutionID action, sg_NodeName = nr_NodeName release, sg_PlanConfigHash = ac_PlanConfigHash action,
      sg_Reason = ''ReleaseApproved'', sg_SelectedUPSDevices = ac_SelectedUPSDevices action, sg_ShutdownFlow = ac_ShutdownFlow action,
      sg_Timestamp = formatRFC3339Nano (ke_Now env), sg_SkipSync = ac_TierOverrunning action\<rparr>"

definition validateAndWrite :: "kubeEnv \<Rightarrow> (apiLog \<Rightarrow> NodeRelease \<Rightarrow> error) \<Rightarrow> NodeRelease \<Rightarrow> Secret \<Rightarrow> string \<Rightarrow> apiLog \<Rightarrow> error \<times> apiLog" where
  "validateAndWrite env validate release secret failure lg =
     (let verdict = validate lg release; lg1 = lg @ [Validated release verdict] in
      case verdict of Some e \<Rightarrow> (Some (''validate release for node '' @ quote (nr_NodeName release) @ '': '' @ e), lg1)
      | None \<Rightarrow> let err = ke_WriteSecret env lg1 secret; lg2 = lg1 @ [WroteSecret secret err] in
          (map_option (\<lambda>e. failure @ '': '' @ e) err, lg2))"

definition upsertSignalSecret :: "kubeEnv \<Rightarrow> Action \<Rightarrow> NodeRelease \<Rightarrow> string \<Rightarrow> apiLog \<Rightarrow> error \<times> apiLog" where
  "upsertSignalSecret env action release payload lg =
     (case ke_Acquire env lg of Some e \<Rightarrow> (Some e, lg)
      | None \<Rightarrow> (case ke_ValidateNodeRelease env of None \<Rightarrow> (Some ''AgentShutdown requires a live node release validator'', lg)
      | Some validate \<Rightarrow>
         let ns = nr_SignalSecretNamespace release; name = nr_SignalSecretName release; key = nr_SignalSecretKey release in
         (case ke_GetSecret env lg ns name of
            Inl err \<Rightarrow>
              if \<not> ae_NotFound err then (Some (''get signal Secret '' @ ns @ ''/'' @ name @ '': '' @ ae_Message err), lg)
              else validateAndWrite env validate release
                \<lparr>se_Namespace = ns, se_Name = name, se_Labels = putAll (signalSecretLabels action release) [], se_Type = ''Opaque'', se_Data = gm_put key payload []\<rparr>
                (''create signal Secret '' @ ns @ ''/'' @ name) lg
          | Inr secret \<Rightarrow>
              validateAndWrite env validate release
                (secret\<lparr>se_Labels := putAll (signalSecretLabels action release) (se_Labels secret), se_Type := ''Opaque'', se_Data := gm_put key payload (se_Data secret)\<rparr>)
                (''update signal Secret '' @ ns @ ''/'' @ name @ '' key '' @ quote key) lg)))"

definition pendingResult :: "NodeRelease \<Rightarrow> NodeSignalResult" where
  "pendingResult r = \<lparr>ns_NodeName = nr_NodeName r, ns_NodePowerAgent = nr_NodePowerAgent r, ns_SignalSecretNamespace = nr_SignalSecretNamespace r,
     ns_SignalSecretName = nr_SignalSecretName r, ns_SignalSecretKey = nr_SignalSecretKey r, ns_Published = False, ns_Error = '''',
     ns_IssuedAt = zeroTime, ns_SkipSync = False\<rparr>"

definition failedHandoff :: "NodeSignalResult list \<Rightarrow> NodeSignalResult \<Rightarrow> string \<Rightarrow> apiLog \<Rightarrow> outcome" where
  "failedHandoff results r e lg = (((blockedOutcome e)\<lparr>ao_SignalResults := results @ [r\<lparr>ns_Error := e\<rparr>]\<rparr>, Some e), lg)"

definition signalWritten :: "kubeEnv \<Rightarrow> Action \<Rightarrow> NodeRelease \<Rightarrow> apiLog" where
  "signalWritten env action release = (if ke_SignalWritten env
     then [SignalWritten (nr_NodeName release) (ac_ShutdownFlow action) (ac_ExecutionID action) (ke_Now env)] else [])"

fun publish_loop :: "kubeEnv \<Rightarrow> Action \<Rightarrow> NodeRelease list \<Rightarrow> string list \<Rightarrow> NodeSignalResult list \<Rightarrow> apiLog \<Rightarrow> outcome" where
  "publish_loop env action [] updated results lg =
     succeeded (details [(''handoff'', AText ''ProjectedSecretSignal''), (''nodeReleases'', AInt (int (length (xg_NodeReleases (ac_Group action))))),
       (''signalSecrets'', AInt (int (length (remdups updated)))), (''syncSkipped'', ABool (ac_TierOverrunning action))]) results lg"
| "publish_loop env action (release # releases) updated results lg =
     (let r = pendingResult release in
      if nr_NodeName release = '''' \<or> nr_SignalSecretNamespace release = '''' \<or> nr_SignalSecretName release = '''' \<or> nr_SignalSecretKey release = ''''
      then failedHandoff results r (''AgentShutdown release for node '' @ quote (nr_NodeName release) @ '' requires signal Secret namespace, name, and key'') lg
      else case ke_MarshalIndent env (signalPayload env action release) of
        Inl e \<Rightarrow> failedHandoff results r (''encode AgentShutdown signal for node '' @ quote (nr_NodeName release) @ '': '' @ e) lg
      | Inr encoded \<Rightarrow>
          let r1 = r\<lparr>ns_IssuedAt := ke_Now env, ns_SkipSync := ac_TierOverrunning action\<rparr> in
          (case upsertSignalSecret env action release (encoded @ [CHR 0x0A]) lg of
             (Some e, lg') \<Rightarrow> failedHandoff results r1 e lg'
           | (None, lg') \<Rightarrow> publish_loop env action releases (updated @ [nr_SignalSecretNamespace release @ ''/'' @ nr_SignalSecretName release])
               (results @ [r1\<lparr>ns_Published := True\<rparr>]) (lg' @ signalWritten env action release)))"

definition isTerminalHandoff :: "Action \<Rightarrow> bool" where
  "isTerminalHandoff action \<longleftrightarrow> list_ex (\<lambda>r. nr_TerminalHandoff r \<and>
     (nr_NodeName r \<in> set (nr_ControlPlaneNodes r) \<or> nr_NodeName r \<in> set (nr_QuorumMembers r))) (xg_NodeReleases (ac_Group action))"

text \<open>The checks of a terminal handoff, with the keys seen so far.\<close>

fun terminalReleasesValid :: "NodeRelease \<Rightarrow> string list \<Rightarrow> NodeRelease list \<Rightarrow> bool" where
  "terminalReleasesValid first keys [] = True"
| "terminalReleasesValid first keys (r # rs) =
     (if \<not> nr_TerminalHandoff r \<or> nr_NodeName r = '''' \<or> nr_SignalSecretNamespace first = '''' \<or> nr_SignalSecretName first = '''' \<or>
         nr_SignalSecretKey r = '''' \<or> nr_SignalSecretNamespace r \<noteq> nr_SignalSecretNamespace first \<or> nr_SignalSecretName r \<noteq> nr_SignalSecretName first \<or>
         nr_NodePowerAgent r \<noteq> nr_NodePowerAgent first \<or> nr_SignalSecretKey r \<in> set keys
      then False else terminalReleasesValid first (nr_SignalSecretKey r # keys) rs)"

fun encodeSignals :: "kubeEnv \<Rightarrow> Action \<Rightarrow> NodeRelease list \<Rightarrow> (string, string) gmap \<Rightarrow> string + (string, string) gmap" where
  "encodeSignals env action [] m = Inr m"
| "encodeSignals env action (r # rs) m = (case ke_Marshal env (signalPayload env action r) of Inl e \<Rightarrow> Inl e
     | Inr payload \<Rightarrow> encodeSignals env action rs (gm_put (nr_SignalSecretKey r) (payload @ [CHR 0x0A]) m))"

fun validateAll :: "(apiLog \<Rightarrow> NodeRelease \<Rightarrow> error) \<Rightarrow> NodeRelease list \<Rightarrow> apiLog \<Rightarrow> error \<times> apiLog" where
  "validateAll validate [] lg = (None, lg)"
| "validateAll validate (r # rs) lg =
     (let verdict = validate lg r; lg1 = lg @ [Validated r verdict] in
      case verdict of Some e \<Rightarrow> (Some e, lg1) | None \<Rightarrow> validateAll validate rs lg1)"

definition terminalResult :: "kubeEnv \<Rightarrow> Action \<Rightarrow> NodeRelease \<Rightarrow> NodeSignalResult" where
  "terminalResult env action r = (pendingResult r)\<lparr>ns_IssuedAt := ke_Now env, ns_SkipSync := ac_TierOverrunning action\<rparr>"

definition terminalControlPlaneHandoff :: "kubeEnv \<Rightarrow> Action \<Rightarrow> apiLog \<Rightarrow> outcome" where
  "terminalControlPlaneHandoff env action lg =
     (case ke_Acquire env lg of Some e \<Rightarrow> blocked e lg
      | None \<Rightarrow> (case ke_ValidateNodeRelease env of None \<Rightarrow> blocked ''terminal handoff requires a live node release validator'' lg
      | Some validate \<Rightarrow>
         let releases = xg_NodeReleases (ac_Group action); first = hd releases in
         if \<not> terminalReleasesValid first [] releases
         then blocked ''terminal control-plane handoff requires distinct node keys in one agent signal Secret'' lg
         else (case (case ke_GetSecret env lg (nr_SignalSecretNamespace first) (nr_SignalSecretName first) of
                 Inr secret \<Rightarrow> Inr secret
               | Inl err \<Rightarrow> if ae_NotFound err then Inr \<lparr>se_Namespace = nr_SignalSecretNamespace first, se_Name = nr_SignalSecretName first, se_Labels = [], se_Type = ''Opaque'', se_Data = []\<rparr>
                   else Inl (ae_Message err)) of
           Inl e \<Rightarrow> blocked e lg
         | Inr secret \<Rightarrow> (case encodeSignals env action releases (se_Data secret) of Inl e \<Rightarrow> blocked e lg
         | Inr payloads \<Rightarrow> (case validateAll validate releases lg of (Some e, lg1) \<Rightarrow> blocked e lg1
         | (None, lg1) \<Rightarrow>
             let updated = secret\<lparr>se_Labels := putAll (signalSecretLabels action first) (se_Labels secret), se_Data := payloads\<rparr>;
                 err = ke_WriteSecret env lg1 updated; lg2 = lg1 @ [WroteSecret updated err]; results = map (terminalResult env action) releases in
             (case err of Some e \<Rightarrow> (((blockedOutcome e)\<lparr>ao_SignalResults := results\<rparr>, Some e), lg2)
              | None \<Rightarrow> succeeded (details [(''handoff'', AText ''ProjectedSecretSignal''), (''terminalBatch'', ABool True), (''nodeReleases'', AInt (int (length results))),
                  (''signalSecrets'', AInt 1), (''syncSkipped'', ABool (ac_TierOverrunning action))]) (map (\<lambda>r. r\<lparr>ns_Published := True\<rparr>) results) (lg2 @ concat (map (signalWritten env action) releases))))))))"

definition agentShutdownHandoff :: "kubeEnv \<Rightarrow> Action \<Rightarrow> apiLog \<Rightarrow> outcome" where
  "agentShutdownHandoff env action lg =
     (if xg_NodeReleases (ac_Group action) = [] then blocked ''AgentShutdown requires at least one selected node release'' lg
      else if ac_ExecutionID action = '''' \<or> ac_ShutdownFlow action = '''' \<or> ac_PlanConfigHash action = ''''
        then blocked ''AgentShutdown requires execution ID, shutdown flow, and plan config hash'' lg
      else if isTerminalHandoff action then terminalControlPlaneHandoff env action lg
      else publish_loop env action (xg_NodeReleases (ac_Group action)) [] [] lg)"

section \<open>Strings\<close>

text \<open>One round of \<open>sortStrings\<close>: the prefix is sorted and the next value moves left past everything
  greater.\<close>

definition insertBack :: "string list \<Rightarrow> string \<Rightarrow> string list" where
  "insertBack placed v = (let greater = takeWhile (\<lambda>x. v < x) (rev placed) in take (length placed - length greater) placed @ v # rev greater)"

definition sortStrings :: "string list \<Rightarrow> string list" where
  "sortStrings vs = foldl insertBack [] vs"

fun dedupe_loop :: "string option \<Rightarrow> string list \<Rightarrow> string list" where
  "dedupe_loop previous [] = []"
| "dedupe_loop previous (v # vs) = (if previous = Some v then dedupe_loop (Some v) vs else v # dedupe_loop (Some v) vs)"

definition dedupeStrings :: "string list \<Rightarrow> string list" where
  "dedupeStrings vs = dedupe_loop None vs"

definition desiredReplicas :: "(string, string) gmap \<Rightarrow> string + int" where
  "desiredReplicas params =
     (let v = (if gm_string params ''scale.replicas'' = '''' then gm_string params ''replicas'' else gm_string params ''scale.replicas'') in
      if v = '''' then Inr 0
      else case ParseInt v of
        Some n \<Rightarrow> if 0 \<le> n \<and> n < 2 ^ 31 then Inr n else Inl ''replicas must be a non-negative integer''
      | None \<Rightarrow> Inl ''replicas must be a non-negative integer'')"

section \<open>Protected namespaces\<close>

text \<open>The clusters already read are kept, so each is read once.\<close>

definition nodePowerAgentOperandNamespace :: "kubeEnv \<Rightarrow> PowerAgent \<Rightarrow> (string, PowerCluster) gmap \<Rightarrow> apiLog \<Rightarrow> string + string \<times> (string, PowerCluster) gmap" where
  "nodePowerAgentOperandNamespace env agent clusters lg =
     (let operand = (\<lambda>cluster. case pc_OperandNamespace cluster of None \<Rightarrow> ''power-system'' | Some n \<Rightarrow> if n = '''' then ''power-system'' else n) in
      if pa_Namespace agent \<noteq> '''' then Inr (pa_Namespace agent, clusters)
      else case pa_ClusterRef agent of
        None \<Rightarrow> Inr (''power-system'', clusters)
      | Some name \<Rightarrow>
          if name = '''' then Inr (''power-system'', clusters)
          else case map_of clusters name of
            Some cluster \<Rightarrow> Inr (operand cluster, clusters)
          | None \<Rightarrow> (case ke_Cluster env lg name of
              Inl e \<Rightarrow> Inl (''get PowerManagementCluster '' @ quote name @ '' for self-exclusion: '' @ e)
            | Inr cluster \<Rightarrow> Inr (operand cluster, gm_put name cluster clusters)))"

fun protected_loop :: "kubeEnv \<Rightarrow> apiLog \<Rightarrow> PowerAgent list \<Rightarrow> (string, PowerCluster) gmap \<Rightarrow> string list \<Rightarrow> string + string list" where
  "protected_loop env lg [] clusters protected = Inr protected"
| "protected_loop env lg (agent # agents) clusters protected =
     (case nodePowerAgentOperandNamespace env agent clusters lg of Inl e \<Rightarrow> Inl e
      | Inr (ns, clusters') \<Rightarrow> protected_loop env lg agents clusters' (ns # protected))"

definition protectedNamespaces :: "kubeEnv \<Rightarrow> apiLog \<Rightarrow> string + string list" where
  "protectedNamespaces env lg =
     (case ke_Agents env lg of Inl e \<Rightarrow> Inl (''list NodePowerAgents for self-exclusion: '' @ e)
      | Inr agents \<Rightarrow> protected_loop env lg agents [] (if ke_ManagerNamespace env \<noteq> '''' then [ke_ManagerNamespace env] else []))"

section \<open>Scaling\<close>

text \<open>\<open>scaleDeployment\<close>, \<open>scaleStatefulSet\<close> and \<open>scaleReplicaSet\<close> differ in the kind only.\<close>

definition scaleTarget :: "kubeEnv \<Rightarrow> ExecTarget \<Rightarrow> int \<Rightarrow> apiLog \<Rightarrow> (string + bool) \<times> apiLog" where
  "scaleTarget env target replicas lg =
     (let kind = xt_Kind target; ns = xt_Namespace target; name = xt_Name target in
      case ke_Replicas env lg kind ns name of
        Inl e \<Rightarrow> (Inl (''get '' @ kind @ '' '' @ ns @ ''/'' @ name @ '': '' @ e), lg)
      | Inr spec \<Rightarrow>
          if spec = Some replicas then (Inr False, lg)
          else let err = ke_SetReplicas env lg kind ns name replicas; lg' = lg @ [SetReplicas kind ns name replicas err] in
            (case err of Some e \<Rightarrow> (Inl e, lg') | None \<Rightarrow> (Inr True, lg')))"

fun scale_loop :: "kubeEnv \<Rightarrow> int \<Rightarrow> string list \<Rightarrow> ExecTarget list \<Rightarrow> int \<Rightarrow> int \<Rightarrow> string list \<Rightarrow> apiLog \<Rightarrow> (string + int \<times> int \<times> string list) \<times> apiLog" where
  "scale_loop env replicas protected [] changed visited excluded lg = (Inr (changed, visited, excluded), lg)"
| "scale_loop env replicas protected (t # ts) changed visited excluded lg =
     (if xt_Namespace t \<in> set protected then scale_loop env replicas protected ts changed visited (excluded @ [xt_Namespace t @ ''/'' @ xt_Name t]) lg
      else if xt_Kind t = ''Deployment'' \<or> xt_Kind t = ''StatefulSet'' \<or> xt_Kind t = ''ReplicaSet''
      then (case scaleTarget env t replicas lg of (Inl e, lg') \<Rightarrow> (Inl e, lg')
        | (Inr updated, lg') \<Rightarrow> scale_loop env replicas protected ts (if updated then changed + 1 else changed) (visited + 1) excluded lg')
      else scale_loop env replicas protected ts changed visited excluded lg)"

definition scaleWorkloads :: "kubeEnv \<Rightarrow> Action \<Rightarrow> apiLog \<Rightarrow> outcome" where
  "scaleWorkloads env action lg =
     (case desiredReplicas (xg_Params (ac_Group action)) of Inl e \<Rightarrow> blocked e lg
      | Inr replicas \<Rightarrow> (case protectedNamespaces env lg of Inl e \<Rightarrow> blocked e lg
      | Inr protected \<Rightarrow> (case scale_loop env replicas protected (xg_SelectedTargets (ac_Group action)) 0 0 [] lg of
          (Inl e, lg') \<Rightarrow> blocked e lg'
        | (Inr (changed, visited, excluded), lg') \<Rightarrow>
            if visited = 0 \<and> excluded = [] then blocked ''ScaleWorkload selected no scalable targets'' lg'
            else succeeded (details ([(''changed'', AInt changed), (''desiredReplicas'', AInt replicas), (''selectedWorkloads'', AInt visited)] @
              (if excluded \<noteq> [] then [(''selfExcluded'', AStrings (sortStrings excluded))] else []))) [] lg')))"

section \<open>Cordoning and draining\<close>

definition selectedNode :: "ExecTarget \<Rightarrow> bool" where
  "selectedNode t \<longleftrightarrow> xt_Kind t = ''Node'' \<and> xt_Name t \<noteq> ''''"

fun cordonSelectedNodes :: "kubeEnv \<Rightarrow> ExecTarget list \<Rightarrow> int \<Rightarrow> int \<Rightarrow> apiLog \<Rightarrow> (string + int \<times> int) \<times> apiLog" where
  "cordonSelectedNodes env [] visited changed lg = (Inr (visited, changed), lg)"
| "cordonSelectedNodes env (t # ts) visited changed lg =
     (if \<not> selectedNode t then cordonSelectedNodes env ts visited changed lg
      else case ke_Unschedulable env lg (xt_Name t) of
        Inl e \<Rightarrow> (Inl (''get Node '' @ quote (xt_Name t) @ '': '' @ e), lg)
      | Inr True \<Rightarrow> cordonSelectedNodes env ts (visited + 1) changed lg
      | Inr False \<Rightarrow>
          let err = ke_Cordon env lg (xt_Name t); lg' = lg @ [Cordoned (xt_Name t) err] in
          (case err of Some e \<Rightarrow> (Inl (''cordon Node '' @ quote (xt_Name t) @ '': '' @ e), lg')
           | None \<Rightarrow> cordonSelectedNodes env ts (visited + 1) (changed + 1) lg'))"

definition cordonNodes :: "kubeEnv \<Rightarrow> Action \<Rightarrow> apiLog \<Rightarrow> outcome" where
  "cordonNodes env action lg = (case cordonSelectedNodes env (xg_SelectedTargets (ac_Group action)) 0 0 lg of
       (Inl e, lg') \<Rightarrow> blocked e lg'
     | (Inr (visited, changed), lg') \<Rightarrow>
         if visited = 0 then blocked ''CordonNodes selected no Node targets'' lg'
         else succeeded (details [(''changed'', AInt changed), (''selectedNodes'', AInt visited)]) [] lg')"

definition disruptionBudgetDenied :: "apiError \<Rightarrow> bool" where
  "disruptionBudgetDenied err \<longleftrightarrow> ae_TooManyRequests err \<and> (case ae_Causes err of None \<Rightarrow> False | Some causes \<Rightarrow> ''DisruptionBudget'' \<in> set causes)"

definition evictablePod :: "Pod \<Rightarrow> bool" where
  "evictablePod pod \<longleftrightarrow> po_Phase pod \<noteq> ''Succeeded'' \<and> po_Phase pod \<noteq> ''Failed'' \<and> po_Mirror pod = '''' \<and>
     (''apps/v1'', ''DaemonSet'') \<notin> set (po_Owners pod)"

text \<open>What a drain of one node has done so far: pods evicted, namespaces skipped, budgets overridden.\<close>

type_synonym drainCounts = "int \<times> string list \<times> string list"

fun evict_loop :: "kubeEnv \<Rightarrow> string \<Rightarrow> string list \<Rightarrow> Pod list \<Rightarrow> drainCounts \<Rightarrow> apiLog \<Rightarrow> (string + drainCounts) \<times> apiLog" where
  "evict_loop env node protected [] d lg = (Inr d, lg)"
| "evict_loop env node protected (pod # pods) (evicted, skipped, overrides) lg =
     (let named = po_Namespace pod @ ''/'' @ po_Name pod in
      if po_NodeName pod \<noteq> node \<or> \<not> evictablePod pod then evict_loop env node protected pods (evicted, skipped, overrides) lg
      else if po_Namespace pod \<in> set protected then evict_loop env node protected pods (evicted, skipped @ [po_Namespace pod], overrides) lg
      else let answer = ke_Evict env lg pod; lg1 = lg @ [EvictedPod pod answer] in
        (case answer of
           None \<Rightarrow> evict_loop env node protected pods (evicted + 1, skipped, overrides) lg1
         | Some err \<Rightarrow>
             if ae_NotFound err then evict_loop env node protected pods (evicted, skipped, overrides) lg1
             else if \<not> disruptionBudgetDenied err then (Inl (''evict Pod '' @ named @ '': '' @ ae_Message err), lg1)
             else let removal = ke_Delete env lg1 pod; lg2 = lg1 @ [DeletedPod pod removal] in
               (case removal of
                  None \<Rightarrow> evict_loop env node protected pods (evicted + 1, skipped, overrides @ [named]) lg2
                | Some delErr \<Rightarrow>
                    if ae_NotFound delErr then evict_loop env node protected pods (evicted, skipped, overrides) lg2
                    else (Inl (''delete Pod '' @ named @ '' after its PodDisruptionBudget refused eviction: '' @ ae_Message delErr), lg2))))"

definition evictPodsOnNode :: "kubeEnv \<Rightarrow> string \<Rightarrow> string list \<Rightarrow> apiLog \<Rightarrow> (string + drainCounts) \<times> apiLog" where
  "evictPodsOnNode env node protected lg = (case ke_Pods env lg of
       Inl e \<Rightarrow> (Inl (''list Pods for drain on Node '' @ quote node @ '': '' @ e), lg)
     | Inr pods \<Rightarrow> evict_loop env node protected pods (0, [], []) lg)"

fun drain_loop :: "kubeEnv \<Rightarrow> string list \<Rightarrow> ExecTarget list \<Rightarrow> drainCounts \<Rightarrow> apiLog \<Rightarrow> (string + drainCounts) \<times> apiLog" where
  "drain_loop env protected [] d lg = (Inr d, lg)"
| "drain_loop env protected (t # ts) (evicted, skipped, overrides) lg =
     (if \<not> selectedNode t then drain_loop env protected ts (evicted, skipped, overrides) lg
      else case evictPodsOnNode env (xt_Name t) protected lg of
        (Inl e, lg') \<Rightarrow> (Inl e, lg')
      | (Inr (n, skipped', overrides'), lg') \<Rightarrow> drain_loop env protected ts (evicted + n, skipped @ skipped', overrides @ overrides') lg')"

definition drainNodes :: "kubeEnv \<Rightarrow> Action \<Rightarrow> apiLog \<Rightarrow> outcome" where
  "drainNodes env action lg = (let targets = xg_SelectedTargets (ac_Group action) in
     case cordonSelectedNodes env targets 0 0 lg of
       (Inl e, lg1) \<Rightarrow> blocked e lg1
     | (Inr (visited, cordoned), lg1) \<Rightarrow>
         if visited = 0 then blocked ''DrainNodes selected no Node targets'' lg1
         else (case protectedNamespaces env lg1 of Inl e \<Rightarrow> blocked e lg1
         | Inr protected \<Rightarrow> (case drain_loop env protected targets (0, [], []) lg1 of
             (Inl e, lg2) \<Rightarrow> blocked e lg2
           | (Inr (evicted, skipped, overrides), lg2) \<Rightarrow>
               succeeded (details ([(''cordoned'', AInt cordoned), (''evictedPods'', AInt evicted), (''selectedNodes'', AInt visited)] @
                 (if skipped \<noteq> [] then [(''selfExcludedNamespaces'', AStrings (dedupeStrings (sortStrings skipped)))] else []) @
                 (if overrides \<noteq> [] then [(''disruptionBudgetsOverridden'', AStrings (dedupeStrings (sortStrings overrides)))] else []))) [] lg2)))"

section \<open>Notifications and dispatch\<close>

definition notify :: "kubeEnv \<Rightarrow> Action \<Rightarrow> apiLog \<Rightarrow> outcome" where
  "notify env action lg =
     (let params = xg_Params (ac_Group action);
          message = (if gm_string params ''message'' = '''' then ''shutdown flow '' @ quote (ac_ShutdownFlow action) @ '' reached group '' @ quote (xg_Name (ac_Group action)) else gm_string params ''message'');
          reason = (if gm_string params ''reason'' = '''' then ''ShutdownFlowNotify'' else gm_string params ''reason'') in
      if \<not> ke_Recorder env
      then (((blockedOutcome ''no event recorder configured for Notify'')\<lparr>ao_Details := details [(''action'', AText ''Notify''), (''message'', AText message)]\<rparr>, None), lg)
      else case ke_FlowCluster env lg (ac_ShutdownFlow action) of
        Inl e \<Rightarrow> blocked e lg
      | Inr _ \<Rightarrow> succeeded (details [(''action'', AText ''Notify''), (''reason'', AText reason), (''message'', AText message)]) []
          (lg @ [Notified reason (xg_Name (ac_Group action)) message]))"

section \<open>Hooks\<close>

definition blockedWith :: "string \<Rightarrow> string \<Rightarrow> apiLog \<Rightarrow> outcome" where
  "blockedWith inner outer lg = ((blockedOutcome inner, Some outer), lg)"

definition schemePort :: "string \<Rightarrow> int" where
  "schemePort scheme = (if scheme = ''http'' then 80 else if scheme = ''https'' then 443 else 0)"

definition effectiveURLPort :: "hookURL \<Rightarrow> int" where
  "effectiveURLPort url = (case (if hu_Port url \<noteq> '''' then ParseInt (hu_Port url) else None) of
     Some n \<Rightarrow> wrap32 n | None \<Rightarrow> schemePort (hu_Scheme url))"

definition allowedEndpointPort :: "PowerHookEndpointAllowlistEntry \<Rightarrow> int" where
  "allowedEndpointPort e = (case he_Port e of Some p \<Rightarrow> p | None \<Rightarrow> schemePort (he_Scheme e))"

definition startsWith :: "string \<Rightarrow> string \<Rightarrow> bool" where
  "startsWith p s \<longleftrightarrow> take (length p) s = p"

definition endpointAllows :: "hookLibrary \<Rightarrow> hookURL \<Rightarrow> PowerHookEndpointAllowlistEntry \<Rightarrow> bool" where
  "endpointAllows lib url e \<longleftrightarrow> hu_Scheme url = he_Scheme e \<and> hl_EqualFold lib (hu_Hostname url) (he_Host e) \<and>
     effectiveURLPort url = allowedEndpointPort e \<and>
     (he_PathPrefix e = '''' \<or> startsWith (he_PathPrefix e) (if hu_Path url = '''' then ''/'' else hu_Path url))"

definition hookURLAllowed :: "hookLibrary \<Rightarrow> hookURL \<Rightarrow> PowerHookEndpointAllowlistEntry list \<Rightarrow> bool" where
  "hookURLAllowed lib url allowed = list_ex (endpointAllows lib url) allowed"

definition redactedURL :: "hookLibrary \<Rightarrow> string \<Rightarrow> string" where
  "redactedURL lib raw = (case hl_ParseURL lib raw of Inl _ \<Rightarrow> raw
     | Inr url \<Rightarrow> (case hu_User url of None \<Rightarrow> raw | Some (name, _) \<Rightarrow> hl_URLString lib (url\<lparr>hu_User := Some (name, ''redacted'')\<rparr>)))"

definition hookTransport :: "string \<Rightarrow> string" where
  "hookTransport transport = (if transport = '''' then ''HTTP'' else transport)"

definition hookHTTPMethod :: "string \<Rightarrow> string" where
  "hookHTTPMethod m = (if m = '''' then ''POST'' else m)"

definition managementClusterForHook :: "kubeEnv \<Rightarrow> string \<Rightarrow> apiLog \<Rightarrow> string + PowerCluster" where
  "managementClusterForHook env flow lg =
     (case ke_FlowCluster env lg flow of
        Inl e \<Rightarrow> Inl (''get ShutdownFlow '' @ quote flow @ '' for hook policy: '' @ e)
      | Inr ref \<Rightarrow>
          if ref = None \<or> ref = Some '''' then Inl (''ShutdownFlow '' @ quote flow @ '' requires spec.managementClusterRef for RunHook endpoint policy'')
          else (case ke_Cluster env lg (the ref) of
            Inl e \<Rightarrow> Inl (''get PowerManagementCluster '' @ quote (the ref) @ '' for hook policy: '' @ e)
          | Inr cluster \<Rightarrow> Inr cluster))"

text \<open>The checks that \<open>simulatedHookOutcome\<close> and \<open>runHTTPHook\<close> share: the URL must be absolute with a host,
  and allowed by the management cluster of the flow.  An error comes as outcome message and error.\<close>

definition hookEndpointError :: "kubeEnv \<Rightarrow> Action \<Rightarrow> ShutdownHook \<Rightarrow> string \<Rightarrow> apiLog \<Rightarrow> (string \<times> string) option" where
  "hookEndpointError env action hook raw lg =
     (let lib = ke_Library env; invalid = (\<lambda>e. Some (e, ''invalid ShutdownHook URL '' @ quote raw @ '': '' @ e)) in
      case hl_ParseURL lib raw of
        Inl e \<Rightarrow> invalid e
      | Inr url \<Rightarrow>
          if hu_Scheme url = '''' \<or> hu_Hostname url = '''' then invalid ''URL must be absolute and include a host''
          else (case managementClusterForHook env (ac_ShutdownFlow action) lg of
            Inl e \<Rightarrow> Some (e, e)
          | Inr cluster \<Rightarrow>
              if hookURLAllowed lib url (pc_AllowedEndpoints cluster) then None
              else let e = ''ShutdownHook '' @ hk_Namespace hook @ ''/'' @ hk_Name hook @ '' URL '' @ quote raw @ '' is not allowed by PowerManagementCluster '' @ quote (pc_Name cluster) in
                Some (e, e)))"

definition cloudEventBody :: "kubeEnv \<Rightarrow> Action \<Rightarrow> ShutdownHook \<Rightarrow> ShutdownHookHTTPSpec \<Rightarrow> bool \<Rightarrow> any" where
  "cloudEventBody env action hook http rehearsalDeclared =
     (let power = ac_PowerObservation action; grp = ac_Group action in
      AMap (details
        [(''specversion'', AText ''1.0''),
         (''id'', AText (ac_ExecutionID action @ ''-'' @ xg_Name grp @ ''-'' @ show_int (wrap64 (ke_Now env)))),
         (''source'', AText (if hh_CloudEventSource http = '''' then ''urn:power.zalud.io:shutdownflow:'' @ ac_ShutdownFlow action else hh_CloudEventSource http)),
         (''type'', AText (if hh_CloudEventType http = '''' then ''io.zalud.power.shutdown.hook.v1'' else hh_CloudEventType http)),
         (''time'', AText (formatRFC3339Nano (ke_Now env))),
         (''datacontenttype'', AText ''application/json''),
         (''data'', AMap (details
           [(''executionID'', AText (ac_ExecutionID action)), (''planHash'', AText (ac_PlanConfigHash action)),
            (''shutdownFlow'', AText (ac_ShutdownFlow action)), (''group'', AText (xg_Name grp)), (''waveIndex'', AInt (ac_WaveIndex action)),
            (''triggerReason'', AText (ac_TriggerReason action)), (''dryRun'', ABool (ac_DryRun action)),
            (''rehearsalDeclared'', ABool rehearsalDeclared), (''selectedUPSDevices'', AStrings (ac_SelectedUPSDevices action)),
            (''hook'', AStringMap [(''name'', hk_Name hook), (''namespace'', hk_Namespace hook)]),
            (''power'', AMap (details [(''onBattery'', ABool (ap_OnBattery power)), (''lowBattery'', ABool (ap_LowBattery power)),
              (''runtimeSeconds'', case ap_RuntimeSeconds power of None \<Rightarrow> ANil | Some s \<Rightarrow> AInt s), (''runtimeTrusted'', ABool (ap_RuntimeTrusted power))])),
            (''params'', AStringMap (xg_Params grp)), (''extensions'', AStringMap (hh_Data http))]))]))"

definition textEntry :: "details \<Rightarrow> string \<Rightarrow> string" where
  "textEntry obj key = (case map_of obj key of Some (AText s) \<Rightarrow> s | _ \<Rightarrow> '''')"

definition hookRequestSummary :: "kubeEnv \<Rightarrow> Action \<Rightarrow> ShutdownHook \<Rightarrow> ShutdownHookInvocationSpec \<Rightarrow> string + details" where
  "hookRequestSummary env action hook invocation =
     (let lib = ke_Library env; named = hk_Namespace hook @ ''/'' @ hk_Name hook; transport = hookTransport (hi_Transport invocation) in
      if transport = ''HTTP'' then (case hi_HTTP invocation of
          None \<Rightarrow> Inl (''ShutdownHook '' @ named @ '' HTTP transport requires spec.http'')
        | Some http \<Rightarrow> Inr (details [(''transport'', AText ''HTTP''), (''method'', AText (hookHTTPMethod (hh_Method http))),
            (''url'', AText (redactedURL lib (hh_URL http))), (''body'', cloudEventBody env action hook http False)]))
      else if transport = ''KubernetesObject'' then
        (if hi_Object invocation = '''' then Inl (''ShutdownHook '' @ named @ '' KubernetesObject transport requires spec.kubernetesObject.object'')
         else case hl_UnmarshalObject lib (hi_Object invocation) of
           Inl e \<Rightarrow> Inl (''decode ShutdownHook Kubernetes object: '' @ e)
         | Inr obj \<Rightarrow> Inr (details [(''transport'', AText ''KubernetesObject''), (''apiVersion'', AText (textEntry obj ''apiVersion'')), (''kind'', AText (textEntry obj ''kind''))]))
      else Inl (''unsupported ShutdownHook transport '' @ quote (hi_Transport invocation)))"

definition simulatedHookOutcome :: "kubeEnv \<Rightarrow> Action \<Rightarrow> ShutdownHook \<Rightarrow> ShutdownHookInvocationSpec \<Rightarrow> apiLog \<Rightarrow> outcome" where
  "simulatedHookOutcome env action hook invocation lg =
     (case (if hookTransport (hi_Transport invocation) = ''HTTP'' \<and> hi_HTTP invocation \<noteq> None
            then hookEndpointError env action hook (hh_URL (the (hi_HTTP invocation))) lg else None) of
        Some (inner, outer) \<Rightarrow> blockedWith inner outer lg
      | None \<Rightarrow> (case hookRequestSummary env action hook invocation of
          Inl e \<Rightarrow> blocked e lg
        | Inr request \<Rightarrow> ((\<lparr>ao_Outcome = OutcomeSimulated, ao_Error = '''',
            ao_Details = details [(''action'', AText ActionRunHook), (''dryRun'', ABool True), (''hook'', AText (hk_Namespace hook @ ''/'' @ hk_Name hook)),
              (''rehearsalDeclared'', ABool False), (''wouldSendInvocation'', AMap request)], ao_SignalResults = []\<rparr>, None), lg)))"

fun applySecretHeaders :: "kubeEnv \<Rightarrow> apiLog \<Rightarrow> (string \<times> string \<times> string \<times> string) list \<Rightarrow> (string \<times> string) list \<Rightarrow> string + (string \<times> string) list" where
  "applySecretHeaders env lg [] headers = Inr headers"
| "applySecretHeaders env lg ((header, ns, name, key) # rest) headers =
     (case ke_GetSecret env lg ns name of
        Inl err \<Rightarrow> Inl (''get Secret '' @ ns @ ''/'' @ name @ '' for ShutdownHook header '' @ quote header @ '': '' @ ae_Message err)
      | Inr secret \<Rightarrow> (case map_of (se_Data secret) key of
          None \<Rightarrow> Inl (''secret '' @ ns @ ''/'' @ name @ '' does not contain key '' @ quote key @ '' for ShutdownHook header '' @ quote header)
        | Some v \<Rightarrow> applySecretHeaders env lg rest (headers @ [(header, v)])))"

definition deliverHook :: "kubeEnv \<Rightarrow> Action \<Rightarrow> ShutdownHook \<Rightarrow> ShutdownHookHTTPSpec \<Rightarrow> bool \<Rightarrow> hookRequest \<Rightarrow> apiLog \<Rightarrow> outcome" where
  "deliverHook env action hook http rehearsalDeclared request lg =
     (let named = hk_Namespace hook @ ''/'' @ hk_Name hook; failed = ''deliver ShutdownHook '' @ named @ '' to '' @ hh_URL http @ '': '' in
      case ke_Deliver env lg request of
        Inl e \<Rightarrow> blockedWith e (failed @ e) (lg @ [Delivered request (Inl e)])
      | Inr (status, body) \<Rightarrow>
          let lg' = lg @ [Delivered request (Inr status)] in
          if status < 200 \<or> status \<ge> 300 then blocked (failed @ ''status '' @ show_int status @ '' '' @ trimSpace (take 2048 body)) lg'
          else succeeded (details [(''action'', AText ActionRunHook), (''transport'', AText ''HTTP''), (''dryRun'', ABool (ac_DryRun action)),
            (''hook'', AText named), (''rehearsalDeclared'', ABool rehearsalDeclared), (''statusCode'', AInt status),
            (''url'', AText (redactedURL (ke_Library env) (hh_URL http)))]) [] lg')"

definition runHTTPHook :: "kubeEnv \<Rightarrow> Action \<Rightarrow> ShutdownHook \<Rightarrow> ShutdownHookInvocationSpec \<Rightarrow> bool \<Rightarrow> apiLog \<Rightarrow> outcome" where
  "runHTTPHook env action hook invocation rehearsalDeclared lg =
     (case hi_HTTP invocation of
        None \<Rightarrow> blocked (''ShutdownHook '' @ hk_Namespace hook @ ''/'' @ hk_Name hook @ '' HTTP transport requires spec.http'') lg
      | Some http \<Rightarrow> (case hookEndpointError env action hook (hh_URL http) lg of Some (inner, outer) \<Rightarrow> blockedWith inner outer lg
      | None \<Rightarrow> (case hl_MarshalEvent (ke_Library env) (cloudEventBody env action hook http rehearsalDeclared) of
          Inl e \<Rightarrow> blockedWith e (''encode ShutdownHook CloudEvent: '' @ e) lg
      | Inr encoded \<Rightarrow> (case ke_NewRequest env (hookHTTPMethod (hh_Method http)) (hh_URL http) of Some e \<Rightarrow> blocked e lg
      | None \<Rightarrow> (case applySecretHeaders env lg (hh_SecretHeaders http) ((''Content-Type'', ''application/cloudevents+json'') # hh_Headers http) of Inl e \<Rightarrow> blocked e lg
      | Inr headers \<Rightarrow> deliverHook env action hook http rehearsalDeclared
          \<lparr>hr_Method = hookHTTPMethod (hh_Method http), hr_URL = hh_URL http, hr_Headers = headers, hr_Body = encoded\<rparr> lg)))))"

definition annotateHookObject :: "hookLibrary \<Rightarrow> Action \<Rightarrow> ShutdownHook \<Rightarrow> int \<Rightarrow> details \<Rightarrow> details" where
  "annotateHookObject lib action hook observedAt obj =
     (let labelled = hl_SetMap lib ''labels'' (putAll
            [(''app.kubernetes.io/managed-by'', ''nut-operator''), (''power.zalud.io/shutdownflow'', labelValue (ac_ShutdownFlow action)),
             (''power.zalud.io/execution'', labelValue (ac_ExecutionID action)), (''power.zalud.io/executor-group'', labelValue (xg_Name (ac_Group action)))]
            (hl_GetMap lib ''labels'' obj)) obj in
      hl_SetMap lib ''annotations'' (putAll
        [(''power.zalud.io/execution-id'', ac_ExecutionID action), (''power.zalud.io/executor-group'', xg_Name (ac_Group action)),
         (''power.zalud.io/hook'', hk_Namespace hook @ ''/'' @ hk_Name hook), (''power.zalud.io/observed-at'', formatRFC3339Nano observedAt),
         (''power.zalud.io/plan-hash'', ac_PlanConfigHash action), (''power.zalud.io/shutdownflow'', ac_ShutdownFlow action)]
        (hl_GetMap lib ''annotations'' labelled)) labelled)"

definition runKubernetesObjectHook :: "kubeEnv \<Rightarrow> Action \<Rightarrow> ShutdownHook \<Rightarrow> ShutdownHookInvocationSpec \<Rightarrow> bool \<Rightarrow> apiLog \<Rightarrow> outcome" where
  "runKubernetesObjectHook env action hook invocation rehearsalDeclared lg =
     (let lib = ke_Library env; named = hk_Namespace hook @ ''/'' @ hk_Name hook in
      if hi_Object invocation = '''' then blocked (''ShutdownHook '' @ named @ '' KubernetesObject transport requires spec.kubernetesObject.object'') lg
      else case hl_UnmarshalObject lib (hi_Object invocation) of
        Inl e \<Rightarrow> blockedWith e (''decode ShutdownHook Kubernetes object: '' @ e) lg
      | Inr raw \<Rightarrow>
          if textEntry raw ''apiVersion'' = '''' \<or> textEntry raw ''kind'' = ''''
          then blocked (''ShutdownHook '' @ named @ '' Kubernetes object requires apiVersion and kind'') lg
          else let obj = annotateHookObject lib action hook (ke_Now env) (hl_SetGroupVersionKind lib (textEntry raw ''apiVersion'') (textEntry raw ''kind'') raw);
                   err = ke_CreateObject env lg obj; lg' = lg @ [CreatedObject obj err];
                   ns = hl_Text lib ''namespace'' obj; name = hl_Text lib ''name'' obj in
            (case err of Some e \<Rightarrow> blockedWith e (''create ShutdownHook Kubernetes object '' @ hl_GroupVersionKind lib obj @ '' '' @ ns @ ''/'' @ name @ '': '' @ e) lg'
             | None \<Rightarrow> succeeded (details [(''action'', AText ActionRunHook), (''transport'', AText ''KubernetesObject''), (''dryRun'', ABool (ac_DryRun action)),
                 (''hook'', AText named), (''rehearsalDeclared'', ABool rehearsalDeclared),
                 (''created'', AStringMap [(''apiVersion'', hl_Text lib ''apiVersion'' obj), (''kind'', hl_Text lib ''kind'' obj), (''name'', name), (''namespace'', ns)])]) [] lg'))"

definition runHook :: "kubeEnv \<Rightarrow> Action \<Rightarrow> apiLog \<Rightarrow> outcome" where
  "runHook env action lg =
     (case xg_HookRef (ac_Group action) of
        None \<Rightarrow> blocked ''RunHook requires hookRef namespace and name'' lg
      | Some ref \<Rightarrow>
          if xh_Namespace ref = '''' \<or> xh_Name ref = '''' then blocked ''RunHook requires hookRef namespace and name'' lg
          else case ke_Hook env lg (xh_Namespace ref) (xh_Name ref) of
            Inl e \<Rightarrow> blockedWith e (''get ShutdownHook '' @ xh_Namespace ref @ ''/'' @ xh_Name ref @ '': '' @ e) lg
          | Inr hook \<Rightarrow>
              if ac_DryRun action \<and> hk_DryRun hook = None then simulatedHookOutcome env action hook (hk_Invocation hook) lg
              else let invocation = (if ac_DryRun action then the (hk_DryRun hook) else hk_Invocation hook); rehearsal = ac_DryRun action in
                if hookTransport (hi_Transport invocation) = ''HTTP'' then runHTTPHook env action hook invocation rehearsal lg
                else if hookTransport (hi_Transport invocation) = ''KubernetesObject'' then runKubernetesObjectHook env action hook invocation rehearsal lg
                else blocked (''unsupported ShutdownHook transport '' @ quote (hi_Transport invocation)) lg)"

definition runAction :: "kubeEnv \<Rightarrow> bool \<Rightarrow> Action \<Rightarrow> apiLog \<Rightarrow> outcome" where
  "runAction env hasClient action lg =
     (let act = xg_Action (ac_Group action) in
      if \<not> hasClient then blocked ''kubernetes action runner requires a client'' lg
      else if act = ActionWait then succeeded (details [(''action'', AText act)]) [] lg
      else if act = ''Notify'' then notify env action lg
      else if act = ''ScaleWorkload'' then scaleWorkloads env action lg
      else if act = ''CordonNodes'' then cordonNodes env action lg
      else if act = ''DrainNodes'' then drainNodes env action lg
      else if act = ActionRunHook then runHook env action lg
      else if act = ActionAgentShutdown then agentShutdownHandoff env action lg
      else blocked (''unsupported Kubernetes shutdown action '' @ quote act) lg)"

end
