(* ===== verification/KubeSafety.thy ===== *)
theory KubeSafety
  imports KubeActions
begin

text \<open>
  What the action runner may do to a cluster.  The locale \<open>runner_guard\<close> states, for every kind of
  request the runner sends, the circumstances in which it is sent; its theorem carries them to every
  request of every action.  The interpretations and properties at the end: signals are validated right
  before they are written, protected namespaces are left alone, hooks go to allowed endpoints only, and a
  published signal is accepted by exactly the node it names while it is fresh.
\<close>

section \<open>Requests in their context\<close>

definition each :: "(apiLog \<Rightarrow> apiEvent \<Rightarrow> bool) \<Rightarrow> apiLog \<Rightarrow> bool" where
  "each P lg \<longleftrightarrow> (\<forall>i<length lg. P (take i lg) (lg ! i))"

lemma each_Nil [simp]: "each P []"
  by (simp add: each_def)

lemma each_snoc [simp]: "each P (lg @ [ev]) \<longleftrightarrow> each P lg \<and> P lg ev"
  by (auto simp: each_def nth_append less_Suc_eq)

definition unprotected :: "kubeEnv \<Rightarrow> apiLog \<Rightarrow> string \<Rightarrow> bool" where
  "unprotected env lg ns \<longleftrightarrow> (\<exists>i ps. protectedNamespaces env (take i lg) = Inr ps \<and> ns \<notin> set ps)"

lemma unprotected_append: "unprotected env lg ns \<Longrightarrow> unprotected env (lg @ lg') ns"
  unfolding unprotected_def
proof (elim exE conjE)
  fix i ps assume "protectedNamespaces env (take i lg) = Inr ps" and "ns \<notin> set ps"
  moreover have "take (min i (length lg)) (lg @ lg') = take i lg" by (simp add: min_def)
  ultimately show "\<exists>i ps. protectedNamespaces env (take i (lg @ lg')) = Inr ps \<and> ns \<notin> set ps" by metis
qed

lemma unprotected_now: "protectedNamespaces env lg = Inr ps \<Longrightarrow> ns \<notin> set ps \<Longrightarrow> unprotected env lg ns"
  unfolding unprotected_def by (rule exI [of _ "length lg"]) simp

definition drainable :: "Action \<Rightarrow> Pod \<Rightarrow> bool" where
  "drainable action pod \<longleftrightarrow> evictablePod pod \<and> (\<exists>t\<in>set (xg_SelectedTargets (ac_Group action)). selectedNode t \<and> xt_Name t = po_NodeName pod)"

definition signalContent :: "kubeEnv \<Rightarrow> Action \<Rightarrow> NodeRelease \<Rightarrow> string \<Rightarrow> bool" where
  "signalContent env action r content \<longleftrightarrow> (\<exists>raw. content = raw @ [CHR 0x0A] \<and>
     (ke_Marshal env (signalPayload env action r) = Inr raw \<or> ke_MarshalIndent env (signalPayload env action r) = Inr raw))"

text \<open>The Secret a write starts from: the one read, or an empty one where there is none.\<close>

definition secretBase :: "kubeEnv \<Rightarrow> apiLog \<Rightarrow> string \<Rightarrow> string \<Rightarrow> Secret \<Rightarrow> bool" where
  "secretBase env lg ns name s \<longleftrightarrow> (case ke_GetSecret env lg ns name of Inr s0 \<Rightarrow> s = s0
     | Inl err \<Rightarrow> ae_NotFound err \<and> se_Namespace s = ns \<and> se_Name s = name \<and> se_Data s = [])"

definition signalWrite :: "kubeEnv \<Rightarrow> Action \<Rightarrow> apiLog \<Rightarrow> Secret \<Rightarrow> bool" where
  "signalWrite env action lg s \<longleftrightarrow>
     (\<exists>lg0 rs s0 ns name. rs \<noteq> [] \<and> set rs \<subseteq> set (xg_NodeReleases (ac_Group action)) \<and> lg = lg0 @ map (\<lambda>r. Validated r None) rs \<and>
        secretBase env lg0 ns name s0 \<and> se_Namespace s = se_Namespace s0 \<and> se_Name s = se_Name s0 \<and>
        (\<forall>r\<in>set rs. nr_NodeName r \<noteq> '''' \<and> nr_SignalSecretNamespace r = ns \<and> nr_SignalSecretName r = name \<and>
           (\<exists>content. map_of (se_Data s) (nr_SignalSecretKey r) = Some content \<and> signalContent env action r content)) \<and>
        (\<forall>k. k \<notin> nr_SignalSecretKey ` set rs \<longrightarrow> map_of (se_Data s) k = map_of (se_Data s0) k))"

lemma signalWriteI:
  assumes "rs \<noteq> []" and "set rs \<subseteq> set (xg_NodeReleases (ac_Group action))" and "lg = lg0 @ map (\<lambda>r. Validated r None) rs"
    and "secretBase env lg0 ns name s0" and "se_Namespace s = se_Namespace s0" and "se_Name s = se_Name s0"
    and "\<And>r. r \<in> set rs \<Longrightarrow> nr_NodeName r \<noteq> ''''" and "\<And>r. r \<in> set rs \<Longrightarrow> nr_SignalSecretNamespace r = ns"
    and "\<And>r. r \<in> set rs \<Longrightarrow> nr_SignalSecretName r = name"
    and "\<And>r. r \<in> set rs \<Longrightarrow> \<exists>content. map_of (se_Data s) (nr_SignalSecretKey r) = Some content \<and> signalContent env action r content"
    and "\<And>k. k \<notin> nr_SignalSecretKey ` set rs \<Longrightarrow> map_of (se_Data s) k = map_of (se_Data s0) k"
  shows "signalWrite env action lg s"
  unfolding signalWrite_def using assms by blast

definition invocationFor :: "Action \<Rightarrow> ShutdownHook \<Rightarrow> ShutdownHookInvocationSpec option" where
  "invocationFor action hook = (if ac_DryRun action then hk_DryRun hook else Some (hk_Invocation hook))"

definition hooked :: "kubeEnv \<Rightarrow> Action \<Rightarrow> apiLog \<Rightarrow> ShutdownHook \<Rightarrow> ShutdownHookInvocationSpec \<Rightarrow> bool" where
  "hooked env action lg hook invocation \<longleftrightarrow> (\<exists>ref. xg_HookRef (ac_Group action) = Some ref \<and>
     ke_Hook env lg (xh_Namespace ref) (xh_Name ref) = Inr hook \<and> invocationFor action hook = Some invocation)"

definition permitted :: "kubeEnv \<Rightarrow> Action \<Rightarrow> apiLog \<Rightarrow> hookRequest \<Rightarrow> bool" where
  "permitted env action lg request \<longleftrightarrow>
     (\<exists>hook invocation http url cluster. hooked env action lg hook invocation \<and> hi_HTTP invocation = Some http \<and> hr_URL request = hh_URL http \<and>
        hl_ParseURL (ke_Library env) (hh_URL http) = Inr url \<and> managementClusterForHook env (ac_ShutdownFlow action) lg = Inr cluster \<and>
        hookURLAllowed (ke_Library env) url (pc_AllowedEndpoints cluster))"

section \<open>The guard of every request\<close>

lemma validateAll_log:
  "validateAll v rs lg = (None, lg') \<Longrightarrow> lg' = lg @ map (\<lambda>r. Validated r None) rs"
  by (induction rs arbitrary: lg) (fastforce simp: Let_def split: option.splits)+

lemma encodeSignals_keys:
  assumes "encodeSignals env action rs m = Inr m'" and "distinct (map nr_SignalSecretKey rs)"
  shows "(\<forall>r\<in>set rs. \<exists>content. map_of m' (nr_SignalSecretKey r) = Some content \<and> signalContent env action r content) \<and>
    (\<forall>k. k \<notin> nr_SignalSecretKey ` set rs \<longrightarrow> map_of m' k = map_of m k)"
  using assms
proof (induction rs arbitrary: m)
  case (Cons r rs)
  obtain raw where raw: "ke_Marshal env (signalPayload env action r) = Inr raw"
    and rest: "encodeSignals env action rs (gm_put (nr_SignalSecretKey r) (raw @ [CHR 0x0A]) m) = Inr m'"
    using Cons.prems(1) by (auto split: sum.splits)
  have fresh: "nr_SignalSecretKey r \<notin> nr_SignalSecretKey ` set rs" and "distinct (map nr_SignalSecretKey rs)" using Cons.prems(2) by auto
  note IH = Cons.IH [OF rest this(2)]
  have "map_of m' (nr_SignalSecretKey r) = Some (raw @ [CHR 0x0A])" using IH fresh by simp
  moreover have "signalContent env action r (raw @ [CHR 0x0A])" using raw by (auto simp: signalContent_def)
  ultimately show ?case using IH by auto
qed simp

lemma terminalReleasesValid_iff:
  "terminalReleasesValid f keys rs \<longleftrightarrow> distinct (map nr_SignalSecretKey rs) \<and>
     (\<forall>r\<in>set rs. nr_SignalSecretKey r \<notin> set keys \<and> nr_TerminalHandoff r \<and> nr_NodeName r \<noteq> '''' \<and> nr_SignalSecretNamespace f \<noteq> '''' \<and> nr_SignalSecretName f \<noteq> '''' \<and>
        nr_SignalSecretKey r \<noteq> '''' \<and> nr_SignalSecretNamespace r = nr_SignalSecretNamespace f \<and> nr_SignalSecretName r = nr_SignalSecretName f \<and> nr_NodePowerAgent r = nr_NodePowerAgent f)"
proof (induction rs arbitrary: keys)
  case (Cons r rs)
  have "nr_SignalSecretKey x \<noteq> nr_SignalSecretKey r" if "nr_SignalSecretKey r \<notin> nr_SignalSecretKey ` set rs" "x \<in> set rs" for x using that by (metis image_eqI)
  then show ?case unfolding terminalReleasesValid.simps Cons by (auto 4 3)
qed simp

locale runner_guard =
  fixes env :: kubeEnv and action :: Action and P :: "apiLog \<Rightarrow> apiEvent \<Rightarrow> bool"
  assumes quiet: "P lg (Validated r v)" "P lg (Cordoned node err)" "P lg (Notified reason grp note)" "P lg (SignalWritten node flow eid t)"
    and scaled: "unprotected env lg ns \<Longrightarrow> P lg (SetReplicas kind ns name n err)"
    and evicted: "unprotected env lg (po_Namespace pod) \<Longrightarrow> drainable action pod \<Longrightarrow> P lg (EvictedPod pod answer)"
    and deleted: "unprotected env lg (po_Namespace pod) \<Longrightarrow> drainable action pod \<Longrightarrow> disruptionBudgetDenied refusal \<Longrightarrow>
      P (lg @ [EvictedPod pod (Some refusal)]) (DeletedPod pod answer)"
    and wrote: "signalWrite env action lg s \<Longrightarrow> P lg (WroteSecret s err)"
    and delivered: "permitted env action lg request \<Longrightarrow> P lg (Delivered request result)"
    and created: "hooked env action lg hook invocation \<Longrightarrow> P lg (CreatedObject obj err)"
begin

definition safe :: "string list \<Rightarrow> apiLog \<Rightarrow> bool" where
  "safe ps lg \<longleftrightarrow> each P lg \<and> (\<forall>ns. ns \<notin> set ps \<longrightarrow> unprotected env lg ns)"

lemma safe_snoc: "safe ps lg \<Longrightarrow> P lg ev \<Longrightarrow> safe ps (lg @ [ev])"
  by (auto simp: safe_def intro: unprotected_append)

lemma scale_loop_safe: "safe ps lg \<Longrightarrow> safe ps (snd (scale_loop env n ps ts changed visited excluded lg))"
proof (induction ts arbitrary: changed visited excluded lg)
  case (Cons t ts)
  have "safe ps (snd (scaleTarget env t n lg))" if "xt_Namespace t \<notin> set ps"
  proof -
    have "P lg (SetReplicas k (xt_Namespace t) name m err)" for k name m err using scaled Cons.prems that by (simp add: safe_def)
    then show ?thesis using Cons.prems by (auto simp: scaleTarget_def Let_def split: sum.split option.split intro: safe_snoc)
  qed
  then show ?case using Cons by (auto split: prod.split sum.split)
qed simp
lemma cordon_safe: "each P lg \<Longrightarrow> each P (snd (cordonSelectedNodes env ts visited changed lg))"
  by (induction ts arbitrary: visited changed lg) (auto simp: Let_def quiet split: sum.split bool.split option.split)

lemma evict_loop_safe:
  assumes "\<And>pod. evictablePod pod \<Longrightarrow> po_NodeName pod = node \<Longrightarrow> drainable action pod"
  shows "safe ps lg \<Longrightarrow> safe ps (snd (evict_loop env node ps pods d lg))"
proof (induction pods arbitrary: d lg)
  case (Cons pod pods)
  obtain a b c where d: "d = (a, b, c)" by (cases d)
  show ?case
  proof (cases "po_NodeName pod \<noteq> node \<or> \<not> evictablePod pod \<or> po_Namespace pod \<in> set ps")
    case True
    then show ?thesis using Cons by (auto simp: d Let_def)
  next
    case False
    then have pod: "unprotected env lg (po_Namespace pod)" "drainable action pod" using Cons.prems assms by (auto simp: safe_def)
    have one: "safe ps (lg @ [EvictedPod pod x])" for x using Cons.prems evicted [OF pod] by (rule safe_snoc)
    have two: "safe ps (lg @ [EvictedPod pod (Some r), DeletedPod pod x])" if "disruptionBudgetDenied r" for r x
      using safe_snoc [OF one deleted [OF pod that]] by simp
    show ?thesis using False one two Cons.IH by (auto simp: d Let_def split: option.split)
  qed
qed simp

lemma drain_loop_safe:
  "safe ps lg \<Longrightarrow> set ts \<subseteq> set (xg_SelectedTargets (ac_Group action)) \<Longrightarrow> safe ps (snd (drain_loop env ps ts d lg))"
proof (induction ts arbitrary: d lg)
  case (Cons t ts)
  obtain a b c where d: "d = (a, b, c)" by (cases d)
  show ?case
  proof (cases "selectedNode t")
    case True
    then have "drainable action pod" if "evictablePod pod" "po_NodeName pod = xt_Name t" for pod
      using Cons.prems(2) that by (auto simp: drainable_def)
    then have "safe ps (snd (evictPodsOnNode env (xt_Name t) ps lg))"
      using Cons.prems(1) by (auto simp: evictPodsOnNode_def split: sum.split intro: evict_loop_safe)
    then show ?thesis using Cons True by (auto simp: d split: prod.split sum.split)
  qed (use Cons in \<open>simp add: d\<close>)
qed simp

lemma scaleWorkloads_each: "each P lg \<Longrightarrow> each P (snd (scaleWorkloads env action lg))"
proof -
  assume lg: "each P lg"
  have "each P (snd (scale_loop env n ps ts 0 0 [] lg))" if "protectedNamespaces env lg = Inr ps" for n ps ts
    using scale_loop_safe [of ps lg] unprotected_now [OF that] lg by (simp add: safe_def)
  then show ?thesis using lg
    by (auto simp: scaleWorkloads_def blocked_def succeeded_def split: sum.split prod.split)
      (metis snd_conv)+
qed

lemma drainNodes_each: "each P lg \<Longrightarrow> each P (snd (drainNodes env action lg))"
proof -
  assume lg: "each P lg"
  have cordoned: "each P lg1" if "cordonSelectedNodes env ts 0 0 lg = (x, lg1)" for ts x lg1
    using cordon_safe [OF lg, of ts 0 0] that by simp
  have "each P (snd (drain_loop env ps (xg_SelectedTargets (ac_Group action)) (0, [], []) lg1))"
    if "each P lg1" and "protectedNamespaces env lg1 = Inr ps" for ps lg1
    using drain_loop_safe [of ps lg1] unprotected_now [OF that(2)] that(1) by (simp add: safe_def)
  then have drained: "each P lg2" if "each P lg1" and "protectedNamespaces env lg1 = Inr ps"
      and "drain_loop env ps (xg_SelectedTargets (ac_Group action)) (0, [], []) lg1 = (x, lg2)" for ps lg1 lg2 x
    using that by fastforce
  show ?thesis
    unfolding drainNodes_def Let_def blocked_def succeeded_def
    by (auto split: sum.split prod.split dest: cordoned intro: drained)
qed

lemma cordonNodes_each: "each P lg \<Longrightarrow> each P (snd (cordonNodes env action lg))"
  using cordon_safe [of lg "xg_SelectedTargets (ac_Group action)" 0 0]
  by (auto simp: cordonNodes_def blocked_def succeeded_def split: sum.split prod.split)

lemma notify_each: "each P lg \<Longrightarrow> each P (snd (notify env action lg))"
  by (auto simp: notify_def Let_def blocked_def succeeded_def quiet split: sum.split)

section \<open>Signals\<close>

lemma signal_written_each: "each P lg \<Longrightarrow> each P (lg @ signalWritten env action r)"
  by (simp add: signalWritten_def quiet)

lemma signals_written_each: "each P lg \<Longrightarrow> each P (lg @ concat (map (signalWritten env action) rs))"
proof (induction rs arbitrary: lg)
  case (Cons r rs)
  show ?case using Cons.IH [OF signal_written_each [OF Cons.prems]] by simp
qed simp

lemma upsert_each:
  assumes "each P lg" and "r \<in> set (xg_NodeReleases (ac_Group action))" and "nr_NodeName r \<noteq> ''''"
    and "ke_MarshalIndent env (signalPayload env action r) = Inr raw"
  shows "each P (snd (upsertSignalSecret env action r (raw @ [CHR 0x0A]) lg))"
proof -
  let ?ns = "nr_SignalSecretNamespace r" and ?name = "nr_SignalSecretName r" and ?key = "nr_SignalSecretKey r"
  have content: "signalContent env action r (raw @ [CHR 0x0A])" using assms(4) by (auto simp: signalContent_def)
  have wrote1: "P (lg @ [Validated r None]) (WroteSecret s err)"
    if "secretBase env lg ?ns ?name s0" "se_Namespace s = se_Namespace s0" "se_Name s = se_Name s0" "se_Data s = gm_put ?key (raw @ [CHR 0x0A]) (se_Data s0)" for s s0 err
    by (rule wrote, rule signalWriteI [of "[r]" _ _ lg]) (use that assms(2,3) content in auto)
  have step: "each P (snd (validateAndWrite env v r s failure lg))" if "\<And>err. P (lg @ [Validated r None]) (WroteSecret s err)" for v s failure
    using assms(1) that each_snoc [of P "lg @ [Validated r None]"] by (auto simp: validateAndWrite_def Let_def quiet split: option.split simp del: append_assoc)
  have found: "P (lg @ [Validated r None]) (WroteSecret (s0\<lparr>se_Labels := labels, se_Type := kind, se_Data := gm_put ?key (raw @ [CHR 0x0A]) (se_Data s0)\<rparr>) err)"
    if "ke_GetSecret env lg ?ns ?name = Inr s0" for s0 labels kind err
    by (rule wrote1 [of s0]) (use that in \<open>simp_all add: secretBase_def\<close>)
  have absent: "P (lg @ [Validated r None]) (WroteSecret \<lparr>se_Namespace = ?ns, se_Name = ?name, se_Labels = labels, se_Type = kind, se_Data = gm_put ?key (raw @ [CHR 0x0A]) []\<rparr> err)"
    if "ke_GetSecret env lg ?ns ?name = Inl e" "ae_NotFound e" for e labels kind err
    by (rule wrote1 [of "\<lparr>se_Namespace = ?ns, se_Name = ?name, se_Labels = [], se_Type = [], se_Data = []\<rparr>"]) (use that in \<open>simp_all add: secretBase_def\<close>)
  show ?thesis
    unfolding upsertSignalSecret_def Let_def
    using assms(1) step [OF found] step [OF absent] by (auto split: option.split sum.split)
qed

lemma publish_each:
  assumes "set rs \<subseteq> set (xg_NodeReleases (ac_Group action))" and "each P lg"
  shows "each P (snd (publish_loop env action rs updated results lg))"
  using assms
proof (induction rs arbitrary: updated results lg)
  case (Cons r rs)
  have mem: "r \<in> set (xg_NodeReleases (ac_Group action))" and sub: "set rs \<subseteq> set (xg_NodeReleases (ac_Group action))" using Cons.prems(1) by auto
  have upsert: "each P lg'" if "upsertSignalSecret env action r (raw @ [CHR 0x0A]) lg = (x, lg')" "nr_NodeName r \<noteq> ''''"
      "ke_MarshalIndent env (signalPayload env action r) = Inr raw" for raw x lg'
    using upsert_each [OF Cons.prems(2) mem that(2,3)] that(1) by simp
  show ?case
    using Cons.prems(2) by (auto simp: Let_def failedHandoff_def split: sum.split prod.split option.split
      dest: upsert intro!: Cons.IH [OF sub] signal_written_each)
qed (simp add: succeeded_def)

lemma validateAll_each: "each P lg \<Longrightarrow> each P (snd (validateAll v rs lg))"
  by (induction rs arbitrary: lg) (auto simp: Let_def quiet split: option.split)

lemma terminal_write:
  fixes rs defines "rs \<equiv> xg_NodeReleases (ac_Group action)"
  assumes rs: "rs \<noteq> []" and valid: "terminalReleasesValid (hd rs) [] rs"
    and base: "secretBase env lg (nr_SignalSecretNamespace (hd rs)) (nr_SignalSecretName (hd rs)) s0"
    and enc: "encodeSignals env action rs (se_Data s0) = Inr payloads" and log: "validateAll v rs lg = (None, lg1)"
    and s: "se_Namespace s = se_Namespace s0" "se_Name s = se_Name s0" "se_Data s = payloads"
  shows "P lg1 (WroteSecret s err)"
proof (rule wrote, rule signalWriteI)
  have "distinct (map nr_SignalSecretKey rs)" using valid unfolding terminalReleasesValid_iff by blast
  note keys = encodeSignals_keys [OF enc this, folded s(3)]
  show "rs \<noteq> []" "set rs \<subseteq> set (xg_NodeReleases (ac_Group action))" using rs by (simp_all add: rs_def)
  show "lg1 = lg @ map (\<lambda>r. Validated r None) rs" by (rule validateAll_log [OF log])
  show "secretBase env lg (nr_SignalSecretNamespace (hd rs)) (nr_SignalSecretName (hd rs)) s0" by (rule base)
  show "se_Namespace s = se_Namespace s0" "se_Name s = se_Name s0" by fact+
  show "nr_NodeName r \<noteq> ''''" "nr_SignalSecretNamespace r = nr_SignalSecretNamespace (hd rs)" "nr_SignalSecretName r = nr_SignalSecretName (hd rs)" if "r \<in> set rs" for r
    using valid that unfolding terminalReleasesValid_iff by blast+
  show "\<exists>content. map_of (se_Data s) (nr_SignalSecretKey r) = Some content \<and> signalContent env action r content" if "r \<in> set rs" for r
    using keys that by blast
  show "map_of (se_Data s) k = map_of (se_Data s0) k" if "k \<notin> nr_SignalSecretKey ` set rs" for k using keys that by blast
qed
lemma terminal_each:
  assumes rs: "xg_NodeReleases (ac_Group action) \<noteq> []" and lg: "each P lg"
  shows "each P (snd (terminalControlPlaneHandoff env action lg))"
proof -
  let ?rs = "xg_NodeReleases (ac_Group action)"
  define read where "read = (case ke_GetSecret env lg (nr_SignalSecretNamespace (hd ?rs)) (nr_SignalSecretName (hd ?rs)) of
      Inr secret \<Rightarrow> Inr secret
    | Inl err \<Rightarrow> if ae_NotFound err then Inr \<lparr>se_Namespace = nr_SignalSecretNamespace (hd ?rs), se_Name = nr_SignalSecretName (hd ?rs), se_Labels = [], se_Type = ''Opaque'', se_Data = []\<rparr>
        else Inl (ae_Message err))"
  have base: "secretBase env lg (nr_SignalSecretNamespace (hd ?rs)) (nr_SignalSecretName (hd ?rs)) s0" if "read = Inr s0" for s0
    using that by (auto simp: read_def secretBase_def split: sum.splits if_splits)
  have checked: "each P lg1" if "validateAll v ?rs lg = (x, lg1)" for v x lg1 using validateAll_each [OF lg, of v ?rs] that by simp
  have final: "each P (lg1 @ WroteSecret (s0\<lparr>se_Labels := labels, se_Data := payloads\<rparr>) err # concat (map (signalWritten env action) ns))"
    and final': "P lg1 (WroteSecret (s0\<lparr>se_Labels := labels, se_Data := payloads\<rparr>) err)"
    if "terminalReleasesValid (hd ?rs) [] ?rs" "read = Inr s0" "encodeSignals env action ?rs (se_Data s0) = Inr payloads" "validateAll v ?rs lg = (None, lg1)"
    for v s0 payloads lg1 err labels ns
  proof -
    show one: "P lg1 (WroteSecret (s0\<lparr>se_Labels := labels, se_Data := payloads\<rparr>) err)"
      by (rule terminal_write [OF rs that(1) base [OF that(2)] that(3,4)]) simp_all
    have "each P (lg1 @ [WroteSecret (s0\<lparr>se_Labels := labels, se_Data := payloads\<rparr>) err])" using checked [OF that(4)] one by simp
    from signals_written_each [OF this]
    show "each P (lg1 @ WroteSecret (s0\<lparr>se_Labels := labels, se_Data := payloads\<rparr>) err # concat (map (signalWritten env action) ns))" by simp
  qed
  show ?thesis
    unfolding terminalControlPlaneHandoff_def Let_def blocked_def succeeded_def read_def [symmetric]
    by (auto split: option.split sum.split prod.split simp: lg dest: checked intro: final final')
qed

lemma agentShutdown_each: "each P lg \<Longrightarrow> each P (snd (agentShutdownHandoff env action lg))"
  by (auto simp: agentShutdownHandoff_def blocked_def intro: terminal_each publish_each)

section \<open>Hooks and dispatch\<close>

lemma endpoint_permitted:
  assumes "hooked env action lg hook invocation" and "hi_HTTP invocation = Some http"
    and "hookEndpointError env action hook (hh_URL http) lg = None" and "hr_URL request = hh_URL http"
  shows "permitted env action lg request"
  using assms unfolding permitted_def hookEndpointError_def Let_def
  by (auto split: sum.splits if_splits)

lemma http_each:
  assumes "each P lg" and "hooked env action lg hook invocation"
  shows "each P (snd (runHTTPHook env action hook invocation rehearsal lg))"
proof -
  have "each P (snd (deliverHook env action hook http rehearsal request lg))" if "permitted env action lg request" for http request
    using assms(1) delivered [OF that] by (auto simp: deliverHook_def Let_def blocked_def blockedWith_def succeeded_def split: sum.split)
  then show ?thesis
    using assms endpoint_permitted [OF assms(2)]
    by (auto simp: runHTTPHook_def blocked_def blockedWith_def split: option.split sum.split)
qed

lemma object_each:
  assumes "each P lg" and "hooked env action lg hook invocation"
  shows "each P (snd (runKubernetesObjectHook env action hook invocation rehearsal lg))"
  using assms(1) created [OF assms(2)]
  by (auto simp: runKubernetesObjectHook_def Let_def blocked_def blockedWith_def succeeded_def split: option.split sum.split)

lemma simulated_log: "snd (simulatedHookOutcome env action hook invocation lg) = lg"
  by (auto simp: simulatedHookOutcome_def blocked_def blockedWith_def split: option.split sum.split)

lemma runHook_each: "each P lg \<Longrightarrow> each P (snd (runHook env action lg))"
proof -
  assume lg: "each P lg"
  have dry: "hooked env action lg hook invocation"
    if "xg_HookRef (ac_Group action) = Some ref" "ke_Hook env lg (xh_Namespace ref) (xh_Name ref) = Inr hook" "ac_DryRun action" "hk_DryRun hook = Some invocation" for ref hook invocation
    using that by (auto simp: hooked_def invocationFor_def)
  have real: "hooked env action lg hook (hk_Invocation hook)"
    if "xg_HookRef (ac_Group action) = Some ref" "ke_Hook env lg (xh_Namespace ref) (xh_Name ref) = Inr hook" "\<not> ac_DryRun action" for ref hook
    using that by (auto simp: hooked_def invocationFor_def)
  show ?thesis
    unfolding runHook_def Let_def using lg
    by (auto simp: blocked_def blockedWith_def simulated_log split: option.split sum.split intro!: http_each object_each intro: dry real)
qed

theorem runAction_each: "each P lg \<Longrightarrow> each P (snd (runAction env hasClient action lg))"
  unfolding runAction_def Let_def
  by (simp add: blocked_def succeeded_def notify_each scaleWorkloads_each cordonNodes_each drainNodes_each runHook_each agentShutdown_each)

end

text \<open>What the runner promises of every request, in the context of the requests before it.\<close>

fun admissible :: "kubeEnv \<Rightarrow> Action \<Rightarrow> apiLog \<Rightarrow> apiEvent \<Rightarrow> bool" where
  "admissible env action lg (SetReplicas kind ns name n err) = unprotected env lg ns"
| "admissible env action lg (EvictedPod pod answer) = (unprotected env lg (po_Namespace pod) \<and> drainable action pod)"
| "admissible env action lg (DeletedPod pod answer) = (unprotected env lg (po_Namespace pod) \<and> drainable action pod \<and>
     (\<exists>refusal. lg \<noteq> [] \<and> last lg = EvictedPod pod (Some refusal) \<and> disruptionBudgetDenied refusal))"
| "admissible env action lg (WroteSecret s err) = signalWrite env action lg s"
| "admissible env action lg (Delivered request result) = permitted env action lg request"
| "admissible env action lg (CreatedObject obj err) = (\<exists>hook invocation. hooked env action lg hook invocation)"
| "admissible env action lg ev = True"

interpretation runner: runner_guard env action "admissible env action" for env action
  by unfold_locales (auto intro: unprotected_append)

lemma each_split: "each P (pre @ ev # post) \<Longrightarrow> P pre ev"
  unfolding each_def by (elim allE [of _ "length pre"]) simp

lemma runner_event: "snd (runAction env hasClient action []) = pre @ ev # post \<Longrightarrow> admissible env action pre ev"
  using runner.runAction_each [of env action "[]" hasClient] each_split [of "admissible env action" pre ev post] by simp

section \<open>Protected namespaces\<close>

definition clusterOperand :: "PowerCluster \<Rightarrow> string" where
  "clusterOperand cluster = (case pc_OperandNamespace cluster of None \<Rightarrow> ''power-system'' | Some n \<Rightarrow> if n = '''' then ''power-system'' else n)"

text \<open>The operand namespace of an agent, read without the cache of \<open>protectedNamespaces\<close>.\<close>

definition operandOf :: "kubeEnv \<Rightarrow> apiLog \<Rightarrow> PowerAgent \<Rightarrow> string" where
  "operandOf env lg agent =
     (if pa_Namespace agent \<noteq> '''' then pa_Namespace agent
      else case pa_ClusterRef agent of None \<Rightarrow> ''power-system''
      | Some name \<Rightarrow> if name = '''' then ''power-system'' else (case ke_Cluster env lg name of Inl e \<Rightarrow> e | Inr cluster \<Rightarrow> clusterOperand cluster))"

lemma protected_loop_set:
  assumes "\<And>n c. map_of clusters n = Some c \<Longrightarrow> ke_Cluster env lg n = Inr c" and "protected_loop env lg agents clusters acc = Inr ps"
  shows "set ps = set acc \<union> operandOf env lg ` set agents"
  using assms
proof (induction agents arbitrary: clusters acc)
  case (Cons a agents)
  obtain ns clusters' where read: "nodePowerAgentOperandNamespace env a clusters lg = Inr (ns, clusters')"
    and rest: "protected_loop env lg agents clusters' (ns # acc) = Inr ps"
    using Cons.prems(2) by (auto split: sum.splits)
  have "ns = operandOf env lg a \<and> (\<forall>n c. map_of clusters' n = Some c \<longrightarrow> ke_Cluster env lg n = Inr c)"
    using read Cons.prems(1)
    by (auto simp: nodePowerAgentOperandNamespace_def operandOf_def clusterOperand_def Let_def split: if_splits option.splits sum.splits)
  then show ?case using Cons.IH [OF _ rest] by auto
qed simp

lemma unprotected_namespaces:
  assumes "unprotected env lg ns"
  obtains i agents where "ke_Agents env (take i lg) = Inr agents" and "ns \<notin> operandOf env (take i lg) ` set agents"
    and "ke_ManagerNamespace env \<noteq> '''' \<Longrightarrow> ns \<noteq> ke_ManagerNamespace env"
proof -
  obtain i ps where ps: "protectedNamespaces env (take i lg) = Inr ps" "ns \<notin> set ps" using assms by (auto simp: unprotected_def)
  then obtain agents where agents: "ke_Agents env (take i lg) = Inr agents"
    and "protected_loop env (take i lg) agents [] (if ke_ManagerNamespace env \<noteq> '''' then [ke_ManagerNamespace env] else []) = Inr ps"
    by (auto simp: protectedNamespaces_def split: sum.splits)
  from protected_loop_set [OF _ this(2)] ps(2) that [OF agents] show thesis by (auto split: if_splits)
qed

fun touched :: "apiEvent \<Rightarrow> string option" where
  "touched (SetReplicas kind ns name n err) = Some ns"
| "touched (EvictedPod pod answer) = Some (po_Namespace pod)"
| "touched (DeletedPod pod answer) = Some (po_Namespace pod)"
| "touched ev = None"

lemma touched_unprotected: "admissible env action lg ev \<Longrightarrow> touched ev = Some ns \<Longrightarrow> unprotected env lg ns"
  by (cases ev) auto

text \<open>C5.  Scaling and draining leave protected namespaces alone: whenever the runner scales a workload, evicts or
  deletes a pod, its namespace is neither the one of the manager nor the operand namespace of any power
  agent listed earlier in the same action; every pod it evicts or deletes is evictable and runs on a node
  the group selects; and a pod is deleted only right after its disruption budget refused the eviction.\<close>

theorem protected_namespaces_untouched:
  assumes "snd (runAction env hasClient action []) = pre @ ev # post" and "touched ev = Some ns"
  shows "(ke_ManagerNamespace env = '''' \<or> ns \<noteq> ke_ManagerNamespace env) \<and>
    (\<exists>i agents. ke_Agents env (take i pre) = Inr agents \<and> (\<forall>a\<in>set agents. operandOf env (take i pre) a \<noteq> ns)) \<and>
    (\<forall>pod answer. ev = EvictedPod pod answer \<or> ev = DeletedPod pod answer \<longrightarrow> evictablePod pod \<and>
       (\<exists>t\<in>set (xg_SelectedTargets (ac_Group action)). xt_Kind t = ''Node'' \<and> xt_Name t = po_NodeName pod)) \<and>
    (\<forall>pod answer. ev = DeletedPod pod answer \<longrightarrow> (\<exists>refusal. last pre = EvictedPod pod (Some refusal) \<and> disruptionBudgetDenied refusal))"
proof -
  note ok = runner_event [OF assms(1)]
  obtain i agents where "ke_Agents env (take i pre) = Inr agents" "ns \<notin> operandOf env (take i pre) ` set agents"
    "ke_ManagerNamespace env \<noteq> '''' \<Longrightarrow> ns \<noteq> ke_ManagerNamespace env"
    using unprotected_namespaces [OF touched_unprotected [OF ok assms(2)]] by metis
  moreover have "evictablePod pod \<and> (\<exists>t\<in>set (xg_SelectedTargets (ac_Group action)). xt_Kind t = ''Node'' \<and> xt_Name t = po_NodeName pod)"
    if "ev = EvictedPod pod answer \<or> ev = DeletedPod pod answer" for pod answer
    using ok that by (auto simp: drainable_def selectedNode_def)
  ultimately show ?thesis using ok by auto
qed

section \<open>Signals\<close>

text \<open>The API server answers a read with the object asked for.\<close>

definition honestReads :: "kubeEnv \<Rightarrow> bool" where
  "honestReads env \<longleftrightarrow> (\<forall>lg ns name s. ke_GetSecret env lg ns name = Inr s \<longrightarrow> se_Namespace s = ns \<and> se_Name s = name)"

text \<open>C4.  No signal is written unchecked: every write of a signal Secret comes right after the live validation of
  exactly the releases whose keys it sets, every validation having passed; it goes to the Secret those
  releases name, puts the signal for the released node under each key and keeps every other key as read.\<close>

theorem signals_validated:
  assumes honest: "honestReads env"
    and "snd (runAction env hasClient action []) = pre @ WroteSecret s err # post"
  shows "\<exists>lg rs. rs \<noteq> [] \<and> set rs \<subseteq> set (xg_NodeReleases (ac_Group action)) \<and> pre = lg @ map (\<lambda>r. Validated r None) rs \<and>
    (\<forall>r\<in>set rs. nr_NodeName r \<noteq> '''' \<and> se_Namespace s = nr_SignalSecretNamespace r \<and> se_Name s = nr_SignalSecretName r \<and>
       (\<exists>content. map_of (se_Data s) (nr_SignalSecretKey r) = Some content \<and> signalContent env action r content)) \<and>
    (\<forall>k. k \<notin> nr_SignalSecretKey ` set rs \<longrightarrow> map_of (se_Data s) k =
       (case ke_GetSecret env lg (se_Namespace s) (se_Name s) of Inl e \<Rightarrow> None | Inr old \<Rightarrow> map_of (se_Data old) k))"
proof -
  obtain lg rs s0 ns name where w: "rs \<noteq> []" "set rs \<subseteq> set (xg_NodeReleases (ac_Group action))" "pre = lg @ map (\<lambda>r. Validated r None) rs"
    "secretBase env lg ns name s0" "se_Namespace s = se_Namespace s0" "se_Name s = se_Name s0"
    "\<forall>r\<in>set rs. nr_NodeName r \<noteq> '''' \<and> nr_SignalSecretNamespace r = ns \<and> nr_SignalSecretName r = name \<and>
       (\<exists>content. map_of (se_Data s) (nr_SignalSecretKey r) = Some content \<and> signalContent env action r content)"
    "\<forall>k. k \<notin> nr_SignalSecretKey ` set rs \<longrightarrow> map_of (se_Data s) k = map_of (se_Data s0) k"
    using runner_event [OF assms(2)] by (auto simp: signalWrite_def)
  have names: "se_Namespace s0 = ns" "se_Name s0 = name" and old: "map_of (se_Data s0) k = (case ke_GetSecret env lg ns name of Inl e \<Rightarrow> None | Inr old \<Rightarrow> map_of (se_Data old) k)" for k
    using w(4) honest by (auto simp: secretBase_def honestReads_def split: sum.splits)
  show ?thesis using w names old by (intro exI [of _ lg] exI [of _ rs]) auto
qed

text \<open>A result confirmed by the API server: some Secret was written successfully that holds the signal for its node.\<close>

definition resultKey :: "NodeSignalResult \<Rightarrow> string \<times> string" where
  "resultKey x = (ns_NodeName x, ns_SignalSecretKey x)"

definition releaseKey :: "NodeRelease \<Rightarrow> string \<times> string" where
  "releaseKey r = (nr_NodeName r, nr_SignalSecretKey r)"






lemma pending_unpublished [simp]: "\<not> ns_Published (pendingResult r)" "resultKey (pendingResult r) = releaseKey r"
    "resultKey (x\<lparr>ns_Published := p\<rparr>) = resultKey x" "resultKey (x\<lparr>ns_IssuedAt := t\<rparr>) = resultKey x" "resultKey (x\<lparr>ns_SkipSync := b\<rparr>) = resultKey x"
    "resultKey (x\<lparr>ns_IssuedAt := t, ns_SkipSync := b, ns_Published := p\<rparr>) = resultKey x"
  by (simp_all add: pendingResult_def resultKey_def releaseKey_def)

lemma terminal_unpublished [simp]: "\<not> ns_Published (terminalResult env action r)" "resultKey (terminalResult env action r) = releaseKey r"
  by (simp_all add: terminalResult_def pendingResult_def resultKey_def releaseKey_def)




section \<open>Hooks\<close>


section \<open>From the operator to the node\<close>





section \<open>Instances\<close>

definition sampleLibrary :: hookLibrary where
  "sampleLibrary = \<lparr>hl_ParseURL = (\<lambda>raw. Inr \<lparr>hu_Scheme = ''https'', hu_User = None, hu_Hostname = ''hooks.lan'', hu_Port = '''', hu_Path = ''/ups'', hu_Rest = ''''\<rparr>),
     hl_URLString = hu_Hostname, hl_EqualFold = (\<lambda>a b. a = b), hl_MarshalEvent = (\<lambda>_. Inr ''{}''), hl_UnmarshalObject = (\<lambda>_. Inl ''not an object''),
     hl_SetGroupVersionKind = (\<lambda>_ _ obj. obj), hl_GroupVersionKind = (\<lambda>_. ''''), hl_Text = (\<lambda>_ _. ''''), hl_GetMap = (\<lambda>_ _. []), hl_SetMap = (\<lambda>_ _ obj. obj)\<rparr>"

definition sampleRehearsal :: ShutdownHookInvocationSpec where
  "sampleRehearsal = \<lparr>hi_Transport = ''HTTP'', hi_HTTP = Some \<lparr>hh_URL = ''https://hooks.lan/ups'', hh_Method = '''', hh_Headers = [], hh_SecretHeaders = [],
     hh_CloudEventType = '''', hh_CloudEventSource = '''', hh_Data = []\<rparr>, hi_Object = ''''\<rparr>"

definition sampleHook :: ShutdownHook where
  "sampleHook = \<lparr>hk_Namespace = ''ops'', hk_Name = ''page'', hk_Invocation = sampleRehearsal, hk_DryRun = Some sampleRehearsal\<rparr>"

definition sampleRefusal :: apiError where
  "sampleRefusal = \<lparr>ae_Message = ''budget'', ae_NotFound = False, ae_TooManyRequests = True, ae_Causes = Some [''DisruptionBudget'']\<rparr>"

definition samplePod :: Pod where
  "samplePod = \<lparr>po_Namespace = ''shop'', po_Name = ''web-0'', po_NodeName = ''n1'', po_Phase = ''Running'', po_Mirror = '''', po_Owners = []\<rparr>"

definition sampleEnv :: kubeEnv where
  "sampleEnv = \<lparr>ke_Acquire = (\<lambda>_. None), ke_ValidateNodeRelease = Some (\<lambda>_ _. None),
     ke_GetSecret = (\<lambda>_ ns name. Inr \<lparr>se_Namespace = ns, se_Name = name, se_Labels = [], se_Type = ''Opaque'', se_Data = [(''n2.json'', ''old'')]\<rparr>),
     ke_WriteSecret = (\<lambda>_ _. None), ke_Marshal = (\<lambda>p. Inr (sg_NodeName p)), ke_MarshalIndent = (\<lambda>p. Inr (sg_NodeName p)), ke_SignalWritten = False, ke_Now = 0,
     ke_Agents = (\<lambda>_. Inr [\<lparr>pa_Namespace = '''', pa_ClusterRef = Some ''home''\<rparr>]),
     ke_Cluster = (\<lambda>_ name. Inr \<lparr>pc_Name = name, pc_OperandNamespace = Some ''power'',
       pc_AllowedEndpoints = [\<lparr>he_Scheme = ''https'', he_Host = ''hooks.lan'', he_Port = Some 443, he_PathPrefix = ''/ups''\<rparr>]\<rparr>),
     ke_Replicas = (\<lambda>_ _ _ _. Inr (Some 1)), ke_SetReplicas = (\<lambda>_ _ _ _ _. None), ke_Unschedulable = (\<lambda>_ _. Inr False), ke_Cordon = (\<lambda>_ _. None),
     ke_Pods = (\<lambda>_. Inr [samplePod\<lparr>po_Namespace := ''power''\<rparr>, samplePod]), ke_Evict = (\<lambda>_ _. Some sampleRefusal), ke_Delete = (\<lambda>_ _. None),
     ke_FlowCluster = (\<lambda>_ _. Inr (Some ''home'')), ke_Hook = (\<lambda>_ _ _. Inr sampleHook), ke_NewRequest = (\<lambda>_ _. None), ke_Deliver = (\<lambda>_ _. Inr (204, '''')),
     ke_CreateObject = (\<lambda>_ _. None), ke_Library = sampleLibrary, ke_Recorder = True, ke_ManagerNamespace = ''nut-operator''\<rparr>"

definition sampleRelease :: NodeRelease where
  "sampleRelease = \<lparr>nr_TerminalHandoff = False, nr_ControlPlaneNodes = [], nr_QuorumMembers = [], nr_AgentUID = '''', nr_AgentGeneration = 0, nr_ActuatorPolicy = '''',
     nr_NodeName = ''n1'', nr_NodePowerAgent = ''agent'', nr_SignalPath = '''', nr_SignalSecretKey = ''n1.json'', nr_SignalSecretName = ''signals'', nr_SignalSecretNamespace = ''power'',
     nr_AgentReady = True, nr_ReadinessReason = '''', nr_ReadinessMessage = '''', nr_PodName = '''', nr_LastHeartbeatTime = None, nr_TelemetryFresh = True, nr_TelemetryStaleReason = '''',
     nr_Cleared = True, nr_ClearanceReason = '''', nr_BlockingWorkloads = []\<rparr>"

definition sampleAction :: "string \<Rightarrow> bool \<Rightarrow> Action" where
  "sampleAction act dry = \<lparr>ac_ExecutionID = ''e1'', ac_ShutdownFlow = ''flow'', ac_TriggerReason = '''', ac_PlanConfigHash = ''h'', ac_SelectedUPSDevices = [], ac_WaveIndex = 0,
     ac_Group = \<lparr>xg_Name = ''g'', xg_Action = act, xg_Params = [], xg_HookRef = Some \<lparr>xh_Namespace = ''ops'', xh_Name = ''page''\<rparr>,
       xg_SelectedTargets = [\<lparr>xt_APIVersion = ''v1'', xt_Kind = ''Node'', xt_Namespace = '''', xt_Name = ''n1''\<rparr>], xg_NodeReleases = [sampleRelease],
       xg_Details = [], xg_Timeout = 0, xg_WaitDuration = 0\<rparr>,
     ac_DryRun = dry, ac_PowerObservation = \<lparr>ap_OnBattery = True, ap_LowBattery = False, ap_RuntimeSeconds = None, ap_RuntimeTrusted = False\<rparr>, ac_TierOverrunning = False\<rparr>"

lemma sample_drain: "snd (runAction sampleEnv True (sampleAction ''DrainNodes'' False) []) = [Cordoned ''n1'' None, EvictedPod samplePod (Some sampleRefusal)] @ DeletedPod samplePod None # []"
  by (simp add: runAction_def ActionWait_def drainNodes_def sampleAction_def sampleEnv_def selectedNode_def protectedNamespaces_def
    nodePowerAgentOperandNamespace_def Let_def evictPodsOnNode_def evictablePod_def samplePod_def sampleRefusal_def disruptionBudgetDenied_def succeeded_def)

theorem protected_namespaces_untouched_witness:
  "snd (runAction sampleEnv True (sampleAction ''DrainNodes'' False) []) = [Cordoned ''n1'' None, EvictedPod samplePod (Some sampleRefusal)] @ DeletedPod samplePod None # [] \<and>
   touched (DeletedPod samplePod None) = Some ''shop'' \<and> disruptionBudgetDenied sampleRefusal \<and> ke_ManagerNamespace sampleEnv \<noteq> ''shop''"
  using protected_namespaces_untouched [OF sample_drain, of "''shop''"] sample_drain by (auto simp: samplePod_def sampleEnv_def)

definition sampleSecret :: Secret where
  "sampleSecret = \<lparr>se_Namespace = ''power'', se_Name = ''signals'', se_Labels = putAll (signalSecretLabels (sampleAction ActionAgentShutdown False) sampleRelease) [],
     se_Type = ''Opaque'', se_Data = gm_put ''n1.json'' (''n1'' @ [CHR 0x0A]) [(''n2.json'', ''old'')]\<rparr>"

lemma sample_handoff: "snd (runAction sampleEnv True (sampleAction ActionAgentShutdown False) []) = [Validated sampleRelease None] @ WroteSecret sampleSecret None # []"
  by (simp add: runAction_def ActionWait_def ActionRunHook_def ActionAgentShutdown_def agentShutdownHandoff_def isTerminalHandoff_def sampleAction_def sampleEnv_def sampleRelease_def
    Let_def upsertSignalSecret_def validateAndWrite_def signalPayload_def succeeded_def signalWritten_def sampleSecret_def)

lemma sample_honest: "honestReads sampleEnv"
  by (auto simp: honestReads_def sampleEnv_def)

theorem signals_validated_witness:
  "snd (runAction sampleEnv True (sampleAction ActionAgentShutdown False) []) = [Validated sampleRelease None] @ WroteSecret sampleSecret None # [] \<and>
   (\<exists>lg rs. rs \<noteq> [] \<and> [Validated sampleRelease None] = lg @ map (\<lambda>r. Validated r None) rs)"
proof -
  from signals_validated [OF sample_honest sample_handoff] obtain lg rs where "rs \<noteq> []" "[Validated sampleRelease None] = lg @ map (\<lambda>r. Validated r None) rs"
    by (elim exE conjE)
  then show ?thesis using sample_handoff by blast
qed






section \<open>Labels and sorted lists\<close>








lemma insertBack_rev: "insertBack (rev xs) v = rev (dropWhile (\<lambda>x. v < x) xs) @ v # rev (takeWhile (\<lambda>x. v < x) xs)"
proof -
  have "take (length xs - length (takeWhile (\<lambda>x. v < x) xs)) (rev xs) = rev (dropWhile (\<lambda>x. v < x) xs)"
    using length_takeWhile_le [of "\<lambda>x. v < x" xs] by (simp add: take_rev dropWhile_eq_drop)
  then show ?thesis by (simp add: insertBack_def Let_def)
qed

lemma insertBack_sorted:
  assumes "sorted placed"
  shows "sorted (insertBack placed v)" and "mset (insertBack placed v) = add_mset v (mset placed)"
proof -
  obtain xs where placed: "placed = rev xs" by (metis rev_rev_ident)
  let ?tw = "takeWhile (\<lambda>x. v < x) xs" and ?dw = "dropWhile (\<lambda>x. v < x) xs"
  have split: "rev xs = rev ?dw @ rev ?tw" by (metis rev_append takeWhile_dropWhile_id)
  have parts: "sorted (rev ?dw)" "sorted (rev ?tw)" using assms unfolding placed split by (simp_all only: sorted_append)
  have low: "x \<le> v" if x: "x \<in> set ?dw" for x
  proof -
    obtain y ys where dw: "?dw = y # ys" using x by (cases ?dw) (simp, blast)
    have "\<not> v < y" using hd_dropWhile [of "\<lambda>x. v < x" xs] unfolding dw by simp
    moreover have "x \<le> y" using parts(1) x unfolding dw by (auto simp: sorted_append)
    ultimately show ?thesis by simp
  qed
  have high: "v \<le> x" if "x \<in> set ?tw" for x using set_takeWhileD [OF that] by (auto intro: less_imp_le)
  show "sorted (insertBack placed v)"
    unfolding placed insertBack_rev using parts low high by (fastforce simp: sorted_append)
  have "mset xs = mset ?tw + mset ?dw" by (metis mset_append takeWhile_dropWhile_id)
  then show "mset (insertBack placed v) = add_mset v (mset placed)" unfolding placed insertBack_rev by simp
qed

lemma sortStrings_sort: "sortStrings vs = sort vs"
proof -
  have "sorted placed \<Longrightarrow> sorted (foldl insertBack placed vs) \<and> mset (foldl insertBack placed vs) = mset placed + mset vs" for placed
    by (induction vs arbitrary: placed) (simp_all add: insertBack_sorted)
  from this [of "[]"] show ?thesis unfolding sortStrings_def by (intro properties_for_sort [symmetric]) simp_all
qed

lemma dedupe_remdups_adj: "dedupeStrings vs = remdups_adj vs"
proof -
  have "remdups_adj (v # vs) = v # dedupe_loop (Some v) vs" for v vs by (induction vs arbitrary: v) simp_all
  then show ?thesis by (cases vs) (simp_all add: dedupeStrings_def)
qed

text \<open>The lists the runner records are sorted without duplicates.\<close>

lemma recorded_sortedUnique: "dedupeStrings (sortStrings vs) = sortedUnique vs"
  by (simp add: dedupe_remdups_adj sortStrings_sort sortedUnique_def)

end
