(* ===== verification/Spec2Isabelle.thy ===== *)
theory Spec2Isabelle
  imports Inventory PlannerCompile Adaptive TriggerEval ExecutorProperties ActuatorSafety KubeSafety
begin

text \<open>
  A verification library for the NUT operator, a Kubernetes operator that shuts a cluster down in
  order while it runs on battery.

  \<^bold>\<open>The program.\<close>  A power inventory (UPS devices, PDUs, nodes, network devices and the \<open>feeds\<close>
  and \<open>carries\<close> edges between them) is compiled into power domains by
  \<open>src/internal/inventory\<close>.  A \<open>ShutdownFlow\<close> names triggers and shutdown groups or linear
  steps; \<open>src/internal/planner\<close> turns it, with the resolved inventory, node membership, device
  capabilities, telemetry and execution history, into a plan: a graph of ordering edges, waves of
  groups, advisory startup waves, estimates, withheld nodes and hashes.  Readings of the UPS devices
  are normalized by \<open>src/internal/telemetry\<close>; \<open>src/internal/trigger\<close> decides on them whether a
  flow fires.  \<open>src/internal/executor\<close> then carries the plan out wave by wave through injected
  dependencies (action runner, approval checker, evidence refresher, target resolver, audit writer),
  with the timings \<open>src/internal/adaptive\<close> derives from the remaining battery runtime.  The action
  runner, \<open>src/internal/kubeactions\<close>, scales workloads, drains nodes, calls hooks and publishes a signal
  for each released node in a Secret; \<open>src/cmd/node-actuator\<close> runs on every node, reads its signal
  from the projected Secret and halts the machine.

  \<^bold>\<open>Theories.\<close>
  \<^item> \<open>Prelude\<close>: Go strings, 64-bit durations, diagnostics, sorted unique lists, and the shared
    lemmas and rule collections.  \<open>GoMap\<close>: Go maps that are ranged over, as association lists
    sorted by key.  \<open>Digraph\<close>: reachability and cycles over successor lists, a locale that every
    graph search of the program interprets.  \<open>GoTime\<close>: \<open>time.ParseDuration\<close>, with the
    rounding of its floating point fraction.  \<open>Layering\<close>: the abstract specification of wave
    scheduling, repeatedly removing the sources of a finite relation.
  \<^item> \<open>Inventory\<close>: \<open>src/internal/inventory/compiler.go\<close> (\<open>normalizeSnapshot\<close>,
    \<open>validateSnapshot\<close>, \<open>feedCycleDiagnostics\<close>, \<open>derivePowerDomains\<close>, \<open>Compile\<close>).
  \<^item> \<open>PlannerTypes\<close>: the structs of \<open>src/internal/planner/types.go\<close>.
  \<^item> \<open>PlannerGraph\<close>: edge identifiers, sorting, deduplication, explanations and diagrams of
    \<open>artifacts.go\<close>.
  \<^item> \<open>PlannerTiers\<close>: effective shutdown tiers and their edges (\<open>tiers.go\<close>), tier inversions and
    withheld nodes (\<open>nodes.go\<close>).
  \<^item> \<open>PlannerComm\<close>: the communication index, carrier paths, consumers, service paths, budget and
    diagnostics (\<open>communication.go\<close>, \<open>communication_index.go\<close>, \<open>communication_services.go\<close>).
  \<^item> \<open>PlannerCollect\<close>: declared and node-clearance edges and the whole graph of a flow
    (\<open>artifacts.go\<close>, \<open>nodes.go\<close>).
  \<^item> \<open>PlannerSchedule\<close>: wave descent, linear steps, startup waves, declared durations and history
    estimates (\<open>compiler_scheduling.go\<close>, \<open>wait.go\<close>, \<open>history.go\<close>).
  \<^item> \<open>CapabilityTriggers\<close>: trigger classes and the telemetry they need
    (\<open>src/internal/capability\<close>).
  \<^item> \<open>PlannerValidate\<close>: structural validation, trigger validation and the control-plane check
    (\<open>compiler_validation.go\<close>, \<open>triggers.go\<close>, \<open>control_plane.go\<close>).
  \<^item> \<open>PlannerScope\<close>: reduction of a flow to the affected power domains (\<open>scope.go\<close>).
  \<^item> \<open>PlannerCompile\<close>: normalization, hashing and \<open>Compile\<close> itself (\<open>compiler.go\<close>,
    \<open>compiler_normalization.go\<close>, \<open>compiler_hashing.go\<close>).
  \<^item> \<open>GoFloat\<close>, \<open>GoStrings\<close>, \<open>GoStrconv\<close>: float64 with rounding to nearest even, infinities and not
    a number; string functions of the standard library; \<open>strconv.ParseInt\<close> and \<open>ParseFloat\<close>.
  \<^item> \<open>Adaptive\<close>: parameters, tier pointer, timing modes, runtime budget and scaled durations
    (\<open>src/internal/adaptive\<close>).  \<open>Telemetry\<close>: normalization of NUT variables and aliases
    (\<open>src/internal/telemetry/normalize.go\<close>).  \<open>TriggerEval\<close>: selection of devices, conditions and
    hold times (\<open>src/internal/trigger/evaluator.go\<close>).
  \<^item> \<open>ExecutorTypes\<close>: the structs of \<open>src/internal/executor\<close> and the audit records it writes.
    \<open>Interaction\<close>: its effects; a program is a tree of calls, a run logs every call in a history,
    the dependencies answer as functions of the history and the scheduler may advance the goroutines
    in any way before every call.  \<open>Executor\<close>: every function of \<open>executor.go\<close>, \<open>adaptive.go\<close>,
    \<open>wave_targets.go\<close> and \<open>release_evidence.go\<close> (\<open>Execute\<close>, \<open>runWave\<close>, \<open>executeGroup\<close>,
    \<open>recordNodeReleases\<close> and their parts).
  \<^item> \<open>InteractionLogic\<close>: weakest preconditions of programs and the locale \<open>guarded\<close>, whose soundness
    theorem carries guards of the main thread and of the goroutines to every history.
    \<open>ExecutorSteps\<close>: groups and waves.  \<open>ExecutorSafety\<close>: the wave loop and the interpretation of
    \<open>guarded\<close> on the executor.  \<open>ExecutorProperties\<close>: the properties of whole executions.
  \<^item> \<open>GoInstant\<close>: \<open>time.Parse\<close> of RFC 3339 instants and its inverse, the civil calendar.
    \<open>NodeSignal\<close>: signal files, their inspection and atomic replacement
    (\<open>src/internal/nodeagent/signal.go\<close>, \<open>src/cmd/power-signal-writer/main.go\<close>).  \<open>Actuator\<close>: the
    process on every node that halts it (\<open>src/cmd/node-actuator\<close>).  \<open>ActuatorSafety\<close>: when it halts.
  \<^item> \<open>KubeActions\<close>: the action runner (\<open>runAction\<close> and every action of
    \<open>src/internal/kubeactions/runner.go\<close> and \<open>terminal_handoff.go\<close>).  Its requests are logged with
    their answers, and the API server and HTTP endpoints answer as functions of the log.
    \<open>KubeSafety\<close>: the locale \<open>runner_guard\<close>, which gives the circumstances of each kind of request,
    its interpretation on the runner, and the properties that follow.

  \<^bold>\<open>What is shown.\<close>  The inventory compiler accepts exactly the well-formed snapshots, its domains are
  exactly what the labelled UPS roots feed, and it does not depend on listing order.  Structural and
  trigger validation are characterised exactly; the cycle search agrees with acyclicity.  Wave
  descent always ends, refines abstract layering, and adds up durations at 64 bits.  Compilation
  returns on every input; an accepted plan contains every group in scope once and respects declared
  dependencies, tiers, node clearance and communication carriers; the control plane keeps a majority
  until the terminal handoff; scoping omits only what no outage can reach; identity does not depend
  on telemetry, history or listing order; feasibility is never optimistic.  A trigger with a hold time
  fires exactly when its condition has held continuously.  Adaptation only shortens durations, the
  tier pointer stays in range and the timing mode relaxes only after sustained improvement.

  For executions, over every behaviour of the dependencies, cancellation and interleaving: outside an
  enforced and approved run only hooks are called and nothing is recorded as released; an approval is
  asked for every wave and a refusal sticks; an agent is shut down only with fresh, cleared evidence;
  a barrier wave separates the waves before it from those after; a failure stops what follows; a
  reported completion means that every group was carried out; released nodes had their signal
  published; the audit row is closed.

  For the runner, over every behaviour of the API server: a signal is written only right after its
  release was validated, and reported as published only if the write was accepted; workloads in the
  namespaces of the operator and its agents are never scaled, evicted or deleted; hooks reach allowed
  endpoints only; labels are always well formed.  For the actuator, over every sequence of passes and
  restarts: it halts only in mode Actuate for a fresh signal that names its node and flow, and at most
  once for each signal while the state file holds.  Together: a published signal is accepted by
  exactly the released node, for as long as its time to live.

  Four theorems exhibit defects: names that differ only in characters the edge identifier merges
  lose a declared ordering; a runtime beyond 64 bits is read as a negative number; an unreadable power
  state leaves the audit row of the execution in phase Running; the actuator forgets the lexically
  smallest signal keys first, which need not be the oldest.

  \<^bold>\<open>Conventions.\<close>  Strings are byte lists.  Go maps that are only looked up are sets or maps; maps that
  are ranged over are sorted association lists, because every such loop of the program is
  insensitive to the order.  A nil and an empty slice are not distinguished except where the code
  tests for nil.  Durations are integers wrapped to 64 bits, indices to 32.  Errors are values of a
  sum type; diagnostics are lists with a severity.  Points in time are nanoseconds since 1970 and do
  not wrap.  A Go context is done as soon as its parent is, its deadline has passed or it was
  cancelled, and then stays done with the same error.

  \<^bold>\<open>Bounds and fuel.\<close>  Depth-first searches carry fuel equal to one more than the number of vertices and
  are shown never to exhaust it.  Breadth-first searches and the growth of the retained set are
  total functions with a measure.  The wave loop of the planner is a partial function whose result is
  shown to be defined for every graph that passes validation.  \<open>descendSteps\<close> carries the distance to
  its target as fuel, and more changes nothing.  Programs are finite trees, so every execution
  returns; a dependency that never answers is outside the model.

  \<^bold>\<open>Not modelled.\<close>  JSON encoding and SHA-256, which the compilers only use to derive identities, are
  parameters; so are the JSON form of signals and of the actuator state, URL parsing and the accessors
  of unstructured Kubernetes objects.  The dependencies of the executor are parameters of a run: the
  runner is modelled on its own and not composed with it.  The conversion of API objects into planner
  and executor inputs (\<open>src/internal/resolver\<close>, \<open>src/internal/shutdownflow\<close>, the execution part of
  \<open>src/internal/controller\<close>), admission validation, inventory resources and the matching of
  capability profiles are left out of this library.  Reconcilers, webhooks, the audit store, the NUT
  client, process supervision, NetBox and the other command line tools perform I/O against systems
  outside the repository.
\<close>

end
